(* ===== verification/Prelude.thy ===== *)
theory Prelude
  imports Main "HOL-Library.FSet" "HOL-Library.Finite_Map" "HOL-Library.Code_Target_Nat"
begin

text \<open>
  Shared vocabulary of the development: the results of fallible Rust code, the
  state-and-error sequencing of \<^verbatim>\<open>&mut self\<close> methods, plain integer arithmetic
  with overflow detection, and the bounded ordered containers of the pallets.

  \<^item> A value of \<open>('e, 'a) res\<close> is \<^verbatim>\<open>Ok\<close>, \<^verbatim>\<open>Err\<close> or a panic (\<^verbatim>\<open>expect\<close>,
    \<^verbatim>\<open>unwrap\<close>, \<^verbatim>\<open>assert!\<close>, an arithmetic overflow).
  \<^item> A plain operator that overflows panics in a build with overflow checks and wraps
    in a build without (\<^verbatim>\<open>Cargo.toml\<close> switches them off in the \<^verbatim>\<open>ci\<close> profile, \<^verbatim>\<open>--release\<close>
    has them off). The market pallet and the reader of CAR indexes, where a caller
    can reach such an overflow, take the build as a parameter (\<open>add_in\<close>, \<open>sub_in\<close>,
    \<open>mul_in\<close>). The other components use \<open>add_u\<close>, \<open>sub_u\<close> and \<open>mul_u\<close>, where \<^verbatim>\<open>Panic\<close> means
    that the run leaves the model: it panics or goes on with a wrapped number. Their
    runs that end in \<^verbatim>\<open>Ok\<close> or \<^verbatim>\<open>Err\<close> have met no overflow and are the same in every build.
  \<^item> A method taking \<^verbatim>\<open>&mut self\<close> is a function from the old state to its result
    and the new state. The new state is there on an error too, because a Rust
    method that returns \<^verbatim>\<open>Err\<close> keeps the mutations it made before.
  \<^item> \<^verbatim>\<open>BTreeSet\<close> and \<^verbatim>\<open>BTreeMap\<close> are finite sets and finite maps; iteration is in
    ascending key order (\<open>sorted_list_of_fset\<close>, \<open>sorted_list_of_fmap\<close>). The bounded
    variants refuse an insertion that would exceed their capacity and are left
    unchanged by it.
\<close>

named_theorems monad_defs \<open>definitions of the sequencing combinators\<close>
named_theorems ok_iff \<open>when a combinator returns Ok\<close>
named_theorems no_panic \<open>methods that cannot panic\<close>
named_theorems frame \<open>what a method leaves as it was, whether it succeeds or not\<close>
named_theorems conv_defs \<open>conversions between option, result and state methods\<close>

section \<open>Results\<close>

datatype ('e, 'a) res = Ok 'a | Err 'e | Panic

primrec res_bind :: "('e, 'a) res \<Rightarrow> ('a \<Rightarrow> ('e, 'b) res) \<Rightarrow> ('e, 'b) res" where
  "res_bind (Ok a) f = f a"
| "res_bind (Err e) f = Err e"
| "res_bind Panic f = Panic"

primrec map_err :: "('e \<Rightarrow> 'f) \<Rightarrow> ('e, 'a) res \<Rightarrow> ('f, 'a) res" where
  "map_err g (Ok a) = Ok a"
| "map_err g (Err e) = Err (g e)"
| "map_err g Panic = Panic"

primrec ok_or :: "'e \<Rightarrow> 'a option \<Rightarrow> ('e, 'a) res" where
  "ok_or e None = Err e"
| "ok_or e (Some a) = Ok a"

primrec expect :: "'a option \<Rightarrow> ('e, 'a) res" where
  "expect None = Panic"
| "expect (Some a) = Ok a"

definition ensure :: "bool \<Rightarrow> 'e \<Rightarrow> ('e, unit) res" where
  "ensure b e = (if b then Ok () else Err e)"

lemma res_bind_Ok_iff [ok_iff]:
  "res_bind r f = Ok b \<longleftrightarrow> (\<exists>a. r = Ok a \<and> f a = Ok b)"
  by (cases r) auto

lemma map_err_Ok_iff [ok_iff]: "map_err g r = Ok a \<longleftrightarrow> r = Ok a"
  by (cases r) auto

lemma ok_or_Ok_iff [ok_iff]: "ok_or e x = Ok a \<longleftrightarrow> x = Some a"
  by (cases x) auto

lemma expect_Ok_iff [ok_iff]: "expect x = Ok a \<longleftrightarrow> x = Some a"
  by (cases x) auto

lemma ensure_Ok_iff [ok_iff]: "ensure b e = Ok u \<longleftrightarrow> b"
  by (simp add: ensure_def)

lemma res_bind_Panic_iff:
  "res_bind r f = Panic \<longleftrightarrow> r = Panic \<or> (\<exists>a. r = Ok a \<and> f a = Panic)"
  by (cases r) auto

section \<open>Methods on a mutable state\<close>

type_synonym ('s, 'e, 'a) stM = "'s \<Rightarrow> ('e, 'a) res \<times> 's"

definition retM :: "'a \<Rightarrow> ('s, 'e, 'a) stM" where
  [monad_defs]: "retM a s = (Ok a, s)"

definition errM :: "'e \<Rightarrow> ('s, 'e, 'a) stM" where
  [monad_defs]: "errM e s = (Err e, s)"

definition bindM :: "('s, 'e, 'a) stM \<Rightarrow> ('a \<Rightarrow> ('s, 'e, 'b) stM) \<Rightarrow> ('s, 'e, 'b) stM" where
  [monad_defs]: "bindM m f s =
    (case m s of
       (Ok a, t) \<Rightarrow> f a t
     | (Err e, t) \<Rightarrow> (Err e, t)
     | (Panic, t) \<Rightarrow> (Panic, t))"

text \<open>A fallible computation that does not touch the state.\<close>

definition liftM :: "('e, 'a) res \<Rightarrow> ('s, 'e, 'a) stM" where
  [monad_defs]: "liftM r s = (r, s)"

definition getM :: "('s \<Rightarrow> 'a) \<Rightarrow> ('s, 'e, 'a) stM" where
  [monad_defs]: "getM f s = (Ok (f s), s)"

definition modifyM :: "('s \<Rightarrow> 's) \<Rightarrow> ('s, 'e, unit) stM" where
  [monad_defs]: "modifyM f s = (Ok (), f s)"

definition ensureM :: "('s \<Rightarrow> bool) \<Rightarrow> 'e \<Rightarrow> ('s, 'e, unit) stM" where
  [monad_defs]: "ensureM b e s = (if b s then Ok () else Err e, s)"

text \<open>Running a method on one field of the state.\<close>

definition zoomM :: "('s \<Rightarrow> 't) \<Rightarrow> ('t \<Rightarrow> 's \<Rightarrow> 's) \<Rightarrow> ('t, 'e, 'a) stM \<Rightarrow> ('s, 'e, 'a) stM" where
  [monad_defs]: "zoomM get put m s = (case m (get s) of (r, t) \<Rightarrow> (r, put t s))"

definition map_errM :: "('e \<Rightarrow> 'f) \<Rightarrow> ('s, 'e, 'a) stM \<Rightarrow> ('s, 'f, 'a) stM" where
  [monad_defs]: "map_errM g m s = (case m s of (r, t) \<Rightarrow> (map_err g r, t))"

text \<open>Running a method on a local variable: the result carries its final value.\<close>

definition on_local :: "('t, 'e, 'a) stM \<Rightarrow> 't \<Rightarrow> ('e, 'a \<times> 't) res" where
  [monad_defs]: "on_local m t = (case m t of (r, u) \<Rightarrow> res_bind r (\<lambda>a. Ok (a, u)))"

text \<open>A \<^verbatim>\<open>for\<close> loop whose body may fail.\<close>

fun forM :: "'x list \<Rightarrow> ('x \<Rightarrow> ('s, 'e, unit) stM) \<Rightarrow> ('s, 'e, unit) stM" where
  "forM [] f = retM ()"
| "forM (x # xs) f = bindM (f x) (\<lambda>_. forM xs f)"

text \<open>A loop with an accumulator.\<close>

fun foldM :: "('x \<Rightarrow> 'a \<Rightarrow> ('s, 'e, 'a) stM) \<Rightarrow> 'x list \<Rightarrow> 'a \<Rightarrow> ('s, 'e, 'a) stM" where
  "foldM f [] a = retM a"
| "foldM f (x # xs) a = bindM (f x a) (foldM f xs)"

text \<open>
  Running a method whose error is dropped (\<^verbatim>\<open>let Ok(..) = .. else\<close>): what it changed
  before it failed stays.
\<close>

definition attemptM :: "('s, 'e, 'a) stM \<Rightarrow> ('s, 'f, 'a option) stM" where
  [monad_defs]: "attemptM m s =
    (case m s of
       (Ok a, t) \<Rightarrow> (Ok (Some a), t)
     | (Err e, t) \<Rightarrow> (Ok None, t)
     | (Panic, t) \<Rightarrow> (Panic, t))"

lemma retM_Ok_iff [ok_iff]: "retM a s = (Ok b, t) \<longleftrightarrow> a = b \<and> s = t"
  by (auto simp: retM_def)

lemma errM_Ok_iff [ok_iff]: "errM e s = (Ok b, t) \<longleftrightarrow> False"
  by (auto simp: errM_def)

lemma bindM_Ok_iff [ok_iff]:
  "bindM m f s = (Ok b, t) \<longleftrightarrow> (\<exists>a u. m s = (Ok a, u) \<and> f a u = (Ok b, t))"
  by (auto simp: bindM_def split: prod.splits res.splits)

lemma liftM_Ok_iff [ok_iff]: "liftM r s = (Ok a, t) \<longleftrightarrow> r = Ok a \<and> s = t"
  by (auto simp: liftM_def)

lemma getM_Ok_iff [ok_iff]: "getM f s = (Ok a, t) \<longleftrightarrow> a = f s \<and> s = t"
  by (auto simp: getM_def)

lemma modifyM_Ok_iff [ok_iff]: "modifyM f s = (Ok u, t) \<longleftrightarrow> t = f s"
  by (auto simp: modifyM_def)

lemma ensureM_Ok_iff [ok_iff]: "ensureM b e s = (Ok u, t) \<longleftrightarrow> b s \<and> s = t"
  by (auto simp: ensureM_def)

lemma zoomM_Ok_iff [ok_iff]:
  "zoomM get put m s = (Ok a, t) \<longleftrightarrow> (\<exists>u. m (get s) = (Ok a, u) \<and> t = put u s)"
  by (auto simp: zoomM_def split: prod.splits)

lemma map_errM_Ok_iff [ok_iff]: "map_errM g m s = (Ok a, t) \<longleftrightarrow> m s = (Ok a, t)"
  by (auto simp: map_errM_def ok_iff split: prod.splits)

lemma on_local_Ok_iff [ok_iff]: "on_local m t = Ok (a, u) \<longleftrightarrow> m t = (Ok a, u)"
  by (auto simp: on_local_def ok_iff split: prod.splits)

text \<open>A case distinction that selects the method to run.\<close>

lemma case_prod_method_Ok_iff [ok_iff]:
  "(case p of (a, b) \<Rightarrow> f a b) s = (Ok x, t) \<longleftrightarrow> (\<exists>a b. p = (a, b) \<and> f a b s = (Ok x, t))"
  by (cases p) simp

lemma case_prod_res_Ok_iff [ok_iff]:
  "(case p of (a, b) \<Rightarrow> f a b) = Ok x \<longleftrightarrow> (\<exists>a b. p = (a, b) \<and> f a b = Ok x)"
  by (cases p) simp

lemma case_option_method_Ok_iff [ok_iff]:
  "(case y of None \<Rightarrow> f | Some a \<Rightarrow> g a) s = (Ok x, t) \<longleftrightarrow>
   (y = None \<and> f s = (Ok x, t)) \<or> (\<exists>a. y = Some a \<and> g a s = (Ok x, t))"
  by (cases y) simp_all

lemma if_method_Ok_iff [ok_iff]:
  "(if c then f else g) s = (Ok x, t) \<longleftrightarrow> (c \<and> f s = (Ok x, t)) \<or> (\<not> c \<and> g s = (Ok x, t))"
  by simp

lemma forM_append: "forM (xs @ ys) f = bindM (forM xs f) (\<lambda>_. forM ys f)"
  by (induction xs) (auto simp: monad_defs fun_eq_iff split: prod.splits res.splits)

text \<open>The loop rule: what every successful iteration keeps, the loop keeps.\<close>

lemma forM_invariant:
  assumes "forM xs f s = (Ok (), t)" and "I s"
    and "\<And>x s t. x \<in> set xs \<Longrightarrow> I s \<Longrightarrow> f x s = (Ok (), t) \<Longrightarrow> I t"
  shows "I t"
  using assms
proof (induction xs arbitrary: s)
  case Nil
  then show ?case by (simp add: ok_iff)
next
  case (Cons x xs)
  from Cons.prems(1) obtain u where u: "f x s = (Ok (), u)" "forM xs f u = (Ok (), t)"
    by (auto simp: ok_iff)
  then have "I u" using Cons.prems(2,3) by auto
  with u(2) show ?case using Cons.IH Cons.prems(3) by auto
qed

lemma foldM_invariant:
  assumes "foldM f xs a s = (Ok b, t)" and "I a s"
    and "\<And>x a s b t. x \<in> set xs \<Longrightarrow> I a s \<Longrightarrow> f x a s = (Ok b, t) \<Longrightarrow> I b t"
  shows "I b t"
  using assms
proof (induction xs arbitrary: a s)
  case Nil
  then show ?case by (simp add: ok_iff)
next
  case (Cons x xs)
  from Cons.prems(1) obtain c u where u: "f x a s = (Ok c, u)" "foldM f xs c u = (Ok b, t)"
    by (auto simp: ok_iff)
  from Cons.prems(3) [OF _ Cons.prems(2) u(1)] have "I c u" by simp
  then show ?case using Cons.IH [OF u(2)] Cons.prems(3) by (meson list.set_intros(2))
qed

text \<open>The same for a loop that may stop with an error: what it did until then is kept.\<close>

lemma forM_invariant_returns:
  assumes "forM xs f s = (r, t)" "r \<noteq> Panic" and "I s"
    and "\<And>x s r t. x \<in> set xs \<Longrightarrow> I s \<Longrightarrow> f x s = (r, t) \<Longrightarrow> r \<noteq> Panic \<Longrightarrow> I t"
  shows "I t"
  using assms
proof (induction xs arbitrary: s)
  case (Cons x xs)
  obtain r1 u where u: "f x s = (r1, u)" by fastforce
  from Cons.prems u have "r1 \<noteq> Panic" by (auto simp: bindM_def)
  with Cons.prems(3,4) u have "I u" by auto
  then show ?case using Cons.IH [of u] Cons.prems u by (cases r1) (auto simp: bindM_def)
qed (simp add: retM_def)

text \<open>A loop whose every iteration succeeds and keeps the invariant succeeds.\<close>

lemma foldM_total:
  assumes "I a s" and "\<And>x a s. x \<in> set xs \<Longrightarrow> I a s \<Longrightarrow> \<exists>b t. f x a s = (Ok b, t) \<and> I b t"
  shows "\<exists>b t. foldM f xs a s = (Ok b, t) \<and> I b t"
  using assms
proof (induction xs arbitrary: a s)
  case Nil
  then show ?case by (simp add: retM_def)
next
  case (Cons x xs)
  obtain b u where u: "f x a s = (Ok b, u)" "I b u"
    using Cons.prems(2) [of x, OF _ Cons.prems(1)] by auto
  have "\<exists>b' t. foldM f xs b u = (Ok b', t) \<and> I b' t"
    by (rule Cons.IH [OF u(2) Cons.prems(2)]) simp_all
  then show ?case using u(1) by (simp add: bindM_def)
qed

text \<open>A loop whose body never fails is a fold.\<close>

lemma forM_fold:
  assumes "\<And>x s. x \<in> set xs \<Longrightarrow> f x s = (Ok (), g x s)"
  shows "forM xs f s = (Ok (), fold g xs s)"
  using assms by (induction xs arbitrary: s) (simp_all add: monad_defs)

text \<open>A run is determined by its result and its final state.\<close>

lemma run_eqI: "fst x = r \<Longrightarrow> x = (r, snd x)"
  by (cases x) simp

section \<open>Machine integers\<close>

text \<open>
  Plain \<^verbatim>\<open>+\<close>, \<^verbatim>\<open>-\<close> and \<^verbatim>\<open>*\<close> on an unsigned integer panic when the result does not fit;
  the checked variants return \<^verbatim>\<open>None\<close>. The first argument is the number of values of
  the type (\<open>2 ^ 64\<close> for \<^verbatim>\<open>u64\<close>).
\<close>

definition u64_bound :: nat where "u64_bound = 2 ^ 64"
definition u128_bound :: nat where "u128_bound = 2 ^ 128"

lemma u128_bound_code [code]: "u128_bound = 340282366920938463463374607431768211456"
  by (simp add: u128_bound_def)

lemma u64_bound_code [code]: "u64_bound = 18446744073709551616"
  by (simp add: u64_bound_def)

definition add_u :: "nat \<Rightarrow> nat \<Rightarrow> nat \<Rightarrow> ('e, nat) res" where
  "add_u w a b = (if a + b < w then Ok (a + b) else Panic)"

definition sub_u :: "nat \<Rightarrow> nat \<Rightarrow> ('e, nat) res" where
  "sub_u a b = (if b \<le> a then Ok (a - b) else Panic)"

definition mul_u :: "nat \<Rightarrow> nat \<Rightarrow> nat \<Rightarrow> ('e, nat) res" where
  "mul_u w a b = (if a * b < w then Ok (a * b) else Panic)"

definition div_u :: "nat \<Rightarrow> nat \<Rightarrow> ('e, nat) res" where
  "div_u a b = (if b = 0 then Panic else Ok (a div b))"

text \<open>The operators in a build with or without overflow checks.\<close>

definition add_in :: "bool \<Rightarrow> nat \<Rightarrow> nat \<Rightarrow> nat \<Rightarrow> ('e, nat) res" where
  "add_in overflow_checks w a b =
    (if a + b < w then Ok (a + b) else if overflow_checks then Panic else Ok ((a + b) mod w))"

definition sub_in :: "bool \<Rightarrow> nat \<Rightarrow> nat \<Rightarrow> nat \<Rightarrow> ('e, nat) res" where
  "sub_in overflow_checks w a b =
    (if b \<le> a then Ok (a - b) else if overflow_checks then Panic else Ok ((w + a - b) mod w))"

definition mul_in :: "bool \<Rightarrow> nat \<Rightarrow> nat \<Rightarrow> nat \<Rightarrow> ('e, nat) res" where
  "mul_in overflow_checks w a b =
    (if a * b < w then Ok (a * b) else if overflow_checks then Panic else Ok (a * b mod w))"

lemma add_in_fits [simp]: "a + b < w \<Longrightarrow> add_in c w a b = Ok (a + b)"
  by (simp add: add_in_def)

lemma sub_in_fits [simp]: "b \<le> a \<Longrightarrow> sub_in c w a b = Ok (a - b)"
  by (simp add: sub_in_def)

lemma mul_in_fits [simp]: "a * b < w \<Longrightarrow> mul_in c w a b = Ok (a * b)"
  by (simp add: mul_in_def)

lemma in_checked_build: "add_in True w = add_u w" "sub_in True w = sub_u" "mul_in True w = mul_u w"
  by (simp_all add: fun_eq_iff add_in_def add_u_def sub_in_def sub_u_def mul_in_def mul_u_def)

definition checked_add :: "nat \<Rightarrow> nat \<Rightarrow> nat \<Rightarrow> nat option" where
  "checked_add w a b = (if a + b < w then Some (a + b) else None)"

definition checked_sub :: "nat \<Rightarrow> nat \<Rightarrow> nat option" where
  "checked_sub a b = (if b \<le> a then Some (a - b) else None)"

lemma add_u_Ok_iff [ok_iff]: "add_u w a b = Ok c \<longleftrightarrow> a + b < w \<and> c = a + b"
  by (auto simp: add_u_def)

lemma sub_u_Ok_iff [ok_iff]: "sub_u a b = Ok c \<longleftrightarrow> b \<le> a \<and> c = a - b"
  by (auto simp: sub_u_def)

lemma mul_u_Ok_iff [ok_iff]: "mul_u w a b = Ok c \<longleftrightarrow> a * b < w \<and> c = a * b"
  by (auto simp: mul_u_def)

lemma div_u_Ok_iff [ok_iff]: "div_u a b = Ok c \<longleftrightarrow> b \<noteq> 0 \<and> c = a div b"
  by (auto simp: div_u_def)

lemma checked_add_Some_iff [ok_iff]: "checked_add w a b = Some c \<longleftrightarrow> a + b < w \<and> c = a + b"
  by (auto simp: checked_add_def)

lemma checked_sub_Some_iff [ok_iff]: "checked_sub a b = Some c \<longleftrightarrow> b \<le> a \<and> c = a - b"
  by (auto simp: checked_sub_def)

section \<open>Bounded ordered containers\<close>

definition try_insert_set :: "nat \<Rightarrow> 'a \<Rightarrow> 'a fset \<Rightarrow> 'a fset option" where
  "try_insert_set n x S = (if x |\<in>| S \<or> fcard S < n then Some (finsert x S) else None)"

definition try_insert_map :: "nat \<Rightarrow> 'k \<Rightarrow> 'v \<Rightarrow> ('k, 'v) fmap \<Rightarrow> ('k, 'v) fmap option" where
  "try_insert_map n k v m =
    (if k |\<in>| fmdom m \<or> fcard (fmdom m) < n then Some (fmupd k v m) else None)"

definition try_from_set :: "nat \<Rightarrow> 'a fset \<Rightarrow> 'a fset option" where
  "try_from_set n S = (if fcard S \<le> n then Some S else None)"

definition try_from_map :: "nat \<Rightarrow> ('k, 'v) fmap \<Rightarrow> ('k, 'v) fmap option" where
  "try_from_map n m = (if fcard (fmdom m) \<le> n then Some m else None)"

text \<open>The same insertions as methods on the container.\<close>

definition insert_setM :: "nat \<Rightarrow> 'e \<Rightarrow> 'a \<Rightarrow> ('a fset, 'e, unit) stM" where
  "insert_setM n e x S =
    (case try_insert_set n x S of None \<Rightarrow> (Err e, S) | Some S' \<Rightarrow> (Ok (), S'))"

definition insert_mapM :: "nat \<Rightarrow> 'e \<Rightarrow> 'k \<Rightarrow> 'v \<Rightarrow> (('k, 'v) fmap, 'e, unit) stM" where
  "insert_mapM n e k v m =
    (case try_insert_map n k v m of None \<Rightarrow> (Err e, m) | Some m' \<Rightarrow> (Ok (), m'))"

lemma try_insert_set_Some_iff [ok_iff]:
  "try_insert_set n x S = Some T \<longleftrightarrow> (x |\<in>| S \<or> fcard S < n) \<and> T = finsert x S"
  by (auto simp: try_insert_set_def)

lemma try_insert_map_Some_iff [ok_iff]:
  "try_insert_map n k v m = Some m' \<longleftrightarrow>
   (k |\<in>| fmdom m \<or> fcard (fmdom m) < n) \<and> m' = fmupd k v m"
  by (auto simp: try_insert_map_def)

lemma try_from_set_Some_iff [ok_iff]: "try_from_set n S = Some T \<longleftrightarrow> fcard S \<le> n \<and> T = S"
  by (auto simp: try_from_set_def)

lemma try_from_map_Some_iff [ok_iff]:
  "try_from_map n m = Some m' \<longleftrightarrow> fcard (fmdom m) \<le> n \<and> m' = m"
  by (auto simp: try_from_map_def)

lemma insert_setM_Ok_iff [ok_iff]:
  "insert_setM n e x S = (Ok u, T) \<longleftrightarrow> (x |\<in>| S \<or> fcard S < n) \<and> T = finsert x S"
  by (auto simp: insert_setM_def try_insert_set_def)

lemma insert_mapM_Ok_iff [ok_iff]:
  "insert_mapM n e k v m = (Ok u, m') \<longleftrightarrow>
   (k |\<in>| fmdom m \<or> fcard (fmdom m) < n) \<and> m' = fmupd k v m"
  by (auto simp: insert_mapM_def try_insert_map_def)

declare fcard_fempty [simp]

lemma fcard_finsert_le_bound:
  "fcard S \<le> n \<Longrightarrow> x |\<in>| S \<or> fcard S < n \<Longrightarrow> fcard (finsert x S) \<le> n"
  by (cases "x |\<in>| S") (auto simp: finsert_absorb fcard_finsert_disjoint)

lemma forM_insert_setM:
  "forM xs (insert_setM n e) S = (Ok (), T) \<Longrightarrow> T = S |\<union>| fset_of_list xs"
  by (induction xs arbitrary: S) (auto simp: ok_iff)

lemma forM_insert_setM_bound:
  "forM xs (insert_setM n e) S = (Ok (), T) \<Longrightarrow> fcard S \<le> n \<Longrightarrow> fcard T \<le> n"
  by (induction xs arbitrary: S) (auto simp: ok_iff fcard_finsert_le_bound)

text \<open>Enough room for all the elements: the loop succeeds.\<close>

lemma forM_insert_setM_room:
  assumes "fcard (S |\<union>| fset_of_list xs) \<le> n"
  shows "forM xs (insert_setM n e) S = (Ok (), S |\<union>| fset_of_list xs)"
  using assms
proof (induction xs arbitrary: S)
  case Nil
  then show ?case by (simp add: monad_defs)
next
  case (Cons x xs)
  have "x |\<in>| S \<or> fcard S < n"
  proof (cases "x |\<in>| S")
    case False
    have "finsert x S |\<subseteq>| S |\<union>| fset_of_list (x # xs)" by auto
    then have "fcard (finsert x S) \<le> n" using Cons.prems fcard_mono by (metis order_trans)
    then show ?thesis using False by (simp add: fcard_finsert_disjoint)
  qed simp
  then have "insert_setM n e x S = (Ok (), finsert x S)" by (simp add: ok_iff)
  moreover have "fcard (finsert x S |\<union>| fset_of_list xs) \<le> n" using Cons.prems by simp
  ultimately show ?case using Cons.IH [of "finsert x S"] by (simp add: bindM_def)
qed

lemma fold_fminus: "fold (\<lambda>x S. S |-| {|x|}) xs S = S |-| fset_of_list xs"
  by (induction xs arbitrary: S) auto

lemma fold_finsert: "fold finsert xs S = S |\<union>| fset_of_list xs"
  by (induction xs arbitrary: S) auto

section \<open>Methods that cannot panic\<close>

definition never_panics :: "('s, 'e, 'a) stM \<Rightarrow> bool" where
  "never_panics m \<longleftrightarrow> (\<forall>s. fst (m s) \<noteq> Panic)"

lemma never_panicsD: "never_panics m \<Longrightarrow> m s = (r, t) \<Longrightarrow> r \<noteq> Panic"
  by (metis fst_conv never_panics_def)

lemma never_panics_retM [no_panic]: "never_panics (retM a)"
  by (simp add: never_panics_def monad_defs)

lemma never_panics_errM [no_panic]: "never_panics (errM e)"
  by (simp add: never_panics_def monad_defs)

lemma never_panics_getM [no_panic]: "never_panics (getM f)"
  by (simp add: never_panics_def monad_defs)

lemma never_panics_modifyM [no_panic]: "never_panics (modifyM f)"
  by (simp add: never_panics_def monad_defs)

lemma never_panics_ensureM [no_panic]: "never_panics (ensureM b e)"
  by (simp add: never_panics_def monad_defs)

lemma never_panics_insert_setM [no_panic]: "never_panics (insert_setM n e x)"
  by (simp add: never_panics_def insert_setM_def split: option.splits)

lemma never_panics_insert_mapM [no_panic]: "never_panics (insert_mapM n e k v)"
  by (simp add: never_panics_def insert_mapM_def split: option.splits)

lemma never_panics_bindM [no_panic]:
  assumes "never_panics m" "\<And>a. never_panics (f a)"
  shows "never_panics (bindM m f)"
  unfolding never_panics_def
proof
  fix s
  obtain r t where run: "m s = (r, t)" by (cases "m s")
  then have "r \<noteq> Panic" by (rule never_panicsD [OF assms(1)])
  then show "fst (bindM m f s) \<noteq> Panic"
    using assms(2) by (cases r) (simp_all add: bindM_def run never_panics_def)
qed

lemma never_panics_zoomM [no_panic]: "never_panics m \<Longrightarrow> never_panics (zoomM g p m)"
  by (simp add: never_panics_def zoomM_def case_prod_beta)

lemma map_err_Panic_iff [simp]: "map_err g r = Panic \<longleftrightarrow> r = Panic"
  by (cases r) simp_all

lemma never_panics_map_errM [no_panic]: "never_panics m \<Longrightarrow> never_panics (map_errM g m)"
  by (simp add: never_panics_def map_errM_def case_prod_beta)

lemma never_panics_forM [no_panic]: "(\<And>x. never_panics (f x)) \<Longrightarrow> never_panics (forM xs f)"
  by (induction xs) (auto intro: no_panic)

lemma never_panics_if [no_panic]: "never_panics a \<Longrightarrow> never_panics b \<Longrightarrow> never_panics (if c then a else b)"
  by simp

lemma never_panics_ok_or [no_panic]: "never_panics (liftM (ok_or e x))"
  by (cases x) (simp_all add: never_panics_def monad_defs)

lemma never_panics_on_local [no_panic]: "never_panics m \<Longrightarrow> never_panics (liftM (on_local m t))"
proof -
  assume m: "never_panics m"
  obtain r u where run: "m t = (r, u)" by (cases "m t")
  then have "r \<noteq> Panic" by (rule never_panicsD [OF m])
  then show ?thesis by (cases r) (simp_all add: never_panics_def liftM_def on_local_def run)
qed

lemma never_panics_case_option [no_panic]:
  "never_panics a \<Longrightarrow> (\<And>x. never_panics (b x)) \<Longrightarrow> never_panics (case y of None \<Rightarrow> a | Some x \<Rightarrow> b x)"
  by (cases y) simp_all

lemma never_panics_case_prod [no_panic]:
  "(\<And>x y. never_panics (b x y)) \<Longrightarrow> never_panics (case p of (x, y) \<Rightarrow> b x y)"
  by (cases p) simp

section \<open>What a method leaves alone\<close>

text \<open>
  The view \<open>v\<close> of the state is the same after the method, on every path, errors
  and panics included.
\<close>

definition keeps :: "('s \<Rightarrow> 'x) \<Rightarrow> ('s, 'e, 'a) stM \<Rightarrow> bool" where
  "keeps v m \<longleftrightarrow> (\<forall>s. v (snd (m s)) = v s)"

lemma keepsD: "keeps v m \<Longrightarrow> m s = (r, t) \<Longrightarrow> v t = v s"
  by (metis keeps_def snd_conv)

lemma keeps_leaf [frame]:
  "keeps v (retM a)" "keeps v (errM e)" "keeps v (liftM r)" "keeps v (getM f)" "keeps v (ensureM b e)"
  by (simp_all add: keeps_def monad_defs)

lemma keeps_modifyM [frame]: "(\<And>s. v (f s) = v s) \<Longrightarrow> keeps v (modifyM f)"
  by (simp add: keeps_def monad_defs)

lemma keeps_bindM [frame]:
  assumes "keeps v m" "\<And>a. keeps v (f a)"
  shows "keeps v (bindM m f)"
  unfolding keeps_def
proof
  fix s
  obtain r t where run: "m s = (r, t)" by (cases "m s")
  then have "v t = v s" by (rule keepsD [OF assms(1)])
  then show "v (snd (bindM m f s)) = v s"
    using assms(2) by (cases r) (simp_all add: bindM_def run keeps_def)
qed

lemma keeps_zoomM [frame]: "(\<And>t s. v (put t s) = v s) \<Longrightarrow> keeps v (zoomM get put m)"
  by (simp add: keeps_def zoomM_def case_prod_beta)

lemma keeps_map_errM [frame]: "keeps v m \<Longrightarrow> keeps v (map_errM g m)"
  by (simp add: keeps_def map_errM_def case_prod_beta)

lemma keeps_if [frame]: "keeps v a \<Longrightarrow> keeps v b \<Longrightarrow> keeps v (if c then a else b)"
  by simp

lemma keeps_Let [frame]: "(\<And>x. keeps v (f x)) \<Longrightarrow> keeps v (let x = a in f x)"
  by simp

lemma keeps_case_option [frame]:
  "keeps v a \<Longrightarrow> (\<And>x. keeps v (b x)) \<Longrightarrow> keeps v (case y of None \<Rightarrow> a | Some x \<Rightarrow> b x)"
  by (cases y) simp_all

lemma keeps_case_prod [frame]:
  "(\<And>x y. keeps v (b x y)) \<Longrightarrow> keeps v (case p of (x, y) \<Rightarrow> b x y)"
  by (cases p) simp

lemma keeps_case_res [frame]:
  "(\<And>x. keeps v (a x)) \<Longrightarrow> (\<And>e. keeps v (b e)) \<Longrightarrow> keeps v c \<Longrightarrow>
   keeps v (case r of Ok x \<Rightarrow> a x | Err e \<Rightarrow> b e | Panic \<Rightarrow> c)"
  by (cases r) simp_all

lemma keeps_forM [frame]: "(\<And>x. keeps v (f x)) \<Longrightarrow> keeps v (forM xs f)"
  by (induction xs) (auto intro: frame)

lemma keeps_foldM [frame]: "(\<And>x a. keeps v (f x a)) \<Longrightarrow> keeps v (foldM f xs a)"
  by (induction xs arbitrary: a) (auto intro: frame)

lemma keeps_attemptM [frame]:
  assumes "keeps v m"
  shows "keeps v (attemptM m)"
  unfolding keeps_def
proof
  fix s
  obtain r t where run: "m s = (r, t)" by (cases "m s")
  then have "v t = v s" by (rule keepsD [OF assms])
  then show "v (snd (attemptM m s)) = v s" by (cases r) (simp_all add: attemptM_def run)
qed

section \<open>Ordered iteration\<close>

lemma sorted_list_of_fset_empty [simp]: "sorted_list_of_fset {||} = []"
  by (simp add: sorted_list_of_fset.rep_eq)

lemma sorted_list_of_fset_eq_Nil [simp]: "sorted_list_of_fset S = [] \<longleftrightarrow> S = {||}"
  by (metis fset_of_list_simps(1) sorted_list_of_fset_empty sorted_list_of_fset_simps(2))

lemma fset_of_sorted_list_of_fset [simp]: "fset_of_list (sorted_list_of_fset S) = S"
  by (rule sorted_list_of_fset_simps(2))

lemma distinct_sorted_list_of_fset [simp]: "distinct (sorted_list_of_fset S)"
  by (simp add: sorted_list_of_fset.rep_eq)

lemma sorted_sorted_list_of_fset [simp]: "sorted (sorted_list_of_fset S)"
  by (simp add: sorted_list_of_fset.rep_eq)

lemma length_sorted_list_of_fset [simp]: "length (sorted_list_of_fset S) = fcard S"
  by (simp add: sorted_list_of_fset.rep_eq fcard.rep_eq)

lemma in_set_sorted_list_of_fmap [simp]:
  "(k, v) \<in> set (sorted_list_of_fmap m) \<longleftrightarrow> fmlookup m k = Some v"
  by (auto simp: sorted_list_of_fmap_def image_iff intro: fmdomI)

lemma map_fst_sorted_list_of_fmap [simp]:
  "map fst (sorted_list_of_fmap m) = sorted_list_of_fset (fmdom m)"
  by (simp add: sorted_list_of_fmap_def comp_def)

lemma distinct_sorted_list_of_fmap [simp]: "distinct (map fst (sorted_list_of_fmap m))"
  by simp

lemma distinct_fst_sorted_list_of_fmap: "distinct (sorted_list_of_fmap m)"
  using distinct_sorted_list_of_fmap distinct_map by blast

section \<open>Sums over a finite map\<close>

definition count_over :: "('v \<Rightarrow> nat) \<Rightarrow> ('k, 'v) fmap \<Rightarrow> nat" where
  "count_over f m = (\<Sum>n\<in>fset (fmdom m). f (the (fmlookup m n)))"

lemma count_over_empty [simp]: "count_over f fmempty = 0"
  by (simp add: count_over_def)

lemma count_over_fmupd_new:
  assumes "fmlookup m n = None"
  shows "count_over f (fmupd n p m) = count_over f m + f p"
proof -
  have n: "n \<notin> fset (fmdom m)" using assms by (auto simp: fmlookup_dom_iff)
  have "count_over f (fmupd n p m) = f p + (\<Sum>k\<in>fset (fmdom m). f (the (fmlookup (fmupd n p m) k)))"
    using n by (simp add: count_over_def)
  also have "(\<Sum>k\<in>fset (fmdom m). f (the (fmlookup (fmupd n p m) k))) = count_over f m"
    unfolding count_over_def using n by (intro sum.cong) auto
  finally show ?thesis by simp
qed

lemma count_over_fmupd:
  assumes "fmlookup m n = Some p0"
  shows "count_over f (fmupd n p m) + f p0 = count_over f m + f p"
proof -
  have d: "fmlookup (fmdrop n m) n = None" by simp
  have "fmupd n p m = fmupd n p (fmdrop n m)" "m = fmupd n p0 (fmdrop n m)"
    using assms by (auto intro!: fmap_ext)
  then show ?thesis
    using count_over_fmupd_new [OF d, of f p] count_over_fmupd_new [OF d, of f p0] by simp
qed

lemma count_over_fmupd_le: "count_over f (fmupd n p m) \<le> count_over f m + f p"
proof (cases "fmlookup m n")
  case None
  then show ?thesis by (simp add: count_over_fmupd_new)
next
  case (Some q)
  then show ?thesis using count_over_fmupd [OF Some, of f p] by simp
qed

lemma count_over_fmdrop:
  assumes "fmlookup m n = Some p"
  shows "count_over f (fmdrop n m) + f p = count_over f m"
proof -
  have "m = fmupd n p (fmdrop n m)" using assms by (auto intro!: fmap_ext)
  then show ?thesis using count_over_fmupd_new [of "fmdrop n m" n f p] by simp
qed

lemma count_over_fmdrop_le: "count_over f (fmdrop n m) \<le> count_over f m"
proof (cases "fmlookup m n")
  case None
  then have "fmdrop n m = m" by (intro fmap_ext) auto
  then show ?thesis by simp
next
  case (Some q)
  then show ?thesis using count_over_fmdrop [OF Some, of f] by simp
qed

lemma count_over_ge: "fmlookup m n = Some p \<Longrightarrow> f p \<le> count_over f m"
  using count_over_fmdrop [of m n p f] by simp

end
