(* ===== verification/Primitives.thy ===== *)
theory Primitives
  imports Prelude "HOL-Library.Word"
begin

text \<open>
  The shared data of \<^verbatim>\<open>src/primitives\<close>: the protocol constants, sector numbers and
  sizes, the registered proof types, the messages exchanged between the
  storage-provider and the market pallet, and the on-chain sector records and
  error values of the storage-provider pallet.
\<close>

section \<open>Constants\<close>

type_synonym block = nat
type_synonym balance = nat
type_synonym sector_number = nat
type_synonym deal_id = nat
type_synonym partition_number = nat
type_synonym bytes = "8 word list"

definition MAX_PARTITIONS_PER_DEADLINE :: nat where "MAX_PARTITIONS_PER_DEADLINE = 3000"
definition MAX_SECTORS :: nat where "MAX_SECTORS = 32 * 2 ^ 20"
definition MAX_SECTORS_PER_CALL :: nat where "MAX_SECTORS_PER_CALL = 32"
definition MAX_DEALS_PER_SECTOR :: nat where "MAX_DEALS_PER_SECTOR = 128"
definition MAX_DEALS_FOR_ALL_SECTORS :: nat where
  "MAX_DEALS_FOR_ALL_SECTORS = MAX_SECTORS_PER_CALL * MAX_DEALS_PER_SECTOR"
definition MAX_TERMINATIONS_PER_CALL :: nat where "MAX_TERMINATIONS_PER_CALL = 32"
definition MAX_SECTORS_PER_PROOF :: nat where "MAX_SECTORS_PER_PROOF = 2349"
definition MAX_SEAL_PROOF_BYTES :: nat where "MAX_SEAL_PROOF_BYTES = 1920"
definition MAX_POST_PROOF_BYTES :: nat where "MAX_POST_PROOF_BYTES = 192"
definition CID_SIZE_IN_BYTES :: nat where "CID_SIZE_IN_BYTES = 64"
definition NODE_SIZE :: nat where "NODE_SIZE = 32"

section \<open>Sector numbers and sizes\<close>

datatype sector_number_error = NumberTooLarge

definition sector_number_new :: "nat \<Rightarrow> (sector_number_error, sector_number) res" where
  "sector_number_new n = (if n > MAX_SECTORS then Err NumberTooLarge else Ok n)"

datatype sector_size = S2KiB | S8MiB | S512MiB | S32GiB | S64GiB

fun sector_size_bytes :: "sector_size \<Rightarrow> nat" where
  "sector_size_bytes S2KiB = 2 * 2 ^ 10"
| "sector_size_bytes S8MiB = 8 * 2 ^ 20"
| "sector_size_bytes S512MiB = 512 * 2 ^ 20"
| "sector_size_bytes S32GiB = 32 * 2 ^ 30"
| "sector_size_bytes S64GiB = 2 * (32 * 2 ^ 30)"

section \<open>Registered proofs\<close>

datatype registered_post_proof = StackedDRGWindow2KiBV1P1

datatype registered_seal_proof = StackedDRG2KiBV1P1

fun registered_window_post_proof :: "registered_seal_proof \<Rightarrow> registered_post_proof" where
  "registered_window_post_proof StackedDRG2KiBV1P1 = StackedDRGWindow2KiBV1P1"

definition seal_proof_sector_size :: "registered_seal_proof \<Rightarrow> sector_size" where
  "seal_proof_sector_size p = S2KiB"

fun seal_proof_size :: "registered_seal_proof \<Rightarrow> nat" where
  "seal_proof_size StackedDRG2KiBV1P1 = 192"

fun post_sector_size :: "registered_post_proof \<Rightarrow> sector_size" where
  "post_sector_size StackedDRGWindow2KiBV1P1 = S2KiB"

fun window_post_partitions_sector :: "registered_post_proof \<Rightarrow> nat" where
  "window_post_partitions_sector StackedDRGWindow2KiBV1P1 = 2"

section \<open>Messages between the pallets\<close>

record sector_deal =
  sd_sector_number :: sector_number
  sd_sector_expiry :: block
  sd_sector_type :: registered_seal_proof
  sd_deal_ids :: "deal_id list"

section \<open>Sector records of the storage-provider pallet\<close>

record sector_pre_commit_info =
  pc_seal_proof :: registered_seal_proof
  pc_sector_number :: sector_number
  pc_sealed_cid :: bytes
  pc_seal_randomness_height :: block
  pc_deal_ids :: "deal_id list"
  pc_expiration :: block
  pc_unsealed_cid :: bytes

record sector_pre_commit_on_chain_info =
  poc_info :: sector_pre_commit_info
  poc_pre_commit_deposit :: balance
  poc_pre_commit_block_number :: block

definition pre_commit_to_sector_deal :: "sector_pre_commit_on_chain_info \<Rightarrow> sector_deal" where
  "pre_commit_to_sector_deal p =
    \<lparr> sd_sector_number = pc_sector_number (poc_info p),
      sd_sector_expiry = pc_expiration (poc_info p),
      sd_sector_type = pc_seal_proof (poc_info p),
      sd_deal_ids = pc_deal_ids (poc_info p) \<rparr>"

record sector_on_chain_info =
  si_sector_number :: sector_number
  si_seal_proof :: registered_seal_proof
  si_sealed_cid :: bytes
  si_activation :: block
  si_expiration :: block
  si_unsealed_cid :: bytes

definition from_pre_commit :: "sector_pre_commit_info \<Rightarrow> block \<Rightarrow> sector_on_chain_info" where
  "from_pre_commit p activation =
    \<lparr> si_sector_number = pc_sector_number p,
      si_seal_proof = pc_seal_proof p,
      si_sealed_cid = pc_sealed_cid p,
      si_activation = activation,
      si_expiration = pc_expiration p,
      si_unsealed_cid = pc_unsealed_cid p \<rparr>"

section \<open>Errors of the storage-provider components\<close>

datatype general_pallet_error =
    PartitionErrorFailedToAddSector
  | PartitionErrorDuplicateSectorNumber
  | PartitionErrorFailedToAddFaults
  | PartitionErrorFailedToRemoveRecoveries
  | PartitionErrorSectorsNotLive
  | PartitionErrorCannotPopUnprovenSectors
  | PartitionErrorUnexpectedRecoveries
  | PartitionErrorExpiredSectorsAlreadyTerminated
  | DeadlineErrorDeadlineIndexOutOfRange
  | DeadlineErrorDeadlineNotFound
  | DeadlineErrorCouldNotConstructDeadlineInfo
  | DeadlineErrorPartitionAlreadyProven
  | DeadlineErrorPartitionNotFound
  | DeadlineErrorProofUpdateFailed
  | DeadlineErrorMaxPartitionsReached
  | DeadlineErrorCouldNotAddSectors
  | DeadlineErrorSectorsNotFound
  | DeadlineErrorSectorsNotFaulty
  | DeadlineErrorCouldNotAssignSectorsToDeadlines
  | DeadlineErrorFailedToUpdateFaultExpiration
  | StorageProviderErrorMaxPreCommittedSectorExceeded
  | StorageProviderErrorSectorNotFound
  | StorageProviderErrorSectorNumberInUse
  | SectorMapErrorFailedToInsertSector
  | SectorMapErrorFailedToInsertPartition
  | ExpirationQueueErrorExpirationSetNotFound
  | ExpirationQueueErrorSectorNotFound
  | ExpirationQueueErrorInsertionFailed

text \<open>
  The table of all sectors of a provider: the on-chain record of a sector is
  filed under its own number, which is how \<^verbatim>\<open>activate_sector\<close> fills it.
\<close>

type_synonym sector_table = "(sector_number, sector_on_chain_info) fmap"

definition sector_table_ok :: "sector_table \<Rightarrow> bool" where
  "sector_table_ok tbl \<longleftrightarrow> (\<forall>n i. fmlookup tbl n = Some i \<longrightarrow> si_sector_number i = n)"

lemma sector_table_okD:
  "sector_table_ok tbl \<Longrightarrow> fmlookup tbl n = Some i \<Longrightarrow> si_sector_number i = n"
  by (simp add: sector_table_ok_def)

lemma from_pre_commit_simps [simp]:
  "si_sector_number (from_pre_commit p a) = pc_sector_number p"
  "si_expiration (from_pre_commit p a) = pc_expiration p"
  "si_activation (from_pre_commit p a) = a"
  by (simp_all add: from_pre_commit_def)

end
