(* ===== verification/ByteStream.thy ===== *)
theory ByteStream
  imports Primitives
begin

text \<open>
  Streams of bytes as the CAR library uses them: a seekable file in memory with a
  position. Reading and writing are the whole-buffer operations of the asynchronous
  readers and writers; reading past the end is the only error of the medium.

  Two judgements carry the proofs about encodings. \<open>writes m bs a\<close> says that \<open>m\<close> puts
  the bytes \<open>bs\<close> at the position and returns \<open>a\<close>; \<open>reads m bs a\<close> says that \<open>m\<close>, started
  in front of \<open>bs\<close>, consumes exactly \<open>bs\<close> and returns \<open>a\<close>. Both compose along
  \<open>bindM\<close>, so that an encoder and its decoder are compared piece by piece.
\<close>

named_theorems stream_rules \<open>what readers consume and writers produce\<close>

datatype io_error = UnexpectedEof | InvalidData

record stream =
  st_bytes :: bytes
  st_pos :: nat

definition at_start :: "bytes \<Rightarrow> stream" where
  "at_start bs = \<lparr> st_bytes = bs, st_pos = 0 \<rparr>"

definition fits :: "stream \<Rightarrow> bool" where
  "fits s \<longleftrightarrow> st_pos s \<le> length (st_bytes s)"

definition remaining :: "stream \<Rightarrow> bytes" where
  "remaining s = drop (st_pos s) (st_bytes s)"

definition overwrite :: "bytes \<Rightarrow> stream \<Rightarrow> stream" where
  "overwrite bs s = s\<lparr> st_bytes := take (st_pos s) (st_bytes s) @ bs @ drop (st_pos s + length bs) (st_bytes s),
     st_pos := st_pos s + length bs \<rparr>"

definition skip :: "nat \<Rightarrow> stream \<Rightarrow> stream" where
  "skip n s = s\<lparr> st_pos := st_pos s + n \<rparr>"

definition write_all :: "bytes \<Rightarrow> (stream, 'e, unit) stM" where
  "write_all bs = modifyM (overwrite bs)"

definition read_exact :: "nat \<Rightarrow> (stream, io_error, bytes) stM" where
  "read_exact n = (\<lambda>s.
    if n \<le> length (remaining s) then (Ok (take n (remaining s)), skip n s)
    else (Err UnexpectedEof, skip (length (remaining s)) s))"

definition rewind :: "(stream, 'e, unit) stM" where
  "rewind = modifyM (\<lambda>s. s\<lparr> st_pos := 0 \<rparr>)"

definition stream_position :: "(stream, 'e, nat) stM" where
  "stream_position = getM st_pos"

section \<open>Little-endian integers\<close>

primrec le_bytes :: "nat \<Rightarrow> nat \<Rightarrow> bytes" where
  "le_bytes 0 v = []"
| "le_bytes (Suc k) v = word_of_nat v # le_bytes k (v div 256)"

primrec of_le_bytes :: "bytes \<Rightarrow> nat" where
  "of_le_bytes [] = 0"
| "of_le_bytes (b # bs) = unat b + 256 * of_le_bytes bs"

lemma length_le_bytes [simp]: "length (le_bytes k v) = k"
  by (induction k arbitrary: v) simp_all

lemma of_le_bytes_le_bytes: "v < 256 ^ k \<Longrightarrow> of_le_bytes (le_bytes k v) = v"
proof (induction k arbitrary: v)
  case (Suc k)
  then have "of_le_bytes (le_bytes k (v div 256)) = v div 256"
    by (simp add: div_less_iff_less_mult mult.commute)
  then show ?case
    by (simp add: unat_of_nat)
qed simp

lemma le_bytes_add: "le_bytes (k + m) v = le_bytes k v @ le_bytes m (v div 256 ^ k)"
  by (induction k arbitrary: v) (simp_all add: div_mult2_eq)

lemma le_bytes_zero: "le_bytes k 0 = replicate k 0"
  by (induction k) simp_all

definition write_le :: "nat \<Rightarrow> nat \<Rightarrow> (stream, 'e, unit) stM" where
  "write_le k v = write_all (le_bytes k v)"

definition read_le :: "nat \<Rightarrow> (stream, io_error, nat) stM" where
  "read_le k = bindM (read_exact k) (\<lambda>bs. retM (of_le_bytes bs))"

section \<open>What is written and what is read\<close>

definition writes :: "(stream, 'e, 'a) stM \<Rightarrow> bytes \<Rightarrow> 'a \<Rightarrow> bool" where
  "writes m bs a \<longleftrightarrow> (\<forall>s. fits s \<longrightarrow> m s = (Ok a, overwrite bs s))"

definition reads :: "(stream, 'e, 'a) stM \<Rightarrow> bytes \<Rightarrow> 'a \<Rightarrow> bool" where
  "reads m bs a \<longleftrightarrow> (\<forall>s rest. remaining s = bs @ rest \<longrightarrow> m s = (Ok a, skip (length bs) s))"

lemma writesD: "writes m bs a \<Longrightarrow> fits s \<Longrightarrow> m s = (Ok a, overwrite bs s)"
  by (simp add: writes_def)

lemma readsD: "reads m bs a \<Longrightarrow> remaining s = bs @ rest \<Longrightarrow> m s = (Ok a, skip (length bs) s)"
  by (simp add: reads_def)

lemma overwrite_Nil [simp]: "overwrite [] s = s"
  by (simp add: overwrite_def)

lemma skip_0 [simp]: "skip 0 s = s"
  by (simp add: skip_def)

lemma skip_skip [simp]: "skip n (skip m s) = skip (m + n) s"
  by (simp add: skip_def)

lemma remaining_skip [simp]: "remaining (skip n s) = drop n (remaining s)"
  by (simp add: remaining_def skip_def add.commute)

lemma st_pos_skip [simp]: "st_pos (skip n s) = st_pos s + n"
  by (simp add: skip_def)

lemma st_bytes_skip [simp]: "st_bytes (skip n s) = st_bytes s"
  by (simp add: skip_def)

lemma st_pos_overwrite [simp]: "st_pos (overwrite bs s) = st_pos s + length bs"
  by (simp add: overwrite_def)

lemma fits_at_start [simp]: "fits (at_start bs)"
  by (simp add: fits_def at_start_def)

lemma fits_overwrite [simp]: "fits s \<Longrightarrow> fits (overwrite bs s)"
  by (simp add: fits_def overwrite_def)

lemma overwrite_overwrite:
  "fits s \<Longrightarrow> overwrite cs (overwrite bs s) = overwrite (bs @ cs) s"
  by (simp add: fits_def overwrite_def ac_simps)

lemma overwrite_at_end:
  "st_pos s = length (st_bytes s) \<Longrightarrow> overwrite bs s = \<lparr> st_bytes = st_bytes s @ bs, st_pos = st_pos s + length bs \<rparr>"
  by (simp add: overwrite_def)

lemma writes_retM [stream_rules]: "writes (retM a) [] a"
  by (simp add: writes_def retM_def)

lemma writes_retI: "a = b \<Longrightarrow> writes (retM a) [] b"
  by (simp add: writes_retM)

lemma writes_write_all [stream_rules]: "writes (write_all bs) bs ()"
  by (simp add: writes_def write_all_def modifyM_def)

lemma writes_write_le [stream_rules]: "writes (write_le k v) (le_bytes k v) ()"
  unfolding write_le_def by (rule writes_write_all)

lemma writes_liftM: "r = Ok a \<Longrightarrow> writes (liftM r) [] a"
  by (simp add: writes_def liftM_def)

lemma writes_bindM:
  "writes m bs a \<Longrightarrow> writes (f a) cs b \<Longrightarrow> writes (bindM m f) (bs @ cs) b"
  by (simp add: writes_def bindM_def overwrite_overwrite)

lemma writes_bind_last: "writes m bs a \<Longrightarrow> writes (f a) [] b \<Longrightarrow> writes (bindM m f) bs b"
  using writes_bindM [of m bs a f "[]" b] by simp

lemma writes_bind_liftM: "r = Ok a \<Longrightarrow> writes (f a) bs b \<Longrightarrow> writes (bindM (liftM r) f) bs b"
  using writes_bindM [OF writes_liftM, of r a f bs b] by simp

lemma writes_map_errM: "writes m bs a \<Longrightarrow> writes (map_errM g m) bs a"
  by (simp add: writes_def map_errM_def)

lemma reads_retM [stream_rules]: "reads (retM a) [] a"
  by (simp add: reads_def retM_def)

lemma reads_retI: "a = b \<Longrightarrow> reads (retM a) [] b"
  by (simp add: reads_retM)

lemma reads_read_exact: "length bs = n \<Longrightarrow> reads (read_exact n) bs bs"
  by (auto simp: reads_def read_exact_def)

lemma reads_liftM: "r = Ok a \<Longrightarrow> reads (liftM r) [] a"
  by (simp add: reads_def liftM_def)

lemma reads_bindM:
  "reads m bs a \<Longrightarrow> reads (f a) cs b \<Longrightarrow> reads (bindM m f) (bs @ cs) b"
  by (simp add: reads_def bindM_def)

lemma reads_bind_last: "reads m bs a \<Longrightarrow> reads (f a) [] b \<Longrightarrow> reads (bindM m f) bs b"
  using reads_bindM [of m bs a f "[]" b] by simp

lemma reads_bind_liftM: "r = Ok a \<Longrightarrow> reads (f a) bs b \<Longrightarrow> reads (bindM (liftM r) f) bs b"
  using reads_bindM [OF reads_liftM, of r a f bs b] by simp

lemma reads_map_errM: "reads m bs a \<Longrightarrow> reads (map_errM g m) bs a"
  by (auto simp: reads_def map_errM_def)

lemma reads_read_le: "v < 256 ^ k \<Longrightarrow> reads (read_le k) (le_bytes k v) v"
  by (simp add: reads_def read_le_def bindM_def read_exact_def retM_def of_le_bytes_le_bytes)

text \<open>A file that has been written from its start.\<close>

definition file_of :: "bytes \<Rightarrow> stream" where
  "file_of bs = \<lparr> st_bytes = bs, st_pos = length bs \<rparr>"

lemma file_of_Nil: "at_start [] = file_of []"
  by (simp add: at_start_def file_of_def)

lemma fits_file_of [simp]: "fits (file_of bs)"
  by (simp add: fits_def file_of_def)

lemma overwrite_file_of [simp]: "overwrite cs (file_of bs) = file_of (bs @ cs)"
  by (simp add: file_of_def overwrite_at_end)

lemma rewind_file_of: "rewind (file_of bs) = (Ok (), at_start bs)"
  by (simp add: rewind_def modifyM_def file_of_def at_start_def)

text \<open>What was written at the start of a file is read from its start.\<close>

lemma reads_after_write:
  assumes "writes w bs a" and "reads r bs b"
  shows "r (at_start (st_bytes (snd (w (at_start []))))) = (Ok b, skip (length bs) (at_start bs))"
proof -
  have "w (at_start []) = (Ok a, \<lparr> st_bytes = bs, st_pos = length bs \<rparr>)"
    using writesD [OF assms(1) fits_at_start, of "[]"] by (simp add: at_start_def overwrite_at_end)
  then show ?thesis
    using readsD [OF assms(2), of "at_start bs" "[]"] by (simp add: at_start_def remaining_def)
qed

end
