(* ===== verification/Varint.thy ===== *)
theory Varint
  imports ByteStream
begin

unbundle bit_operations_syntax

text \<open>
  Variable-length integers, after \<^verbatim>\<open>src/mater/lib/src/async_varint.rs\<close>: the writer, and
  the reader that collects bytes one at a time in a \<^verbatim>\<open>VarIntProcessor\<close> until one has
  its top bit clear.

  The encoding itself comes from another crate (\<^verbatim>\<open>integer_encoding\<close>) and is a
  parameter; the interface \<open>varint_codec\<close> states what its documentation promises, and
  unsigned LEB128 is shown to meet it. The integers are the 64-bit \<^verbatim>\<open>u64\<close> and
  \<^verbatim>\<open>usize\<close>.
\<close>

definition MSB :: "8 word" where "MSB = 0x80"

definition varint_max_size :: nat where "varint_max_size = (8 * 8 + 7) div 7"

record varint_processor =
  vp_buf :: bytes
  vp_maxsize :: nat
  vp_i :: nat

definition vp_new :: varint_processor where
  "vp_new = \<lparr> vp_buf = replicate 10 0, vp_maxsize = varint_max_size, vp_i = 0 \<rparr>"

definition vp_push :: "8 word \<Rightarrow> varint_processor \<Rightarrow> (io_error, varint_processor) res" where
  "vp_push b p =
    (if vp_maxsize p \<le> vp_i p then Err InvalidData
     else if \<not> vp_i p < length (vp_buf p) then Panic
     else Ok (p\<lparr> vp_buf := (vp_buf p)[vp_i p := b], vp_i := vp_i p + 1 \<rparr>))"

definition vp_finished :: "varint_processor \<Rightarrow> bool" where
  "vp_finished p \<longleftrightarrow> vp_i p > 0 \<and> vp_buf p ! (vp_i p - 1) AND MSB = 0"

definition vp_decode :: "(bytes \<Rightarrow> (nat \<times> nat) option) \<Rightarrow> varint_processor \<Rightarrow> nat option" where
  "vp_decode decode_var p = map_option fst (decode_var (take (vp_i p) (vp_buf p)))"

text \<open>
  The loop of the reader, over the bytes that are left in the stream: the processor when
  it ends, and the number of bytes taken.
\<close>

fun varint_loop :: "varint_processor \<Rightarrow> bytes \<Rightarrow> (io_error, varint_processor) res \<times> nat" where
  "varint_loop p [] =
    (if vp_finished p then (Ok p, 0) else if vp_i p = 0 then (Err UnexpectedEof, 0) else (Ok p, 0))"
| "varint_loop p (b # bs) =
    (if vp_finished p then (Ok p, 0)
     else
       (case vp_push b p of
          Ok q \<Rightarrow> (case varint_loop q bs of (r, n) \<Rightarrow> (r, Suc n))
        | Err e \<Rightarrow> (Err e, 1)
        | Panic \<Rightarrow> (Panic, 1)))"

definition read_varint :: "(bytes \<Rightarrow> (nat \<times> nat) option) \<Rightarrow> (stream, io_error, nat) stM" where
  "read_varint decode_var = (\<lambda>s.
    case varint_loop vp_new (remaining s) of
      (r, n) \<Rightarrow> (res_bind r (\<lambda>p. ok_or UnexpectedEof (vp_decode decode_var p)), skip n s))"

definition write_varint :: "(nat \<Rightarrow> bytes) \<Rightarrow> nat \<Rightarrow> (stream, io_error, nat) stM" where
  "write_varint encode_var n =
    bindM (write_all (encode_var n)) (\<lambda>_. retM (length (encode_var n)))"

section \<open>The interface of the encoding\<close>

text \<open>All bytes but the last carry the continuation bit.\<close>

definition terminated :: "bytes \<Rightarrow> bool" where
  "terminated bs \<longleftrightarrow> bs \<noteq> [] \<and> (\<forall>b \<in> set (butlast bs). b AND MSB \<noteq> 0) \<and> last bs AND MSB = 0"

lemma terminated_Cons:
  "terminated (b # bs) \<longleftrightarrow> (if bs = [] then b AND MSB = 0 else b AND MSB \<noteq> 0 \<and> terminated bs)"
  by (auto simp: terminated_def)

lemma varint_loop_terminated:
  assumes "terminated bs" and "\<not> vp_finished p" and "length (vp_buf p) = 10"
    and "vp_maxsize p = 10" and "vp_i p + length bs \<le> 10"
  shows "\<exists>q. varint_loop p (bs @ rest) = (Ok q, length bs) \<and>
             take (vp_i q) (vp_buf q) = take (vp_i p) (vp_buf p) @ bs"
  using assms
proof (induction bs arbitrary: p)
  case Nil
  then show ?case by (simp add: terminated_def)
next
  case (Cons b bs)
  define q where "q = p\<lparr> vp_buf := (vp_buf p)[vp_i p := b], vp_i := vp_i p + 1 \<rparr>"
  have push: "vp_push b p = Ok q"
    using Cons.prems by (simp add: vp_push_def q_def)
  have taken: "take (vp_i q) (vp_buf q) = take (vp_i p) (vp_buf p) @ [b]"
    using Cons.prems by (simp add: q_def take_Suc_conv_app_nth)
  have fin: "vp_finished q \<longleftrightarrow> b AND MSB = 0"
    using Cons.prems by (simp add: vp_finished_def q_def)
  show ?case
  proof (cases "bs = []")
    case True
    then have "vp_finished q"
      using Cons.prems(1) fin by (simp add: terminated_Cons)
    then have "varint_loop q rest = (Ok q, 0)"
      by (cases rest) simp_all
    then show ?thesis
      using Cons.prems(2) push taken True by simp
  next
    case False
    then have "terminated bs" and "\<not> vp_finished q"
      using Cons.prems(1) fin by (simp_all add: terminated_Cons)
    moreover have "length (vp_buf q) = 10" "vp_maxsize q = 10" "vp_i q + length bs \<le> 10"
      using Cons.prems by (simp_all add: q_def)
    ultimately show ?thesis
      using Cons.IH [of q] Cons.prems(2) push taken by fastforce
  qed
qed

locale varint_codec =
  fixes encode_var :: "nat \<Rightarrow> bytes" and decode_var :: "bytes \<Rightarrow> (nat \<times> nat) option"
  assumes terminated_encode: "n < u64_bound \<Longrightarrow> terminated (encode_var n)"
    and length_encode: "n < u64_bound \<Longrightarrow> length (encode_var n) \<le> 10"
    and decode_encode: "n < u64_bound \<Longrightarrow> decode_var (encode_var n) = Some (n, length (encode_var n))"
begin

lemma reads_read_varint:
  assumes "n < u64_bound"
  shows "reads (read_varint decode_var) (encode_var n) n"
proof -
  have "\<exists>q. varint_loop vp_new (encode_var n @ rest) = (Ok q, length (encode_var n)) \<and>
            take (vp_i q) (vp_buf q) = encode_var n" for rest
    using varint_loop_terminated [of "encode_var n" vp_new rest] assms terminated_encode length_encode
    by (simp add: vp_new_def vp_finished_def varint_max_size_def)
  then show ?thesis
    unfolding reads_def
  proof (intro allI impI)
    fix s rest
    assume loop: "\<And>rest. \<exists>q. varint_loop vp_new (encode_var n @ rest) = (Ok q, length (encode_var n)) \<and>
      take (vp_i q) (vp_buf q) = encode_var n" and s: "remaining s = encode_var n @ rest"
    obtain q where "varint_loop vp_new (remaining s) = (Ok q, length (encode_var n))"
      and "take (vp_i q) (vp_buf q) = encode_var n"
      using loop [of rest] s by auto
    then show "read_varint decode_var s = (Ok n, skip (length (encode_var n)) s)"
      using decode_encode [OF assms] by (simp add: read_varint_def vp_decode_def)
  qed
qed

lemma writes_write_varint:
  "writes (write_varint encode_var n) (encode_var n) (length (encode_var n))"
  by (simp add: writes_def write_varint_def write_all_def bindM_def modifyM_def retM_def)

end

section \<open>Unsigned LEB128\<close>

function leb128 :: "nat \<Rightarrow> bytes" where
  "leb128 n = (if n < 128 then [word_of_nat n] else word_of_nat (n mod 128 + 128) # leb128 (n div 128))"
  by pat_completeness auto
termination
  by (relation "measure id") auto

declare leb128.simps [simp del]

fun unleb128 :: "bytes \<Rightarrow> (nat \<times> nat) option" where
  "unleb128 [] = None"
| "unleb128 (b # bs) =
    (if b AND MSB = 0 then Some (unat b, 1)
     else map_option (\<lambda>(n, k). (unat b - 128 + 128 * n, Suc k)) (unleb128 bs))"

lemma and_MSB: "b AND MSB = 0 \<longleftrightarrow> \<not> bit b 7"
proof -
  have "MSB = 2 ^ 7"
    by (simp add: MSB_def)
  then show ?thesis
    using and_exp_eq_0_iff_not_bit [of b 7] by argo
qed

lemma bit7_word_of_nat: "bit (word_of_nat n :: 8 word) 7 \<longleftrightarrow> odd (n div 128)"
  by (simp add: bit_of_nat_iff) (simp add: bit_iff_odd)

lemma low_byte_has_no_msb: "n < 128 \<Longrightarrow> word_of_nat n AND MSB = 0"
  by (simp add: and_MSB bit7_word_of_nat)

lemma high_byte_has_msb:
  assumes "n < 128"
  shows "(word_of_nat n + 128) AND MSB \<noteq> 0"
proof -
  have "bit (word_of_nat (n + 128) :: 8 word) 7"
    using assms by (simp only: bit7_word_of_nat) simp
  then show ?thesis
    by (simp add: and_MSB)
qed

lemma leb128_not_Nil [simp]: "leb128 n \<noteq> []"
  by (subst leb128.simps) simp

lemma terminated_leb128: "terminated (leb128 n)"
proof (induction n rule: leb128.induct)
  case (1 n)
  then show ?case
    by (subst leb128.simps) (simp add: terminated_Cons low_byte_has_no_msb high_byte_has_msb)
qed

lemma length_leb128: "n < 128 ^ Suc k \<Longrightarrow> length (leb128 n) \<le> Suc k"
proof (induction k arbitrary: n)
  case (Suc k)
  then have "length (leb128 (n div 128)) \<le> Suc k"
    by (simp add: div_less_iff_less_mult mult.commute)
  then show ?case
    by (subst leb128.simps) simp
qed (subst leb128.simps, simp)

lemma unleb128_leb128: "unleb128 (leb128 n @ rest) = Some (n, length (leb128 n))"
proof (induction n rule: leb128.induct)
  case (1 n)
  show ?case
  proof (cases "n < 128")
    case True
    then show ?thesis
      by (simp add: leb128.simps [of n] low_byte_has_no_msb unat_of_nat)
  next
    case False
    have "unat (word_of_nat (n mod 128 + 128) :: 8 word) = n mod 128 + 128"
      by (simp only: unat_of_nat) simp
    then have "unat (word_of_nat (n mod 128) + 128 :: 8 word) = n mod 128 + 128"
      by simp
    then show ?thesis
      using 1 [OF False] False
      by (simp add: leb128.simps [of n] high_byte_has_msb)
  qed
qed

interpretation leb: varint_codec leb128 unleb128
proof
  fix n :: nat
  assume n: "n < u64_bound"
  show "terminated (leb128 n)"
    by (rule terminated_leb128)
  show "length (leb128 n) \<le> 10"
    using n length_leb128 [of n 9] by (simp add: u64_bound_def)
  show "unleb128 (leb128 n) = Some (n, length (leb128 n))"
    using unleb128_leb128 [of n "[]"] by simp
qed

end
