(* ===== verification/Car.thy ===== *)
theory Car
  imports Varint
begin

text \<open>
  The headers and blocks of CAR files, after \<^verbatim>\<open>src/mater/lib/src\<close>: \<^verbatim>\<open>multicodec.rs\<close>,
  \<^verbatim>\<open>lib.rs\<close> (the errors), \<^verbatim>\<open>v1\<close> (header and blocks) and \<^verbatim>\<open>v2\<close> (pragma, header and the
  low-level writer and reader).

  Content identifiers, multihashes, SHA-256 and the DAG-CBOR encoding are code of other
  crates. They are the fields of the parameter \<open>car_env\<close>; the interface \<open>car_codec\<close>
  states what the library relies on.
\<close>

section \<open>Parameters\<close>

record 'c v1_header =
  h1_version :: nat
  h1_roots :: "'c list"

record ('c, 'm) car_env =
  encode_var :: "nat \<Rightarrow> bytes"
  decode_var :: "bytes \<Rightarrow> (nat \<times> nat) option"
  cid_to_bytes :: "'c \<Rightarrow> bytes"
  cid_encoded_len :: "'c \<Rightarrow> nat"
  cid_read_bytes :: "bytes \<Rightarrow> ('c \<times> nat) option"
  cid_default :: 'c
  cid_new_v1 :: "nat \<Rightarrow> 'm \<Rightarrow> 'c"
  cid_digest :: "'c \<Rightarrow> bytes"
  multihash_wrap :: "nat \<Rightarrow> bytes \<Rightarrow> 'm option"
  sha256_digest :: "bytes \<Rightarrow> bytes"
  dag_cbor_encode :: "'c v1_header \<Rightarrow> bytes option"
  dag_cbor_decode :: "bytes \<Rightarrow> 'c v1_header option"

section \<open>Errors and multicodecs\<close>

datatype car_error =
    VersionMismatchError nat nat
  | EmptyRootsError
  | UnknownIndexError nat
  | NonMatchingDigestError nat nat
  | EmptyIndexError
  | UnknownCharacteristicsError nat
  | InvalidPragmaError bytes
  | InvalidCid
  | CodecError
  | IoError io_error
  | CidError
  | MultihashError
  | ProtobufError
  | DagPbError

type_synonym 'a carM = "(stream, car_error, 'a) stM"

definition SHA_256_CODE :: nat where "SHA_256_CODE = 0x12"
definition SHA_512_CODE :: nat where "SHA_512_CODE = 0x13"
definition RAW_CODE :: nat where "RAW_CODE = 0x55"
definition DAG_PB_CODE :: nat where "DAG_PB_CODE = 0x70"

definition generate_multihash :: "('c, 'm, 'z) car_env_scheme \<Rightarrow> bytes \<Rightarrow> (car_error, 'm) res" where
  "generate_multihash env bs = expect (multihash_wrap env SHA_256_CODE (sha256_digest env bs))"

text \<open>A reader or writer whose input and output errors become errors of the library.\<close>

abbreviation ioM :: "(stream, io_error, 'a) stM \<Rightarrow> 'a carM" where
  "ioM \<equiv> map_errM IoError"

text \<open>
  A new vector of \<open>n\<close> elements of \<open>width\<close> bytes; a vector larger than \<^verbatim>\<open>isize::MAX\<close> bytes
  is a panic (capacity overflow).
\<close>

definition ISIZE_MAX :: nat where "ISIZE_MAX = 2 ^ 63 - 1"

definition alloc_vec :: "nat \<Rightarrow> nat \<Rightarrow> (car_error, unit) res" where
  "alloc_vec width n = (if n * width \<le> ISIZE_MAX then Ok () else Panic)"

section \<open>Version 1\<close>

definition DEFAULT_HASH :: bytes where
  "DEFAULT_HASH =
    [0x66, 0x68, 0x7a, 0xad, 0xf8, 0x62, 0xbd, 0x77, 0x6c, 0x8f, 0xc1, 0x8b, 0x8e, 0x9f, 0x8e, 0x20,
     0x08, 0x97, 0x14, 0x85, 0x6e, 0xe2, 0x33, 0xb3, 0x90, 0x2a, 0x59, 0x1d, 0x0d, 0x5f, 0x29, 0x25]"

definition v1_header_new :: "'c list \<Rightarrow> 'c v1_header" where
  "v1_header_new roots = \<lparr> h1_version = 1, h1_roots = roots \<rparr>"

definition v1_header_default :: "('c, 'm, 'z) car_env_scheme \<Rightarrow> (car_error, 'c v1_header) res" where
  "v1_header_default env =
    res_bind (expect (multihash_wrap env SHA_256_CODE DEFAULT_HASH)) (\<lambda>default_multihash.
    Ok \<lparr> h1_version = 1, h1_roots = [cid_new_v1 env RAW_CODE default_multihash] \<rparr>)"

definition write_v1_header :: "('c, 'm, 'z) car_env_scheme \<Rightarrow> 'c v1_header \<Rightarrow> nat carM" where
  "write_v1_header env header =
    bindM (liftM (ok_or CodecError (dag_cbor_encode env header))) (\<lambda>encoded_header.
    bindM (ioM (write_varint (encode_var env) (length encoded_header))) (\<lambda>varint_len.
    bindM (write_all encoded_header) (\<lambda>_.
    retM (varint_len + length encoded_header))))"

definition write_block :: "('c, 'm, 'z) car_env_scheme \<Rightarrow> 'c \<Rightarrow> bytes \<Rightarrow> nat carM" where
  "write_block env cid block =
    bindM (ioM (write_varint (encode_var env) (cid_encoded_len env cid + length block))) (\<lambda>varint_len.
    bindM (write_all (cid_to_bytes env cid)) (\<lambda>_.
    bindM (write_all block) (\<lambda>_.
    retM (varint_len + cid_encoded_len env cid + length block))))"

definition PRAGMA :: bytes where
  "PRAGMA = [0x0a, 0xa1, 0x67, 0x76, 0x65, 0x72, 0x73, 0x69, 0x6f, 0x6e, 0x02]"

definition starts_with :: "bytes \<Rightarrow> bytes \<Rightarrow> bool" where
  "starts_with bs p \<longleftrightarrow> take (length p) bs = p"

definition read_v1_header :: "('c, 'm, 'z) car_env_scheme \<Rightarrow> 'c v1_header carM" where
  "read_v1_header env =
    bindM (ioM (read_varint (decode_var env))) (\<lambda>header_length.
    bindM (liftM (alloc_vec 1 header_length)) (\<lambda>_.
    bindM (ioM (read_exact header_length)) (\<lambda>header_buffer.
    if starts_with header_buffer (tl PRAGMA) then errM (VersionMismatchError 1 2)
    else
      bindM (liftM (ok_or CodecError (dag_cbor_decode env header_buffer))) (\<lambda>header.
      if h1_version header \<noteq> 1 then errM (VersionMismatchError 1 (h1_version header))
      else if h1_roots header = [] then errM EmptyRootsError
      else retM header))))"

definition read_block :: "('c, 'm, 'z) car_env_scheme \<Rightarrow> ('c \<times> bytes) carM" where
  "read_block env =
    bindM (ioM (read_varint (decode_var env))) (\<lambda>full_block_length.
    bindM (liftM (alloc_vec 1 full_block_length)) (\<lambda>_.
    bindM (ioM (read_exact full_block_length)) (\<lambda>full_block_buffer.
    bindM (liftM (ok_or CidError (cid_read_bytes env full_block_buffer))) (\<lambda>(cid, data_start_position).
    retM (cid, drop data_start_position full_block_buffer)))))"

section \<open>Version 2\<close>

text \<open>The characteristics are the 128 bits of the field; one of them has a meaning.\<close>

definition FULLY_INDEXED :: nat where "FULLY_INDEXED = 2 ^ 127"

definition characteristics_new :: "bool \<Rightarrow> nat" where
  "characteristics_new fully_indexed = (if fully_indexed then FULLY_INDEXED else 0)"

definition is_fully_indexed :: "nat \<Rightarrow> bool" where
  "is_fully_indexed bits \<longleftrightarrow> bit bits 127"

definition characteristics_from_bits :: "nat \<Rightarrow> nat option" where
  "characteristics_from_bits bits = (if bits = 0 \<or> bits = FULLY_INDEXED then Some bits else None)"

record v2_header =
  h2_characteristics :: nat
  h2_data_offset :: nat
  h2_data_size :: nat
  h2_index_offset :: nat

definition v2_header_new :: "bool \<Rightarrow> nat \<Rightarrow> nat \<Rightarrow> nat \<Rightarrow> v2_header" where
  "v2_header_new fully_indexed data_offset data_size index_offset =
    \<lparr> h2_characteristics = characteristics_new fully_indexed, h2_data_offset = data_offset,
      h2_data_size = data_size, h2_index_offset = index_offset \<rparr>"

definition v2_header_default :: v2_header where
  "v2_header_default = \<lparr> h2_characteristics = 0, h2_data_offset = 0, h2_data_size = 0, h2_index_offset = 0 \<rparr>"

definition V2_HEADER_SIZE :: nat where "V2_HEADER_SIZE = length PRAGMA + 40"

definition write_v2_header :: "v2_header \<Rightarrow> nat carM" where
  "write_v2_header header =
    bindM (write_all PRAGMA) (\<lambda>_.
    let buffer = le_bytes 16 (h2_characteristics header) @ le_bytes 8 (h2_data_offset header) @
          le_bytes 8 (h2_data_size header) @ le_bytes 8 (h2_index_offset header) in
    bindM (write_all buffer) (\<lambda>_.
    retM (length PRAGMA + length buffer)))"

definition write_padding :: "nat \<Rightarrow> nat carM" where
  "write_padding n = bindM (forM [0..<n] (\<lambda>_. write_all [0])) (\<lambda>_. retM n)"

definition read_pragma :: "unit carM" where
  "read_pragma =
    bindM (ioM (read_exact (length PRAGMA))) (\<lambda>pragma_buffer.
    if pragma_buffer \<noteq> PRAGMA then errM (InvalidPragmaError pragma_buffer) else retM ())"

definition read_v2_header :: "v2_header carM" where
  "read_v2_header =
    bindM (ioM (read_le 16)) (\<lambda>bits.
    bindM (liftM (ok_or (UnknownCharacteristicsError bits) (characteristics_from_bits bits))) (\<lambda>characteristics.
    bindM (ioM (read_le 8)) (\<lambda>data_offset.
    bindM (ioM (read_le 8)) (\<lambda>data_size.
    bindM (ioM (read_le 8)) (\<lambda>index_offset.
    retM \<lparr> h2_characteristics = characteristics, h2_data_offset = data_offset,
      h2_data_size = data_size, h2_index_offset = index_offset \<rparr>)))))"

definition is_car_file :: "('c, 'm, 'z) car_env_scheme \<Rightarrow> unit carM" where
  "is_car_file env =
    bindM read_pragma (\<lambda>_.
    bindM read_v2_header (\<lambda>_.
    bindM (read_v1_header env) (\<lambda>_.
    retM ())))"

section \<open>Encodings\<close>

definition v1_header_bytes :: "('c, 'm, 'z) car_env_scheme \<Rightarrow> 'c v1_header \<Rightarrow> bytes" where
  "v1_header_bytes env header =
    (case dag_cbor_encode env header of
       None \<Rightarrow> []
     | Some bs \<Rightarrow> encode_var env (length bs) @ bs)"

definition block_bytes :: "('c, 'm, 'z) car_env_scheme \<Rightarrow> 'c \<times> bytes \<Rightarrow> bytes" where
  "block_bytes env = (\<lambda>(cid, data).
    encode_var env (cid_encoded_len env cid + length data) @ cid_to_bytes env cid @ data)"

definition v2_header_bytes :: "v2_header \<Rightarrow> bytes" where
  "v2_header_bytes header = le_bytes 16 (h2_characteristics header) @ le_bytes 8 (h2_data_offset header) @
    le_bytes 8 (h2_data_size header) @ le_bytes 8 (h2_index_offset header)"

definition v2_header_ok :: "v2_header \<Rightarrow> bool" where
  "v2_header_ok header \<longleftrightarrow> h2_characteristics header \<in> {0, FULLY_INDEXED} \<and> h2_data_offset header < u64_bound \<and>
    h2_data_size header < u64_bound \<and> h2_index_offset header < u64_bound"


lemma reads_ioM_le: "v < 256 ^ k \<Longrightarrow> reads (ioM (read_le k)) (le_bytes k v) v"
  by (rule reads_map_errM [OF reads_read_le])

lemma reads_read_pragma: "reads read_pragma PRAGMA ()"
  unfolding read_pragma_def
  by (rule reads_bind_last, rule reads_map_errM, rule reads_read_exact) (simp_all add: reads_retM)

lemma length_v2_header_bytes [simp]: "length (v2_header_bytes header) = 40"
  by (simp add: v2_header_bytes_def)

lemma reads_read_v2_header:
  assumes "v2_header_ok header"
  shows "reads read_v2_header (v2_header_bytes header) header"
proof -
  have bits: "h2_characteristics header < 256 ^ 16"
    and rest: "h2_data_offset header < 256 ^ 8" "h2_data_size header < 256 ^ 8" "h2_index_offset header < 256 ^ 8"
    using assms by (auto simp: v2_header_ok_def FULLY_INDEXED_def u64_bound_def)
  have chars: "characteristics_from_bits (h2_characteristics header) = Some (h2_characteristics header)"
    using assms by (auto simp: v2_header_ok_def characteristics_from_bits_def)
  show ?thesis
    unfolding read_v2_header_def v2_header_bytes_def
    apply (rule reads_bindM, rule reads_ioM_le, rule bits)
    apply (rule reads_bind_liftM, simp add: chars)
    apply (rule reads_bindM, rule reads_ioM_le, rule rest)
    apply (rule reads_bindM, rule reads_ioM_le, rule rest)
    apply (rule reads_bind_last, rule reads_ioM_le, rule rest)
    by (rule reads_retI) simp
qed

lemma writes_write_v2_header:
  "writes (write_v2_header header) (PRAGMA @ v2_header_bytes header) V2_HEADER_SIZE"
  unfolding write_v2_header_def Let_def v2_header_bytes_def
  apply (rule writes_bindM, rule writes_write_all)
  apply (rule writes_bind_last, rule writes_write_all)
  by (rule writes_retI) (simp add: V2_HEADER_SIZE_def)

lemma writes_write_padding: "writes (write_padding n) (replicate n 0) n"
proof -
  have "writes (forM [0..<n] (\<lambda>_. write_all [0])) (replicate n 0) ()" for n
  proof -
    have "writes (forM xs (\<lambda>_. write_all [0])) (replicate (length xs) 0) ()" for xs :: "nat list"
    proof (induction xs)
      case (Cons x xs)
      then show ?case
        using writes_bindM [of "write_all [0]" "[0]" "()" "\<lambda>_. forM xs (\<lambda>_. write_all [0])" "replicate (length xs) 0" "()"]
        by (simp add: writes_write_all)
    qed (simp add: writes_retM)
    from this [of "[0..<n]"] show ?thesis
      by simp
  qed
  then show ?thesis
    unfolding write_padding_def by (rule writes_bind_last) (rule writes_retM)
qed

section \<open>The interface of the encodings\<close>

text \<open>
  What the library relies on: the length of an identifier is that of its bytes, an
  identifier is read back from the front of a buffer, a decoded header is the encoded one,
  and an encoded header starts as a map with two entries, which the pragma of version 2 is
  not.
\<close>

locale car_codec = varint_codec "encode_var env" "decode_var env"
  for env :: "('c, 'm, 'z) car_env_scheme" +
  assumes encoded_len: "cid_encoded_len env cid = length (cid_to_bytes env cid)"
    and read_cid: "cid_read_bytes env (cid_to_bytes env cid @ rest) = Some (cid, length (cid_to_bytes env cid))"
    and decode_header: "dag_cbor_encode env header = Some bs \<Longrightarrow> dag_cbor_decode env bs = Some header"
    and header_is_map: "dag_cbor_encode env header = Some bs \<Longrightarrow> take 1 bs = [0xa2]"
begin

lemma reads_varint: "n \<le> ISIZE_MAX \<Longrightarrow> reads (ioM (read_varint (decode_var env))) (encode_var env n) n"
  by (rule reads_map_errM, rule reads_read_varint) (simp add: ISIZE_MAX_def u64_bound_def)

lemma reads_read_block:
  assumes "length (cid_to_bytes env cid) + length data \<le> ISIZE_MAX"
  shows "reads (read_block env) (block_bytes env (cid, data)) (cid, data)"
  unfolding read_block_def block_bytes_def prod.case
  apply (rule reads_bindM, rule reads_varint, use assms in \<open>simp add: encoded_len\<close>)
  apply (rule reads_bind_liftM, use assms in \<open>simp add: alloc_vec_def encoded_len\<close>)
  apply (rule reads_bind_last, rule reads_map_errM, rule reads_read_exact, simp add: encoded_len)
  apply (rule reads_bind_liftM, simp add: read_cid)
  by (simp add: reads_retM)

lemma reads_read_v1_header:
  assumes enc: "dag_cbor_encode env header = Some bs" and "length bs \<le> ISIZE_MAX"
    and "h1_version header = 1" and "h1_roots header \<noteq> []"
  shows "reads (read_v1_header env) (v1_header_bytes env header) header"
proof -
  have no_pragma: "\<not> starts_with bs (tl PRAGMA)"
    using header_is_map [OF enc] by (cases bs) (auto simp: starts_with_def PRAGMA_def)
  show ?thesis
    unfolding read_v1_header_def v1_header_bytes_def enc option.case
    apply (rule reads_bindM, rule reads_varint, rule assms)
    apply (rule reads_bind_liftM, use assms in \<open>simp add: alloc_vec_def\<close>)
    apply (rule reads_bind_last, rule reads_map_errM, rule reads_read_exact, rule refl)
    using assms no_pragma decode_header [OF enc]
    by (simp add: reads_bind_liftM reads_retM)
qed

lemma writes_varint:
  "writes (ioM (write_varint (encode_var env) n)) (encode_var env n) (length (encode_var env n))"
  by (rule writes_map_errM, rule writes_write_varint)

lemma writes_write_block:
  "writes (write_block env cid data) (block_bytes env (cid, data)) (length (block_bytes env (cid, data)))"
  unfolding write_block_def block_bytes_def prod.case
  apply (rule writes_bindM, rule writes_varint)
  apply (rule writes_bindM, rule writes_write_all)
  apply (rule writes_bind_last, rule writes_write_all)
  by (rule writes_retI) (simp add: encoded_len)

lemma writes_write_v1_header:
  assumes enc: "dag_cbor_encode env header = Some bs"
  shows "writes (write_v1_header env header) (v1_header_bytes env header) (length (v1_header_bytes env header))"
  unfolding write_v1_header_def v1_header_bytes_def enc option.case
  apply (rule writes_bind_liftM, simp)
  apply (rule writes_bindM, rule writes_varint)
  apply (rule writes_bind_last, rule writes_write_all)
  by (rule writes_retI) simp

end

section \<open>A reference instance\<close>

text \<open>
  The documented formats: an identifier of version 1 is the version, the codec, the hash
  code, the length of the digest, each as a variable-length integer, and the digest; a
  header in DAG-CBOR is a map of the identifiers under \<^verbatim>\<open>roots\<close> and the number under
  \<^verbatim>\<open>version\<close>, for identifiers shorter than 255 bytes and fewer than 24 roots. The hash
  function stays a parameter.
\<close>

datatype ref_cid = CidV1 nat "nat \<times> bytes"

fun ref_cid_to_bytes :: "ref_cid \<Rightarrow> bytes" where
  "ref_cid_to_bytes (CidV1 codec (code, digest)) =
    leb128 1 @ leb128 codec @ leb128 code @ leb128 (length digest) @ digest"

definition ref_varint :: "bytes \<Rightarrow> (nat \<times> bytes) option" where
  "ref_varint bs = map_option (\<lambda>(n, k). (n, drop k bs)) (unleb128 bs)"

definition ref_cid_read_bytes :: "bytes \<Rightarrow> (ref_cid \<times> nat) option" where
  "ref_cid_read_bytes bs =
    Option.bind (ref_varint bs) (\<lambda>(version, bs1).
    Option.bind (ref_varint bs1) (\<lambda>(codec, bs2).
    Option.bind (ref_varint bs2) (\<lambda>(code, bs3).
    Option.bind (ref_varint bs3) (\<lambda>(n, bs4).
    if version = 1 \<and> n \<le> length bs4
    then Some (CidV1 codec (code, take n bs4), length bs - (length bs4 - n)) else None))))"

lemma ref_varint_leb128 [simp]: "ref_varint (leb128 n @ bs) = Some (n, bs)"
  by (simp add: ref_varint_def unleb128_leb128)

lemma ref_cid_read_back:
  "ref_cid_read_bytes (ref_cid_to_bytes cid @ rest) = Some (cid, length (ref_cid_to_bytes cid))"
  by (cases cid rule: ref_cid_to_bytes.cases) (simp add: ref_cid_read_bytes_def)

definition ref_root_bytes :: "bytes \<Rightarrow> bytes" where
  "ref_root_bytes cid = [0xd8, 0x2a, 0x58, word_of_nat (Suc (length cid)), 0x00] @ cid"

definition ref_header_bytes :: "bytes list \<Rightarrow> nat \<Rightarrow> bytes" where
  "ref_header_bytes roots version =
    [0xa2, 0x65, 0x72, 0x6f, 0x6f, 0x74, 0x73, 0x80 + word_of_nat (length roots)] @
    concat (map ref_root_bytes roots) @
    [0x67, 0x76, 0x65, 0x72, 0x73, 0x69, 0x6f, 0x6e, word_of_nat version]"

definition ref_encode_header :: "ref_cid v1_header \<Rightarrow> bytes option" where
  "ref_encode_header h =
    (let roots = map ref_cid_to_bytes (h1_roots h) in
     if length roots < 24 \<and> list_all (\<lambda>r. length r < 255) roots \<and> h1_version h < 24
     then Some (ref_header_bytes roots (h1_version h)) else None)"

fun ref_decode_roots :: "nat \<Rightarrow> bytes \<Rightarrow> (ref_cid list \<times> bytes) option" where
  "ref_decode_roots 0 bs = Some ([], bs)"
| "ref_decode_roots (Suc n) bs =
    Option.bind (ref_cid_read_bytes (drop 5 bs)) (\<lambda>(cid, k).
    map_option (\<lambda>(cids, rest). (cid # cids, rest)) (ref_decode_roots n (drop k (drop 5 bs))))"

definition ref_decode_header :: "bytes \<Rightarrow> ref_cid v1_header option" where
  "ref_decode_header bs =
    (if length bs < 8 then None
     else
       Option.bind (ref_decode_roots (unat (bs ! 7) - 0x80) (drop 8 bs)) (\<lambda>(roots, rest).
       if length rest < 9 then None else Some \<lparr> h1_version = unat (rest ! 8), h1_roots = roots \<rparr>))"

lemma ref_decode_roots_back:
  "ref_decode_roots (length cids) (concat (map (ref_root_bytes \<circ> ref_cid_to_bytes) cids) @ rest) = Some (cids, rest)"
  by (induction cids) (simp_all add: ref_root_bytes_def ref_cid_read_back)

lemma ref_decode_header_back: "ref_encode_header h = Some bs \<Longrightarrow> ref_decode_header bs = Some h"
proof -
  assume enc: "ref_encode_header h = Some bs"
  then have bs: "bs = ref_header_bytes (map ref_cid_to_bytes (h1_roots h)) (h1_version h)"
    and small: "length (h1_roots h) < 24" "h1_version h < 24"
    by (auto simp: ref_encode_header_def Let_def split: if_splits)
  have "unat (0x80 + word_of_nat (length (h1_roots h)) :: 8 word) = 0x80 + length (h1_roots h)"
    using small unat_of_nat [of "0x80 + length (h1_roots h)", where 'a = 8] by simp
  moreover have "unat (word_of_nat (h1_version h) :: 8 word) = h1_version h"
    using small by (simp add: unat_of_nat)
  ultimately show ?thesis
    using ref_decode_roots_back [of "h1_roots h"] bs
    by (simp add: ref_decode_header_def ref_header_bytes_def)
qed

definition ref_env :: "(bytes \<Rightarrow> bytes) \<Rightarrow> (ref_cid, nat \<times> bytes) car_env" where
  "ref_env sha = \<lparr> encode_var = leb128, decode_var = unleb128,
     cid_to_bytes = ref_cid_to_bytes, cid_encoded_len = (\<lambda>c. length (ref_cid_to_bytes c)),
     cid_read_bytes = ref_cid_read_bytes, cid_default = CidV1 0 (0, []),
     cid_new_v1 = CidV1, cid_digest = (\<lambda>c. case c of CidV1 _ (_, digest) \<Rightarrow> digest),
     multihash_wrap = (\<lambda>code digest. if length digest \<le> 64 then Some (code, digest) else None),
     sha256_digest = sha, dag_cbor_encode = ref_encode_header, dag_cbor_decode = ref_decode_header \<rparr>"

interpretation ref: car_codec "ref_env sha" for sha
proof
  show "length (encode_var (ref_env sha) n) \<le> 10" if "n < u64_bound" for n
    using that by (simp add: ref_env_def leb.length_encode)
  show "dag_cbor_decode (ref_env sha) bs = Some h" if "dag_cbor_encode (ref_env sha) h = Some bs" for h bs
    using that by (simp add: ref_env_def ref_decode_header_back)
  show "take 1 bs = [0xa2]" if "dag_cbor_encode (ref_env sha) h = Some bs" for h bs
    using that by (auto simp: ref_env_def ref_encode_header_def ref_header_bytes_def Let_def split: if_splits)
qed (simp_all add: ref_env_def leb.terminated_encode leb.decode_encode ref_cid_read_back)

end
