(* ===== verification/CarIndex.thy ===== *)
theory CarIndex
  imports Car "HOL-Library.List_Lexorder"
begin

text \<open>
  The index of a CARv2 file, after \<^verbatim>\<open>src/mater/lib/src/v2/index.rs\<close>: entries of a digest
  and an offset, grouped by width and by multihash code, with their writers and readers.

  The byte format of each structure is given by an encoding function (\<open>_bytes\<close>), a
  writer is shown to write it and a reader to consume exactly it.
\<close>

section \<open>The structures\<close>

definition INDEX_SORTED_CODE :: nat where "INDEX_SORTED_CODE = 0x0400"
definition MULTIHASH_INDEX_SORTED_CODE :: nat where "MULTIHASH_INDEX_SORTED_CODE = 0x0401"

definition u32_bound :: nat where "u32_bound = 2 ^ 32"

record index_entry =
  ie_digest :: bytes
  ie_offset :: nat

record single_width_index =
  sw_width :: nat
  sw_count :: nat
  sw_entries :: "index_entry list"

type_synonym index_sorted = "single_width_index list"
type_synonym multihash_index_sorted = "(nat, index_sorted) fmap"

datatype car_index =
    IndexSorted index_sorted
  | MultihashIndexSorted multihash_index_sorted

definition sw_new :: "nat \<Rightarrow> nat \<Rightarrow> index_entry list \<Rightarrow> (car_error, single_width_index) res" where
  "sw_new digest_width count entries =
    (let entries = sort_key ie_digest entries in
     res_bind (add_u u32_bound digest_width 8) (\<lambda>width.
     Ok \<lparr> sw_width = width, sw_count = count, sw_entries = entries \<rparr>))"

definition sw_from_entry :: "index_entry \<Rightarrow> (car_error, single_width_index) res" where
  "sw_from_entry e = sw_new (length (ie_digest e) mod u32_bound) 1 [e]"

fun sw_try_from :: "index_entry list \<Rightarrow> (car_error, single_width_index) res" where
  "sw_try_from [] = Err EmptyIndexError"
| "sw_try_from (e # es) =
    (let width = length (ie_digest e) in
     case find (\<lambda>entry. length (ie_digest entry) \<noteq> width) es of
       Some entry \<Rightarrow> Err (NonMatchingDigestError width (length (ie_digest entry)))
     | None \<Rightarrow> sw_new (width mod u32_bound) (length (e # es)) (e # es))"

definition index_sorted_from_entry :: "index_entry \<Rightarrow> (car_error, index_sorted) res" where
  "index_sorted_from_entry e = res_bind (sw_from_entry e) (\<lambda>index. Ok [index])"

definition mh_from_single_width :: "nat \<Rightarrow> index_sorted \<Rightarrow> multihash_index_sorted" where
  "mh_from_single_width code index = fmupd code index fmempty"

section \<open>Writing\<close>

definition write_index_entry :: "index_entry \<Rightarrow> nat carM" where
  "write_index_entry entry =
    bindM (write_all (ie_digest entry)) (\<lambda>_.
    bindM (write_le 8 (ie_offset entry)) (\<lambda>_.
    retM (length (ie_digest entry) + 8)))"

definition write_single_width_index :: "single_width_index \<Rightarrow> nat carM" where
  "write_single_width_index index =
    bindM (write_le 4 (sw_width index)) (\<lambda>_.
    bindM (liftM (mul_u u64_bound (sw_count index) (sw_width index))) (\<lambda>bytes.
    bindM (write_le 8 bytes) (\<lambda>_.
    foldM (\<lambda>entry written. bindM (write_index_entry entry) (\<lambda>n. retM (written + n)))
      (sw_entries index) (4 + 8))))"

definition write_index_sorted :: "index_sorted \<Rightarrow> nat carM" where
  "write_index_sorted index =
    bindM (write_le 4 (length index)) (\<lambda>_.
    foldM (\<lambda>idx written. bindM (write_single_width_index idx) (\<lambda>n. retM (written + n))) index 4)"

definition write_multihash_index_sorted :: "multihash_index_sorted \<Rightarrow> nat carM" where
  "write_multihash_index_sorted index =
    bindM (write_le 4 (fcard (fmdom index))) (\<lambda>_.
    foldM (\<lambda>(hash_code, idx) written.
        bindM (write_le 8 hash_code) (\<lambda>_.
        bindM (write_index_sorted idx) (\<lambda>n. retM (written + 8 + n))))
      (sorted_list_of_fmap index) 4)"

definition write_index :: "('c, 'm, 'z) car_env_scheme \<Rightarrow> car_index \<Rightarrow> nat carM" where
  "write_index env index =
    (case index of
       IndexSorted idx \<Rightarrow>
         bindM (ioM (write_varint (encode_var env) INDEX_SORTED_CODE)) (\<lambda>n.
         bindM (write_index_sorted idx) (\<lambda>m. retM (n + m)))
     | MultihashIndexSorted idx \<Rightarrow>
         bindM (ioM (write_varint (encode_var env) MULTIHASH_INDEX_SORTED_CODE)) (\<lambda>n.
         bindM (write_multihash_index_sorted idx) (\<lambda>m. retM (n + m))))"

section \<open>Reading\<close>

text \<open>A loop that collects the results of \<open>n\<close> runs of its body.\<close>

primrec repeatM :: "nat \<Rightarrow> ('s, 'e, 'a) stM \<Rightarrow> ('s, 'e, 'a list) stM" where
  "repeatM 0 m = retM []"
| "repeatM (Suc n) m = bindM m (\<lambda>x. bindM (repeatM n m) (\<lambda>xs. retM (x # xs)))"

text \<open>
  A count read as \<^verbatim>\<open>i32\<close>: a loop up to a negative number does not run, and a negative
  number cast to \<^verbatim>\<open>usize\<close> is sign-extended.
\<close>

definition i32_iterations :: "nat \<Rightarrow> nat" where
  "i32_iterations n = (if n < 2 ^ 31 then n else 0)"

definition i32_as_usize :: "nat \<Rightarrow> nat" where
  "i32_as_usize n = (if n < 2 ^ 31 then n else n + u64_bound - u32_bound)"

definition read_index_entry :: "nat \<Rightarrow> index_entry carM" where
  "read_index_entry n =
    bindM (liftM (alloc_vec 1 n)) (\<lambda>_.
    bindM (ioM (read_exact n)) (\<lambda>digest.
    bindM (ioM (read_le 8)) (\<lambda>offset.
    retM \<lparr> ie_digest = digest, ie_offset = offset \<rparr>)))"

definition read_single_width_index :: "single_width_index carM" where
  "read_single_width_index =
    bindM (ioM (read_le 4)) (\<lambda>width.
    bindM (ioM (read_le 8)) (\<lambda>bytes.
    bindM (liftM (div_u bytes width)) (\<lambda>count.
    bindM (liftM (alloc_vec 32 count)) (\<lambda>_.
    bindM (repeatM count (bindM (liftM (sub_u width 8)) read_index_entry)) (\<lambda>entries.
    retM \<lparr> sw_width = width, sw_count = count, sw_entries = sort_key ie_digest entries \<rparr>)))))"

definition read_index_sorted :: "index_sorted carM" where
  "read_index_sorted =
    bindM (ioM (read_le 4)) (\<lambda>n_buckets.
    bindM (liftM (alloc_vec 40 (i32_as_usize n_buckets))) (\<lambda>_.
    repeatM (i32_iterations n_buckets) read_single_width_index))"

definition read_multihash_index_sorted :: "multihash_index_sorted carM" where
  "read_multihash_index_sorted =
    bindM (ioM (read_le 4)) (\<lambda>n_indexes.
    bindM (repeatM (i32_iterations n_indexes)
        (bindM (ioM (read_le 8)) (\<lambda>multihash_code.
         bindM read_index_sorted (\<lambda>index.
         retM (multihash_code, index))))) (\<lambda>indexes.
    retM (fold (\<lambda>(code, index). fmupd code index) indexes fmempty)))"

definition read_index :: "('c, 'm, 'z) car_env_scheme \<Rightarrow> car_index carM" where
  "read_index env =
    bindM (ioM (read_varint (decode_var env))) (\<lambda>index_type.
    if index_type = INDEX_SORTED_CODE then
      bindM read_index_sorted (\<lambda>index. retM (IndexSorted index))
    else if index_type = MULTIHASH_INDEX_SORTED_CODE then
      bindM read_multihash_index_sorted (\<lambda>index. retM (MultihashIndexSorted index))
    else errM (UnknownIndexError index_type))"

section \<open>Encodings\<close>

definition entry_bytes :: "index_entry \<Rightarrow> bytes" where
  "entry_bytes e = ie_digest e @ le_bytes 8 (ie_offset e)"

definition sw_bytes :: "single_width_index \<Rightarrow> bytes" where
  "sw_bytes i = le_bytes 4 (sw_width i) @ le_bytes 8 (sw_count i * sw_width i) @ concat (map entry_bytes (sw_entries i))"

definition sorted_bytes :: "index_sorted \<Rightarrow> bytes" where
  "sorted_bytes index = le_bytes 4 (length index) @ concat (map sw_bytes index)"

definition mh_entry_bytes :: "nat \<times> index_sorted \<Rightarrow> bytes" where
  "mh_entry_bytes = (\<lambda>(code, idx). le_bytes 8 code @ sorted_bytes idx)"

definition mh_bytes :: "multihash_index_sorted \<Rightarrow> bytes" where
  "mh_bytes index = le_bytes 4 (fcard (fmdom index)) @ concat (map mh_entry_bytes (sorted_list_of_fmap index))"

definition index_bytes :: "('c, 'm, 'z) car_env_scheme \<Rightarrow> car_index \<Rightarrow> bytes" where
  "index_bytes env index =
    (case index of
       IndexSorted idx \<Rightarrow> encode_var env INDEX_SORTED_CODE @ sorted_bytes idx
     | MultihashIndexSorted idx \<Rightarrow> encode_var env MULTIHASH_INDEX_SORTED_CODE @ mh_bytes idx)"

text \<open>
  An index that has a faithful encoding: widths agree with the digests, counts with the
  entries, entries are in the order of their digests, and all numbers fit their fields.
\<close>

definition entry_ok :: "nat \<Rightarrow> index_entry \<Rightarrow> bool" where
  "entry_ok width e \<longleftrightarrow> length (ie_digest e) + 8 = width \<and> ie_offset e < u64_bound"

definition sw_ok :: "single_width_index \<Rightarrow> bool" where
  "sw_ok i \<longleftrightarrow> 8 \<le> sw_width i \<and> sw_width i < u32_bound \<and> sw_count i = length (sw_entries i) \<and>
    sw_count i * sw_width i < u64_bound \<and> sw_count i * 32 \<le> ISIZE_MAX \<and>
    list_all (entry_ok (sw_width i)) (sw_entries i) \<and> sorted (map ie_digest (sw_entries i))"

definition sorted_ok :: "index_sorted \<Rightarrow> bool" where
  "sorted_ok index \<longleftrightarrow> length index < 2 ^ 31 \<and> list_all sw_ok index"

definition mh_ok :: "multihash_index_sorted \<Rightarrow> bool" where
  "mh_ok index \<longleftrightarrow> fcard (fmdom index) < 2 ^ 31 \<and>
    list_all (\<lambda>(code, idx). code < u64_bound \<and> sorted_ok idx) (sorted_list_of_fmap index)"

fun index_ok :: "car_index \<Rightarrow> bool" where
  "index_ok (IndexSorted idx) = sorted_ok idx"
| "index_ok (MultihashIndexSorted idx) = mh_ok idx"

lemma writes_foldM:
  assumes "\<And>x n. x \<in> set xs \<Longrightarrow> writes (f x n) (enc x) (n + length (enc x))"
  shows "writes (foldM f xs n) (concat (map enc xs)) (n + length (concat (map enc xs)))"
  using assms
proof (induction xs arbitrary: n)
  case Nil
  show ?case by (simp add: writes_retM)
next
  case (Cons x xs)
  then have "writes (f x n) (enc x) (n + length (enc x))"
    and "writes (foldM f xs (n + length (enc x))) (concat (map enc xs)) (n + length (enc x) + length (concat (map enc xs)))"
    by simp_all
  then have "writes (bindM (f x n) (foldM f xs)) (enc x @ concat (map enc xs))
      (n + length (enc x) + length (concat (map enc xs)))"
    by (rule writes_bindM)
  then show ?case
    by (simp add: add.assoc)
qed

lemma reads_repeatM:
  "(\<And>x. x \<in> set xs \<Longrightarrow> reads m (enc x) x) \<Longrightarrow> reads (repeatM (length xs) m) (concat (map enc xs)) xs"
proof (induction xs)
  case Nil
  show ?case by (simp add: reads_retM)
next
  case (Cons x xs)
  have "reads (bindM (repeatM (length xs) m) (\<lambda>ys. retM (x # ys))) (concat (map enc xs)) (x # xs)"
    by (rule reads_bind_last, rule Cons.IH) (simp_all add: Cons.prems reads_retM)
  then show ?case
    unfolding length_Cons repeatM.simps list.map concat.simps
    by (rule reads_bindM [rotated]) (simp add: Cons.prems)
qed

lemma writes_add: "writes m bs n \<Longrightarrow> writes (bindM m (\<lambda>n. retM (k + n))) bs (k + n)"
  by (rule writes_bind_last, assumption, rule writes_retM)

lemma writes_write_index_entry: "writes (write_index_entry e) (entry_bytes e) (length (entry_bytes e))"
  unfolding write_index_entry_def entry_bytes_def
  apply (rule writes_bindM, rule writes_write_all)
  apply (rule writes_bind_last, rule writes_write_le)
  by (rule writes_retI) simp

lemma writes_write_single_width_index:
  assumes "sw_count i * sw_width i < u64_bound"
  shows "writes (write_single_width_index i) (sw_bytes i) (length (sw_bytes i))"
proof -
  have loop: "writes (foldM (\<lambda>e n. bindM (write_index_entry e) (\<lambda>k. retM (n + k))) (sw_entries i) (4 + 8))
      (concat (map entry_bytes (sw_entries i))) (4 + 8 + length (concat (map entry_bytes (sw_entries i))))"
    by (rule writes_foldM, rule writes_add, rule writes_write_index_entry)
  show ?thesis
    unfolding write_single_width_index_def sw_bytes_def
    apply (rule writes_bindM, rule writes_write_le)
    apply (rule writes_bind_liftM, simp add: mul_u_def assms)
    apply (rule writes_bindM, rule writes_write_le)
    using loop by simp
qed

lemma writes_write_index_sorted:
  assumes "sorted_ok index"
  shows "writes (write_index_sorted index) (sorted_bytes index) (length (sorted_bytes index))"
proof -
  have "writes (foldM (\<lambda>i n. bindM (write_single_width_index i) (\<lambda>k. retM (n + k))) index 4)
      (concat (map sw_bytes index)) (4 + length (concat (map sw_bytes index)))"
    using assms
    by (intro writes_foldM writes_add writes_write_single_width_index)
      (auto simp: sorted_ok_def sw_ok_def list_all_iff)
  then show ?thesis
    unfolding write_index_sorted_def sorted_bytes_def
    by (intro writes_bindM [OF writes_write_le]) simp
qed

lemma writes_write_multihash_index_sorted:
  assumes "mh_ok index"
  shows "writes (write_multihash_index_sorted index) (mh_bytes index) (length (mh_bytes index))"
proof -
  have "writes (foldM (\<lambda>(hash_code, idx) written. bindM (write_le 8 hash_code) (\<lambda>_.
          bindM (write_index_sorted idx) (\<lambda>n. retM (written + 8 + n)))) (sorted_list_of_fmap index) 4)
      (concat (map mh_entry_bytes (sorted_list_of_fmap index)))
      (4 + length (concat (map mh_entry_bytes (sorted_list_of_fmap index))))"
  proof (rule writes_foldM)
    fix x n
    assume "x \<in> set (sorted_list_of_fmap index)"
    then obtain code idx where x: "x = (code, idx)" and ok: "sorted_ok idx"
      using assms by (cases x) (auto simp: mh_ok_def list_all_iff)
    have "writes (bindM (write_le 8 code) (\<lambda>_. bindM (write_index_sorted idx) (\<lambda>k. retM (n + 8 + k))))
        (le_bytes 8 code @ sorted_bytes idx) (n + 8 + length (sorted_bytes idx))"
      by (rule writes_bindM, rule writes_write_le, rule writes_add, rule writes_write_index_sorted, rule ok)
    then show "writes ((case x of (hash_code, idx) \<Rightarrow> \<lambda>written. bindM (write_le 8 hash_code) (\<lambda>_.
          bindM (write_index_sorted idx) (\<lambda>n. retM (written + 8 + n)))) n) (mh_entry_bytes x) (n + length (mh_entry_bytes x))"
      by (simp add: x mh_entry_bytes_def add.assoc)
  qed
  then show ?thesis
    unfolding write_multihash_index_sorted_def mh_bytes_def
    by (intro writes_bindM [OF writes_write_le]) simp
qed

lemma reads_read_index_entry:
  assumes "entry_ok width e" and "width - 8 \<le> ISIZE_MAX"
  shows "reads (read_index_entry (width - 8)) (entry_bytes e) e"
  unfolding read_index_entry_def entry_bytes_def
  apply (rule reads_bind_liftM, simp add: alloc_vec_def assms)
  apply (rule reads_bindM, rule reads_map_errM, rule reads_read_exact, use assms in \<open>auto simp: entry_ok_def\<close>)
  apply (rule reads_bind_last, rule reads_ioM_le, use assms in \<open>simp add: entry_ok_def u64_bound_def\<close>)
  by (rule reads_retI) simp

lemma reads_read_single_width_index:
  assumes ok: "sw_ok i"
  shows "reads read_single_width_index (sw_bytes i) i"
proof -
  have fields: "sw_width i < 256 ^ 4" "sw_count i * sw_width i < 256 ^ 8"
    and width: "8 \<le> sw_width i" "sw_width i - 8 \<le> ISIZE_MAX"
    and entries: "\<And>e. e \<in> set (sw_entries i) \<Longrightarrow> entry_ok (sw_width i) e"
    using ok by (auto simp: sw_ok_def u32_bound_def u64_bound_def ISIZE_MAX_def list_all_iff)
  have loop: "reads (repeatM (length (sw_entries i)) (bindM (liftM (sub_u (sw_width i) 8)) read_index_entry))
      (concat (map entry_bytes (sw_entries i))) (sw_entries i)"
    by (rule reads_repeatM, rule reads_bind_liftM, simp add: sub_u_def width)
      (rule reads_read_index_entry, erule entries, rule width)
  have order: "sort_key ie_digest (sw_entries i) = sw_entries i"
    using ok by (simp add: sw_ok_def sort_key_id_if_sorted)
  show ?thesis
    unfolding read_single_width_index_def sw_bytes_def
    apply (rule reads_bindM, rule reads_ioM_le, rule fields)
    apply (rule reads_bindM, rule reads_ioM_le, rule fields)
    apply (rule reads_bind_liftM [where a = "length (sw_entries i)"])
     apply (use ok width in \<open>simp add: div_u_def sw_ok_def\<close>)
    apply (rule reads_bind_liftM, use ok in \<open>simp add: alloc_vec_def sw_ok_def\<close>)
    apply (rule reads_bind_last, rule loop, rule reads_retI)
    using ok order by (simp add: sw_ok_def)
qed

lemma reads_read_index_sorted:
  assumes "sorted_ok index"
  shows "reads read_index_sorted (sorted_bytes index) index"
proof -
  have count: "length index < 256 ^ 4" "length index < 2 ^ 31"
    using assms by (simp_all add: sorted_ok_def)
  have loop: "reads (repeatM (length index) read_single_width_index) (concat (map sw_bytes index)) index"
    by (rule reads_repeatM, rule reads_read_single_width_index)
      (use assms in \<open>simp add: sorted_ok_def list_all_iff\<close>)
  show ?thesis
    unfolding read_index_sorted_def sorted_bytes_def
    apply (rule reads_bindM, rule reads_ioM_le, rule count)
    apply (rule reads_bind_liftM, use count in \<open>simp add: alloc_vec_def i32_as_usize_def ISIZE_MAX_def\<close>)
    using loop count by (simp add: i32_iterations_def)
qed

lemma fold_fmupd_sorted_list_of_fmap: "fold (\<lambda>(k, v). fmupd k v) (sorted_list_of_fmap m) fmempty = m"
proof -
  have "fmlookup (fold (\<lambda>(k, v). fmupd k v) xs m0) k =
      (case map_of (rev xs) k of None \<Rightarrow> fmlookup m0 k | Some v \<Rightarrow> Some v)" for xs :: "('a \<times> 'b) list" and m0 k
    by (induction xs arbitrary: m0) (auto simp: map_add_def split: option.splits)
  moreover have "map_of (rev (sorted_list_of_fmap m)) = map_of (sorted_list_of_fmap m)"
    by (rule map_of_eqI) (auto simp: rev_map [symmetric])
  ultimately show ?thesis
    by (intro fmap_ext) (simp split: option.splits)
qed

lemma sorted_list_of_fmap_single [simp]: "sorted_list_of_fmap (fmupd k v fmempty) = [(k, v)]"
  by (simp add: sorted_list_of_fmap_def sorted_list_of_fset.rep_eq)

lemma reads_read_multihash_index_sorted:
  assumes "mh_ok index"
  shows "reads read_multihash_index_sorted (mh_bytes index) index"
proof -
  let ?xs = "sorted_list_of_fmap index"
  have len: "length ?xs = fcard (fmdom index)"
    by (metis length_map length_sorted_list_of_fset map_fst_sorted_list_of_fmap)
  have count: "length ?xs < 256 ^ 4" "length ?xs < 2 ^ 31"
    using assms len by (simp_all add: mh_ok_def)
  have loop: "reads (repeatM (length ?xs) (bindM (ioM (read_le 8)) (\<lambda>multihash_code.
         bindM read_index_sorted (\<lambda>index. retM (multihash_code, index))))) (concat (map mh_entry_bytes ?xs)) ?xs"
  proof (rule reads_repeatM)
    fix x
    assume "x \<in> set ?xs"
    then obtain code idx where x: "x = (code, idx)" and ok: "code < 256 ^ 8" "sorted_ok idx"
      using assms by (cases x) (auto simp: mh_ok_def list_all_iff u64_bound_def)
    show "reads (bindM (ioM (read_le 8)) (\<lambda>multihash_code.
         bindM read_index_sorted (\<lambda>index. retM (multihash_code, index)))) (mh_entry_bytes x) x"
      unfolding x mh_entry_bytes_def prod.case
      apply (rule reads_bindM, rule reads_ioM_le, rule ok)
      apply (rule reads_bind_last, rule reads_read_index_sorted, rule ok)
      by (rule reads_retM)
  qed
  show ?thesis
    unfolding read_multihash_index_sorted_def mh_bytes_def len [symmetric]
    apply (rule reads_bindM, rule reads_ioM_le, rule count)
    apply (rule reads_bind_last)
     apply (use loop count in \<open>simp add: i32_iterations_def\<close>)
    by (rule reads_retI, rule fold_fmupd_sorted_list_of_fmap)
qed

text \<open>Writing an index and reading it back, for every codec of variable-length integers.\<close>

context varint_codec
begin

lemma writes_write_index:
  assumes "encode_var = Car.encode_var env" and "index_ok index"
  shows "writes (write_index env index) (index_bytes env index) (length (index_bytes env index))"
proof (cases index)
  case (IndexSorted idx)
  have "writes (write_index env index) (encode_var INDEX_SORTED_CODE @ sorted_bytes idx)
      (length (encode_var INDEX_SORTED_CODE) + length (sorted_bytes idx))"
    unfolding write_index_def IndexSorted car_index.case assms(1) [symmetric]
    apply (rule writes_bindM, rule writes_map_errM, rule writes_write_varint)
    apply (rule writes_add, rule writes_write_index_sorted)
    using assms(2) IndexSorted by simp
  then show ?thesis
    by (simp add: index_bytes_def IndexSorted assms(1))
next
  case (MultihashIndexSorted idx)
  have "writes (write_index env index) (encode_var MULTIHASH_INDEX_SORTED_CODE @ mh_bytes idx)
      (length (encode_var MULTIHASH_INDEX_SORTED_CODE) + length (mh_bytes idx))"
    unfolding write_index_def MultihashIndexSorted car_index.case assms(1) [symmetric]
    apply (rule writes_bindM, rule writes_map_errM, rule writes_write_varint)
    apply (rule writes_add, rule writes_write_multihash_index_sorted)
    using assms(2) MultihashIndexSorted by simp
  then show ?thesis
    by (simp add: index_bytes_def MultihashIndexSorted assms(1))
qed

lemma reads_read_index:
  assumes "encode_var = Car.encode_var env" and "decode_var = Car.decode_var env" and "index_ok index"
  shows "reads (read_index env) (index_bytes env index) index"
proof (cases index)
  case (IndexSorted idx)
  show ?thesis
    unfolding read_index_def index_bytes_def IndexSorted car_index.case assms(1,2) [symmetric]
    apply (rule reads_bindM, rule reads_map_errM, rule reads_read_varint, simp add: INDEX_SORTED_CODE_def u64_bound_def)
    using assms(3) IndexSorted
    by (simp add: reads_bind_last [OF reads_read_index_sorted] reads_retM)
next
  case (MultihashIndexSorted idx)
  show ?thesis
    unfolding read_index_def index_bytes_def MultihashIndexSorted car_index.case assms(1,2) [symmetric]
    apply (rule reads_bindM, rule reads_map_errM, rule reads_read_varint,
        simp add: MULTIHASH_INDEX_SORTED_CODE_def u64_bound_def)
    using assms(3) MultihashIndexSorted
    by (simp add: reads_bind_last [OF reads_read_multihash_index_sorted] reads_retM
        INDEX_SORTED_CODE_def MULTIHASH_INDEX_SORTED_CODE_def)
qed

end

end
