(* ===== verification/Stores.thy ===== *)
theory Stores
  imports Unixfs CarIndex
begin

text \<open>
  The stores of \<^verbatim>\<open>src/mater/lib/src/stores\<close>, which turn a source of bytes into a CARv2 file:
  the file store writes placeholders, the blocks and the index, and then goes back to the
  start to fill in the headers; the block store collects the blocks first and computes the
  headers from their sizes. The reader side is that of \<^verbatim>\<open>v2/reader.rs\<close> on whole files:
  verification of the root and extraction of the contents.

  A source is the list of results of its successive reads; an empty read is the end.
\<close>

section \<open>File store\<close>

fun chunker :: "nat \<Rightarrow> bytes \<Rightarrow> (io_error + bytes) list \<Rightarrow> (io_error + bytes) list" where
  "chunker chunk_size buf [] = (if buf = [] then [] else [Inr buf])"
| "chunker chunk_size buf (Inl e # inputs) = [Inl e]"
| "chunker chunk_size buf (Inr bs # inputs) =
    (if bs = [] then (if buf = [] then [] else [Inr buf])
     else if chunk_size \<le> length (buf @ bs)
     then Inr (take chunk_size (buf @ bs)) # chunker chunk_size (drop chunk_size (buf @ bs)) inputs
     else chunker chunk_size (buf @ bs) inputs)"

definition write_node ::
  "('c, 'm, 'z) car_env_scheme \<Rightarrow> nat \<Rightarrow> 'c block_data \<Rightarrow> nat \<times> index_entry list \<Rightarrow> (nat \<times> index_entry list) carM" where
  "write_node env car_v1_start = (\<lambda>(node_cid, node_bytes) (position, entries).
    bindM (liftM (sub_u position car_v1_start)) (\<lambda>offset.
    let entry = \<lparr> ie_digest = cid_digest env node_cid, ie_offset = offset \<rparr> in
    bindM (write_block env node_cid node_bytes) (\<lambda>n.
    bindM (liftM (add_u u64_bound position n)) (\<lambda>position.
    retM (position, entries @ [entry])))))"

definition sha256_index :: "index_entry list \<Rightarrow> nat \<Rightarrow> (car_error, car_index) res" where
  "sha256_index entries count =
    res_bind (sw_new 32 count entries) (\<lambda>single_width_index.
    Ok (MultihashIndexSorted (mh_from_single_width SHA_256_CODE [single_width_index])))"

definition balanced_import ::
  "('c, 'm, 'z) unixfs_env_scheme \<Rightarrow> (io_error + bytes) list \<Rightarrow> nat \<Rightarrow> nat \<Rightarrow> 'c carM" where
  "balanced_import env source chunk_size tree_width =
    (case stream_balanced_tree env tree_width (chunker chunk_size [] source) [] of
       (streamed, nodes) \<Rightarrow>
         bindM (write_v2_header v2_header_default) (\<lambda>car_v1_start.
         bindM (liftM (v1_header_default env)) (\<lambda>placeholder_header_v1.
         bindM (write_v1_header env placeholder_header_v1) (\<lambda>n.
         bindM (liftM (add_u u64_bound car_v1_start n)) (\<lambda>position.
         bindM (foldM (write_node env car_v1_start) nodes (position, [])) (\<lambda>(index_offset, entries).
         bindM (liftM streamed) (\<lambda>_.
         if nodes = [] then errM EmptyRootsError
         else
           let root = fst (last nodes) in
           bindM (liftM (sha256_index entries (length entries))) (\<lambda>index.
           bindM (write_index env index) (\<lambda>_.
           bindM rewind (\<lambda>_.
           bindM (liftM (sub_u index_offset car_v1_start)) (\<lambda>data_size.
           bindM (write_v2_header (v2_header_new False car_v1_start data_size index_offset)) (\<lambda>_.
           bindM (write_v1_header env (v1_header_new [root])) (\<lambda>_.
           retM root)))))))))))))"

definition DEFAULT_BLOCK_SIZE :: nat where "DEFAULT_BLOCK_SIZE = 1024 * 256"
definition DEFAULT_TREE_WIDTH :: nat where "DEFAULT_TREE_WIDTH = 174"

datatype store_config = Balanced nat nat

definition config_default :: store_config where
  "config_default = Balanced DEFAULT_BLOCK_SIZE DEFAULT_TREE_WIDTH"

fun create_filestore ::
  "('c, 'm, 'z) unixfs_env_scheme \<Rightarrow> (io_error + bytes) list \<Rightarrow> store_config \<Rightarrow> 'c carM" where
  "create_filestore env source (Balanced chunk_size tree_width) = balanced_import env source chunk_size tree_width"

section \<open>Block store\<close>

definition V1_HEADER_OVERHEAD :: nat where "V1_HEADER_OVERHEAD = 58"

text \<open>The blocks keep the order of their insertion and have distinct identifiers.\<close>

record 'c blockstore =
  bs_root :: "'c option"
  bs_blocks :: "'c block_data list"
  bs_indexed :: "'c fset"
  bs_chunk_size :: nat
  bs_tree_width :: nat

definition blockstore_with_parameters :: "nat option \<Rightarrow> nat option \<Rightarrow> 'c blockstore" where
  "blockstore_with_parameters chunk_size tree_width =
    \<lparr> bs_root = None, bs_blocks = [], bs_indexed = {||},
      bs_chunk_size = (case chunk_size of None \<Rightarrow> DEFAULT_BLOCK_SIZE | Some n \<Rightarrow> n),
      bs_tree_width = (case tree_width of None \<Rightarrow> DEFAULT_TREE_WIDTH | Some n \<Rightarrow> n) \<rparr>"

definition blockstore_insert :: "'c \<Rightarrow> bytes \<Rightarrow> bool \<Rightarrow> 'c blockstore \<Rightarrow> 'c blockstore" where
  "blockstore_insert cid data index bs =
    (if cid \<in> fst ` set (bs_blocks bs) then bs
     else bs\<lparr> bs_blocks := bs_blocks bs @ [(cid, data)],
       bs_indexed := (if index then finsert cid (bs_indexed bs) else bs_indexed bs) \<rparr>)"

text \<open>The chunks are those that the reader of the stream delivers.\<close>

definition blockstore_read ::
  "('c, 'm, 'z) unixfs_env_scheme \<Rightarrow> (io_error + bytes) list \<Rightarrow> ('c blockstore, car_error, unit) stM" where
  "blockstore_read env chunks = (\<lambda>bs.
    case stream_balanced_tree env (bs_tree_width bs) chunks [] of
      (streamed, nodes) \<Rightarrow>
        let bs' = fold (\<lambda>(cid, data). blockstore_insert cid data True) nodes bs in
        (streamed, if streamed = Ok () \<and> nodes \<noteq> [] then bs'\<lparr> bs_root := Some (fst (last nodes)) \<rparr> else bs'))"

definition blockstore_header_v2 :: "('c, 'm, 'z) car_env_scheme \<Rightarrow> 'c blockstore \<Rightarrow> (car_error, v2_header) res" where
  "blockstore_header_v2 env bs =
    res_bind (sum_u64 (map (\<lambda>(cid, data). let n = cid_encoded_len env cid + length data in n + length (encode_var env n))
      (bs_blocks bs))) (\<lambda>data_size.
    res_bind (add_u u64_bound (V1_HEADER_OVERHEAD + length (encode_var env V1_HEADER_OVERHEAD)) data_size)
      (\<lambda>car_v1_payload_length.
    res_bind (add_u u64_bound V2_HEADER_SIZE car_v1_payload_length) (\<lambda>index_offset.
    Ok (v2_header_new False V2_HEADER_SIZE car_v1_payload_length index_offset))))"

text \<open>
  The offsets are kept in a hash map, whose order of iteration is the parameter \<open>order\<close>: a
  permutation of the entries.
\<close>

definition blockstore_write_block ::
  "('c, 'm, 'z) car_env_scheme \<Rightarrow> 'c blockstore \<Rightarrow> nat \<Rightarrow> 'c block_data \<Rightarrow> nat \<times> ('c \<times> nat) list
    \<Rightarrow> (nat \<times> ('c \<times> nat) list) carM" where
  "blockstore_write_block env bs car_v1_start = (\<lambda>(cid, block) (position, offsets).
    bindM (liftM (sub_u position car_v1_start)) (\<lambda>offset.
    let offsets = (if cid |\<in>| bs_indexed bs then offsets @ [(cid, offset)] else offsets) in
    bindM (write_block env cid block) (\<lambda>n.
    bindM (liftM (add_u u64_bound position n)) (\<lambda>position.
    retM (position, offsets)))))"

definition blockstore_write ::
  "('c, 'm, 'z) car_env_scheme \<Rightarrow> (('c \<times> nat) list \<Rightarrow> ('c \<times> nat) list) \<Rightarrow> 'c blockstore \<Rightarrow> nat carM" where
  "blockstore_write env order bs =
    bindM (liftM (blockstore_header_v2 env bs)) (\<lambda>header_v2.
    bindM (write_v2_header header_v2) (\<lambda>car_v1_start.
    bindM (liftM (ok_or EmptyRootsError (map_option (\<lambda>root. v1_header_new [root]) (bs_root bs)))) (\<lambda>header_v1.
    bindM (write_v1_header env header_v1) (\<lambda>n.
    bindM (liftM (add_u u64_bound car_v1_start n)) (\<lambda>position.
    bindM (foldM (blockstore_write_block env bs car_v1_start) (bs_blocks bs) (position, [])) (\<lambda>(position, offsets).
    let entries = map (\<lambda>(cid, offset). \<lparr> ie_digest = cid_digest env cid, ie_offset = offset \<rparr>) (order offsets) in
    bindM (liftM (sha256_index entries (length offsets))) (\<lambda>index.
    bindM (write_index env index) (\<lambda>n.
    liftM (add_u u64_bound position n)))))))))"

section \<open>Reading a file\<close>

text \<open>Reading a block consumes input, so that the loops of the reader end.\<close>

lemma varint_loop_consumes:
  "varint_loop p bs = (Ok q, n) \<Longrightarrow> n \<le> length bs \<and> (\<not> vp_finished p \<longrightarrow> vp_i p = 0 \<longrightarrow> 0 < n)"
proof (induction p bs arbitrary: q n rule: varint_loop.induct)
  case (2 p b bs)
  show ?case
  proof (cases "vp_finished p")
    case False
    then obtain p' k where "vp_push b p = Ok p'" and "varint_loop p' bs = (Ok q, k)" and "n = Suc k"
      using 2(2) by (auto split: res.splits prod.splits)
    then show ?thesis
      using 2(1) [OF False] by auto
  qed (use 2(2) in auto)
qed (auto split: if_splits)

lemma read_varint_consumes:
  assumes "read_varint dec s = (Ok n, t)"
  obtains k where "0 < k" and "k \<le> length (remaining s)" and "t = skip k s"
proof -
  obtain r k where loop: "varint_loop vp_new (remaining s) = (r, k)"
    by (cases "varint_loop vp_new (remaining s)")
  then obtain p where "r = Ok p" "t = skip k s"
    using assms by (cases r) (auto simp: read_varint_def)
  then show thesis
    using that [of k] varint_loop_consumes [of vp_new "remaining s" p k] loop
    by (simp add: vp_new_def vp_finished_def)
qed

lemma read_block_consumes:
  assumes "read_block env s = (Ok (cid, data), t)"
  shows "length (remaining t) < length (remaining s)"
proof -
  obtain n u buf where head: "read_varint (decode_var env) s = (Ok n, u)" and body: "read_exact n u = (Ok buf, t)"
    using assms by (auto simp: read_block_def ok_iff)
  obtain k where "0 < k" "k \<le> length (remaining s)" "u = skip k s"
    using read_varint_consumes [OF head] by blast
  then show ?thesis
    using body by (auto simp: read_exact_def split: if_splits)
qed

function last_block :: "('c, 'm, 'z) car_env_scheme \<Rightarrow> 'c \<Rightarrow> 'c carM" where
  "last_block env cid_sum s =
    (case read_block env s of
       (Ok (cid, contents), t) \<Rightarrow> last_block env cid t
     | (Err e, t) \<Rightarrow> (Ok cid_sum, t)
     | (Panic, t) \<Rightarrow> (Panic, t))"
  by pat_completeness auto
termination
  by (relation "measure (\<lambda>(env, cid, s). length (remaining s))") (auto dest: read_block_consumes [OF sym])

declare last_block.simps [simp del]

definition verify_cid :: "('c, 'm, 'z) car_env_scheme \<Rightarrow> 'c \<Rightarrow> unit carM" where
  "verify_cid env contents_cid =
    bindM read_pragma (\<lambda>_.
    bindM read_v2_header (\<lambda>_.
    bindM (read_v1_header env) (\<lambda>v1_header.
    if h1_roots v1_header \<noteq> [contents_cid] then errM InvalidCid
    else
      bindM (last_block env (cid_default env)) (\<lambda>cid_sum.
      if cid_sum = contents_cid then retM () else errM InvalidCid))))"

text \<open>The output is a writer that takes all the bytes it is given.\<close>

function extract_blocks :: "('c, 'm, 'z) car_env_scheme \<Rightarrow> v2_header \<Rightarrow> bytes \<Rightarrow> bytes carM" where
  "extract_blocks env header written s =
    (case read_block env s of
       (Ok (cid, contents), t) \<Rightarrow>
         if contents = [] then (Ok written, t)
         else
           (case (add_u u64_bound (h2_data_offset header) (h2_data_size header) :: (car_error, nat) res) of
              Ok data_end \<Rightarrow>
                if data_end \<le> st_pos t \<and> written \<noteq> [] then (Ok written, t)
                else extract_blocks env header (written @ contents) t
            | _ \<Rightarrow> (Panic, t))
     | (Err e, t) \<Rightarrow> (Ok written, t)
     | (Panic, t) \<Rightarrow> (Panic, t))"
  by pat_completeness auto
termination
  by (relation "measure (\<lambda>(env, header, written, s). length (remaining s))") (auto dest: read_block_consumes [OF sym])

declare extract_blocks.simps [simp del]

definition extract_content :: "('c, 'm, 'z) car_env_scheme \<Rightarrow> bytes carM" where
  "extract_content env =
    bindM read_pragma (\<lambda>_.
    bindM read_v2_header (\<lambda>header.
    bindM (read_v1_header env) (\<lambda>_.
    extract_blocks env header [])))"

end
