(* ===== verification/Unixfs_Props.thy ===== *)
theory Unixfs_Props
  imports Unixfs
begin

text \<open>
  The stream of blocks against the tree that is built. The simulation relates the levels of
  links in the stream with levels of trees; the yielded blocks are always those of the
  trees in the levels, from the top level down.
\<close>

section \<open>Shape of the tree\<close>

primrec full :: "nat \<Rightarrow> nat \<Rightarrow> file_tree \<Rightarrow> bool" where
  "full w 0 t = (case t of FLeaf _ \<Rightarrow> True | FStem _ \<Rightarrow> False)"
| "full w (Suc h) t = (case t of FLeaf _ \<Rightarrow> False | FStem ts \<Rightarrow> length ts = w \<and> (\<forall>t \<in> set ts. full w h t))"

text \<open>
  A balanced tree of height \<open>h\<close>: every leaf has depth \<open>h\<close>, no node has more than \<open>w\<close> children,
  and only nodes on the right edge have fewer.
\<close>

primrec balanced :: "nat \<Rightarrow> nat \<Rightarrow> file_tree \<Rightarrow> bool" where
  "balanced w 0 t = (case t of FLeaf _ \<Rightarrow> True | FStem _ \<Rightarrow> False)"
| "balanced w (Suc h) t =
    (case t of
       FLeaf _ \<Rightarrow> False
     | FStem ts \<Rightarrow> ts \<noteq> [] \<and> length ts \<le> w \<and> (\<forall>t \<in> set (butlast ts). full w h t) \<and> balanced w h (last ts))"

lemma full_balanced: "0 < w \<Longrightarrow> full w h t \<Longrightarrow> balanced w h t"
proof (induction h arbitrary: t)
  case (Suc h)
  then show ?case
    by (cases t) (auto dest: in_set_butlastD)
qed simp

primrec levels_ok :: "nat \<Rightarrow> nat \<Rightarrow> file_tree list list \<Rightarrow> bool" where
  "levels_ok w h [] \<longleftrightarrow> True"
| "levels_ok w h (ts # rest) \<longleftrightarrow> (\<forall>t \<in> set ts. full w h t) \<and> length ts < w \<and> levels_ok w (Suc h) rest"

definition level_leaves :: "file_tree list list \<Rightarrow> bytes list" where
  "level_leaves levels = concat (map leaves (concat (rev levels)))"

lemma level_leaves_Cons: "level_leaves (ts # rest) = level_leaves rest @ concat (map leaves ts)"
  by (simp add: level_leaves_def)

lemma trim_layout_not_Nil [simp]: "trim_layout w levels = [] \<longleftrightarrow> levels = []"
  by (cases "(w, levels)" rule: trim_layout.cases) auto

lemma trim_layout_leaves [simp]: "level_leaves (trim_layout w levels) = level_leaves levels"
  by (induction w levels rule: trim_layout.induct) (auto simp: level_leaves_Cons level_leaves_def)

lemma trim_layout_ok:
  "2 \<le> w \<Longrightarrow> \<forall>t \<in> set ts. full w h t \<Longrightarrow> length ts \<le> w \<Longrightarrow> levels_ok w (Suc h) rest \<Longrightarrow>
    levels_ok w h (trim_layout w (ts # rest))"
proof (induction rest arbitrary: ts h)
  case (Cons up rest)
  have "levels_ok w (Suc h) (trim_layout w ((up @ [FStem ts]) # rest))" if "length ts = w"
    using Cons.prems that by (intro Cons.IH) auto
  then show ?case
    using Cons.prems by auto
qed auto

lemma trim_layout_last: "0 < w \<Longrightarrow> last levels \<noteq> [] \<Longrightarrow> levels \<noteq> [] \<Longrightarrow> last (trim_layout w levels) \<noteq> []"
  by (induction w levels rule: trim_layout.induct) (auto split: if_splits)

text \<open>The levels while chunks arrive: the lowest may be full, the highest is not empty.\<close>

definition growing :: "nat \<Rightarrow> file_tree list list \<Rightarrow> bool" where
  "growing w levels \<longleftrightarrow> levels \<noteq> [] \<and> hd levels \<noteq> [] \<and> last levels \<noteq> [] \<and> length (hd levels) \<le> w \<and>
    (\<forall>t \<in> set (hd levels). full w 0 t) \<and> levels_ok w 1 (tl levels)"

lemma add_leaf_leaves:
  "levels \<noteq> [] \<Longrightarrow> level_leaves (add_leaf w bs levels) = level_leaves levels @ [bs]"
proof -
  have "level_leaves ((hd ls @ [FLeaf bs]) # tl ls) = level_leaves ls @ [bs]" if "ls \<noteq> []" for ls
    using that by (cases ls) (simp_all add: level_leaves_Cons)
  then show "levels \<noteq> [] \<Longrightarrow> ?thesis"
    by (simp add: add_leaf_def Let_def)
qed

lemma add_leaf_growing:
  assumes "2 \<le> w" and "growing w levels \<or> levels = [[]]"
  shows "growing w (add_leaf w bs levels)"
proof -
  define ls where "ls = (if length (hd levels) = w then trim_layout w levels else levels)"
  obtain ts rest where levels: "levels = ts # rest"
    using assms(2) by (cases levels) (auto simp: growing_def)
  have "levels_ok w 0 ls"
    using assms trim_layout_ok [of w ts 0 rest] by (auto simp: ls_def levels growing_def)
  moreover have "ls \<noteq> []" "length ls = 1 \<or> last ls \<noteq> []"
    using assms trim_layout_last [of w levels] by (auto simp: ls_def levels growing_def)
  ultimately show ?thesis
    unfolding add_leaf_def Let_def ls_def [symmetric] growing_def
    by (cases ls) (auto simp: last_ConsR split: if_splits)
qed

lemma fold_add_leaf:
  assumes "2 \<le> w" and "growing w levels \<or> levels = [[]]"
  shows "level_leaves (fold (add_leaf w) chunks levels) = level_leaves levels @ chunks \<and>
    (chunks \<noteq> [] \<longrightarrow> growing w (fold (add_leaf w) chunks levels))"
  using assms(2)
proof (induction chunks arbitrary: levels)
  case (Cons bs chunks)
  have "growing w (add_leaf w bs levels)"
    using assms(1) Cons.prems by (rule add_leaf_growing)
  moreover have "level_leaves (add_leaf w bs levels) = level_leaves levels @ [bs]"
    using Cons.prems by (intro add_leaf_leaves) (auto simp: growing_def)
  ultimately show ?case
    using Cons.IH [of "add_leaf w bs levels"] by (cases chunks) auto
qed simp

lemma close_layout_leaves: "levels \<noteq> [] \<Longrightarrow> leaves (close_layout levels) = level_leaves levels"
  by (induction levels rule: close_layout.induct) (auto simp: level_leaves_Cons level_leaves_def)

lemma close_layout_balanced:
  assumes "2 \<le> w" and "ts \<noteq> []" and "length ts \<le> w" and "\<forall>t \<in> set (butlast ts). full w h t"
    and "balanced w h (last ts)" and "levels_ok w (Suc h) rest"
    and "if rest = [] then 2 \<le> length ts else last rest \<noteq> []"
  shows "balanced w (Suc h + length rest) (close_layout (ts # rest)) \<and>
    (\<exists>us. close_layout (ts # rest) = FStem us \<and> 2 \<le> length us)"
  using assms(2-)
proof (induction rest arbitrary: ts h)
  case (Cons up rest)
  have "balanced w (Suc h) (FStem ts)"
    using Cons.prems by simp
  then show ?case
    using Cons.prems Cons.IH [of "up @ [FStem ts]" "Suc h"] by (cases up) (auto split: if_splits)
qed auto

lemma layout_shape:
  assumes "2 \<le> w"
  shows "leaves (layout w chunks) = chunks"
    and "2 \<le> length chunks \<Longrightarrow> \<exists>h us. balanced w (Suc h) (layout w chunks) \<and> layout w chunks = FStem us \<and> 2 \<le> length us"
proof -
  define levels where "levels = fold (add_leaf w) chunks [[]]"
  have l: "level_leaves levels = chunks" "chunks \<noteq> [] \<Longrightarrow> growing w levels"
    using fold_add_leaf [OF assms, of "[[]]" chunks] by (auto simp: levels_def level_leaves_def)
  have ne: "levels \<noteq> []"
    using l(2) by (cases "chunks = []") (auto simp: growing_def levels_def)
  obtain ts rest where ts: "levels = ts # rest"
    using ne by (cases levels) auto
  let ?single = "length levels = 1 \<and> length (hd levels) = 1"
  have layout: "layout w chunks = (if ?single then hd (hd levels) else close_layout levels)"
    by (simp add: layout_def levels_def Let_def)
  show "leaves (layout w chunks) = chunks"
    using l(1) close_layout_leaves [OF ne]
    by (cases ts) (auto simp: layout ts level_leaves_def)
  assume two: "2 \<le> length chunks"
  then have "chunks \<noteq> []"
    by auto
  then have grow: "growing w levels"
    by (rule l(2))
  then obtain t where "?single \<Longrightarrow> levels = [[FLeaf t]]"
    by (cases ts) (auto simp: growing_def ts split: file_tree.splits)
  then have many: "\<not> ?single"
    using l(1) two by (auto simp: level_leaves_def)
  have pair: "2 \<le> length ts" if "rest = []"
    using that grow many by (cases ts; cases "tl ts") (auto simp: growing_def ts)
  have first: "balanced w 0 (last ts)"
    using grow assms by (intro full_balanced) (simp_all add: growing_def ts)
  have "balanced w (Suc 0 + length rest) (close_layout (ts # rest)) \<and>
      (\<exists>us. close_layout (ts # rest) = FStem us \<and> 2 \<le> length us)"
    using grow pair first assms
    by (intro close_layout_balanced) (auto simp: growing_def ts dest: in_set_butlastD)
  then show "\<exists>h us. balanced w (Suc h) (layout w chunks) \<and> layout w chunks = FStem us \<and> 2 \<le> length us"
    using many by (auto simp: layout ts)
qed

section \<open>The stream builds the tree\<close>

text \<open>A link refers to a tree: it is what encoding the tree gives.\<close>

definition refers :: "('c, 'm, 'z) unixfs_env_scheme \<Rightarrow> 'c link \<Rightarrow> file_tree \<Rightarrow> bool" where
  "refers env l t \<longleftrightarrow> (\<exists>bs. tree_encode env t = Ok ((fst l, bs), snd l))"

abbreviation refer_all :: "('c, 'm, 'z) unixfs_env_scheme \<Rightarrow> 'c link list \<Rightarrow> file_tree list \<Rightarrow> bool" where
  "refer_all env \<equiv> list_all2 (refers env)"

definition encodable :: "('c, 'm, 'z) unixfs_env_scheme \<Rightarrow> file_tree \<Rightarrow> bool" where
  "encodable env t \<longleftrightarrow> (case tree_encode env t of Ok _ \<Rightarrow> True | _ \<Rightarrow> False)"

lemma encodable_iff: "encodable env t \<longleftrightarrow> (\<exists>b. tree_encode env t = Ok b)"
  by (simp add: encodable_def split: res.splits)

definition levels_encodable :: "('c, 'm, 'z) unixfs_env_scheme \<Rightarrow> file_tree list list \<Rightarrow> bool" where
  "levels_encodable env levels \<longleftrightarrow> (\<forall>ts \<in> set levels. \<forall>t \<in> set ts. encodable env t)"

definition level_blocks :: "('c, 'm, 'z) unixfs_env_scheme \<Rightarrow> file_tree list list \<Rightarrow> 'c block_data list" where
  "level_blocks env levels = concat (map (tree_blocks env) (concat (rev levels)))"

lemma level_blocks_Cons:
  "level_blocks env (ts # rest) = level_blocks env rest @ concat (map (tree_blocks env) ts)"
  by (simp add: level_blocks_def)

lemma collect_refer_all:
  "refer_all env links ts \<Longrightarrow>
    \<exists>bs. collect (map (tree_encode env) ts) = Ok bs \<and> map (\<lambda>(block, l). (fst block, l)) bs = links"
  by (induction links ts rule: list_all2_induct) (auto simp: refers_def)

lemma tree_encode_FStem:
  "refer_all env links ts \<Longrightarrow> tree_encode env (FStem ts) = node_encode env (Stem links)"
  using collect_refer_all by fastforce

lemma collect_Ok: "collect rs = Ok xs \<Longrightarrow> r \<in> set rs \<Longrightarrow> \<exists>x. r = Ok x"
  by (induction rs arbitrary: xs) (auto simp: ok_iff)

lemma encodable_child: "encodable env (FStem ts) \<Longrightarrow> t \<in> set ts \<Longrightarrow> encodable env t"
  by (auto simp: encodable_iff ok_iff dest!: collect_Ok)

lemma levels_encodable_Cons:
  "levels_encodable env (ts # rest) \<longleftrightarrow> (\<forall>t \<in> set ts. encodable env t) \<and> levels_encodable env rest"
  by (auto simp: levels_encodable_def)

lemma levels_encodable_Nil [simp]: "levels_encodable env []"
  by (simp add: levels_encodable_def)

lemma trim_layout_encodable: "levels_encodable env (trim_layout w levels) \<Longrightarrow> levels_encodable env levels"
  by (induction w levels rule: trim_layout.induct)
    (auto simp: levels_encodable_Cons dest: encodable_child split: if_splits)

lemma add_leaf_not_Nil [simp]: "add_leaf w bs levels \<noteq> []"
  by (simp add: add_leaf_def Let_def)

lemma add_leaf_encodable:
  assumes "levels_encodable env (add_leaf w bs levels)" and "levels \<noteq> []"
  shows "encodable env (FLeaf bs) \<and> levels_encodable env (if length (hd levels) = w then trim_layout w levels else levels)"
proof -
  define ls where "ls = (if length (hd levels) = w then trim_layout w levels else levels)"
  have "levels_encodable env ((hd ls @ [FLeaf bs]) # tl ls)"
    using assms(1) by (simp only: add_leaf_def Let_def ls_def)
  moreover have "ls \<noteq> []"
    using assms(2) by (simp add: ls_def)
  ultimately have "encodable env (FLeaf bs) \<and> levels_encodable env ls"
    by (cases ls) (simp_all add: levels_encodable_Cons)
  then show ?thesis
    by (simp only: ls_def)
qed

lemma fold_add_leaf_encodable:
  "levels \<noteq> [] \<Longrightarrow> levels_encodable env (fold (add_leaf w) chunks levels) \<Longrightarrow> levels_encodable env levels"
proof (induction chunks arbitrary: levels)
  case (Cons bs chunks)
  have "levels_encodable env (add_leaf w bs levels)"
    using Cons.prems by (intro Cons.IH [OF add_leaf_not_Nil]) simp
  from add_leaf_encodable [OF this Cons.prems(1)] show ?case
    by (cases "length (hd levels) = w") (simp_all add: trim_layout_encodable [where w = w])
qed simp

lemma close_layout_encodable: "encodable env (close_layout levels) \<Longrightarrow> levels_encodable env levels"
  by (induction levels rule: close_layout.induct) (auto simp: levels_encodable_Cons dest: encodable_child)

text \<open>One new stem: its block comes after those of its children.\<close>

lemma new_stem:
  assumes "refer_all env links ts" and "encodable env (FStem ts)"
  obtains block l where "node_encode env (Stem links) = Ok (block, l)"
    and "refers env (fst block, l) (FStem ts)"
    and "tree_blocks env (FStem ts) = concat (map (tree_blocks env) ts) @ [block]"
proof -
  from assms(2) obtain block l where "tree_encode env (FStem ts) = Ok (block, l)"
    by (auto simp: encodable_iff)
  then show thesis
    using that [of block l] tree_encode_FStem [OF assms(1)]
    by (cases block) (auto simp: refers_def own_block_def)
qed

lemma trim_levels_simulates:
  assumes "list_all2 (refer_all env) tree levels" and "levels_encodable env (trim_layout w levels)"
  shows "\<exists>tree'. trim_levels env w tree (level_blocks env levels) = (Ok tree', level_blocks env (trim_layout w levels)) \<and>
    list_all2 (refer_all env) tree' (trim_layout w levels)"
  using assms
proof (induction w levels arbitrary: tree rule: trim_layout.induct)
  case (1 w)
  then show ?case
    by (simp add: retM_def)
next
  case (2 w ts)
  then obtain links where tree: "tree = [links]" and links: "refer_all env links ts"
    by (auto simp: list_all2_Cons2)
  show ?case
  proof (cases "length ts < w")
    case True
    then show ?thesis
      using 2 links by (auto simp: tree retM_def dest: list_all2_lengthD)
  next
    case False
    then have "encodable env (FStem ts)"
      using 2 by (simp add: levels_encodable_Cons)
    then obtain block l where "node_encode env (Stem links) = Ok (block, l)"
      and "refers env (fst block, l) (FStem ts)"
      and "tree_blocks env (FStem ts) = concat (map (tree_blocks env) ts) @ [block]"
      by (rule new_stem [OF links])
    then show ?thesis
      using False list_all2_lengthD [OF links]
      by (auto simp: tree level_blocks_def bindM_def liftM_def yield_def modifyM_def retM_def)
  qed
next
  case (3 w ts up rest)
  then obtain links ups rests where tree: "tree = links # ups # rests" and links: "refer_all env links ts"
    and ups: "refer_all env ups up" and rests: "list_all2 (refer_all env) rests rest"
    by (auto simp: list_all2_Cons2)
  show ?case
  proof (cases "length ts < w")
    case True
    then show ?thesis
      using 3 list_all2_lengthD [OF links] by (auto simp: tree retM_def)
  next
    case False
    then have above: "levels_encodable env (trim_layout w ((up @ [FStem ts]) # rest))"
      using "3.prems"(2) by (simp add: levels_encodable_Cons)
    then have "encodable env (FStem ts)"
      using trim_layout_encodable [OF above] by (simp add: levels_encodable_Cons)
    then obtain block l where enc: "node_encode env (Stem links) = Ok (block, l)"
      and ref: "refers env (fst block, l) (FStem ts)"
      and blocks: "tree_blocks env (FStem ts) = concat (map (tree_blocks env) ts) @ [block]"
      by (rule new_stem [OF links])
    have "list_all2 (refer_all env) ((ups @ [(fst block, l)]) # rests) ((up @ [FStem ts]) # rest)"
      using ups rests ref by (simp add: list_all2_appendI)
    from "3.IH" [OF False this above]
    show ?thesis
      using False list_all2_lengthD [OF links] enc blocks
      by (auto simp: tree level_blocks_Cons bindM_def liftM_def yield_def modifyM_def retM_def)
  qed
qed

lemma add_chunk_simulates:
  assumes "list_all2 (refer_all env) tree levels" and "levels \<noteq> []" and "levels_encodable env (add_leaf w bs levels)"
  shows "\<exists>tree'. add_chunk env w (Inr bs) tree (level_blocks env levels) = (Ok tree', level_blocks env (add_leaf w bs levels)) \<and>
    list_all2 (refer_all env) tree' (add_leaf w bs levels)"
proof -
  define ls where "ls = (if length (hd levels) = w then trim_layout w levels else levels)"
  have len: "length (hd tree) = length (hd levels)"
    using assms(1,2) by (cases levels; cases tree) (auto dest: list_all2_lengthD)
  have "levels_encodable env ls"
    unfolding ls_def using add_leaf_encodable [OF assms(3,2)] by (rule conjunct2)
  then obtain tree' where trim: "(if length (hd tree) = w then trim_levels env w tree else retM tree) (level_blocks env levels) =
      (Ok tree', level_blocks env ls)" and rel: "list_all2 (refer_all env) tree' ls"
    using trim_levels_simulates [OF assms(1)] assms(1) len by (auto simp: ls_def retM_def split: if_splits)
  obtain block l where leaf: "node_encode env (Leaf bs) = Ok (block, l)"
    using add_leaf_encodable [OF assms(3,2)] by (auto simp: encodable_iff)
  then have ref: "refers env (fst block, l) (FLeaf bs)" and blocks: "tree_blocks env (FLeaf bs) = [block]"
    by (cases block; simp add: refers_def own_block_def)+
  have new: "add_leaf w bs levels = (hd ls @ [FLeaf bs]) # tl ls"
    by (simp add: add_leaf_def Let_def ls_def)
  have "ls \<noteq> []"
    using assms(2) by (simp add: ls_def)
  then have "level_blocks env (add_leaf w bs levels) = level_blocks env ls @ [block]"
    and "list_all2 (refer_all env) ((hd tree' @ [(fst block, l)]) # tl tree') (add_leaf w bs levels)"
    using rel ref blocks unfolding new
    by (cases ls; cases tree'; auto simp: level_blocks_Cons intro: list_all2_appendI)+
  moreover have "add_chunk env w (Inr bs) tree (level_blocks env levels) =
      (Ok ((hd tree' @ [(fst block, l)]) # tl tree'), level_blocks env ls @ [block])"
    using trim leaf by (simp add: add_chunk_def bindM_def liftM_def yield_def modifyM_def retM_def)
  ultimately show ?thesis
    by auto
qed

lemma add_chunks_simulate:
  assumes "list_all2 (refer_all env) tree levels" and "levels \<noteq> []"
    and "levels_encodable env (fold (add_leaf w) chunks levels)"
  shows "\<exists>tree'. foldM (add_chunk env w) (map Inr chunks) tree (level_blocks env levels) =
      (Ok tree', level_blocks env (fold (add_leaf w) chunks levels)) \<and>
    list_all2 (refer_all env) tree' (fold (add_leaf w) chunks levels)"
  using assms
proof (induction chunks arbitrary: tree levels)
  case (Cons bs chunks)
  have "levels_encodable env (add_leaf w bs levels)"
    using Cons.prems(3) by (intro fold_add_leaf_encodable [OF add_leaf_not_Nil]) simp
  from add_chunk_simulates [OF Cons.prems(1,2) this] obtain tree' where
    step: "add_chunk env w (Inr bs) tree (level_blocks env levels) = (Ok tree', level_blocks env (add_leaf w bs levels))"
    and rel: "list_all2 (refer_all env) tree' (add_leaf w bs levels)"
    by blast
  from Cons.IH [OF rel add_leaf_not_Nil] Cons.prems(3) show ?case
    by (simp add: bindM_def step)
qed (simp add: retM_def)

lemma clean_up_simulates:
  assumes "list_all2 (refer_all env) tree levels" and "levels \<noteq> []" and "encodable env (close_layout levels)"
  shows "clean_up env tree (level_blocks env levels) = (Ok (), tree_blocks env (close_layout levels))"
  using assms
proof (induction levels arbitrary: tree rule: close_layout.induct)
  case (2 ts)
  then obtain links where tree: "tree = [links]" and links: "refer_all env links ts"
    by (auto simp: list_all2_Cons2)
  obtain block l where "node_encode env (Stem links) = Ok (block, l)"
    and "tree_blocks env (FStem ts) = concat (map (tree_blocks env) ts) @ [block]"
    using new_stem [OF links] "2.prems"(3) by (metis close_layout.simps(2))
  then show ?case
    by (simp add: tree level_blocks_def bindM_def liftM_def yield_def modifyM_def)
next
  case (3 ts up rest)
  then obtain links ups rests where tree: "tree = links # ups # rests" and links: "refer_all env links ts"
    and ups: "refer_all env ups up" and rests: "list_all2 (refer_all env) rests rest"
    by (auto simp: list_all2_Cons2)
  have enc: "encodable env (close_layout ((up @ [FStem ts]) # rest))"
    using "3.prems"(3) by simp
  then have "encodable env (FStem ts)"
    using close_layout_encodable by (fastforce simp: levels_encodable_Cons)
  then obtain block l where node: "node_encode env (Stem links) = Ok (block, l)"
    and ref: "refers env (fst block, l) (FStem ts)"
    and blocks: "tree_blocks env (FStem ts) = concat (map (tree_blocks env) ts) @ [block]"
    by (rule new_stem [OF links])
  have "list_all2 (refer_all env) ((ups @ [(fst block, l)]) # rests) ((up @ [FStem ts]) # rest)"
    using ups rests ref by (simp add: list_all2_appendI)
  from "3.IH" [OF this _ enc] show ?case
    using node blocks by (simp add: tree level_blocks_Cons bindM_def liftM_def yield_def modifyM_def)
qed simp

lemma stream_balanced_tree_builds:
  assumes "encodable env (layout w chunks)"
  shows "stream_balanced_tree env w (map Inr chunks) [] = (Ok (), tree_blocks env (layout w chunks))"
proof -
  define levels where "levels = fold (add_leaf w) chunks [[]]"
  have "levels \<noteq> []"
    unfolding levels_def by (induction chunks rule: rev_induct) (simp_all add: add_leaf_def Let_def)
  let ?single = "length levels = 1 \<and> length (hd levels) = 1"
  have layout: "layout w chunks = (if ?single then hd (hd levels) else close_layout levels)"
    by (simp add: layout_def levels_def Let_def)
  have single: "levels = [[t]]" if "?single" "t = hd (hd levels)" for t
    using that by (cases levels; cases "hd levels") auto
  have "levels_encodable env levels"
  proof (cases ?single)
    case True
    then have "levels = [[layout w chunks]]"
      using single by (simp add: layout)
    then show ?thesis
      using assms by (simp add: levels_encodable_def)
  next
    case False
    then have "layout w chunks = close_layout levels"
      unfolding layout by (rule if_not_P)
    then show ?thesis
      using assms by (intro close_layout_encodable) simp
  qed
  then obtain tree where run: "foldM (add_chunk env w) (map Inr chunks) [[]] [] = (Ok tree, level_blocks env levels)"
    and rel: "list_all2 (refer_all env) tree levels"
    using add_chunks_simulate [of env "[[]]" "[[]]" w chunks] by (auto simp: levels_def level_blocks_def)
  have len: "length tree = length levels" "length (hd tree) = length (hd levels)"
    using rel \<open>levels \<noteq> []\<close> by (cases levels; cases tree; auto dest: list_all2_lengthD)+
  show ?thesis
  proof (cases ?single)
    case True
    then have "levels = [[layout w chunks]]"
      using single by (simp add: layout)
    then show ?thesis
      using True run len by (simp add: stream_balanced_tree_def bindM_def retM_def level_blocks_def)
  next
    case False
    then have "layout w chunks = close_layout levels"
      unfolding layout by (rule if_not_P)
    then show ?thesis
      using run len False clean_up_simulates [OF rel \<open>levels \<noteq> []\<close>] assms
      by (auto simp: stream_balanced_tree_def bindM_def)
  qed
qed

end
