(* ===== verification/Stores_Props.thy ===== *)
theory Stores_Props
  imports Stores Unixfs_Props
begin

text \<open>
  The files that the stores write, as one sequence of bytes (\<open>car_file\<close>), and what the
  readers make of such a file: headers, blocks and index are read back, the last block
  of a small file is found by the verification, and the extraction of the contents.
\<close>

section \<open>The file\<close>

fun entries_from :: "('c, 'm, 'z) car_env_scheme \<Rightarrow> nat \<Rightarrow> 'c block_data list \<Rightarrow> index_entry list" where
  "entries_from env pos [] = []"
| "entries_from env pos (b # bs) =
    \<lparr> ie_digest = cid_digest env (fst b), ie_offset = pos \<rparr> # entries_from env (pos + length (block_bytes env b)) bs"

definition blocks_bytes :: "('c, 'm, 'z) car_env_scheme \<Rightarrow> 'c block_data list \<Rightarrow> bytes" where
  "blocks_bytes env blocks = concat (map (block_bytes env) blocks)"

definition root_bytes :: "('c, 'm, 'z) car_env_scheme \<Rightarrow> 'c \<Rightarrow> bytes" where
  "root_bytes env root = v1_header_bytes env (v1_header_new [root])"

definition file_header :: "('c, 'm, 'z) car_env_scheme \<Rightarrow> 'c \<Rightarrow> 'c block_data list \<Rightarrow> v2_header" where
  "file_header env root blocks =
    (let data_size = length (root_bytes env root) + length (blocks_bytes env blocks)
     in v2_header_new False V2_HEADER_SIZE data_size (V2_HEADER_SIZE + data_size))"

definition file_entries :: "('c, 'm, 'z) car_env_scheme \<Rightarrow> 'c \<Rightarrow> 'c block_data list \<Rightarrow> index_entry list" where
  "file_entries env root blocks = sort_key ie_digest (entries_from env (length (root_bytes env root)) blocks)"

definition entries_index :: "index_entry list \<Rightarrow> car_index" where
  "entries_index entries = MultihashIndexSorted (mh_from_single_width SHA_256_CODE
    [\<lparr> sw_width = 40, sw_count = length entries, sw_entries = entries \<rparr>])"

definition car_file :: "('c, 'm, 'z) car_env_scheme \<Rightarrow> 'c \<Rightarrow> 'c block_data list \<Rightarrow> bytes" where
  "car_file env root blocks =
    PRAGMA @ v2_header_bytes (file_header env root blocks) @ root_bytes env root @ blocks_bytes env blocks @
    index_bytes env (entries_index (file_entries env root blocks))"

lemma length_entries_from [simp]: "length (entries_from env pos blocks) = length blocks"
  by (induction blocks arbitrary: pos) simp_all

lemma length_file_entries [simp]: "length (file_entries env root blocks) = length blocks"
  by (simp add: file_entries_def)

lemma set_file_entries:
  "set (file_entries env root blocks) = set (entries_from env (length (root_bytes env root)) blocks)"
  by (simp add: file_entries_def)

text \<open>An entry points at its block.\<close>

lemma entries_from_locate:
  assumes "e \<in> set (entries_from env pos blocks)"
  shows "\<exists>b \<in> set blocks. ie_digest e = cid_digest env (fst b) \<and> pos \<le> ie_offset e \<and>
    (\<exists>rest. drop (ie_offset e - pos) (blocks_bytes env blocks) = block_bytes env b @ rest)"
  using assms
proof (induction blocks arbitrary: pos)
  case (Cons b blocks)
  show ?case
  proof (cases "e \<in> set (entries_from env (pos + length (block_bytes env b)) blocks)")
    case True
    then obtain c rest where c: "c \<in> set blocks" "ie_digest e = cid_digest env (fst c)"
      and pos: "pos + length (block_bytes env b) \<le> ie_offset e"
      and rest: "drop (ie_offset e - (pos + length (block_bytes env b))) (blocks_bytes env blocks) = block_bytes env c @ rest"
      using Cons.IH by blast
    have "drop (ie_offset e - pos) (blocks_bytes env (b # blocks)) =
        drop (ie_offset e - (pos + length (block_bytes env b))) (blocks_bytes env blocks)"
      using pos by (simp add: blocks_bytes_def)
    then show ?thesis
      using c pos rest by auto
  next
    case False
    then show ?thesis
      using Cons.prems by (auto simp: blocks_bytes_def)
  qed
qed simp

lemma entries_from_digests:
  "map ie_digest (entries_from env pos blocks) = map (\<lambda>b. cid_digest env (fst b)) blocks"
  by (induction blocks arbitrary: pos) simp_all

lemma entries_from_bound:
  "e \<in> set (entries_from env pos blocks) \<Longrightarrow> ie_offset e \<le> pos + length (blocks_bytes env blocks)"
  by (induction blocks arbitrary: pos) (force simp: blocks_bytes_def)+

section \<open>The interface of the hashes\<close>

text \<open>
  What the stores rely on beyond the encodings: SHA-256 has 32 bytes, a digest of up to 64
  bytes is a multihash and is found again in an identifier, and the header for one root has
  58 bytes.
\<close>

definition sha_cid :: "('c, 'm, 'z) car_env_scheme \<Rightarrow> 'c \<Rightarrow> bool" where
  "sha_cid env cid \<longleftrightarrow> (\<exists>codec mh digest. codec \<in> {RAW_CODE, DAG_PB_CODE} \<and> length digest = 32 \<and>
    multihash_wrap env SHA_256_CODE digest = Some mh \<and> cid = cid_new_v1 env codec mh)"

locale store_codec = car_codec env
  for env :: "('c, 'm, 'z) unixfs_env_scheme" +
  assumes wrap: "length digest \<le> 64 \<Longrightarrow> \<exists>mh. multihash_wrap env SHA_256_CODE digest = Some mh"
    and digest: "multihash_wrap env SHA_256_CODE digest = Some mh \<Longrightarrow> cid_digest env (cid_new_v1 env codec mh) = digest"
    and sha_length: "length (sha256_digest env bs) = 32"
    and root_header: "sha_cid env root \<Longrightarrow>
      \<exists>bs. dag_cbor_encode env (v1_header_new [root]) = Some bs \<and> length bs = V1_HEADER_OVERHEAD"
begin

lemma sha_cid_digest: "sha_cid env cid \<Longrightarrow> length (cid_digest env cid) = 32"
  by (auto simp: sha_cid_def digest)

lemma sha_cid_encode: "node_encode env n = Ok ((cid, bs), l) \<Longrightarrow> sha_cid env cid"
  by (cases n) (auto simp: ok_iff Let_def generate_multihash_def sha_cid_def intro: sha_length)

lemma sha_cid_tree: "tree_encode env t = Ok ((cid, bs), l) \<Longrightarrow> sha_cid env cid"
  by (cases t) (auto simp: ok_iff simp del: node_encode.simps intro: sha_cid_encode)

lemma sha_cid_own: "b \<in> set (own_block env t) \<Longrightarrow> sha_cid env (fst b)"
  by (cases b) (auto simp: own_block_def split: res.splits simp del: tree_encode.simps dest!: sym [of "Ok _"] dest: sha_cid_tree)

lemma sha_cid_blocks: "b \<in> set (tree_blocks env t) \<Longrightarrow> sha_cid env (fst b)"
  by (induction t) (auto intro: sha_cid_own)

lemma default_header:
  obtains cid where "v1_header_default env = Ok (v1_header_new [cid])" and "sha_cid env cid"
proof -
  have len: "length DEFAULT_HASH = 32"
    by (simp add: DEFAULT_HASH_def)
  then obtain mh where mh: "multihash_wrap env SHA_256_CODE DEFAULT_HASH = Some mh"
    using wrap [of DEFAULT_HASH] by auto
  then have "sha_cid env (cid_new_v1 env RAW_CODE mh)"
    unfolding sha_cid_def by (intro exI [of _ RAW_CODE] exI [of _ mh] exI [of _ DEFAULT_HASH]) (simp add: len)
  then show thesis
    using that mh by (simp add: v1_header_default_def v1_header_new_def)
qed

lemma length_root_bytes:
  assumes "sha_cid env root"
  shows "length (root_bytes env root) = length (encode_var env V1_HEADER_OVERHEAD) + V1_HEADER_OVERHEAD"
  using root_header [OF assms] by (auto simp: root_bytes_def v1_header_bytes_def)

lemma writes_root:
  assumes "sha_cid env root"
  shows "writes (write_v1_header env (v1_header_new [root])) (root_bytes env root) (length (root_bytes env root))"
  using root_header [OF assms] writes_write_v1_header by (auto simp: root_bytes_def)

lemma reads_root:
  assumes "sha_cid env root"
  shows "reads (read_v1_header env) (root_bytes env root) (v1_header_new [root])"
proof -
  obtain bs where bs: "dag_cbor_encode env (v1_header_new [root]) = Some bs" "length bs = V1_HEADER_OVERHEAD"
    using root_header [OF assms] by blast
  show ?thesis
    unfolding root_bytes_def
    by (rule reads_read_v1_header [OF bs(1)]) (simp_all add: bs(2) V1_HEADER_OVERHEAD_def ISIZE_MAX_def v1_header_new_def)
qed

lemma writes_nodes:
  assumes "start \<le> pos" and "pos + length (blocks_bytes env nodes) < u64_bound"
  shows "writes (foldM (write_node env start) nodes (pos, es)) (blocks_bytes env nodes)
    (pos + length (blocks_bytes env nodes), es @ entries_from env (pos - start) nodes)"
  using assms
proof (induction nodes arbitrary: pos es)
  case Nil
  show ?case
    by (simp add: blocks_bytes_def writes_retM)
next
  case (Cons b nodes)
  obtain cid data where b: "b = (cid, data)"
    by (cases b)
  have "writes (write_node env start b (pos, es)) (block_bytes env b)
      (pos + length (block_bytes env b), es @ [\<lparr> ie_digest = cid_digest env cid, ie_offset = pos - start \<rparr>])"
    unfolding write_node_def b prod.case Let_def
    apply (rule writes_bind_liftM, use Cons.prems in \<open>simp add: sub_u_def\<close>)
    apply (rule writes_bind_last, rule writes_write_block)
    apply (rule writes_bind_liftM, use Cons.prems in \<open>simp add: b add_u_def blocks_bytes_def\<close>)
    by (rule writes_retM)
  moreover have "writes (foldM (write_node env start) nodes
        (pos + length (block_bytes env b), es @ [\<lparr> ie_digest = cid_digest env cid, ie_offset = pos - start \<rparr>]))
      (blocks_bytes env nodes)
      (pos + length (block_bytes env b) + length (blocks_bytes env nodes),
       (es @ [\<lparr> ie_digest = cid_digest env cid, ie_offset = pos - start \<rparr>]) @
       entries_from env (pos + length (block_bytes env b) - start) nodes)"
    using Cons.prems by (intro Cons.IH) (simp_all add: blocks_bytes_def)
  ultimately have "writes (bindM (write_node env start b (pos, es)) (foldM (write_node env start) nodes))
      (block_bytes env b @ blocks_bytes env nodes)
      (pos + length (block_bytes env b) + length (blocks_bytes env nodes),
       (es @ [\<lparr> ie_digest = cid_digest env cid, ie_offset = pos - start \<rparr>]) @
       entries_from env (pos + length (block_bytes env b) - start) nodes)"
    by (rule writes_bindM)
  then show ?case
    using Cons.prems by (simp add: blocks_bytes_def b ac_simps)
qed

lemma length_entries_bytes:
  "\<forall>e \<in> set es. length (ie_digest e) = 32 \<Longrightarrow> length (concat (map entry_bytes es)) = 40 * length es"
  by (induction es) (simp_all add: entry_bytes_def)

lemma mh_bytes_entries:
  "index_bytes env (entries_index es) = encode_var env MULTIHASH_INDEX_SORTED_CODE @
    le_bytes 4 1 @ le_bytes 8 SHA_256_CODE @ le_bytes 4 1 @ le_bytes 4 40 @ le_bytes 8 (length es * 40) @
    concat (map entry_bytes es)"
  by (simp add: index_bytes_def entries_index_def mh_bytes_def mh_from_single_width_def mh_entry_bytes_def
      sorted_bytes_def sw_bytes_def fcard_finsert_if del: le_bytes.simps)

lemma file_entries_digests:
  assumes "\<forall>b \<in> set blocks. sha_cid env (fst b)" and "e \<in> set (file_entries env root blocks)"
  shows "length (ie_digest e) = 32"
  using assms entries_from_locate [of e env "length (root_bytes env root)" blocks]
  by (auto simp: set_file_entries sha_cid_digest)

lemma length_car_file:
  assumes "\<forall>b \<in> set blocks. sha_cid env (fst b)"
  shows "length (car_file env root blocks) = V2_HEADER_SIZE + length (root_bytes env root) + length (blocks_bytes env blocks) +
    length (encode_var env MULTIHASH_INDEX_SORTED_CODE) + 28 + 40 * length blocks"
  using length_entries_bytes [of "file_entries env root blocks"] file_entries_digests [OF assms]
  by (simp add: car_file_def mh_bytes_entries V2_HEADER_SIZE_def)

lemma file_index_ok:
  assumes "\<forall>b \<in> set blocks. sha_cid env (fst b)" and "length (car_file env root blocks) \<le> ISIZE_MAX"
  shows "index_ok (entries_index (file_entries env root blocks))"
proof -
  have small: "40 * length blocks \<le> ISIZE_MAX" "length (blocks_bytes env blocks) + length (root_bytes env root) \<le> ISIZE_MAX"
    using assms(2) by (simp_all add: length_car_file [OF assms(1)])
  have "entry_ok 40 e" if "e \<in> set (file_entries env root blocks)" for e
    using small entries_from_bound [of e env "length (root_bytes env root)" blocks] file_entries_digests [OF assms(1) that] that
    by (auto simp: set_file_entries entry_ok_def ISIZE_MAX_def u64_bound_def)
  moreover have "sorted (map ie_digest (file_entries env root blocks))"
    by (simp add: file_entries_def)
  ultimately show ?thesis
    using small
    by (simp add: entries_index_def mh_ok_def sorted_ok_def sw_ok_def list_all_iff mh_from_single_width_def
        SHA_256_CODE_def u32_bound_def u64_bound_def ISIZE_MAX_def fcard_finsert_if)
qed

lemma sha256_index_eq: "sha256_index es (length es) = Ok (entries_index (sort_key ie_digest es))"
  by (simp add: sha256_index_def sw_new_def add_u_def u32_bound_def entries_index_def)

lemma length_car_file_parts:
  "length (car_file env root blocks) \<le> ISIZE_MAX \<Longrightarrow>
    V2_HEADER_SIZE + (length (root_bytes env root) + length (blocks_bytes env blocks)) < u64_bound"
  by (simp add: car_file_def V2_HEADER_SIZE_def ISIZE_MAX_def u64_bound_def)

lemma balanced_import_writes:
  assumes stream: "stream_balanced_tree env w (chunker n [] source) [] = (Ok (), blocks)" and ne: "blocks \<noteq> []"
    and sha: "\<forall>b \<in> set blocks. sha_cid env (fst b)"
    and small: "length (car_file env (fst (last blocks)) blocks) \<le> ISIZE_MAX"
  shows "\<exists>pos. balanced_import env source n w (at_start []) =
    (Ok (fst (last blocks)), \<lparr> st_bytes = car_file env (fst (last blocks)) blocks, st_pos = pos \<rparr>)"
proof -
  define root where "root = fst (last blocks)"
  have root: "sha_cid env root"
    using sha ne by (simp add: root_def)
  obtain cid where default: "v1_header_default env = Ok (v1_header_new [cid])" and cid: "sha_cid env cid"
    by (rule default_header)
  have len: "length (root_bytes env cid) = length (root_bytes env root)"
    using length_root_bytes [OF cid] length_root_bytes [OF root] by simp
  have bound: "V2_HEADER_SIZE + (length (root_bytes env root) + length (blocks_bytes env blocks)) < u64_bound"
    using small by (intro length_car_file_parts) (simp add: root_def)
  let ?p = "PRAGMA @ v2_header_bytes v2_header_default" and ?start = "V2_HEADER_SIZE"
  let ?es = "entries_from env (length (root_bytes env root)) blocks"
  have w1: "write_v2_header v2_header_default (file_of []) = (Ok ?start, file_of ?p)"
    using writesD [OF writes_write_v2_header fits_file_of] by simp
  have w2: "write_v1_header env (v1_header_new [cid]) (file_of ?p) =
      (Ok (length (root_bytes env root)), file_of (?p @ root_bytes env cid))"
    using writesD [OF writes_root [OF cid] fits_file_of] len by simp
  have w3: "foldM (write_node env ?start) blocks (?start + length (root_bytes env root), []) (file_of (?p @ root_bytes env cid)) =
      (Ok (?start + length (root_bytes env root) + length (blocks_bytes env blocks), ?es),
       file_of (?p @ root_bytes env cid @ blocks_bytes env blocks))"
    using writesD [OF writes_nodes fits_file_of, of ?start "?start + length (root_bytes env root)" blocks] bound by simp
  have ok: "index_ok (entries_index (file_entries env root blocks))"
    using file_index_ok [OF sha] small by (simp add: root_def)
  have w4: "\<exists>k. write_index env (entries_index (file_entries env root blocks)) (file_of (?p @ root_bytes env cid @ blocks_bytes env blocks)) =
      (Ok k, file_of (?p @ root_bytes env cid @ blocks_bytes env blocks @ index_bytes env (entries_index (file_entries env root blocks))))"
    using writesD [OF writes_write_index [OF refl ok] fits_file_of] by simp
  let ?rest = "blocks_bytes env blocks @ index_bytes env (entries_index (file_entries env root blocks))"
  let ?final = "bindM (write_v2_header (file_header env root blocks)) (\<lambda>_. bindM (write_v1_header env (v1_header_new [root])) (\<lambda>_. retM root))"
  have "writes ?final ((PRAGMA @ v2_header_bytes (file_header env root blocks)) @ root_bytes env root) root"
    by (rule writes_bindM, rule writes_write_v2_header, rule writes_bind_last, rule writes_root, rule root, rule writes_retM)
  from writesD [OF this fits_at_start]
  have w5: "?final (at_start (?p @ root_bytes env cid @ ?rest)) =
      (Ok root, overwrite ((PRAGMA @ v2_header_bytes (file_header env root blocks)) @ root_bytes env root)
        (at_start (?p @ root_bytes env cid @ ?rest)))" .
  have contents: "st_bytes (overwrite ((PRAGMA @ v2_header_bytes (file_header env root blocks)) @ root_bytes env root)
      (at_start (?p @ root_bytes env cid @ ?rest))) = car_file env root blocks"
    by (simp add: overwrite_def at_start_def len car_file_def)
  have header: "v2_header_new False ?start (length (root_bytes env root) + length (blocks_bytes env blocks))
      (?start + length (root_bytes env root) + length (blocks_bytes env blocks)) = file_header env root blocks"
    by (simp add: file_header_def Let_def add.assoc)
  have "balanced_import env source n w (at_start []) = ?final (at_start (?p @ root_bytes env cid @ ?rest))"
    using w1 w2 w3 w4 bound ne sha256_index_eq [of ?es] header
    by (auto simp: balanced_import_def stream file_of_Nil bindM_def liftM_def default add_u_def sub_u_def
        Let_def rewind_file_of root_def [symmetric] file_entries_def add.assoc)
  then show ?thesis
    unfolding w5 root_def [symmetric] using contents
    by (intro exI [of _ "st_pos (overwrite ((PRAGMA @ v2_header_bytes (file_header env root blocks)) @ root_bytes env root)
      (at_start (?p @ root_bytes env cid @ ?rest)))"]) simp
qed

section \<open>Reading the file\<close>

lemma block_in_file:
  "b \<in> set blocks \<Longrightarrow> length (block_bytes env b) \<le> length (blocks_bytes env blocks)"
  by (auto simp: blocks_bytes_def length_concat intro: member_le_sum_list)

lemma block_bytes_not_Nil: "snd b \<noteq> [] \<Longrightarrow> 0 < length (block_bytes env b)"
  by (cases b) (simp add: block_bytes_def)

lemma block_size:
  assumes "(cid, data) \<in> set blocks" and "length (blocks_bytes env blocks) \<le> ISIZE_MAX"
  shows "length (cid_to_bytes env cid) + length data \<le> ISIZE_MAX"
  using block_in_file [OF assms(1)] assms(2) by (simp add: block_bytes_def)

lemma reads_block:
  assumes "b \<in> set blocks" and "length (blocks_bytes env blocks) \<le> ISIZE_MAX"
  shows "reads (read_block env) (block_bytes env b) b"
  using block_size [of "fst b" "snd b" blocks] assms reads_read_block [of "fst b" "snd b"] by simp

lemma file_header_ok:
  "V2_HEADER_SIZE + (length (root_bytes env root) + length (blocks_bytes env blocks)) < u64_bound \<Longrightarrow>
    v2_header_ok (file_header env root blocks)"
  by (simp add: v2_header_ok_def file_header_def Let_def v2_header_new_def characteristics_new_def V2_HEADER_SIZE_def
      PRAGMA_def u64_bound_def)

lemma reads_headers:
  assumes "sha_cid env root" and "length (car_file env root blocks) \<le> ISIZE_MAX"
    and "reads (f (file_header env root blocks)) bs x"
  shows "reads (bindM read_pragma (\<lambda>_. bindM read_v2_header (\<lambda>header. bindM (read_v1_header env) (\<lambda>v1.
      if h1_roots v1 = [root] then f header else g v1))))
    (PRAGMA @ v2_header_bytes (file_header env root blocks) @ root_bytes env root @ bs) x"
proof -
  have ok: "v2_header_ok (file_header env root blocks)"
    using length_car_file_parts [OF assms(2)] by (rule file_header_ok)
  show ?thesis
    apply (rule reads_bindM, rule reads_read_pragma)
    apply (rule reads_bindM, rule reads_read_v2_header, rule ok)
    apply (rule reads_bindM, rule reads_root, rule assms(1))
    using assms(3) by (simp add: v1_header_new_def)
qed

lemma last_block_blocks:
  assumes "remaining s = blocks_bytes env blocks @ rest" and "length (blocks_bytes env blocks) \<le> ISIZE_MAX"
  shows "last_block env cid s =
    last_block env (if blocks = [] then cid else fst (last blocks)) (skip (length (blocks_bytes env blocks)) s)"
  using assms
proof (induction blocks arbitrary: s cid)
  case (Cons b blocks)
  have s: "remaining s = block_bytes env b @ (blocks_bytes env blocks @ rest)"
    using Cons.prems(1) by (simp add: blocks_bytes_def)
  have "read_block env s = (Ok b, skip (length (block_bytes env b)) s)"
    using readsD [OF reads_block [of b "b # blocks"] s] Cons.prems(2) by simp
  then have "last_block env cid s = last_block env (fst b) (skip (length (block_bytes env b)) s)"
    by (cases b) (simp add: last_block.simps [of env cid s])
  also have "\<dots> = last_block env (if blocks = [] then fst b else fst (last blocks))
      (skip (length (blocks_bytes env blocks)) (skip (length (block_bytes env b)) s))"
    using Cons.prems s by (intro Cons.IH) (simp_all add: blocks_bytes_def)
  finally show ?case
    by (simp add: blocks_bytes_def)
qed (simp add: blocks_bytes_def)

lemma read_block_short:
  assumes "remaining s = encode_var env n @ rest" and "n \<le> ISIZE_MAX" and "length rest < n"
  shows "\<exists>t. read_block env s = (Err (IoError UnexpectedEof), t)"
  using readsD [OF reads_varint [OF assms(2)] assms(1)] assms
  by (simp add: read_block_def bindM_def liftM_def alloc_vec_def map_errM_def read_exact_def)

lemma extract_blocks_all:
  assumes "remaining s = blocks_bytes env blocks @ rest" and "length (blocks_bytes env blocks) \<le> ISIZE_MAX"
    and "blocks \<noteq> []" and "out \<noteq> [] \<or> 2 \<le> length blocks" and "\<forall>b \<in> set blocks. snd b \<noteq> []"
    and "h2_data_offset header + h2_data_size header = st_pos s + length (blocks_bytes env blocks)"
    and "h2_data_offset header + h2_data_size header < u64_bound"
  shows "extract_blocks env header out s =
    (Ok (out @ concat (map snd (butlast blocks))), skip (length (blocks_bytes env blocks)) s)"
  using assms
proof (induction blocks arbitrary: s out)
  case (Cons b blocks)
  let ?t = "skip (length (block_bytes env b)) s"
  have s: "remaining s = block_bytes env b @ (blocks_bytes env blocks @ rest)"
    using Cons.prems(1) by (simp add: blocks_bytes_def)
  have rd: "read_block env s = (Ok b, ?t)"
    using readsD [OF reads_block [of b "b # blocks"] s] Cons.prems(2) by simp
  have le: "length (blocks_bytes env (b # blocks)) = length (block_bytes env b) + length (blocks_bytes env blocks)"
    by (simp add: blocks_bytes_def)
  show ?case
  proof (cases "blocks = []")
    case True
    then show ?thesis
      using Cons.prems rd le
      by (cases b) (simp add: extract_blocks.simps [of env header out s] add_u_def blocks_bytes_def)
  next
    case False
    have pos: "0 < length (blocks_bytes env blocks)"
    proof -
      obtain c where "c \<in> set blocks" "snd c \<noteq> []"
        using False Cons.prems(5) by (cases blocks) auto
      then show ?thesis
        using block_in_file [of c blocks] block_bytes_not_Nil [of c] by linarith
    qed
    then have "extract_blocks env header out s = extract_blocks env header (out @ snd b) ?t"
      using Cons.prems rd le
      by (cases b) (simp add: extract_blocks.simps [of env header out s] add_u_def)
    also have "\<dots> = (Ok ((out @ snd b) @ concat (map snd (butlast blocks))), skip (length (blocks_bytes env blocks)) ?t)"
      using Cons.prems s le False by (intro Cons.IH) auto
    finally show ?thesis
      using False by (simp add: le)
  qed
qed simp

end

end
