(* ===== verification/Mater_Claims.thy ===== *)
theory Mater_Claims
  imports Stores_Props
begin

text \<open>
  What the CAR library guarantees: encodings are read back, the stream of blocks is the
  postorder of a balanced tree, a stored file can be read and searched through its index;
  and where the readers of whole files go wrong.
\<close>

section \<open>A reference instance with documented formats\<close>

definition ref_sha :: "(bytes \<Rightarrow> bytes) \<Rightarrow> bytes \<Rightarrow> bytes" where
  "ref_sha hash bs = take 32 (hash bs @ replicate 32 0)"

definition ref_pb_link :: "ref_cid pb_link \<Rightarrow> bytes" where
  "ref_pb_link l =
    (let cid = ref_cid_to_bytes (pl_cid l);
         fields = [0x0a] @ leb128 (length cid) @ cid @
           (case pl_name l of None \<Rightarrow> [] | Some name \<Rightarrow> [0x12] @ leb128 (length name) @ map (\<lambda>c. of_char c) name) @
           (case pl_size l of None \<Rightarrow> [] | Some n \<Rightarrow> [0x18] @ leb128 n)
     in [0x12] @ leb128 (length fields) @ fields)"

definition ref_dag_pb :: "ref_cid pb_node \<Rightarrow> bytes option" where
  "ref_dag_pb node = Some (concat (map ref_pb_link (pn_links node)) @
    (case pn_data node of None \<Rightarrow> [] | Some bs \<Rightarrow> [0x0a] @ leb128 (length bs) @ bs))"

definition ref_store :: "(bytes \<Rightarrow> bytes) \<Rightarrow> (ref_cid, nat \<times> bytes) unixfs_env" where
  "ref_store hash = \<lparr> encode_var = leb128, decode_var = unleb128,
     cid_to_bytes = ref_cid_to_bytes, cid_encoded_len = (\<lambda>c. length (ref_cid_to_bytes c)),
     cid_read_bytes = ref_cid_read_bytes, cid_default = CidV1 0 (0, []),
     cid_new_v1 = CidV1, cid_digest = (\<lambda>c. case c of CidV1 _ (_, digest) \<Rightarrow> digest),
     multihash_wrap = (\<lambda>code digest. if length digest \<le> 64 then Some (code, digest) else None),
     sha256_digest = ref_sha hash, dag_cbor_encode = ref_encode_header, dag_cbor_decode = ref_decode_header,
     dag_pb_encode = ref_dag_pb, pb_with_tag = (\<lambda>tag v. leb128 tag @ v), pb_enum = leb128, pb_uint64 = leb128,
     pb_bytes = (\<lambda>bs. leb128 (length bs) @ bs) \<rparr>"

lemma ref_store_fields:
  "encode_var (ref_store hash) = leb128" "decode_var (ref_store hash) = unleb128"
  "cid_to_bytes (ref_store hash) = ref_cid_to_bytes"
  "cid_encoded_len (ref_store hash) = (\<lambda>c. length (ref_cid_to_bytes c))"
  "cid_read_bytes (ref_store hash) = ref_cid_read_bytes" "cid_new_v1 (ref_store hash) = CidV1"
  "cid_digest (ref_store hash) = (\<lambda>c. case c of CidV1 _ (_, digest) \<Rightarrow> digest)"
  "multihash_wrap (ref_store hash) = (\<lambda>code digest. if length digest \<le> 64 then Some (code, digest) else None)"
  "sha256_digest (ref_store hash) = ref_sha hash"
  "dag_cbor_encode (ref_store hash) = ref_encode_header" "dag_cbor_decode (ref_store hash) = ref_decode_header"
  "dag_pb_encode (ref_store hash) = ref_dag_pb"
  by (simp_all add: ref_store_def)

lemma leb128_small: "n < 128 \<Longrightarrow> leb128 n = [word_of_nat n]"
  by (simp add: leb128.simps)

lemma ref_root_header:
  assumes "sha_cid (ref_store hash) root"
  shows "\<exists>bs. ref_encode_header (v1_header_new [root]) = Some bs \<and> length bs = V1_HEADER_OVERHEAD"
  using assms
  by (auto simp: sha_cid_def ref_store_fields ref_encode_header_def v1_header_new_def ref_header_bytes_def
      ref_root_bytes_def leb128_small RAW_CODE_def DAG_PB_CODE_def SHA_256_CODE_def V1_HEADER_OVERHEAD_def split: if_splits)

interpretation refstore: store_codec "ref_store hash" for hash
proof
  show "dag_cbor_decode (ref_store hash) bs = Some h" if "dag_cbor_encode (ref_store hash) h = Some bs" for h bs
    using that by (simp add: ref_store_fields ref_decode_header_back)
  show "take 1 bs = [0xa2]" if "dag_cbor_encode (ref_store hash) h = Some bs" for h bs
    using that by (auto simp: ref_store_fields ref_encode_header_def ref_header_bytes_def Let_def split: if_splits)
  show "\<exists>bs. dag_cbor_encode (ref_store hash) (v1_header_new [root]) = Some bs \<and> length bs = V1_HEADER_OVERHEAD"
    if "sha_cid (ref_store hash) root" for root
    using that by (simp add: ref_store_fields ref_root_header)
  show "length (encode_var (ref_store hash) n) \<le> 10" if "n < u64_bound" for n
    using that by (simp add: ref_store_fields leb.length_encode)
qed (auto simp: ref_store_fields ref_sha_def leb.terminated_encode leb.decode_encode ref_cid_read_back split: if_splits)

section \<open>Encodings\<close>

text \<open>
  C20: Writing an index reports the number of bytes written, and reading the written bytes
  gives the index back and stops right behind it, whatever follows, for every index whose
  widths, counts and offsets fit their fields and whose entries are sorted.
\<close>
theorem index_round_trip:
  assumes "varint_codec (encode_var env) (decode_var env)" and "index_ok index"
  shows "\<exists>bs. write_index env index (at_start []) = (Ok (length bs), file_of bs) \<and>
    (\<forall>rest. read_index env (at_start (bs @ rest)) = (Ok index, skip (length bs) (at_start (bs @ rest))))"
proof (intro exI conjI allI)
  show "write_index env index (at_start []) = (Ok (length (index_bytes env index)), file_of (index_bytes env index))"
    using writesD [OF varint_codec.writes_write_index [OF assms(1) refl assms(2)] fits_file_of [of "[]"]]
    by (simp add: file_of_Nil)
  show "read_index env (at_start (index_bytes env index @ rest)) =
      (Ok index, skip (length (index_bytes env index)) (at_start (index_bytes env index @ rest)))" for rest
    using readsD [OF varint_codec.reads_read_index [OF assms(1) refl refl assms(2)]]
    by (simp add: at_start_def remaining_def)
qed

definition demo_entries :: "index_entry list" where
  "demo_entries = [\<lparr> ie_digest = [1, 2], ie_offset = 7 \<rparr>, \<lparr> ie_digest = [3, 0], ie_offset = 300 \<rparr>]"

definition demo_index :: car_index where
  "demo_index = MultihashIndexSorted (mh_from_single_width SHA_256_CODE
    [\<lparr> sw_width = 10, sw_count = 2, sw_entries = demo_entries \<rparr>])"

lemma demo_index_ok: "index_ok demo_index"
  by (simp add: demo_index_def mh_ok_def sorted_ok_def sw_ok_def entry_ok_def mh_from_single_width_def
      demo_entries_def SHA_256_CODE_def u32_bound_def u64_bound_def ISIZE_MAX_def fcard_finsert_if)

theorem index_round_trip_witness:
  "\<exists>bs. write_index (ref_store id) demo_index (at_start []) = (Ok (length bs), file_of bs) \<and>
    (\<forall>rest. read_index (ref_store id) (at_start (bs @ rest)) = (Ok demo_index, skip (length bs) (at_start (bs @ rest))))"
  by (rule index_round_trip [OF _ demo_index_ok]) (simp add: ref_store_fields leb.varint_codec_axioms)



section \<open>The balanced tree\<close>

text \<open>
  C11: For a width of at least two, the stream yields exactly the blocks of a tree in postorder,
  its root last. The leaves of the tree are the chunks in order; for two chunks or more all
  leaves have the same depth, no node has more children than the width, only nodes on the
  right edge have fewer, and the root has at least two.
\<close>
theorem stream_is_balanced_tree:
  assumes "2 \<le> width" and "tree_encode env (layout width chunks) = Ok (block, l)"
  shows "stream_balanced_tree env width (map Inr chunks) [] = (Ok (), tree_blocks env (layout width chunks)) \<and>
    last (tree_blocks env (layout width chunks)) = block \<and>
    leaves (layout width chunks) = chunks \<and>
    (2 \<le> length chunks \<longrightarrow> (\<exists>h us. balanced width (Suc h) (layout width chunks) \<and>
      layout width chunks = FStem us \<and> 2 \<le> length us))"
proof (intro conjI impI)
  show "stream_balanced_tree env width (map Inr chunks) [] = (Ok (), tree_blocks env (layout width chunks))"
    using assms(2) by (intro stream_balanced_tree_builds) (simp add: encodable_iff)
  show "last (tree_blocks env (layout width chunks)) = block"
    using assms(2) by (cases "layout width chunks") (simp_all add: own_block_def)
qed (use assms(1) layout_shape in blast)+

definition demo_chunks :: "bytes list" where
  "demo_chunks = [[1, 1], [2, 2], [3]]"

lemma demo_encodable: "encodable (ref_store id) (layout 2 demo_chunks)"
  by code_simp

theorem stream_is_balanced_tree_witness:
  "\<exists>block. stream_balanced_tree (ref_store id) 2 (map Inr demo_chunks) [] =
      (Ok (), tree_blocks (ref_store id) (layout 2 demo_chunks)) \<and>
    last (tree_blocks (ref_store id) (layout 2 demo_chunks)) = block \<and>
    leaves (layout 2 demo_chunks) = demo_chunks \<and>
    (\<exists>h us. balanced 2 (Suc h) (layout 2 demo_chunks) \<and> layout 2 demo_chunks = FStem us \<and> 2 \<le> length us)"
proof -
  obtain block l where enc: "tree_encode (ref_store id) (layout 2 demo_chunks) = Ok (block, l)"
    using demo_encodable by (auto simp: encodable_iff)
  have "2 \<le> length demo_chunks"
    by (simp add: demo_chunks_def)
  then show ?thesis
    using stream_is_balanced_tree [OF order_refl enc] by blast
qed

text \<open>
  A stem reports to its parent the length of its own protocol buffer message, not that of the
  data below it, so that the file size recorded above two levels of stems is not the size of
  the file.
\<close>

lemma stem_reports_message_length:
  assumes "node_encode env (Stem links) = Ok (block, l)"
  shows "raw_data_length l = length (write_message env (stem_data links (sum_list (map (\<lambda>k. raw_data_length (snd k)) links))))"
  using assms by (auto simp: ok_iff Let_def sum_u64_def split: if_splits)

definition recorded_size :: "('c, 'm, 'z) unixfs_env_scheme \<Rightarrow> file_tree \<Rightarrow> nat option" where
  "recorded_size env t =
    (case t of
       FLeaf bs \<Rightarrow> Some (length bs)
     | FStem ts \<Rightarrow>
         (case collect (map (tree_encode env) ts) of
            Ok children \<Rightarrow> Some (sum_list (map (\<lambda>c. raw_data_length (snd c)) children))
          | _ \<Rightarrow> None))"

lemma nested_file_size: "recorded_size (ref_store id) (layout 2 demo_chunks) = Some 14 \<and> length (concat demo_chunks) = 5"
  by code_simp

section \<open>Stored files\<close>

definition read_car ::
  "('c, 'm, 'z) car_env_scheme \<Rightarrow> nat \<Rightarrow> (v2_header \<times> 'c list \<times> 'c block_data list \<times> car_index) carM" where
  "read_car env n =
    bindM read_pragma (\<lambda>_.
    bindM read_v2_header (\<lambda>header.
    bindM (read_v1_header env) (\<lambda>v1.
    bindM (repeatM n (read_block env)) (\<lambda>blocks.
    bindM (read_index env) (\<lambda>index.
    retM (header, h1_roots v1, blocks, index))))))"

context store_codec
begin

lemma file_parts_small:
  "length (car_file env root blocks) \<le> ISIZE_MAX \<Longrightarrow> length (blocks_bytes env blocks) \<le> ISIZE_MAX"
  by (simp add: car_file_def)

lemma reads_read_car:
  assumes "sha_cid env root" and "\<forall>b \<in> set blocks. sha_cid env (fst b)"
    and "length (car_file env root blocks) \<le> ISIZE_MAX"
  shows "reads (read_car env (length blocks)) (car_file env root blocks)
    (file_header env root blocks, [root], blocks, entries_index (file_entries env root blocks))"
proof -
  have ok: "v2_header_ok (file_header env root blocks)"
    using length_car_file_parts [OF assms(3)] by (rule file_header_ok)
  have blocks: "reads (repeatM (length blocks) (read_block env)) (blocks_bytes env blocks) blocks"
    unfolding blocks_bytes_def
    by (rule reads_repeatM) (rule reads_block [OF _ file_parts_small [OF assms(3)]])
  show ?thesis
    unfolding read_car_def car_file_def
    apply (rule reads_bindM, rule reads_read_pragma)
    apply (rule reads_bindM, rule reads_read_v2_header, rule ok)
    apply (rule reads_bindM, rule reads_root, rule assms(1))
    apply (rule reads_bindM, rule blocks)
    apply (rule reads_bind_last, rule reads_read_index [OF refl refl], rule file_index_ok [OF assms(2,3)])
    by (rule reads_retI) (simp add: v1_header_new_def)
qed

lemma read_block_at_entry:
  assumes "length (car_file env root blocks) \<le> ISIZE_MAX" and "e \<in> set (file_entries env root blocks)"
  shows "\<exists>b \<in> set blocks. ie_digest e = cid_digest env (fst b) \<and>
    fst (read_block env \<lparr> st_bytes = car_file env root blocks,
      st_pos = h2_data_offset (file_header env root blocks) + ie_offset e \<rparr>) = Ok b"
proof -
  let ?s = "\<lparr> st_bytes = car_file env root blocks, st_pos = V2_HEADER_SIZE + ie_offset e \<rparr>"
  obtain b rest where b: "b \<in> set blocks" "ie_digest e = cid_digest env (fst b)"
    and pos: "length (root_bytes env root) \<le> ie_offset e"
    and rest: "drop (ie_offset e - length (root_bytes env root)) (blocks_bytes env blocks) = block_bytes env b @ rest"
    using assms(2) entries_from_locate [of e env "length (root_bytes env root)" blocks] by (auto simp: set_file_entries)
  have len: "length (PRAGMA @ v2_header_bytes (file_header env root blocks)) = V2_HEADER_SIZE"
    by (simp add: V2_HEADER_SIZE_def)
  have "remaining ?s = drop (ie_offset e - length (root_bytes env root))
      (blocks_bytes env blocks @ index_bytes env (entries_index (file_entries env root blocks)))"
    using pos len by (simp add: remaining_def car_file_def V2_HEADER_SIZE_def)
  also have "\<exists>more. \<dots> = block_bytes env b @ more"
    using rest by (simp add: drop_append)
  finally obtain more where "remaining ?s = block_bytes env b @ more" ..
  from readsD [OF reads_block [OF b(1) file_parts_small [OF assms(1)]] this]
  show ?thesis
    using b by (auto simp: file_header_def Let_def v2_header_new_def)
qed

end

lemma chunker_concat:
  assumes "chunker n buf (map Inr inputs) = map Inr chunks" and "\<forall>r \<in> set inputs. r \<noteq> []"
  shows "concat chunks = buf @ concat inputs"
  using assms
proof (induction inputs arbitrary: buf chunks)
  case Nil
  then show ?case
    by (cases "buf = []") (auto simp: map_eq_Cons_conv)
next
  case (Cons r inputs)
  show ?case
  proof (cases "n \<le> length (buf @ r)")
    case True
    then obtain c cs where "chunks = c # cs" and "c = take n (buf @ r)"
      and "chunker n (drop n (buf @ r)) (map Inr inputs) = map Inr cs"
      using Cons.prems by (auto simp: Cons_eq_map_conv)
    then show ?thesis
      using Cons.IH Cons.prems(2) by (metis append_assoc append_take_drop_id concat.simps(2) list.set_intros(2))
  next
    case False
    then show ?thesis
      using Cons.IH [of "buf @ r" chunks] Cons.prems by simp
  qed
qed

lemma tree_blocks_last:
  "tree_encode env t = Ok (block, l) \<Longrightarrow> tree_blocks env t \<noteq> [] \<and> last (tree_blocks env t) = block"
  by (cases t) (simp_all add: own_block_def)

text \<open>
  C10: Importing a source writes a file from which the reader gets back the header, the root, all
  blocks in order and the index; each entry of the index has the digest of a block, and the
  block is read at the offset of the entry. The chunks of the blocks are those of the source.
\<close>
theorem filestore_round_trip:
  assumes codec: "store_codec env" and chunks: "chunker n [] (map Inr inputs) = map Inr chunks"
    and inputs: "\<forall>r \<in> set inputs. r \<noteq> []" and width: "2 \<le> width"
    and enc: "tree_encode env (layout width chunks) = Ok ((root, bs), l)"
    and blocks: "blocks = tree_blocks env (layout width chunks)"
    and small: "length (car_file env root blocks) \<le> ISIZE_MAX"
  shows "\<exists>s t. balanced_import env (map Inr inputs) n width (at_start []) = (Ok root, s) \<and>
    read_car env (length blocks) (at_start (st_bytes s)) =
      (Ok (file_header env root blocks, [root], blocks, entries_index (file_entries env root blocks)), t) \<and>
    (\<forall>e \<in> set (file_entries env root blocks). \<exists>b \<in> set blocks. ie_digest e = cid_digest env (fst b) \<and>
      fst (read_block env \<lparr> st_bytes = st_bytes s,
        st_pos = h2_data_offset (file_header env root blocks) + ie_offset e \<rparr>) = Ok b) \<and>
    concat (leaves (layout width chunks)) = concat inputs"
proof -
  have last: "blocks \<noteq> []" "fst (last blocks) = root"
    using tree_blocks_last [OF enc] by (simp_all add: blocks)
  have sha: "\<forall>b \<in> set blocks. sha_cid env (fst b)"
    using store_codec.sha_cid_blocks [OF codec] by (simp add: blocks)
  then have root: "sha_cid env root"
    using last by (metis last_in_set)
  have stream: "stream_balanced_tree env width (chunker n [] (map Inr inputs)) [] = (Ok (), blocks)"
    using stream_balanced_tree_builds [of env width chunks] enc by (simp add: chunks blocks encodable_iff)
  obtain pos where import: "balanced_import env (map Inr inputs) n width (at_start []) =
      (Ok root, \<lparr> st_bytes = car_file env root blocks, st_pos = pos \<rparr>)"
    using store_codec.balanced_import_writes [OF codec stream last(1) sha] small last by auto
  have "read_car env (length blocks) (at_start (car_file env root blocks)) =
      (Ok (file_header env root blocks, [root], blocks, entries_index (file_entries env root blocks)),
       skip (length (car_file env root blocks)) (at_start (car_file env root blocks)))"
    using readsD [OF store_codec.reads_read_car [OF codec root sha small], of "at_start (car_file env root blocks)" "[]"]
    by (simp add: at_start_def remaining_def)
  moreover have "concat (leaves (layout width chunks)) = concat inputs"
    using chunker_concat [OF chunks inputs] layout_shape(1) [OF width] by simp
  ultimately show ?thesis
    using import store_codec.read_block_at_entry [OF codec small] by auto
qed

definition demo_blocks :: "ref_cid block_data list" where
  "demo_blocks = tree_blocks (ref_store id) (layout 2 demo_chunks)"

definition demo_root :: ref_cid where
  "demo_root = fst (last demo_blocks)"

lemma demo_encode: "\<exists>bs l. tree_encode (ref_store id) (layout 2 demo_chunks) = Ok ((demo_root, bs), l)"
proof -
  obtain cid bs l where enc: "tree_encode (ref_store id) (layout 2 demo_chunks) = Ok ((cid, bs), l)"
    using demo_encodable by (auto simp: encodable_iff)
  then show ?thesis
    using tree_blocks_last [OF enc] by (auto simp: demo_root_def demo_blocks_def)
qed

lemma demo_sha: "\<forall>b \<in> set demo_blocks. sha_cid (ref_store id) (fst b)"
  using refstore.sha_cid_blocks by (auto simp: demo_blocks_def)

lemma demo_blocks_not_Nil: "demo_blocks \<noteq> []"
  using demo_encode tree_blocks_last by (fastforce simp: demo_blocks_def)

lemma demo_blocks_small: "length (blocks_bytes (ref_store id) demo_blocks) < 1000 \<and> length demo_blocks = 6"
  by code_simp

lemma demo_file_small: "length (car_file (ref_store id) demo_root demo_blocks) < 2000"
proof -
  have "sha_cid (ref_store id) demo_root"
    using demo_sha demo_blocks_not_Nil by (simp add: demo_root_def)
  then show ?thesis
    using demo_blocks_small refstore.length_car_file [OF demo_sha] refstore.length_root_bytes leb.length_encode
    by (simp add: ref_store_fields MULTIHASH_INDEX_SORTED_CODE_def leb128.simps V1_HEADER_OVERHEAD_def V2_HEADER_SIZE_def PRAGMA_def)
qed

lemma demo_chunker: "chunker 2 [] (map Inr demo_chunks) = map Inr demo_chunks"
  by (simp add: demo_chunks_def)

theorem filestore_round_trip_witness:
  "\<exists>s t. balanced_import (ref_store id) (map Inr demo_chunks) 2 2 (at_start []) = (Ok demo_root, s) \<and>
    read_car (ref_store id) (length demo_blocks) (at_start (st_bytes s)) =
      (Ok (file_header (ref_store id) demo_root demo_blocks, [demo_root], demo_blocks,
        entries_index (file_entries (ref_store id) demo_root demo_blocks)), t)"
proof -
  obtain bs l where enc: "tree_encode (ref_store id) (layout 2 demo_chunks) = Ok ((demo_root, bs), l)"
    using demo_encode by blast
  have "\<forall>r \<in> set demo_chunks. r \<noteq> []"
    by (simp add: demo_chunks_def)
  from filestore_round_trip [OF refstore.store_codec_axioms demo_chunker this order_refl enc demo_blocks_def]
  show ?thesis
    using demo_file_small by (auto simp: ISIZE_MAX_def)
qed

context store_codec
begin

lemma verify_cid_last_block:
  assumes "sha_cid env root" and "blocks \<noteq> []" and "root = fst (last blocks)"
    and "length (car_file env root blocks) \<le> ISIZE_MAX"
  obtains s where "remaining s = index_bytes env (entries_index (file_entries env root blocks))"
    and "fst (verify_cid env root (at_start (car_file env root blocks))) =
      (case last_block env root s of
         (Ok cid, _) \<Rightarrow> (if cid = root then Ok () else Err InvalidCid)
       | (Err e, _) \<Rightarrow> Err e
       | (Panic, _) \<Rightarrow> Panic)"
proof -
  let ?f = "at_start (car_file env root blocks)"
  have f: "remaining ?f = PRAGMA @ v2_header_bytes (file_header env root blocks) @ root_bytes env root @
      blocks_bytes env blocks @ index_bytes env (entries_index (file_entries env root blocks))"
    by (simp add: at_start_def remaining_def car_file_def)
  have ok: "v2_header_ok (file_header env root blocks)"
    using length_car_file_parts [OF assms(4)] by (rule file_header_ok)
  let ?s1 = "skip (length PRAGMA) ?f" and ?s2 = "skip (length PRAGMA + 40) ?f"
    and ?s3 = "skip (length PRAGMA + 40 + length (root_bytes env root)) ?f"
  let ?s = "skip (length (blocks_bytes env blocks)) ?s3"
  have r1: "read_pragma ?f = (Ok (), ?s1)"
    using readsD [OF reads_read_pragma f] .
  have r2: "read_v2_header ?s1 = (Ok (file_header env root blocks), ?s2)"
    using readsD [OF reads_read_v2_header [OF ok], of ?s1] f by simp
  have r3: "read_v1_header env ?s2 = (Ok (v1_header_new [root]), ?s3)"
    using readsD [OF reads_root [OF assms(1)], of ?s2] f by simp
  have "last_block env (cid_default env) ?s3 = last_block env root ?s"
    using last_block_blocks [of ?s3 blocks] f file_parts_small [OF assms(4)] assms(2,3) by simp
  then have "fst (verify_cid env root ?f) = (case last_block env root ?s of
      (Ok cid, _) \<Rightarrow> (if cid = root then Ok () else Err InvalidCid) | (Err e, _) \<Rightarrow> Err e | (Panic, _) \<Rightarrow> Panic)"
    by (auto simp: verify_cid_def bindM_def r1 r2 r3 v1_header_new_def retM_def errM_def split: prod.splits res.splits)
  moreover have "remaining ?s = index_bytes env (entries_index (file_entries env root blocks))"
    using f by simp
  ultimately show thesis
    using that by blast
qed

lemma last_block_index_short:
  assumes "remaining s = index_bytes env (entries_index es)" and "\<forall>e \<in> set es. length (ie_digest e) = 32"
    and "length es \<le> 24"
  shows "\<exists>t. last_block env root s = (Ok root, t)"
proof -
  have "\<exists>t. read_block env s = (Err (IoError UnexpectedEof), t)"
    by (rule read_block_short [OF assms(1) [unfolded mh_bytes_entries]])
      (use length_entries_bytes [OF assms(2)] assms(3) in \<open>simp_all add: MULTIHASH_INDEX_SORTED_CODE_def ISIZE_MAX_def\<close>)
  then show ?thesis
    by (auto simp: last_block.simps [of env root s])
qed

lemma last_block_index_25:
  assumes s: "remaining s = index_bytes env (entries_index es)" and es: "\<forall>e \<in> set es. length (ie_digest e) = 32"
    and len: "length es = 25" and small: "\<forall>e \<in> set es. ie_offset e < 2 ^ 40"
    and cids: "\<forall>bs. cid_read_bytes env (1 # 0 # 0 # 0 # bs) = Some (other, 4)" "cid_read_bytes env [] = None"
    and zero: "encode_var env 0 = [0]"
  shows "\<exists>t. last_block env root s = (Ok other, t)"
proof -
  obtain fs e where last: "es = fs @ [e]"
    using len by (cases es rule: rev_cases) auto
  have tail: "le_bytes 8 (ie_offset e) = le_bytes 5 (ie_offset e) @ [0, 0, 0]"
    using le_bytes_add [of 5 3 "ie_offset e"] le_bytes_zero [of 3] small by (simp add: last numeral_3_eq_3 del: le_bytes.simps)
  have one: "le_bytes 4 1 = [1, 0, 0, 0]"
    by code_simp
  define body where "body = le_bytes 8 SHA_256_CODE @ le_bytes 4 1 @ le_bytes 4 40 @ le_bytes 8 (length es * 40) @
    concat (map entry_bytes fs) @ ie_digest e @ le_bytes 5 (ie_offset e)"
  have idx: "remaining s = encode_var env 1025 @ [1, 0, 0, 0] @ body @ [0, 0, 0]"
    unfolding s mh_bytes_entries one [symmetric] body_def
    by (simp add: MULTIHASH_INDEX_SORTED_CODE_def last entry_bytes_def tail)
  have body: "length body = 1021"
    using length_entries_bytes [OF es] len by (simp add: body_def last entry_bytes_def)
  have r1: "read_block env s = (Ok (other, body), skip (length (encode_var env 1025) + 1025) s)"
    using readsD [OF reads_varint idx] cids(1) body idx
    by (simp add: read_block_def bindM_def liftM_def alloc_vec_def map_errM_def read_exact_def ISIZE_MAX_def retM_def)
  let ?t = "skip (length (encode_var env 1025) + 1025) s"
  have t: "remaining ?t = encode_var env 0 @ [0, 0]"
    using idx body zero by simp
  have "\<exists>u. read_block env ?t = (Err CidError, u)"
    using readsD [OF reads_varint t] cids(2)
    by (simp add: read_block_def bindM_def liftM_def alloc_vec_def map_errM_def read_exact_def ISIZE_MAX_def)
  then show ?thesis
    by (auto simp: last_block.simps [of env root s] last_block.simps [of env other ?t] r1)
qed

end

text \<open>
  C37: The verification of a stored file reads on past its blocks into the index. It accepts a
  file of at most 24 blocks; for 25 blocks it takes the start of the index for a block and
  rejects the file, although the root is the last block.
\<close>
theorem verify_cid_reads_index:
  assumes codec: "store_codec env" and sha: "\<forall>b \<in> set blocks. sha_cid env (fst b)" and ne: "blocks \<noteq> []"
    and root: "root = fst (last blocks)" and small: "length (car_file env root blocks) < 2 ^ 40"
    and cids: "\<forall>bs. cid_read_bytes env (1 # 0 # 0 # 0 # bs) = Some (other, 4)" "cid_read_bytes env [] = None" "other \<noteq> root"
    and zero: "encode_var env 0 = [0]"
  shows "(length blocks \<le> 24 \<longrightarrow> fst (verify_cid env root (at_start (car_file env root blocks))) = Ok ()) \<and>
    (length blocks = 25 \<longrightarrow> fst (verify_cid env root (at_start (car_file env root blocks))) = Err InvalidCid)"
proof -
  have bound: "length (car_file env root blocks) \<le> ISIZE_MAX"
    using small by (simp add: ISIZE_MAX_def)
  have "sha_cid env root"
    using sha ne root by simp
  then obtain s where s: "remaining s = index_bytes env (entries_index (file_entries env root blocks))"
    and verify: "fst (verify_cid env root (at_start (car_file env root blocks))) =
      (case last_block env root s of
         (Ok cid, _) \<Rightarrow> (if cid = root then Ok () else Err InvalidCid) | (Err e, _) \<Rightarrow> Err e | (Panic, _) \<Rightarrow> Panic)"
    by (rule store_codec.verify_cid_last_block [OF codec _ ne root bound])
  have digests: "\<forall>e \<in> set (file_entries env root blocks). length (ie_digest e) = 32"
    using store_codec.file_entries_digests [OF codec sha] by blast
  have offsets: "\<forall>e \<in> set (file_entries env root blocks). ie_offset e < 2 ^ 40"
  proof
    fix e
    assume "e \<in> set (file_entries env root blocks)"
    then show "ie_offset e < 2 ^ 40"
      using entries_from_bound [of e env "length (root_bytes env root)" blocks] small
      by (simp add: set_file_entries car_file_def)
  qed
  show ?thesis
    using store_codec.last_block_index_short [OF codec s digests, of root]
      store_codec.last_block_index_25 [OF codec s digests _ offsets cids(1,2) zero, of root] verify cids(3) by auto
qed

definition demo_many :: "ref_cid block_data list" where
  "demo_many = replicate 25 (CidV1 RAW_CODE (SHA_256_CODE, replicate 32 7), [])"

lemma demo_many_cid: "sha_cid (ref_store id) (CidV1 RAW_CODE (SHA_256_CODE, replicate 32 7))"
  unfolding sha_cid_def
  by (intro exI [of _ RAW_CODE] exI [of _ "(SHA_256_CODE, replicate 32 7)"] exI [of _ "replicate 32 7"])
    (simp add: ref_store_fields)

lemma demo_many_small:
  "length (car_file (ref_store id) (CidV1 RAW_CODE (SHA_256_CODE, replicate 32 7)) demo_many) < 2 ^ 40"
proof -
  have "length (block_bytes (ref_store id) (CidV1 RAW_CODE (SHA_256_CODE, replicate 32 7), [])) = 37"
    by (simp add: block_bytes_def ref_store_fields leb128_small RAW_CODE_def SHA_256_CODE_def)
  then have "length (blocks_bytes (ref_store id) demo_many) = 925"
    by (simp add: blocks_bytes_def demo_many_def length_concat sum_list_replicate)
  moreover have "\<forall>b \<in> set demo_many. sha_cid (ref_store id) (fst b)"
    using demo_many_cid by (auto simp: demo_many_def)
  ultimately show ?thesis
    using refstore.length_car_file [of demo_many] refstore.length_root_bytes [OF demo_many_cid]
    by (simp add: ref_store_fields MULTIHASH_INDEX_SORTED_CODE_def leb128.simps V1_HEADER_OVERHEAD_def
        V2_HEADER_SIZE_def PRAGMA_def demo_many_def)
qed

theorem verify_cid_reads_index_witness:
  "fst (verify_cid (ref_store id) (CidV1 RAW_CODE (SHA_256_CODE, replicate 32 7))
    (at_start (car_file (ref_store id) (CidV1 RAW_CODE (SHA_256_CODE, replicate 32 7)) demo_many))) = Err InvalidCid"
proof -
  have "\<forall>b \<in> set demo_many. sha_cid (ref_store id) (fst b)"
    using demo_many_cid by (auto simp: demo_many_def)
  moreover have "\<forall>bs. cid_read_bytes (ref_store id) (1 # 0 # 0 # 0 # bs) = Some (CidV1 0 (0, []), 4)"
    by (simp add: ref_store_fields ref_cid_read_bytes_def ref_varint_def and_MSB)
  moreover have "cid_read_bytes (ref_store id) [] = None"
    by (simp add: ref_store_fields ref_cid_read_bytes_def ref_varint_def)
  moreover have "encode_var (ref_store id) 0 = [0]"
    by (simp add: ref_store_fields leb128_small)
  ultimately show ?thesis
    using verify_cid_reads_index [OF refstore.store_codec_axioms, of demo_many id
      "CidV1 RAW_CODE (SHA_256_CODE, replicate 32 7)" "CidV1 0 (0, [])"] demo_many_small
    by (simp add: demo_many_def RAW_CODE_def)
qed

section \<open>Extracting the contents\<close>












context store_codec
begin

lemma extract_content_file:
  assumes "sha_cid env root" and "2 \<le> length blocks" and "\<forall>b \<in> set blocks. snd b \<noteq> []"
    and "length (car_file env root blocks) \<le> ISIZE_MAX"
  shows "fst (extract_content env (at_start (car_file env root blocks))) = Ok (concat (map snd (butlast blocks)))"
proof -
  let ?f = "at_start (car_file env root blocks)" and ?h = "file_header env root blocks"
  have f: "remaining ?f = PRAGMA @ v2_header_bytes ?h @ root_bytes env root @
      blocks_bytes env blocks @ index_bytes env (entries_index (file_entries env root blocks))"
    by (simp add: at_start_def remaining_def car_file_def)
  have bound: "V2_HEADER_SIZE + (length (root_bytes env root) + length (blocks_bytes env blocks)) < u64_bound"
    by (rule length_car_file_parts [OF assms(4)])
  let ?s1 = "skip (length PRAGMA) ?f" and ?s2 = "skip (length PRAGMA + 40) ?f"
    and ?s3 = "skip (length PRAGMA + 40 + length (root_bytes env root)) ?f"
  have r1: "read_pragma ?f = (Ok (), ?s1)"
    using readsD [OF reads_read_pragma f] .
  have r2: "read_v2_header ?s1 = (Ok ?h, ?s2)"
    using readsD [OF reads_read_v2_header [OF file_header_ok [OF bound]], of ?s1] f by simp
  have r3: "read_v1_header env ?s2 = (Ok (v1_header_new [root]), ?s3)"
    using readsD [OF reads_root [OF assms(1)], of ?s2] f by simp
  have "extract_blocks env ?h [] ?s3 =
      (Ok ([] @ concat (map snd (butlast blocks))), skip (length (blocks_bytes env blocks)) ?s3)"
    using f file_parts_small [OF assms(4)] assms(2,3) bound
    by (intro extract_blocks_all)
      (auto simp: file_header_def Let_def v2_header_new_def V2_HEADER_SIZE_def at_start_def)
  then show ?thesis
    by (simp add: extract_content_def bindM_def r1 r2 r3)
qed

end



end
