(* ===== verification/Blockstore_Claims.thy ===== *)
theory Blockstore_Claims
  imports Mater_Claims "HOL-Library.Multiset"
begin










end
