(* ===== verification/LocalIndex.thy ===== *)
theory LocalIndex
  imports ByteStream "HOL-Library.List_Lexorder"
begin

text \<open>
  The local index directory of \<^verbatim>\<open>src/storage/polka-index/src/local_index_directory\<close>: which
  pieces a storage provider holds, under which deals, at which offset of a piece a block is
  found, and which pieces need attention.

  The database is a key-value table per column family. Rust strings are their UTF-8 bytes,
  points in time are nanoseconds. What other crates provide is the argument \<open>env\<close>: the
  conversions of identifiers and multihashes, base-64, variable-length integers, the CBOR
  codec of each stored type, the clock and the iterator over a key prefix. Failures of the
  storage medium are not modelled.
\<close>

section \<open>Strings\<close>

definition ascii :: "string \<Rightarrow> bytes" where
  "ascii s = map of_char s"

abbreviation slash :: "8 word" where
  "slash \<equiv> 0x2F"

text \<open>Decimal notation of an unsigned integer.\<close>

fun decimal :: "nat \<Rightarrow> bytes" where
  "decimal n = (if n < 10 then [word_of_nat (48 + n)] else decimal (n div 10) @ [word_of_nat (48 + n mod 10)])"

declare decimal.simps [simp del]

text \<open>\<^verbatim>\<open>str::split\<close> on the slash.\<close>

fun split_slash :: "bytes \<Rightarrow> bytes list" where
  "split_slash [] = [[]]"
| "split_slash (b # bs) =
    (if b = slash then [] # split_slash bs
     else (b # hd (split_slash bs)) # tl (split_slash bs))"

text \<open>
  \<^verbatim>\<open>String::from_utf8\<close>: the ranges of the bytes that must follow the first byte of a
  character.
\<close>

definition utf8_rest :: "nat \<Rightarrow> (nat \<times> nat) list option" where
  "utf8_rest b =
    (if b < 0x80 then Some []
     else if 0xC2 \<le> b \<and> b \<le> 0xDF then Some [(0x80, 0xBF)]
     else if b = 0xE0 then Some [(0xA0, 0xBF), (0x80, 0xBF)]
     else if b = 0xED then Some [(0x80, 0x9F), (0x80, 0xBF)]
     else if 0xE1 \<le> b \<and> b \<le> 0xEF then Some [(0x80, 0xBF), (0x80, 0xBF)]
     else if b = 0xF0 then Some [(0x90, 0xBF), (0x80, 0xBF), (0x80, 0xBF)]
     else if 0xF1 \<le> b \<and> b \<le> 0xF3 then Some [(0x80, 0xBF), (0x80, 0xBF), (0x80, 0xBF)]
     else if b = 0xF4 then Some [(0x80, 0x8F), (0x80, 0xBF), (0x80, 0xBF)]
     else None)"

fun utf8 :: "(nat \<times> nat) list \<Rightarrow> bytes \<Rightarrow> bool" where
  "utf8 [] [] = True"
| "utf8 (r # rs) [] = False"
| "utf8 [] (b # bs) = (case utf8_rest (unat b) of None \<Rightarrow> False | Some rs \<Rightarrow> utf8 rs bs)"
| "utf8 ((low, high) # rs) (b # bs) = (low \<le> unat b \<and> unat b \<le> high \<and> utf8 rs bs)"

section \<open>Vectors\<close>

fun position :: "('a \<Rightarrow> bool) \<Rightarrow> 'a list \<Rightarrow> nat option" where
  "position P [] = None"
| "position P (x # xs) = (if P x then Some 0 else map_option Suc (position P xs))"

primrec unwrap_or_default :: "'a list option \<Rightarrow> 'a list" where
  "unwrap_or_default None = []"
| "unwrap_or_default (Some xs) = xs"

definition swap_remove :: "nat \<Rightarrow> 'a list \<Rightarrow> 'a list" where
  "swap_remove i xs = butlast (xs[i := last xs])"

definition split_at :: "nat \<Rightarrow> 'a list \<Rightarrow> ('e, 'a list \<times> 'a list) res" where
  "split_at n xs = (if n \<le> length xs then Ok (take n xs, drop n xs) else Panic)"

section \<open>Data\<close>

type_synonym timestamp = int

datatype ('c, 'm) lid_error =
    DuplicateDealError nat
  | PieceNotFound 'c
  | MultihashNotFound 'm
  | CursorNotFound
  | InvalidFlaggedPieceKeyError bytes
  | Serialization
  | Deserialization
  | RocksDBError
  | MultihashError
  | FromUtf8Error
  | CidError
  | IoError
  | Base64DecodeError

record 'c flagged_piece =
  fp_piece_cid :: 'c
  fp_storage_provider_address :: bytes
  fp_created_at :: timestamp
  fp_updated_at :: timestamp
  fp_has_unsealed_copy :: bool

record flagged_pieces_list_filter =
  ff_storage_provider_address :: bytes
  ff_has_unsealed_copy :: bool

record offset_size =
  os_offset :: nat
  os_size :: nat

record 'c index_record =
  ir_cid :: 'c
  ir_offset_size :: offset_size

record lid_deal_info =
  ld_deal_uuid :: nat
  ld_is_legacy :: bool
  ld_chain_deal_id :: nat
  ld_storage_provider_address :: bytes
  ld_sector_number :: nat
  ld_piece_offset :: nat
  ld_piece_length :: nat
  ld_car_length :: nat
  ld_is_direct_deal :: bool

record piece_metadata =
  pm_version :: bytes
  pm_indexed_at :: "timestamp option"
  pm_complete_index :: bool
  pm_deals :: "lid_deal_info list"
  pm_cursor :: nat

definition piece_metadata_default :: piece_metadata where
  "piece_metadata_default =
    \<lparr> pm_version = ascii ''1'', pm_indexed_at = None, pm_complete_index = False, pm_deals = [], pm_cursor = 0 \<rparr>"

section \<open>The database\<close>

datatype cf_name =
    DEFAULT_CF
  | PIECE_CID_TO_CURSOR_CF
  | MULTIHASH_TO_PIECE_CID_CF
  | PIECE_CID_TO_FLAGGED_CF

type_synonym table = "(bytes, bytes) fmap"

text \<open>A serializer, which may fail, and its deserializer.\<close>

type_synonym 'v codec = "('v \<Rightarrow> bytes option) \<times> (bytes \<Rightarrow> 'v option)"

record ('c, 'm) lid_env =
  lc_to_bytes :: "'c \<Rightarrow> bytes"
  lc_try_from :: "bytes \<Rightarrow> 'c option"
  lc_read_bytes :: "bytes \<Rightarrow> 'c option"
  lc_to_string :: "'c \<Rightarrow> bytes"
  lc_from_str :: "bytes \<Rightarrow> 'c option"
  lc_hash :: "'c \<Rightarrow> 'm"
  lc_new_v1 :: "nat \<Rightarrow> 'm \<Rightarrow> 'c"
  lm_to_bytes :: "'m \<Rightarrow> bytes"
  lm_from_bytes :: "bytes \<Rightarrow> 'm option"
  base64_encode :: "bytes \<Rightarrow> bytes"
  base64_decode :: "bytes \<Rightarrow> bytes option"
  lv_encode :: "nat \<Rightarrow> bytes"
  lv_read :: "bytes \<Rightarrow> nat option"
  metadata_codec :: "piece_metadata codec"
  cids_codec :: "'c list codec"
  offset_codec :: "offset_size codec"
  flagged_codec :: "'c flagged_piece codec"
  prefix_iterator :: "table \<Rightarrow> bytes \<Rightarrow> (bytes \<times> bytes) list"
  lid_clock :: "nat \<Rightarrow> timestamp"

text \<open>
  The state of \<^verbatim>\<open>RocksDBLid\<close>, with the number of times the clock has been read.
\<close>

record lid =
  lid_db :: "cf_name \<Rightarrow> table"
  lid_offset :: nat
  lid_checked :: "(bytes, timestamp) fmap"
  lid_ticks :: nat

type_synonym ('c, 'm, 'a) lidM = "(lid, ('c, 'm) lid_error, 'a) stM"

definition lid_new :: "(cf_name \<Rightarrow> table) \<Rightarrow> lid" where
  "lid_new database = \<lparr> lid_db = database, lid_offset = 0, lid_checked = fmempty, lid_ticks = 0 \<rparr>"

definition utc_now :: "('c, 'm, 'z) lid_env_scheme \<Rightarrow> ('c, 'm, timestamp) lidM" where
  "utc_now env = (\<lambda>s. (Ok (lid_clock env (lid_ticks s)), s\<lparr> lid_ticks := Suc (lid_ticks s) \<rparr>))"

definition put_cf :: "cf_name \<Rightarrow> bytes \<Rightarrow> bytes \<Rightarrow> lid \<Rightarrow> lid" where
  "put_cf cf key v s = s\<lparr> lid_db := (lid_db s)(cf := fmupd key v (lid_db s cf)) \<rparr>"

definition delete_cf :: "cf_name \<Rightarrow> bytes \<Rightarrow> lid \<Rightarrow> lid" where
  "delete_cf cf key s = s\<lparr> lid_db := (lid_db s)(cf := fmdrop key (lid_db s cf)) \<rparr>"

text \<open>The entries of a column family in the order of their keys.\<close>

definition table_entries :: "table \<Rightarrow> (bytes \<times> bytes) list" where
  "table_entries t = map (\<lambda>k. (k, the (fmlookup t k))) (sorted_list_of_fset (fmdom t))"

definition iterator_cf :: "cf_name \<Rightarrow> lid \<Rightarrow> (bytes \<times> bytes) list" where
  "iterator_cf cf s = table_entries (lid_db s cf)"

text \<open>A batch of writes.\<close>

datatype batch_op = BatchPut cf_name bytes bytes | BatchDelete cf_name bytes

fun apply_op :: "batch_op \<Rightarrow> lid \<Rightarrow> lid" where
  "apply_op (BatchPut cf key v) s = put_cf cf key v s"
| "apply_op (BatchDelete cf key) s = delete_cf cf key s"

definition write_batch :: "batch_op list \<Rightarrow> (lid, 'e, unit) stM" where
  "write_batch batch = modifyM (fold apply_op batch)"

definition put_cf_cbor :: "'v codec \<Rightarrow> cf_name \<Rightarrow> bytes \<Rightarrow> 'v \<Rightarrow> (('c, 'm) lid_error, batch_op) res" where
  "put_cf_cbor codec cf key v = res_bind (ok_or Serialization (fst codec v)) (\<lambda>serialized. Ok (BatchPut cf key serialized))"

section \<open>Keys\<close>

definition RAW_CODEC :: nat where "RAW_CODEC = 0x55"
definition NEXT_CURSOR_KEY :: bytes where "NEXT_CURSOR_KEY = ascii ''next_cursor''"
definition MIN_PIECE_CHECK_PERIOD :: timestamp where "MIN_PIECE_CHECK_PERIOD = 5 * 60 * 1000000000"
definition PIECES_TRACKER_BATCH_SIZE :: nat where "PIECES_TRACKER_BATCH_SIZE = 1024"

definition multihash_base64 :: "('c, 'm, 'z) lid_env_scheme \<Rightarrow> 'm \<Rightarrow> bytes" where
  "multihash_base64 env mh = base64_encode env (lm_to_bytes env mh)"

definition key_cursor_prefix :: "nat \<Rightarrow> bytes" where
  "key_cursor_prefix cursor = [slash] @ decimal cursor @ [slash]"

definition key_flag_piece :: "('c, 'm, 'z) lid_env_scheme \<Rightarrow> 'c \<Rightarrow> bytes \<Rightarrow> bytes" where
  "key_flag_piece env cid address = [slash] @ lc_to_string env cid @ [slash] @ address"

section \<open>Values\<close>

definition remove_value_at_key :: "bytes \<Rightarrow> cf_name \<Rightarrow> ('c, 'm, unit) lidM" where
  "remove_value_at_key key cf = modifyM (delete_cf cf key)"

definition get_value_at_key :: "'v codec \<Rightarrow> bytes \<Rightarrow> cf_name \<Rightarrow> ('c, 'm, 'v option) lidM" where
  "get_value_at_key codec key cf =
    bindM (getM (\<lambda>s. fmlookup (lid_db s cf) key)) (\<lambda>pinned.
    case pinned of
      None \<Rightarrow> retM None
    | Some raw \<Rightarrow>
        (case snd codec raw of
           Some v \<Rightarrow> retM (Some v)
         | None \<Rightarrow> errM Deserialization))"

definition put_value_at_key :: "'v codec \<Rightarrow> bytes \<Rightarrow> 'v \<Rightarrow> cf_name \<Rightarrow> ('c, 'm, unit) lidM" where
  "put_value_at_key codec key v cf =
    bindM (liftM (ok_or Serialization (fst codec v))) (\<lambda>serialized.
    modifyM (put_cf cf key serialized))"

definition get_piece_cid_to_metadata ::
  "('c, 'm, 'z) lid_env_scheme \<Rightarrow> 'c \<Rightarrow> ('c, 'm, piece_metadata option) lidM" where
  "get_piece_cid_to_metadata env piece_cid =
    get_value_at_key (metadata_codec env) (lc_to_bytes env piece_cid) PIECE_CID_TO_CURSOR_CF"

definition set_piece_cid_to_metadata ::
  "('c, 'm, 'z) lid_env_scheme \<Rightarrow> 'c \<Rightarrow> piece_metadata \<Rightarrow> ('c, 'm, unit) lidM" where
  "set_piece_cid_to_metadata env piece_cid metadata =
    put_value_at_key (metadata_codec env) (lc_to_bytes env piece_cid) metadata PIECE_CID_TO_CURSOR_CF"

definition get_multihash_to_piece_cids :: "('c, 'm, 'z) lid_env_scheme \<Rightarrow> 'm \<Rightarrow> ('c, 'm, 'c list) lidM" where
  "get_multihash_to_piece_cids env multihash =
    bindM (get_value_at_key (cids_codec env) (multihash_base64 env multihash) MULTIHASH_TO_PIECE_CID_CF) (\<lambda>found.
    liftM (ok_or (MultihashNotFound multihash) found))"

text \<open>One round of the loop over the multihashes: what is added to the batch.\<close>

definition link_multihash ::
  "('c, 'm, 'z) lid_env_scheme \<Rightarrow> 'c \<Rightarrow> 'm \<Rightarrow> batch_op list \<Rightarrow> ('c, 'm, batch_op list) lidM" where
  "link_multihash env piece_cid multihash batch =
    bindM (attemptM (get_multihash_to_piece_cids env multihash)) (\<lambda>found.
    let cids = unwrap_or_default found in
    if piece_cid \<in> set cids then retM batch
    else
      bindM (liftM (put_cf_cbor (cids_codec env) MULTIHASH_TO_PIECE_CID_CF (multihash_base64 env multihash)
        (cids @ [piece_cid]))) (\<lambda>op.
      retM (batch @ [op])))"

definition set_multihashes_to_piece_cid ::
  "('c, 'm, 'z) lid_env_scheme \<Rightarrow> 'm list \<Rightarrow> 'c \<Rightarrow> ('c, 'm, unit) lidM" where
  "set_multihashes_to_piece_cid env record_multihashes piece_cid =
    bindM (foldM (link_multihash env piece_cid) record_multihashes []) write_batch"

definition get_next_cursor :: "('c, 'm, 'z) lid_env_scheme \<Rightarrow> ('c, 'm, nat \<times> bytes) lidM" where
  "get_next_cursor env =
    bindM (getM (\<lambda>s. fmlookup (lid_db s DEFAULT_CF) NEXT_CURSOR_KEY)) (\<lambda>pinned_slice.
    case pinned_slice of
      None \<Rightarrow> errM CursorNotFound
    | Some raw \<Rightarrow>
        bindM (liftM (ok_or IoError (lv_read env raw))) (\<lambda>cursor.
        retM (cursor, key_cursor_prefix cursor)))"

definition set_next_cursor :: "('c, 'm, 'z) lid_env_scheme \<Rightarrow> nat \<Rightarrow> ('c, 'm, unit) lidM" where
  "set_next_cursor env cursor = modifyM (put_cf DEFAULT_CF NEXT_CURSOR_KEY (lv_encode env cursor))"

definition add_index_record ::
  "('c, 'm, 'z) lid_env_scheme \<Rightarrow> bytes \<Rightarrow> 'c index_record \<Rightarrow> ('c, 'm, unit) lidM" where
  "add_index_record env cursor_prefix record =
    put_value_at_key (offset_codec env) (cursor_prefix @ multihash_base64 env (lc_hash env (ir_cid record)))
      (ir_offset_size record) DEFAULT_CF"

text \<open>The closure in the loop of the removal: what it adds to the batch for one multihash.\<close>

definition unlink_multihash ::
  "('c, 'm, 'z) lid_env_scheme \<Rightarrow> 'c \<Rightarrow> bytes \<Rightarrow> ('c, 'm, batch_op list) lidM" where
  "unlink_multihash env piece_cid mh_key =
    bindM (get_value_at_key (cids_codec env) mh_key MULTIHASH_TO_PIECE_CID_CF) (\<lambda>found.
    case found of
      None \<Rightarrow>
        (case lm_from_bytes env mh_key of
           None \<Rightarrow> errM MultihashError
         | Some mh \<Rightarrow> errM (MultihashNotFound mh))
    | Some cids \<Rightarrow>
        (case position (\<lambda>cid. cid = piece_cid) cids of
           None \<Rightarrow> retM []
         | Some idx \<Rightarrow>
             if length cids \<le> 1 then retM [BatchDelete MULTIHASH_TO_PIECE_CID_CF mh_key]
             else
               bindM (liftM (put_cf_cbor (cids_codec env) MULTIHASH_TO_PIECE_CID_CF mh_key (swap_remove idx cids)))
                 (\<lambda>op. retM [op])))"

definition remove_index_entry ::
  "('c, 'm, 'z) lid_env_scheme \<Rightarrow> 'c \<Rightarrow> bytes \<Rightarrow> bytes \<times> bytes \<Rightarrow> batch_op list \<Rightarrow> ('c, 'm, batch_op list) lidM" where
  "remove_index_entry env piece_cid cursor_prefix = (\<lambda>(key, _) batch.
    bindM (liftM (split_at (length cursor_prefix) key)) (\<lambda>(_, mh_key).
    bindM (unlink_multihash env piece_cid mh_key) (\<lambda>ops.
    retM (batch @ ops @ [BatchDelete DEFAULT_CF key]))))"

definition remove_indexes_with_cursor ::
  "('c, 'm, 'z) lid_env_scheme \<Rightarrow> 'c \<Rightarrow> nat \<Rightarrow> ('c, 'm, unit) lidM" where
  "remove_indexes_with_cursor env piece_cid cursor =
    (let cursor_prefix = key_cursor_prefix cursor in
     bindM (getM (\<lambda>s. prefix_iterator env (lid_db s DEFAULT_CF) cursor_prefix)) (\<lambda>entries.
     bindM (foldM (remove_index_entry env piece_cid cursor_prefix) entries []) write_batch))"

section \<open>The service\<close>

definition add_deal_for_piece ::
  "('c, 'm, 'z) lid_env_scheme \<Rightarrow> 'c \<Rightarrow> lid_deal_info \<Rightarrow> ('c, 'm, unit) lidM" where
  "add_deal_for_piece env piece_cid deal_info =
    bindM (get_piece_cid_to_metadata env piece_cid) (\<lambda>found.
    let piece_info = (case found of None \<Rightarrow> piece_metadata_default | Some info \<Rightarrow> info) in
    case find (\<lambda>d. d = deal_info) (pm_deals piece_info) of
      Some deal \<Rightarrow> errM (DuplicateDealError (ld_deal_uuid deal))
    | None \<Rightarrow>
        set_piece_cid_to_metadata env piece_cid (piece_info\<lparr> pm_deals := pm_deals piece_info @ [deal_info] \<rparr>))"

definition get_piece_metadata :: "('c, 'm, 'z) lid_env_scheme \<Rightarrow> 'c \<Rightarrow> ('c, 'm, piece_metadata) lidM" where
  "get_piece_metadata env piece_cid =
    bindM (get_piece_cid_to_metadata env piece_cid) (\<lambda>found. liftM (ok_or (PieceNotFound piece_cid) found))"

definition remove_piece_metadata :: "('c, 'm, 'z) lid_env_scheme \<Rightarrow> 'c \<Rightarrow> ('c, 'm, unit) lidM" where
  "remove_piece_metadata env piece_cid =
    bindM (get_piece_metadata env piece_cid) (\<lambda>piece.
    bindM (remove_indexes_with_cursor env piece_cid (pm_cursor piece)) (\<lambda>_.
    remove_value_at_key (lc_to_bytes env piece_cid) PIECE_CID_TO_CURSOR_CF))"

text \<open>The errors that the removal of the last deal of a piece ignores.\<close>

definition ignore_not_found :: "('c, 'm, unit) lidM \<Rightarrow> ('c, 'm, unit) lidM" where
  "ignore_not_found m = (\<lambda>s. case m s of (r, t) \<Rightarrow>
    ((case r of
        Err (PieceNotFound _) \<Rightarrow> Ok ()
      | Err (MultihashNotFound _) \<Rightarrow> Ok ()
      | _ \<Rightarrow> r), t))"

definition remove_deal_for_piece :: "('c, 'm, 'z) lid_env_scheme \<Rightarrow> 'c \<Rightarrow> nat \<Rightarrow> ('c, 'm, unit) lidM" where
  "remove_deal_for_piece env piece_cid deal_uuid =
    bindM (get_piece_metadata env piece_cid) (\<lambda>piece_info.
    let deals =
      (case position (\<lambda>deal. ld_deal_uuid deal = deal_uuid) (pm_deals piece_info) of
         Some idx \<Rightarrow> swap_remove idx (pm_deals piece_info)
       | None \<Rightarrow> pm_deals piece_info)
    in
      if deals = [] then ignore_not_found (remove_piece_metadata env piece_cid)
      else
        put_value_at_key (metadata_codec env) (lc_to_bytes env piece_cid) (piece_info\<lparr> pm_deals := deals \<rparr>)
          PIECE_CID_TO_CURSOR_CF)"

definition is_indexed :: "('c, 'm, 'z) lid_env_scheme \<Rightarrow> 'c \<Rightarrow> ('c, 'm, bool) lidM" where
  "is_indexed env piece_cid =
    bindM (get_piece_cid_to_metadata env piece_cid) (\<lambda>found.
    retM (case found of None \<Rightarrow> False | Some info \<Rightarrow> pm_indexed_at info \<noteq> None))"

definition indexed_at :: "('c, 'm, 'z) lid_env_scheme \<Rightarrow> 'c \<Rightarrow> ('c, 'm, timestamp option) lidM" where
  "indexed_at env piece_cid =
    bindM (get_piece_cid_to_metadata env piece_cid) (\<lambda>found.
    liftM (ok_or (PieceNotFound piece_cid) (map_option pm_indexed_at found)))"

definition is_complete_index :: "('c, 'm, 'z) lid_env_scheme \<Rightarrow> 'c \<Rightarrow> ('c, 'm, bool) lidM" where
  "is_complete_index env piece_cid =
    bindM (get_piece_cid_to_metadata env piece_cid) (\<lambda>found.
    liftM (ok_or (PieceNotFound piece_cid) (map_option pm_complete_index found)))"

definition get_piece_deals :: "('c, 'm, 'z) lid_env_scheme \<Rightarrow> 'c \<Rightarrow> ('c, 'm, lid_deal_info list) lidM" where
  "get_piece_deals env piece_cid =
    bindM (get_piece_cid_to_metadata env piece_cid) (\<lambda>found.
    liftM (ok_or (PieceNotFound piece_cid) (map_option pm_deals found)))"

definition list_piece_line ::
  "('c, 'm, 'z) lid_env_scheme \<Rightarrow> bytes \<times> bytes \<Rightarrow> 'c list \<Rightarrow> ('c, 'm, 'c list) lidM" where
  "list_piece_line env = (\<lambda>(key, _) cids.
    bindM (liftM (ok_or Deserialization (lc_try_from env key))) (\<lambda>parsed_cid.
    retM (cids @ [parsed_cid])))"

definition list_pieces :: "('c, 'm, 'z) lid_env_scheme \<Rightarrow> ('c, 'm, 'c list) lidM" where
  "list_pieces env =
    bindM (getM (iterator_cf PIECE_CID_TO_CURSOR_CF)) (\<lambda>lines.
    foldM (list_piece_line env) lines [])"

definition add_index ::
  "('c, 'm, 'z) lid_env_scheme \<Rightarrow> 'c \<Rightarrow> 'c index_record list \<Rightarrow> bool \<Rightarrow> ('c, 'm, unit) lidM" where
  "add_index env piece_cid records complete =
    (let record_cids = map (\<lambda>r. lc_hash env (ir_cid r)) records in
     bindM (set_multihashes_to_piece_cid env record_cids piece_cid) (\<lambda>_.
     bindM (get_piece_cid_to_metadata env piece_cid) (\<lambda>found.
     bindM
       (case found of
          Some metadata \<Rightarrow> retM (metadata, key_cursor_prefix (pm_cursor metadata))
        | None \<Rightarrow>
            bindM (get_next_cursor env) (\<lambda>(next_cursor, next_cursor_prefix).
            bindM (liftM (add_u u64_bound next_cursor 1)) (\<lambda>following.
            bindM (set_next_cursor env following) (\<lambda>_.
            retM (piece_metadata_default\<lparr> pm_cursor := next_cursor, pm_complete_index := complete \<rparr>,
              next_cursor_prefix))))) (\<lambda>(metadata, cursor_prefix).
     bindM (forM records (add_index_record env cursor_prefix)) (\<lambda>_.
     bindM (utc_now env) (\<lambda>now.
     set_piece_cid_to_metadata env piece_cid (metadata\<lparr> pm_indexed_at := Some now \<rparr>)))))))"

definition read_index_record ::
  "('c, 'm, 'z) lid_env_scheme \<Rightarrow> bytes \<Rightarrow> bytes \<times> bytes \<Rightarrow> 'c index_record list \<Rightarrow> ('c, 'm, 'c index_record list) lidM" where
  "read_index_record env cursor_prefix = (\<lambda>(key, value) records.
    bindM (liftM (split_at (length cursor_prefix) key)) (\<lambda>(_, key).
    bindM (liftM (ok_or Base64DecodeError (base64_decode env key))) (\<lambda>mh_bytes.
    bindM (liftM (ok_or MultihashError (lm_from_bytes env mh_bytes))) (\<lambda>mh.
    bindM (liftM (ok_or Deserialization (snd (offset_codec env) value))) (\<lambda>offset_size.
    retM (records @ [\<lparr> ir_cid = lc_new_v1 env RAW_CODEC mh, ir_offset_size = offset_size \<rparr>]))))))"

definition get_index :: "('c, 'm, 'z) lid_env_scheme \<Rightarrow> 'c \<Rightarrow> ('c, 'm, 'c index_record list) lidM" where
  "get_index env piece_cid =
    bindM (get_piece_cid_to_metadata env piece_cid) (\<lambda>found.
    case found of
      None \<Rightarrow> errM (PieceNotFound piece_cid)
    | Some metadata \<Rightarrow>
        let cursor_prefix = key_cursor_prefix (pm_cursor metadata) in
        bindM (getM (\<lambda>s. prefix_iterator env (lid_db s DEFAULT_CF) cursor_prefix)) (\<lambda>entries.
        foldM (read_index_record env cursor_prefix) entries []))"

definition get_offset_size :: "('c, 'm, 'z) lid_env_scheme \<Rightarrow> 'c \<Rightarrow> 'm \<Rightarrow> ('c, 'm, offset_size) lidM" where
  "get_offset_size env piece_cid multihash =
    bindM (get_piece_cid_to_metadata env piece_cid) (\<lambda>found.
    bindM (liftM (ok_or (PieceNotFound piece_cid) (map_option pm_cursor found))) (\<lambda>cursor.
    bindM (get_value_at_key (offset_codec env) (key_cursor_prefix cursor @ multihash_base64 env multihash) DEFAULT_CF)
      (\<lambda>offset_size. liftM (ok_or (MultihashNotFound multihash) offset_size))))"

definition pieces_containing_multihash :: "('c, 'm, 'z) lid_env_scheme \<Rightarrow> 'm \<Rightarrow> ('c, 'm, 'c list) lidM" where
  "pieces_containing_multihash env multihash = get_multihash_to_piece_cids env multihash"

definition remove_indexes :: "('c, 'm, 'z) lid_env_scheme \<Rightarrow> 'c \<Rightarrow> ('c, 'm, unit) lidM" where
  "remove_indexes env piece_cid =
    bindM (get_piece_cid_to_metadata env piece_cid) (\<lambda>found.
    case found of
      None \<Rightarrow> errM (PieceNotFound piece_cid)
    | Some metadata \<Rightarrow> remove_indexes_with_cursor env piece_cid (pm_cursor metadata))"

definition flagged_piece_new ::
  "('c, 'm, 'z) lid_env_scheme \<Rightarrow> 'c \<Rightarrow> bytes \<Rightarrow> ('c, 'm, 'c flagged_piece) lidM" where
  "flagged_piece_new env piece_cid address =
    bindM (utc_now env) (\<lambda>now.
    retM \<lparr> fp_piece_cid = piece_cid, fp_storage_provider_address = address, fp_created_at = now,
      fp_updated_at = now, fp_has_unsealed_copy = False \<rparr>)"

definition flag_piece :: "('c, 'm, 'z) lid_env_scheme \<Rightarrow> 'c \<Rightarrow> bool \<Rightarrow> bytes \<Rightarrow> ('c, 'm, unit) lidM" where
  "flag_piece env piece_cid has_unsealed_copy address =
    (let key = key_flag_piece env piece_cid address in
     bindM (get_value_at_key (flagged_codec env) key PIECE_CID_TO_FLAGGED_CF) (\<lambda>found.
     bindM
       (case found of
          Some metadata \<Rightarrow> retM metadata
        | None \<Rightarrow> flagged_piece_new env piece_cid address) (\<lambda>metadata.
     bindM (utc_now env) (\<lambda>now.
     put_value_at_key (flagged_codec env) key
       (metadata\<lparr> fp_updated_at := now, fp_has_unsealed_copy := has_unsealed_copy \<rparr>) PIECE_CID_TO_FLAGGED_CF))))"

definition unflag_piece :: "('c, 'm, 'z) lid_env_scheme \<Rightarrow> 'c \<Rightarrow> bytes \<Rightarrow> ('c, 'm, unit) lidM" where
  "unflag_piece env piece_cid address =
    remove_value_at_key (key_flag_piece env piece_cid address) PIECE_CID_TO_FLAGGED_CF"

text \<open>The two conditions under which the loops over the flagged pieces skip an entry.\<close>

definition filter_rejects :: "flagged_pieces_list_filter \<Rightarrow> 'c flagged_piece \<Rightarrow> bool" where
  "filter_rejects f metadata \<longleftrightarrow>
    ff_has_unsealed_copy f \<noteq> fp_has_unsealed_copy metadata \<or>
    (ff_storage_provider_address f \<noteq> [] \<and>
     ff_storage_provider_address f \<noteq> fp_storage_provider_address metadata)"

definition list_flagged_line ::
  "('c, 'm, 'z) lid_env_scheme \<Rightarrow> flagged_pieces_list_filter option \<Rightarrow> timestamp \<Rightarrow> bytes \<times> bytes \<Rightarrow>
   'c flagged_piece list \<Rightarrow> ('c, 'm, 'c flagged_piece list) lidM" where
  "list_flagged_line env flt cursor = (\<lambda>(key, value) flagged_pieces.
    if \<not> utf8 [] key then errM FromUtf8Error
    else
      case drop 1 (split_slash key) of
        [] \<Rightarrow> errM (InvalidFlaggedPieceKeyError key)
      | piece_cid # _ \<Rightarrow>
          bindM (liftM (ok_or CidError (lc_from_str env piece_cid))) (\<lambda>piece_cid.
          bindM (liftM (ok_or Deserialization (snd (flagged_codec env) value))) (\<lambda>flagged_metadata.
          if (case flt of None \<Rightarrow> False | Some f \<Rightarrow> filter_rejects f flagged_metadata) then retM flagged_pieces
          else if fp_created_at flagged_metadata < cursor then retM flagged_pieces
          else retM (flagged_pieces @ [flagged_metadata\<lparr> fp_piece_cid := piece_cid \<rparr>]))))"

definition flagged_pieces_list ::
  "('c, 'm, 'z) lid_env_scheme \<Rightarrow> flagged_pieces_list_filter option \<Rightarrow> timestamp \<Rightarrow> nat \<Rightarrow> nat \<Rightarrow>
   ('c, 'm, 'c flagged_piece list) lidM" where
  "flagged_pieces_list env flt cursor offset limit =
    bindM (getM (iterator_cf PIECE_CID_TO_FLAGGED_CF)) (\<lambda>lines.
    bindM (foldM (list_flagged_line env flt cursor) lines []) (\<lambda>flagged_pieces.
    let flagged_pieces = sort_key fp_created_at flagged_pieces in
    if offset > 0 \<and> offset \<ge> length flagged_pieces then retM []
    else
      let flagged_pieces = (if offset > 0 then drop offset flagged_pieces else flagged_pieces) in
      retM (if length flagged_pieces > limit then take limit flagged_pieces else flagged_pieces)))"

definition count_flagged_line ::
  "('c, 'm, 'z) lid_env_scheme \<Rightarrow> flagged_pieces_list_filter \<Rightarrow> bytes \<times> bytes \<Rightarrow> nat \<Rightarrow> ('c, 'm, nat) lidM" where
  "count_flagged_line env f = (\<lambda>(_, value) count.
    bindM (liftM (ok_or Deserialization (snd (flagged_codec env) value))) (\<lambda>flagged_metadata.
    if filter_rejects f flagged_metadata then retM count
    else liftM (add_u u64_bound count 1)))"

definition flagged_pieces_count ::
  "('c, 'm, 'z) lid_env_scheme \<Rightarrow> flagged_pieces_list_filter option \<Rightarrow> ('c, 'm, nat) lidM" where
  "flagged_pieces_count env flt =
    bindM (getM (iterator_cf PIECE_CID_TO_FLAGGED_CF)) (\<lambda>lines.
    case flt of
      None \<Rightarrow> retM (length lines)
    | Some f \<Rightarrow> foldM (count_flagged_line env f) lines 0)"

text \<open>One round of the loop over the pieces: the pieces due so far are returned extended.\<close>

definition check_piece ::
  "('c, 'm, 'z) lid_env_scheme \<Rightarrow> bytes \<Rightarrow> bytes \<times> bytes \<Rightarrow> 'c list \<Rightarrow> ('c, 'm, 'c list) lidM" where
  "check_piece env address = (\<lambda>(key, value) cids.
    bindM (liftM (ok_or CidError (lc_read_bytes env key))) (\<lambda>key_str.
    let checked_key = address @ lc_to_string env key_str in
    bindM (getM (\<lambda>s. fmlookup (lid_checked s) checked_key)) (\<lambda>last_checked.
    bindM
      (case last_checked of
         None \<Rightarrow> retM False
       | Some checked \<Rightarrow>
           bindM (utc_now env) (\<lambda>now. retM (checked > now - MIN_PIECE_CHECK_PERIOD))) (\<lambda>recent.
    if recent then retM cids
    else
      bindM (liftM (ok_or CidError (lc_read_bytes env key))) (\<lambda>cid.
      bindM (liftM (ok_or Deserialization (snd (metadata_codec env) value))) (\<lambda>metadata.
      if (\<exists>deal \<in> set (pm_deals metadata). ld_storage_provider_address deal = address)
      then
        bindM (utc_now env) (\<lambda>now.
        bindM (modifyM (\<lambda>s. s\<lparr> lid_checked := fmupd checked_key now (lid_checked s) \<rparr>)) (\<lambda>_.
        retM (cids @ [cid])))
      else retM cids))))))"

definition next_pieces_to_check :: "('c, 'm, 'z) lid_env_scheme \<Rightarrow> bytes \<Rightarrow> ('c, 'm, 'c list) lidM" where
  "next_pieces_to_check env address =
    bindM (getM (\<lambda>s. take PIECES_TRACKER_BATCH_SIZE (drop (lid_offset s) (iterator_cf PIECE_CID_TO_CURSOR_CF s)))) (\<lambda>lines.
    bindM (foldM (check_piece env address) lines []) (\<lambda>cids.
    let seen_pieces = length lines in
    bindM (getM lid_offset) (\<lambda>offset.
    bindM (liftM (add_u u64_bound offset seen_pieces)) (\<lambda>offset.
    bindM (modifyM (\<lambda>s. s\<lparr> lid_offset := if seen_pieces < PIECES_TRACKER_BATCH_SIZE then 0 else offset \<rparr>)) (\<lambda>_.
    retM cids)))))"

end
