(* ===== verification/LocalIndex_Props.thy ===== *)
theory LocalIndex_Props
  imports LocalIndex
begin

text \<open>
  What the local index directory relies on (\<open>lid_laws\<close>: every conversion has its inverse, the
  text of an identifier is plain ASCII without a slash, and the iterator over a prefix visits
  all the entries if all the keys start with the prefix), what its tables contain
  (\<open>lid_wf\<close>), the contents of the tables as functions of identifiers, cursors and multihashes,
  and what the operations do to these functions.
\<close>

named_theorems lid_simps \<open>results of the database operations\<close>

section \<open>Laws of the parameters\<close>

definition codec_ok :: "'v codec \<Rightarrow> bool" where
  "codec_ok c \<longleftrightarrow> (\<forall>v. \<exists>bs. fst c v = Some bs \<and> snd c bs = Some v)"

definition enc :: "'v codec \<Rightarrow> 'v \<Rightarrow> bytes" where
  "enc c v = the (fst c v)"

definition lid_laws :: "('c, 'm, 'z) lid_env_scheme \<Rightarrow> bool" where
  "lid_laws env \<longleftrightarrow>
    (\<forall>c. lc_try_from env (lc_to_bytes env c) = Some c) \<and>
    (\<forall>c. lc_read_bytes env (lc_to_bytes env c) = Some c) \<and>
    (\<forall>c. lc_from_str env (lc_to_string env c) = Some c) \<and>
    (\<forall>c. \<forall>b \<in> set (lc_to_string env c). unat b < 128 \<and> b \<noteq> slash) \<and>
    (\<forall>codec m. lc_hash env (lc_new_v1 env codec m) = m) \<and>
    (\<forall>m. lm_from_bytes env (lm_to_bytes env m) = Some m) \<and>
    (\<forall>bs. base64_decode env (base64_encode env bs) = Some bs) \<and>
    (\<forall>n < u64_bound. lv_read env (lv_encode env n) = Some n) \<and>
    codec_ok (metadata_codec env) \<and> codec_ok (cids_codec env) \<and>
    codec_ok (offset_codec env) \<and> codec_ok (flagged_codec env) \<and>
    (\<forall>t p. (\<forall>k. k |\<in>| fmdom t \<longrightarrow> take (length p) k = p) \<longrightarrow> prefix_iterator env t p = table_entries t)"

lemma codec_enc: "codec_ok c \<Longrightarrow> fst c v = Some (enc c v)"
  by (metis codec_ok_def enc_def option.sel)

lemma codec_dec: "codec_ok c \<Longrightarrow> snd c (enc c v) = Some v"
  by (metis codec_ok_def codec_enc option.inject)

lemma enc_inj: "codec_ok c \<Longrightarrow> enc c v = enc c w \<longleftrightarrow> v = w"
  by (metis codec_dec option.inject)

lemma laws_codecs:
  assumes "lid_laws env"
  shows "codec_ok (metadata_codec env)" "codec_ok (cids_codec env)" "codec_ok (offset_codec env)"
    "codec_ok (flagged_codec env)"
  using assms by (simp_all add: lid_laws_def)

lemma laws_enc:
  assumes "lid_laws env"
  shows "fst (metadata_codec env) v = Some (enc (metadata_codec env) v)"
    "fst (cids_codec env) cs = Some (enc (cids_codec env) cs)"
    "fst (offset_codec env) os = Some (enc (offset_codec env) os)"
    "fst (flagged_codec env) fp = Some (enc (flagged_codec env) fp)"
    "snd (metadata_codec env) (enc (metadata_codec env) v) = Some v"
    "snd (cids_codec env) (enc (cids_codec env) cs) = Some cs"
    "snd (offset_codec env) (enc (offset_codec env) os) = Some os"
    "snd (flagged_codec env) (enc (flagged_codec env) fp) = Some fp"
  using laws_codecs [OF assms] by (simp_all add: codec_enc codec_dec)

lemma to_bytes_inj: "lid_laws env \<Longrightarrow> lc_to_bytes env c = lc_to_bytes env d \<longleftrightarrow> c = d"
  unfolding lid_laws_def by (metis option.inject)

lemma to_string_inj: "lid_laws env \<Longrightarrow> lc_to_string env c = lc_to_string env d \<longleftrightarrow> c = d"
  unfolding lid_laws_def by (metis option.inject)

lemma base64_inj: "lid_laws env \<Longrightarrow> multihash_base64 env m = multihash_base64 env n \<longleftrightarrow> m = n"
  unfolding lid_laws_def multihash_base64_def by (metis option.inject)

lemma iterate_all:
  "lid_laws env \<Longrightarrow> (\<And>k. k |\<in>| fmdom t \<Longrightarrow> take (length p) k = p) \<Longrightarrow> prefix_iterator env t p = table_entries t"
  by (simp add: lid_laws_def)

section \<open>Keys\<close>

fun of_decimal :: "nat \<Rightarrow> bytes \<Rightarrow> nat" where
  "of_decimal a [] = a"
| "of_decimal a (b # bs) = of_decimal (10 * a + (unat b - 48)) bs"

lemma of_decimal_append: "of_decimal a (xs @ ys) = of_decimal (of_decimal a xs) ys"
  by (induction xs arbitrary: a) simp_all

lemma unat_digit: "n < 10 \<Longrightarrow> unat (word_of_nat (48 + n) :: 8 word) = 48 + n"
  by (subst unat_of_nat) simp

lemma of_decimal_decimal: "of_decimal 0 (decimal n) = n"
proof (induction n rule: decimal.induct)
  case (1 n)
  then show ?case
    by (subst decimal.simps) (simp add: of_decimal_append unat_digit del: of_nat_add of_nat_numeral)
qed

lemma decimal_inj: "decimal m = decimal n \<longleftrightarrow> m = n"
  by (metis of_decimal_decimal)

lemma digit_not_slash: "n < 10 \<Longrightarrow> (word_of_nat (48 + n) :: 8 word) \<noteq> slash"
proof
  assume n: "n < 10" and eq: "(word_of_nat (48 + n) :: 8 word) = slash"
  have "48 + n = unat slash" unfolding eq [symmetric] by (rule unat_digit [OF n, symmetric])
  then show False by simp
qed

lemma decimal_no_slash: "slash \<notin> set (decimal n)"
proof (induction n rule: decimal.induct)
  case (1 n)
  then show ?case
    using digit_not_slash [of n] digit_not_slash [of "n mod 10"]
    by (subst decimal.simps) (auto simp del: of_nat_add of_nat_numeral)
qed

lemma split_slash_eq:
  "slash \<notin> set xs \<Longrightarrow> slash \<notin> set ys \<Longrightarrow> xs @ slash # us = ys @ slash # vs \<longleftrightarrow> xs = ys \<and> us = vs"
proof (induction xs arbitrary: ys)
  case Nil
  then show ?case by (cases ys) auto
next
  case (Cons x xs)
  then show ?case by (cases ys) auto
qed

lemma cursor_key_inj:
  "key_cursor_prefix c @ x = key_cursor_prefix d @ y \<longleftrightarrow> c = d \<and> x = y"
  using split_slash_eq [OF decimal_no_slash decimal_no_slash, of c x d y]
  by (simp add: key_cursor_prefix_def decimal_inj)

lemma next_cursor_key_neq [simp]:
  "NEXT_CURSOR_KEY \<noteq> key_cursor_prefix c @ x" "key_cursor_prefix c @ x \<noteq> NEXT_CURSOR_KEY"
  by (simp_all add: NEXT_CURSOR_KEY_def key_cursor_prefix_def ascii_def of_char_def)

lemma flag_key_inj:
  assumes "lid_laws env"
  shows "key_flag_piece env c a = key_flag_piece env d b \<longleftrightarrow> c = d \<and> a = b"
proof -
  have "slash \<notin> set (lc_to_string env c)" "slash \<notin> set (lc_to_string env d)"
    using assms by (auto simp: lid_laws_def)
  from split_slash_eq [OF this] show ?thesis
    by (simp add: key_flag_piece_def to_string_inj [OF assms])
qed

section \<open>Contents of the tables\<close>

definition info_of :: "('c, 'm, 'z) lid_env_scheme \<Rightarrow> lid \<Rightarrow> 'c \<Rightarrow> piece_metadata option" where
  "info_of env s c =
    Option.bind (fmlookup (lid_db s PIECE_CID_TO_CURSOR_CF) (lc_to_bytes env c)) (snd (metadata_codec env))"

definition holders_of :: "('c, 'm, 'z) lid_env_scheme \<Rightarrow> lid \<Rightarrow> 'm \<Rightarrow> 'c list option" where
  "holders_of env s m =
    Option.bind (fmlookup (lid_db s MULTIHASH_TO_PIECE_CID_CF) (multihash_base64 env m)) (snd (cids_codec env))"

definition offset_of :: "('c, 'm, 'z) lid_env_scheme \<Rightarrow> lid \<Rightarrow> nat \<Rightarrow> 'm \<Rightarrow> offset_size option" where
  "offset_of env s cursor m =
    Option.bind (fmlookup (lid_db s DEFAULT_CF) (key_cursor_prefix cursor @ multihash_base64 env m))
      (snd (offset_codec env))"

definition flag_of :: "('c, 'm, 'z) lid_env_scheme \<Rightarrow> lid \<Rightarrow> 'c \<Rightarrow> bytes \<Rightarrow> 'c flagged_piece option" where
  "flag_of env s c address =
    Option.bind (fmlookup (lid_db s PIECE_CID_TO_FLAGGED_CF) (key_flag_piece env c address)) (snd (flagged_codec env))"

definition cursor_of :: "('c, 'm, 'z) lid_env_scheme \<Rightarrow> lid \<Rightarrow> nat option" where
  "cursor_of env s = Option.bind (fmlookup (lid_db s DEFAULT_CF) NEXT_CURSOR_KEY) (lv_read env)"

text \<open>Every entry has been written by an operation for the type that its key belongs to.\<close>

definition entry_wf :: "('c, 'm, 'z) lid_env_scheme \<Rightarrow> cf_name \<Rightarrow> bytes \<Rightarrow> bytes \<Rightarrow> bool" where
  "entry_wf env cf k v =
    (case cf of
       PIECE_CID_TO_CURSOR_CF \<Rightarrow> \<exists>c info. k = lc_to_bytes env c \<and> v = enc (metadata_codec env) info
     | MULTIHASH_TO_PIECE_CID_CF \<Rightarrow> \<exists>m cids. k = multihash_base64 env m \<and> v = enc (cids_codec env) cids
     | PIECE_CID_TO_FLAGGED_CF \<Rightarrow>
         \<exists>fp. k = key_flag_piece env (fp_piece_cid fp) (fp_storage_provider_address fp) \<and>
           utf8 [] (fp_storage_provider_address fp) \<and> v = enc (flagged_codec env) fp
     | DEFAULT_CF \<Rightarrow>
         (k = NEXT_CURSOR_KEY \<and> (\<exists>n < u64_bound. v = lv_encode env n)) \<or>
         (\<exists>cursor m os. k = key_cursor_prefix cursor @ multihash_base64 env m \<and> v = enc (offset_codec env) os))"

definition lid_wf :: "('c, 'm, 'z) lid_env_scheme \<Rightarrow> lid \<Rightarrow> bool" where
  "lid_wf env s \<longleftrightarrow> (\<forall>cf k v. fmlookup (lid_db s cf) k = Some v \<longrightarrow> entry_wf env cf k v)"

lemma lid_wfD: "lid_wf env s \<Longrightarrow> fmlookup (lid_db s cf) k = Some v \<Longrightarrow> entry_wf env cf k v"
  by (simp add: lid_wf_def)

lemma lid_wf_put: "lid_wf env s \<Longrightarrow> entry_wf env cf k v \<Longrightarrow> lid_wf env (put_cf cf k v s)"
  by (auto simp: lid_wf_def put_cf_def)

lemma lid_wf_delete: "lid_wf env s \<Longrightarrow> lid_wf env (delete_cf cf k s)"
  by (auto simp: lid_wf_def delete_cf_def split: if_splits)

lemma lid_wf_new: "lid_wf env (lid_new (\<lambda>_. fmempty))"
  by (simp add: lid_wf_def lid_new_def)

lemma lid_wf_fields [simp]:
  "lid_wf env (s\<lparr> lid_offset := i \<rparr>) = lid_wf env s"
  "lid_wf env (s\<lparr> lid_checked := c \<rparr>) = lid_wf env s"
  "lid_wf env (s\<lparr> lid_ticks := n \<rparr>) = lid_wf env s"
  by (simp_all add: lid_wf_def)

section \<open>Reading\<close>

lemma get_value_wf:
  assumes "\<And>v. fmlookup (lid_db s cf) key = Some v \<Longrightarrow> snd codec v \<noteq> None"
  shows "get_value_at_key codec key cf s = (Ok (Option.bind (fmlookup (lid_db s cf) key) (snd codec)), s)"
  using assms by (auto simp: get_value_at_key_def monad_defs split: option.splits)

lemma get_metadata [lid_simps]:
  assumes "lid_laws env" "lid_wf env s"
  shows "get_piece_cid_to_metadata env c s = (Ok (info_of env s c), s)"
  unfolding get_piece_cid_to_metadata_def info_of_def
  by (rule get_value_wf) (auto dest!: lid_wfD [OF assms(2)] simp: entry_wf_def laws_enc [OF assms(1)])

lemma get_holders [lid_simps]:
  assumes "lid_laws env" "lid_wf env s"
  shows "get_value_at_key (cids_codec env) (multihash_base64 env m) MULTIHASH_TO_PIECE_CID_CF s =
    (Ok (holders_of env s m), s)"
  unfolding holders_of_def
  by (rule get_value_wf) (auto dest!: lid_wfD [OF assms(2)] simp: entry_wf_def laws_enc [OF assms(1)])

lemma get_offset [lid_simps]:
  assumes "lid_laws env" "lid_wf env s"
  shows "get_value_at_key (offset_codec env) (key_cursor_prefix cursor @ multihash_base64 env m) DEFAULT_CF s =
    (Ok (offset_of env s cursor m), s)"
  unfolding offset_of_def
  by (rule get_value_wf) (auto dest!: lid_wfD [OF assms(2)] simp: entry_wf_def laws_enc [OF assms(1)])

lemma get_flag [lid_simps]:
  assumes "lid_laws env" "lid_wf env s"
  shows "get_value_at_key (flagged_codec env) (key_flag_piece env c address) PIECE_CID_TO_FLAGGED_CF s =
    (Ok (flag_of env s c address), s)"
  unfolding flag_of_def
  by (rule get_value_wf) (auto dest!: lid_wfD [OF assms(2)] simp: entry_wf_def laws_enc [OF assms(1)])

lemma get_cursor [lid_simps]:
  assumes "lid_laws env" "lid_wf env s"
  shows "get_next_cursor env s =
    (case cursor_of env s of None \<Rightarrow> (Err CursorNotFound, s) | Some n \<Rightarrow> (Ok (n, key_cursor_prefix n), s))"
proof (cases "fmlookup (lid_db s DEFAULT_CF) NEXT_CURSOR_KEY")
  case None
  then show ?thesis by (simp add: get_next_cursor_def cursor_of_def monad_defs)
next
  case (Some v)
  then obtain n where "n < u64_bound" "v = lv_encode env n"
    using lid_wfD [OF assms(2) Some] by (auto simp: entry_wf_def)
  then have "lv_read env v = Some n" using assms(1) by (simp add: lid_laws_def)
  then show ?thesis using Some by (simp add: get_next_cursor_def cursor_of_def monad_defs)
qed

lemma cursor_of_less: "lid_laws env \<Longrightarrow> lid_wf env s \<Longrightarrow> cursor_of env s = Some n \<Longrightarrow> n < u64_bound"
  by (auto simp: cursor_of_def bind_eq_Some_conv entry_wf_def lid_laws_def dest!: lid_wfD)

section \<open>Iterating\<close>

text \<open>
  The entries of a table whose keys are the image of an injective function and whose values are
  encodings: there is one entry per argument with a value, in the order of the keys.
\<close>

lemma table_entries_map:
  assumes "inj K" "\<And>k. k |\<in>| fmdom t \<Longrightarrow> \<exists>x. k = K x" "\<And>x. fmlookup t (K x) = map_option E (g x)"
  obtains xs where "distinct xs" "set xs = {x. g x \<noteq> None}" "sorted (map K xs)"
    "table_entries t = map (\<lambda>x. (K x, E (the (g x)))) xs"
proof -
  obtain xs where xs: "sorted_list_of_fset (fmdom t) = map K xs"
    using ex_map_conv [of "sorted_list_of_fset (fmdom t)" K] assms(2) by auto
  have "distinct xs" using distinct_sorted_list_of_fset [of "fmdom t"] unfolding xs by (simp add: distinct_map)
  moreover have "sorted (map K xs)" unfolding xs [symmetric] by (rule sorted_sorted_list_of_fset)
  moreover have "x \<in> set xs \<longleftrightarrow> g x \<noteq> None" for x
  proof -
    have "x \<in> set xs \<longleftrightarrow> K x |\<in>| fmdom t"
      using arg_cong [OF xs, of set] inj_image_mem_iff [OF assms(1), of x "set xs"] by simp
    then show ?thesis by (simp add: fmlookup_dom_iff assms(3))
  qed
  moreover from this have "table_entries t = map (\<lambda>x. (K x, E (the (g x)))) xs"
    by (auto simp: table_entries_def xs assms(3))
  moreover from calculation(3) have "set xs = {x. g x \<noteq> None}" by auto
  ultimately show thesis using that by blast
qed

section \<open>Writing\<close>

lemma put_value [lid_simps]:
  "codec_ok codec \<Longrightarrow> put_value_at_key codec key v cf s = (Ok (), put_cf cf key (enc codec v) s)"
  by (simp add: put_value_at_key_def monad_defs codec_enc)

lemma put_cbor [lid_simps]: "codec_ok codec \<Longrightarrow> put_cf_cbor codec cf key v = Ok (BatchPut cf key (enc codec v))"
  by (simp add: put_cf_cbor_def codec_enc)

lemma lid_db_put [simp]:
  "lid_db (put_cf cf key v s) cf' = (if cf' = cf then fmupd key v (lid_db s cf) else lid_db s cf')"
  by (simp add: put_cf_def)

lemma lid_db_delete [simp]:
  "lid_db (delete_cf cf key s) cf' = (if cf' = cf then fmdrop key (lid_db s cf) else lid_db s cf')"
  by (simp add: delete_cf_def)

lemma lid_rest_put [simp]:
  "lid_offset (put_cf cf key v s) = lid_offset s" "lid_checked (put_cf cf key v s) = lid_checked s"
  "lid_ticks (put_cf cf key v s) = lid_ticks s"
  by (simp_all add: put_cf_def)

text \<open>The functions only depend on the tables.\<close>

lemma contents_fields [simp]:
  "info_of env (s\<lparr> lid_ticks := n \<rparr>) = info_of env s"
  "holders_of env (s\<lparr> lid_ticks := n \<rparr>) = holders_of env s"
  "offset_of env (s\<lparr> lid_ticks := n \<rparr>) = offset_of env s"
  "flag_of env (s\<lparr> lid_ticks := n \<rparr>) = flag_of env s"
  "cursor_of env (s\<lparr> lid_ticks := n \<rparr>) = cursor_of env s"
  by (simp_all add: fun_eq_iff info_of_def holders_of_def offset_of_def flag_of_def cursor_of_def)

lemma contents_other [simp]:
  "cf \<noteq> PIECE_CID_TO_CURSOR_CF \<Longrightarrow> info_of env (put_cf cf k v s) = info_of env s"
  "cf \<noteq> MULTIHASH_TO_PIECE_CID_CF \<Longrightarrow> holders_of env (put_cf cf k v s) = holders_of env s"
  "cf \<noteq> DEFAULT_CF \<Longrightarrow> offset_of env (put_cf cf k v s) = offset_of env s"
  "cf \<noteq> DEFAULT_CF \<Longrightarrow> cursor_of env (put_cf cf k v s) = cursor_of env s"
  "cf \<noteq> PIECE_CID_TO_FLAGGED_CF \<Longrightarrow> flag_of env (put_cf cf k v s) = flag_of env s"
  by (simp_all add: fun_eq_iff info_of_def holders_of_def offset_of_def flag_of_def cursor_of_def)

lemma info_put:
  "lid_laws env \<Longrightarrow>
   info_of env (put_cf PIECE_CID_TO_CURSOR_CF (lc_to_bytes env c) (enc (metadata_codec env) info) s) =
   (info_of env s)(c \<mapsto> info)"
  by (auto simp: fun_eq_iff info_of_def to_bytes_inj laws_enc)

lemma offset_put:
  "lid_laws env \<Longrightarrow>
   offset_of env (put_cf DEFAULT_CF (key_cursor_prefix n @ multihash_base64 env m) (enc (offset_codec env) os) s) =
   (offset_of env s)(n := (offset_of env s n)(m \<mapsto> os))"
  by (auto simp: fun_eq_iff offset_of_def cursor_key_inj base64_inj laws_enc)

lemma cursor_put_offset [simp]:
  "cursor_of env (put_cf DEFAULT_CF (key_cursor_prefix n @ x) v s) = cursor_of env s"
  by (simp add: cursor_of_def)

lemma cursor_put:
  "lid_laws env \<Longrightarrow> n < u64_bound \<Longrightarrow> cursor_of env (put_cf DEFAULT_CF NEXT_CURSOR_KEY (lv_encode env n) s) = Some n"
  by (simp add: cursor_of_def lid_laws_def)

lemma offset_put_cursor [simp]:
  "offset_of env (put_cf DEFAULT_CF NEXT_CURSOR_KEY v s) = offset_of env s"
  by (simp add: fun_eq_iff offset_of_def)

lemma flag_put:
  "lid_laws env \<Longrightarrow>
   flag_of env (put_cf PIECE_CID_TO_FLAGGED_CF (key_flag_piece env c a) (enc (flagged_codec env) fp) s) =
   (flag_of env s)(c := (flag_of env s c)(a \<mapsto> fp))"
  by (auto simp: fun_eq_iff flag_of_def flag_key_inj laws_enc)

lemma flag_delete:
  "lid_laws env \<Longrightarrow>
   flag_of env (delete_cf PIECE_CID_TO_FLAGGED_CF (key_flag_piece env c a) s) =
   (flag_of env s)(c := (flag_of env s c)(a := None))"
  by (auto simp: fun_eq_iff flag_of_def flag_key_inj)

text \<open>Entries of the right shape.\<close>

lemma entry_wfI [intro]:
  "entry_wf env PIECE_CID_TO_CURSOR_CF (lc_to_bytes env c) (enc (metadata_codec env) info)"
  "entry_wf env MULTIHASH_TO_PIECE_CID_CF (multihash_base64 env m) (enc (cids_codec env) cids)"
  "entry_wf env DEFAULT_CF (key_cursor_prefix n @ multihash_base64 env m) (enc (offset_codec env) os)"
  by (auto simp: entry_wf_def)

section \<open>Linking multihashes to a piece\<close>

definition link_ops :: "('c, 'm, 'z) lid_env_scheme \<Rightarrow> lid \<Rightarrow> 'c \<Rightarrow> 'm list \<Rightarrow> batch_op list" where
  "link_ops env s p ms =
    map (\<lambda>m. BatchPut MULTIHASH_TO_PIECE_CID_CF (multihash_base64 env m)
        (enc (cids_codec env) (unwrap_or_default (holders_of env s m) @ [p])))
      (filter (\<lambda>m. p \<notin> set (unwrap_or_default (holders_of env s m))) ms)"

lemma get_holders_attempt:
  assumes "lid_laws env" "lid_wf env s"
  shows "attemptM (get_multihash_to_piece_cids env m) s = (Ok (holders_of env s m), s)"
  by (cases "holders_of env s m") (simp_all add: get_multihash_to_piece_cids_def monad_defs get_holders [OF assms])

lemma link_multihash_run:
  assumes "lid_laws env" "lid_wf env s"
  shows "foldM (link_multihash env p) ms batch s = (Ok (batch @ link_ops env s p ms), s)"
proof (induction ms arbitrary: batch)
  case Nil
  then show ?case by (simp add: link_ops_def monad_defs)
next
  case (Cons m ms)
  show ?case
    using Cons.IH
    by (auto simp: link_multihash_def get_holders_attempt [OF assms] bindM_def Let_def link_ops_def retM_def liftM_def
        put_cbor laws_codecs [OF assms(1)])
qed

lemma set_multihashes_run:
  assumes "lid_laws env" "lid_wf env s"
  shows "set_multihashes_to_piece_cid env ms p s = (Ok (), fold apply_op (link_ops env s p ms) s)"
  by (simp add: set_multihashes_to_piece_cid_def bindM_def link_multihash_run [OF assms] write_batch_def modifyM_def)

lemma fold_puts:
  "fold apply_op (map (\<lambda>m. BatchPut cf (K m) (V m)) ms) s =
   s\<lparr> lid_db := (lid_db s)(cf := fold (\<lambda>m. fmupd (K m) (V m)) ms (lid_db s cf)) \<rparr>"
  by (induction ms arbitrary: s) (simp_all add: put_cf_def fun_upd_upd)

lemma fold_fmupd_lookup:
  assumes "\<And>m n. K m = K n \<longleftrightarrow> m = n"
  shows "fmlookup (fold (\<lambda>m. fmupd (K m) (V m)) ms t) (K m) =
    (if m \<in> set ms then Some (V m) else fmlookup t (K m))"
  using assms by (induction ms arbitrary: t) auto

text \<open>The multihashes of an index lead to the piece, after the pieces that they led to before.\<close>

definition link_holders :: "'c \<Rightarrow> 'm list \<Rightarrow> ('m \<Rightarrow> 'c list option) \<Rightarrow> 'm \<Rightarrow> 'c list option" where
  "link_holders p ms h m =
    (if m \<in> set ms \<and> p \<notin> set (unwrap_or_default (h m)) then Some (unwrap_or_default (h m) @ [p]) else h m)"

lemma link_holders_known: "m \<in> set ms \<or> h m \<noteq> None \<Longrightarrow> link_holders p ms h m \<noteq> None"
  by (cases "h m") (auto simp: link_holders_def)

lemma link_effect:
  fixes p ms
  assumes "lid_laws env" "lid_wf env s"
  defines "t \<equiv> fold apply_op (link_ops env s p ms) s"
  shows "holders_of env t = link_holders p ms (holders_of env s)" "info_of env t = info_of env s"
    "offset_of env t = offset_of env s" "cursor_of env t = cursor_of env s" "flag_of env t = flag_of env s"
    "lid_ticks t = lid_ticks s" "lid_db t DEFAULT_CF = lid_db s DEFAULT_CF"
proof -
  note t = t_def [unfolded link_ops_def fold_puts]
  show "holders_of env t = link_holders p ms (holders_of env s)"
  proof
    fix m
    have "fmlookup (lid_db t MULTIHASH_TO_PIECE_CID_CF) (multihash_base64 env m) =
      (if m \<in> set ms \<and> p \<notin> set (unwrap_or_default (holders_of env s m))
       then Some (enc (cids_codec env) (unwrap_or_default (holders_of env s m) @ [p]))
       else fmlookup (lid_db s MULTIHASH_TO_PIECE_CID_CF) (multihash_base64 env m))"
      by (simp add: t fold_fmupd_lookup [of "multihash_base64 env", OF base64_inj [OF assms(1)]])
    then show "holders_of env t m = link_holders p ms (holders_of env s) m"
      by (simp add: holders_of_def [of env t] link_holders_def laws_enc [OF assms(1)])
        (simp add: holders_of_def)
  qed
  show "info_of env t = info_of env s" "offset_of env t = offset_of env s"
    "cursor_of env t = cursor_of env s" "flag_of env t = flag_of env s"
    "lid_ticks t = lid_ticks s" "lid_db t DEFAULT_CF = lid_db s DEFAULT_CF"
    by (simp_all add: t fun_eq_iff info_of_def offset_of_def cursor_of_def flag_of_def)
qed

lemma lid_wf_fold:
  assumes "lid_wf env s"
    "\<And>cf k v. BatchPut cf k v \<in> set ops \<Longrightarrow> entry_wf env cf k v"
  shows "lid_wf env (fold apply_op ops s)"
  using assms
proof (induction ops arbitrary: s)
  case (Cons op ops)
  then have "lid_wf env (apply_op op s)"
    by (cases op) (auto intro: lid_wf_put lid_wf_delete)
  then show ?case using Cons by simp
qed simp

lemma link_wf: "lid_wf env s \<Longrightarrow> lid_wf env (fold apply_op (link_ops env s p ms) s)"
  by (rule lid_wf_fold) (auto simp: link_ops_def)

section \<open>Adding an index\<close>

definition put_records :: "('c, 'm, 'z) lid_env_scheme \<Rightarrow> nat \<Rightarrow> 'c index_record list \<Rightarrow> lid \<Rightarrow> lid" where
  "put_records env n =
    fold (\<lambda>r. put_cf DEFAULT_CF (key_cursor_prefix n @ multihash_base64 env (lc_hash env (ir_cid r)))
      (enc (offset_codec env) (ir_offset_size r)))"

definition index_offsets ::
  "('c, 'm, 'z) lid_env_scheme \<Rightarrow> 'c index_record list \<Rightarrow> ('m \<Rightarrow> offset_size option) \<Rightarrow> 'm \<Rightarrow> offset_size option" where
  "index_offsets env = fold (\<lambda>r f. f(lc_hash env (ir_cid r) \<mapsto> ir_offset_size r))"

lemma add_records_run:
  "lid_laws env \<Longrightarrow> forM rs (add_index_record env (key_cursor_prefix n)) s = (Ok (), put_records env n rs s)"
  unfolding put_records_def by (rule forM_fold) (simp add: add_index_record_def put_value laws_codecs)

lemma put_records_effect:
  assumes "lid_laws env"
  shows "info_of env (put_records env n rs s) = info_of env s"
    "holders_of env (put_records env n rs s) = holders_of env s"
    "flag_of env (put_records env n rs s) = flag_of env s"
    "cursor_of env (put_records env n rs s) = cursor_of env s"
    "offset_of env (put_records env n rs s) = (offset_of env s)(n := index_offsets env rs (offset_of env s n))"
    "lid_ticks (put_records env n rs s) = lid_ticks s"
    "fmlookup (lid_db (put_records env n rs s) DEFAULT_CF) NEXT_CURSOR_KEY = fmlookup (lid_db s DEFAULT_CF) NEXT_CURSOR_KEY"
    "lid_wf env s \<Longrightarrow> lid_wf env (put_records env n rs s)"
  unfolding put_records_def index_offsets_def
  by (induction rs arbitrary: s) (simp_all add: offset_put [OF assms] lid_wf_put entry_wfI(3))

lemma index_offsets_lookup:
  "index_offsets env rs f m =
   (case find (\<lambda>r. lc_hash env (ir_cid r) = m) (rev rs) of Some r \<Rightarrow> Some (ir_offset_size r) | None \<Rightarrow> f m)"
proof (induction rs rule: rev_induct)
  case Nil
  then show ?case by (simp add: index_offsets_def)
next
  case (snoc r rs)
  then show ?case by (simp add: index_offsets_def)
qed

lemma find_None: "find P xs = None \<longleftrightarrow> (\<forall>x \<in> set xs. \<not> P x)"
  by (induction xs) auto

lemma find_append: "find P (xs @ ys) = (case find P xs of None \<Rightarrow> find P ys | Some x \<Rightarrow> Some x)"
  by (induction xs) simp_all

lemma find_SomeD: "find P xs = Some x \<Longrightarrow> x \<in> set xs \<and> P x"
  by (induction xs) (auto split: if_splits)

lemma index_offsets_hashes:
  "index_offsets env rs f m \<noteq> None \<longleftrightarrow> m \<in> set (map (\<lambda>r. lc_hash env (ir_cid r)) rs) \<or> f m \<noteq> None"
  by (auto simp: index_offsets_lookup find_None image_iff split: option.splits dest!: find_SomeD)

lemma utc_now_run [lid_simps]: "utc_now env s = (Ok (lid_clock env (lid_ticks s)), s\<lparr> lid_ticks := Suc (lid_ticks s) \<rparr>)"
  by (simp add: utc_now_def)

text \<open>The state after the index of a piece with known metadata has been added.\<close>

definition after_index ::
  "('c, 'm, 'z) lid_env_scheme \<Rightarrow> 'c \<Rightarrow> 'c index_record list \<Rightarrow> piece_metadata \<Rightarrow> lid \<Rightarrow> lid" where
  "after_index env p rs info s =
    (let t = put_records env (pm_cursor info) rs
       (fold apply_op (link_ops env s p (map (\<lambda>r. lc_hash env (ir_cid r)) rs)) s) in
     put_cf PIECE_CID_TO_CURSOR_CF (lc_to_bytes env p)
       (enc (metadata_codec env) (info\<lparr> pm_indexed_at := Some (lid_clock env (lid_ticks t)) \<rparr>))
       (t\<lparr> lid_ticks := Suc (lid_ticks t) \<rparr>))"

lemma add_index_run:
  assumes "lid_laws env" "lid_wf env s" "info_of env s p = Some info"
  shows "add_index env p rs complete s = (Ok (), after_index env p rs info s)"
  using assms(3)
  by (simp add: add_index_def Let_def bindM_def set_multihashes_run [OF assms(1,2)] retM_def
      get_metadata [OF assms(1) link_wf [OF assms(2)]] link_effect [OF assms(1,2)]
      add_records_run [OF assms(1)] utc_now_run set_piece_cid_to_metadata_def put_value laws_codecs [OF assms(1)]
      after_index_def)

lemma add_index_unknown:
  assumes "lid_laws env" "lid_wf env s" "info_of env s p = None" "cursor_of env s = None"
  shows "add_index env p rs complete s =
    (Err CursorNotFound, fold apply_op (link_ops env s p (map (\<lambda>r. lc_hash env (ir_cid r)) rs)) s)"
  using assms(3,4)
  by (simp add: add_index_def Let_def bindM_def set_multihashes_run [OF assms(1,2)]
      get_metadata [OF assms(1) link_wf [OF assms(2)]] get_cursor [OF assms(1) link_wf [OF assms(2)]]
      link_effect [OF assms(1,2)])

lemma after_index_effect:
  assumes "lid_laws env" "lid_wf env s"
  defines "t \<equiv> \<lambda>p rs info. after_index env p rs info s"
  shows "info_of env (t p rs info) =
      (info_of env s)(p \<mapsto> info\<lparr> pm_indexed_at := Some (lid_clock env (lid_ticks s)) \<rparr>)"
    "holders_of env (t p rs info) = link_holders p (map (\<lambda>r. lc_hash env (ir_cid r)) rs) (holders_of env s)"
    "offset_of env (t p rs info) =
      (offset_of env s)(pm_cursor info := index_offsets env rs (offset_of env s (pm_cursor info)))"
    "fmlookup (lid_db (t p rs info) DEFAULT_CF) NEXT_CURSOR_KEY = fmlookup (lid_db s DEFAULT_CF) NEXT_CURSOR_KEY"
    "flag_of env (t p rs info) = flag_of env s"
    "lid_wf env (t p rs info)"
proof -
  note linked = link_effect [OF assms(1,2)] link_wf [OF assms(2)]
  show "lid_wf env (t p rs info)"
    unfolding t_def after_index_def Let_def
    by (rule lid_wf_put) (simp_all add: put_records_effect [OF assms(1)] linked entry_wfI(1))
  show "info_of env (t p rs info) =
      (info_of env s)(p \<mapsto> info\<lparr> pm_indexed_at := Some (lid_clock env (lid_ticks s)) \<rparr>)"
    "holders_of env (t p rs info) = link_holders p (map (\<lambda>r. lc_hash env (ir_cid r)) rs) (holders_of env s)"
    "offset_of env (t p rs info) =
      (offset_of env s)(pm_cursor info := index_offsets env rs (offset_of env s (pm_cursor info)))"
    "fmlookup (lid_db (t p rs info) DEFAULT_CF) NEXT_CURSOR_KEY = fmlookup (lid_db s DEFAULT_CF) NEXT_CURSOR_KEY"
    "flag_of env (t p rs info) = flag_of env s"
    by (simp_all add: t_def after_index_def Let_def info_put [OF assms(1)] put_records_effect [OF assms(1)] linked)
qed

section \<open>Removing an index\<close>

lemma position_Some: "position P xs = Some i \<Longrightarrow> i < length xs \<and> P (xs ! i)"
  by (induction xs arbitrary: i) (auto split: if_splits)

lemma position_None: "position P xs = None \<longleftrightarrow> (\<forall>x \<in> set xs. \<not> P x)"
  by (induction xs) auto

lemma swap_remove_keeps:
  assumes "i < length xs" "x \<in> set xs" "x \<noteq> xs ! i"
  shows "x \<in> set (swap_remove i xs)"
proof -
  obtain j where j: "j < length xs" "x = xs ! j" using assms(2) by (metis in_set_conv_nth)
  have len: "length (swap_remove i xs) = length xs - 1" by (simp add: swap_remove_def)
  have nth: "swap_remove i xs ! k = xs[i := last xs] ! k" if "k < length xs - 1" for k
    using that by (simp add: swap_remove_def nth_butlast)
  show ?thesis
  proof (cases "j < length xs - 1")
    case True
    moreover have "i \<noteq> j" using assms(3) j(2) by auto
    ultimately have "swap_remove i xs ! j = x" using nth [OF True] j by simp
    with True show ?thesis using len by (metis nth_mem)
  next
    case False
    then have j': "j = length xs - 1" using j by linarith
    then have last: "last xs = x" using j by (subst last_conv_nth) auto
    have "i \<noteq> j" using assms(3) j(2) by auto
    then have i: "i < length xs - 1" using j' assms(1) by linarith
    then have "swap_remove i xs ! i = x" using nth [OF i] assms(1) last by simp
    then show ?thesis using i len by (metis nth_mem)
  qed
qed

definition unlinked :: "'c \<Rightarrow> 'c list \<Rightarrow> 'c list option" where
  "unlinked p cids =
    (case position (\<lambda>cid. cid = p) cids of
       None \<Rightarrow> Some cids
     | Some idx \<Rightarrow> if length cids \<le> 1 then None else Some (swap_remove idx cids))"

lemma unlinked_keeps:
  assumes "q \<in> set cids" "q \<noteq> p"
  shows "\<exists>rest. unlinked p cids = Some rest \<and> q \<in> set rest"
proof (cases "position (\<lambda>cid. cid = p) cids")
  case None
  then show ?thesis using assms by (simp add: unlinked_def)
next
  case (Some i)
  note i = position_Some [OF Some]
  have "length cids \<noteq> 1" using assms i by (auto simp: length_Suc_conv)
  then show ?thesis using Some i assms swap_remove_keeps [of i cids q] by (auto simp: unlinked_def)
qed

definition unlink_ops :: "('c, 'm, 'z) lid_env_scheme \<Rightarrow> 'c \<Rightarrow> 'm \<Rightarrow> 'c list \<Rightarrow> batch_op list" where
  "unlink_ops env p m cids =
    (case position (\<lambda>cid. cid = p) cids of
       None \<Rightarrow> []
     | Some idx \<Rightarrow>
         if length cids \<le> 1 then [BatchDelete MULTIHASH_TO_PIECE_CID_CF (multihash_base64 env m)]
         else [BatchPut MULTIHASH_TO_PIECE_CID_CF (multihash_base64 env m) (enc (cids_codec env) (swap_remove idx cids))])"

lemma unlink_run:
  assumes "lid_laws env" "lid_wf env s" "holders_of env s m = Some cids"
  shows "unlink_multihash env p (multihash_base64 env m) s = (Ok (unlink_ops env p m cids), s)"
  using assms(3)
  by (auto simp: unlink_multihash_def bindM_def get_holders [OF assms(1,2)] unlink_ops_def retM_def liftM_def
      put_cbor laws_codecs [OF assms(1)] split: option.splits)

lemma unlink_effect:
  assumes "lid_laws env" "holders_of env s m = Some cids"
  defines "t \<equiv> \<lambda>p. fold apply_op (unlink_ops env p m cids) s"
  shows "holders_of env (t p) = (holders_of env s)(m := unlinked p cids)"
    "info_of env (t p) = info_of env s" "offset_of env (t p) = offset_of env s"
    "flag_of env (t p) = flag_of env s" "lid_db (t p) DEFAULT_CF = lid_db s DEFAULT_CF"
  using assms(2)
  by (auto simp: t_def unlink_ops_def unlinked_def fun_eq_iff holders_of_def info_of_def offset_of_def flag_of_def
      base64_inj [OF assms(1)] laws_enc [OF assms(1)] split: option.splits)

definition drop_index_ops ::
  "('c, 'm, 'z) lid_env_scheme \<Rightarrow> lid \<Rightarrow> 'c \<Rightarrow> nat \<Rightarrow> 'm \<Rightarrow> batch_op list" where
  "drop_index_ops env s p n m =
    unlink_ops env p m (the (holders_of env s m)) @
    [BatchDelete DEFAULT_CF (key_cursor_prefix n @ multihash_base64 env m)]"

lemma drop_index_effect:
  assumes "lid_laws env" "distinct ms" "\<And>m. m \<in> set ms \<Longrightarrow> holders_of env u m = holders_of env s m \<and> holders_of env s m \<noteq> None"
  defines "t \<equiv> \<lambda>p n. fold apply_op (concat (map (drop_index_ops env s p n) ms)) u"
  shows "holders_of env (t p n) =
      (\<lambda>m. if m \<in> set ms then unlinked p (the (holders_of env s m)) else holders_of env u m) \<and>
    info_of env (t p n) = info_of env u \<and> flag_of env (t p n) = flag_of env u \<and>
    lid_db (t p n) DEFAULT_CF = fold (\<lambda>m. fmdrop (key_cursor_prefix n @ multihash_base64 env m)) ms (lid_db u DEFAULT_CF)"
  using assms(2,3) unfolding t_def
proof (induction ms arbitrary: u)
  case Nil
  then show ?case by simp
next
  case (Cons m ms)
  then obtain cids where cids: "holders_of env s m = Some cids" "holders_of env u m = Some cids" by fastforce
  define v where "v = delete_cf DEFAULT_CF (key_cursor_prefix n @ multihash_base64 env m)
    (fold apply_op (unlink_ops env p m cids) u)"
  note e = unlink_effect [OF assms(1) cids(2)]
  have v: "holders_of env v = (holders_of env u)(m := unlinked p cids)" "info_of env v = info_of env u"
    "flag_of env v = flag_of env u"
    "lid_db v DEFAULT_CF = fmdrop (key_cursor_prefix n @ multihash_base64 env m) (lid_db u DEFAULT_CF)"
    using e [of p] by (simp_all add: v_def fun_eq_iff holders_of_def info_of_def flag_of_def)
  have "fold apply_op (concat (map (drop_index_ops env s p n) (m # ms))) u =
      fold apply_op (concat (map (drop_index_ops env s p n) ms)) v"
    by (simp add: drop_index_ops_def cids v_def)
  moreover have "holders_of env v x = holders_of env s x \<and> holders_of env s x \<noteq> None" if "x \<in> set ms" for x
    using Cons.prems that by (auto simp: v)
  ultimately show ?case using Cons.IH [of v] Cons.prems(1) by (auto simp: v cids fun_eq_iff)
qed

end
