(* ===== verification/LocalIndex_Inv.thy ===== *)
theory LocalIndex_Inv
  imports LocalIndex_Props
begin

text \<open>
  The states of a local index directory that starts with an empty database (\<open>lid_step\<close>), the
  invariant of these states (\<open>lid_inv\<close>), and the operations under the invariant.
\<close>

section \<open>Steps\<close>

inductive lid_step :: "('c, 'm, 'z) lid_env_scheme \<Rightarrow> lid \<Rightarrow> lid \<Rightarrow> bool" for env where
  step_reopen: "lid_step env s (lid_new (lid_db s))"
| step_add_deal: "lid_step env s (snd (add_deal_for_piece env p d s))"
| step_remove_deal: "lid_step env s (snd (remove_deal_for_piece env p u s))"
| step_remove_metadata: "lid_step env s (snd (remove_piece_metadata env p s))"
| step_add_index: "lid_step env s (snd (add_index env p rs complete s))"
| step_remove_indexes: "lid_step env s (snd (remove_indexes env p s))"
| step_flag: "utf8 [] a \<Longrightarrow> lid_step env s (snd (flag_piece env p b a s))"
| step_unflag: "lid_step env s (snd (unflag_piece env p a s))"
| step_check: "lid_step env s (snd (next_pieces_to_check env a s))"

definition lid_empty :: lid where
  "lid_empty = lid_new (\<lambda>_. fmempty)"

section \<open>Invariant\<close>

text \<open>
  Every entry has the right shape; the next cursor is never set, so that every piece has the
  cursor zero and every offset is stored under it; and every multihash with an offset leads to a
  list of pieces.
\<close>

definition lid_inv :: "('c, 'm, 'z) lid_env_scheme \<Rightarrow> lid \<Rightarrow> bool" where
  "lid_inv env s \<longleftrightarrow>
    lid_wf env s \<and> fmlookup (lid_db s DEFAULT_CF) NEXT_CURSOR_KEY = None \<and>
    (\<forall>n m. offset_of env s n m \<noteq> None \<longrightarrow> n = 0 \<and> holders_of env s m \<noteq> None) \<and>
    (\<forall>c info. info_of env s c = Some info \<longrightarrow> pm_cursor info = 0)"

lemma lid_invD:
  assumes "lid_inv env s"
  shows "lid_wf env s" "cursor_of env s = None"
    "offset_of env s n m \<noteq> None \<Longrightarrow> n = 0 \<and> holders_of env s m \<noteq> None"
    "info_of env s c = Some info \<Longrightarrow> pm_cursor info = 0"
  using assms by (simp_all add: lid_inv_def cursor_of_def)

lemma lid_inv_empty: "lid_inv env lid_empty"
  using lid_wf_new [of env] by (simp add: lid_inv_def lid_empty_def offset_of_def info_of_def lid_new_def)

lemma lid_inv_db: "lid_db s = lid_db t \<Longrightarrow> lid_inv env s = lid_inv env t"
  by (simp add: lid_inv_def lid_wf_def offset_of_def info_of_def holders_of_def)

lemma lid_inv_ticks [simp]: "lid_inv env (s\<lparr> lid_ticks := n \<rparr>) = lid_inv env s"
  by (rule lid_inv_db) simp

text \<open>Changes that do not touch the index keep the invariant.\<close>

lemma lid_inv_frame:
  assumes "lid_inv env s" "lid_wf env t" "lid_db t DEFAULT_CF = lid_db s DEFAULT_CF"
    "\<And>m. holders_of env s m \<noteq> None \<Longrightarrow> holders_of env t m \<noteq> None"
    "\<And>c info. info_of env t c = Some info \<Longrightarrow> pm_cursor info = 0"
  shows "lid_inv env t"
proof -
  have "offset_of env t = offset_of env s" using assms(3) by (simp add: fun_eq_iff offset_of_def)
  then show ?thesis using assms by (auto simp: lid_inv_def)
qed

section \<open>Removing\<close>

abbreviation index_key :: "('c, 'm, 'z) lid_env_scheme \<Rightarrow> 'm \<Rightarrow> bytes" where
  "index_key env m \<equiv> key_cursor_prefix 0 @ multihash_base64 env m"

lemma index_key_inj: "lid_laws env \<Longrightarrow> inj (index_key env)"
  by (simp add: inj_def base64_inj)

text \<open>The table of offsets has one entry per multihash.\<close>

lemma default_entry:
  assumes "lid_laws env" "lid_inv env s" "fmlookup (lid_db s DEFAULT_CF) k = Some v"
  shows "\<exists>m os. k = index_key env m \<and> v = enc (offset_codec env) os \<and> offset_of env s 0 m = Some os"
proof -
  from lid_wfD [OF lid_invD(1) [OF assms(2)] assms(3)] obtain n m os where
    k: "k = key_cursor_prefix n @ multihash_base64 env m" "v = enc (offset_codec env) os"
    using assms(2,3) by (auto simp: entry_wf_def lid_inv_def)
  then have "offset_of env s n m = Some os" using assms(3) by (simp add: offset_of_def laws_enc [OF assms(1)])
  moreover from this have "n = 0" using lid_invD(3) [OF assms(2), of n m] by simp
  ultimately show ?thesis using k by blast
qed

lemma default_entries:
  assumes "lid_laws env" "lid_inv env s"
  obtains ms where "distinct ms" "set ms = {m. offset_of env s 0 m \<noteq> None}"
    "prefix_iterator env (lid_db s DEFAULT_CF) (key_cursor_prefix 0) =
     map (\<lambda>m. (index_key env m, enc (offset_codec env) (the (offset_of env s 0 m)))) ms"
proof (rule table_entries_map [of "index_key env" "lid_db s DEFAULT_CF" "enc (offset_codec env)" "offset_of env s 0"])
  show "inj (index_key env)" by (rule index_key_inj [OF assms(1)])
  show keys: "\<exists>m. k = index_key env m" if "k |\<in>| fmdom (lid_db s DEFAULT_CF)" for k
    using that default_entry [OF assms] by (metis fmdomE)
  show "fmlookup (lid_db s DEFAULT_CF) (index_key env m) = map_option (enc (offset_codec env)) (offset_of env s 0 m)" for m
  proof (cases "fmlookup (lid_db s DEFAULT_CF) (index_key env m)")
    case (Some v)
    from default_entry [OF assms Some] show ?thesis
      by (auto simp: Some base64_inj [OF assms(1)])
  qed (simp add: offset_of_def)
  fix ms
  assume "distinct ms" "set ms = {m. offset_of env s 0 m \<noteq> None}"
    "table_entries (lid_db s DEFAULT_CF) = map (\<lambda>m. (index_key env m, enc (offset_codec env) (the (offset_of env s 0 m)))) ms"
  moreover have "prefix_iterator env (lid_db s DEFAULT_CF) (key_cursor_prefix 0) = table_entries (lid_db s DEFAULT_CF)"
    by (rule iterate_all [OF assms(1)]) (auto dest: keys)
  ultimately show thesis using that by simp
qed

lemma drop_index_run:
  assumes "lid_laws env" "lid_wf env s" "\<And>m. m \<in> set ms \<Longrightarrow> holders_of env s m \<noteq> None"
  shows "foldM (remove_index_entry env p (key_cursor_prefix n))
     (map (\<lambda>m. (key_cursor_prefix n @ multihash_base64 env m, v m)) ms) batch s =
    (Ok (batch @ concat (map (drop_index_ops env s p n) ms)), s)"
  using assms(3)
proof (induction ms arbitrary: batch)
  case Nil
  then show ?case by (simp add: retM_def)
next
  case (Cons m ms)
  then obtain cids where "holders_of env s m = Some cids" by fastforce
  from unlink_run [OF assms(1,2) this, of p] this Cons show ?case
    by (simp add: remove_index_entry_def bindM_def liftM_def split_at_def retM_def drop_index_ops_def)
qed

lemma fold_fmdrop_keys:
  "fmlookup (fold (\<lambda>m. fmdrop (K m)) ms t) k = (if k \<in> K ` set ms then None else fmlookup t k)"
  by (induction ms arbitrary: t) auto

text \<open>The removal of the index of a piece removes the offsets of all pieces.\<close>

lemma remove_with_cursor:
  assumes "lid_laws env" "lid_inv env s"
  shows "\<exists>t. remove_indexes_with_cursor env p 0 s = (Ok (), t) \<and> lid_inv env t \<and>
    (\<forall>n m. offset_of env t n m = None) \<and> info_of env t = info_of env s \<and> flag_of env t = flag_of env s \<and>
    (\<forall>m. holders_of env t m =
      (if offset_of env s 0 m \<noteq> None then unlinked p (the (holders_of env s m)) else holders_of env s m))"
proof -
  obtain ms where ms: "distinct ms" "set ms = {m. offset_of env s 0 m \<noteq> None}"
    "prefix_iterator env (lid_db s DEFAULT_CF) (key_cursor_prefix 0) =
     map (\<lambda>m. (index_key env m, enc (offset_codec env) (the (offset_of env s 0 m)))) ms"
    using default_entries [OF assms] by blast
  have held: "holders_of env s m \<noteq> None" if "m \<in> set ms" for m
    using that lid_invD(3) [OF assms(2), of 0 m] by (simp add: ms(2))
  define t where "t = fold apply_op (concat (map (drop_index_ops env s p 0) ms)) s"
  have run: "remove_indexes_with_cursor env p 0 s = (Ok (), t)"
    using drop_index_run [OF assms(1) lid_invD(1) [OF assms(2)] held, where ms = ms and n = 0]
    by (simp add: remove_indexes_with_cursor_def Let_def bindM_def getM_def ms(3) write_batch_def modifyM_def t_def)
  note e = drop_index_effect [OF assms(1) ms(1), of s s p 0, folded t_def]
  have effect: "holders_of env t = (\<lambda>m. if m \<in> set ms then unlinked p (the (holders_of env s m)) else holders_of env s m)"
    "info_of env t = info_of env s" "flag_of env t = flag_of env s"
    "lid_db t DEFAULT_CF = fold (\<lambda>m. fmdrop (index_key env m)) ms (lid_db s DEFAULT_CF)"
    using e held by blast+
  have "fmlookup (lid_db t DEFAULT_CF) k = None" for k
    using default_entry [OF assms, of k] by (auto simp: effect(4) fold_fmdrop_keys ms(2) intro: ccontr)
  then have default: "offset_of env t n m = None" "fmlookup (lid_db t DEFAULT_CF) k = None" for n m k
    by (simp_all add: offset_of_def)
  have wf: "lid_wf env t"
    unfolding t_def
    by (rule lid_wf_fold [OF lid_invD(1) [OF assms(2)]])
      (auto simp: drop_index_ops_def unlink_ops_def split: option.splits if_splits)
  have "lid_inv env t"
    using assms(2) wf default effect(2) by (simp add: lid_inv_def)
  then show ?thesis using run default(1) effect ms(2) by auto
qed

section \<open>Every operation keeps the invariant\<close>

definition info_or_default :: "('c, 'm, 'z) lid_env_scheme \<Rightarrow> lid \<Rightarrow> 'c \<Rightarrow> piece_metadata" where
  "info_or_default env s p = (case info_of env s p of None \<Rightarrow> piece_metadata_default | Some info \<Rightarrow> info)"

lemma add_deal_run:
  assumes "lid_laws env" "lid_wf env s"
  defines "info \<equiv> \<lambda>p. info_or_default env s p"
  shows "add_deal_for_piece env p d s =
    (if d \<in> set (pm_deals (info p)) then (Err (DuplicateDealError (ld_deal_uuid d)), s)
     else (Ok (), put_cf PIECE_CID_TO_CURSOR_CF (lc_to_bytes env p)
       (enc (metadata_codec env) ((info p)\<lparr> pm_deals := pm_deals (info p) @ [d] \<rparr>)) s))"
proof (cases "find (\<lambda>e. e = d) (pm_deals (info p))")
  case None
  then have "d \<notin> set (pm_deals (info p))" by (auto simp: find_None)
  with None show ?thesis
    by (simp add: add_deal_for_piece_def bindM_def get_metadata [OF assms(1,2)] Let_def
        set_piece_cid_to_metadata_def put_value laws_codecs [OF assms(1)] info_def info_or_default_def)
next
  case (Some e)
  then have "e = d" "d \<in> set (pm_deals (info p))" by (auto dest: find_SomeD)
  with Some show ?thesis
    by (simp add: add_deal_for_piece_def bindM_def get_metadata [OF assms(1,2)] Let_def errM_def info_def
        info_or_default_def)
qed

lemma put_metadata_inv:
  assumes "lid_laws env" "lid_inv env s" "pm_cursor info = 0"
  shows "lid_inv env (put_cf PIECE_CID_TO_CURSOR_CF (lc_to_bytes env p) (enc (metadata_codec env) info) s)"
  by (rule lid_inv_frame [OF assms(2)])
    (auto simp: info_put [OF assms(1)] assms(3) intro: lid_wf_put lid_invD [OF assms(2)] split: if_splits)

lemma add_deal_inv:
  assumes "lid_laws env" "lid_inv env s"
  shows "lid_inv env (snd (add_deal_for_piece env p d s))"
proof -
  have "pm_cursor (info_or_default env s p) = 0"
    using lid_invD(4) [OF assms(2), of p]
    by (simp add: info_or_default_def piece_metadata_default_def split: option.splits)
  then show ?thesis
    using assms(2) by (simp add: add_deal_run [OF assms(1) lid_invD(1) [OF assms(2)]] put_metadata_inv [OF assms])
qed

lemma add_index_inv:
  assumes "lid_laws env" "lid_inv env s"
  shows "lid_inv env (snd (add_index env p rs complete s))"
proof (cases "info_of env s p")
  case None
  note wf = lid_invD(1) [OF assms(2)]
  have "lid_inv env (fold apply_op (link_ops env s p (map (\<lambda>r. lc_hash env (ir_cid r)) rs)) s)"
    by (rule lid_inv_frame [OF assms(2) link_wf [OF wf]])
      (auto simp: link_effect [OF assms(1) wf] link_holders_def
        dest: lid_invD(4) [OF assms(2)])
  then show ?thesis
    using add_index_unknown [OF assms(1) wf None lid_invD(2) [OF assms(2)]] by simp
next
  case (Some info)
  note wf = lid_invD(1) [OF assms(2)]
  let ?t = "after_index env p rs info s"
  note e = after_index_effect [OF assms(1) wf]
  have "fmlookup (lid_db ?t DEFAULT_CF) NEXT_CURSOR_KEY = None" using e(4) assms(2) by (simp add: lid_inv_def)
  moreover have cursor: "pm_cursor info = 0" using lid_invD(4) [OF assms(2) Some] .
  moreover have "n = 0 \<and> holders_of env ?t m \<noteq> None" if stored: "offset_of env ?t n m \<noteq> None" for n m
  proof
    show "n = 0"
      using stored lid_invD(3) [OF assms(2), of n m] unfolding e(3) cursor by (cases "n = 0") simp_all
    then have "m \<in> set (map (\<lambda>r. lc_hash env (ir_cid r)) rs) \<or> offset_of env s 0 m \<noteq> None"
      using stored index_offsets_hashes [of env rs "offset_of env s 0" m] unfolding e(3) cursor by simp
    then show "holders_of env ?t m \<noteq> None"
      unfolding e(2) using lid_invD(3) [OF assms(2), of 0 m] by (intro link_holders_known) blast
  qed
  ultimately have "lid_inv env ?t"
    using assms(2) e(6) unfolding lid_inv_def e(1) by auto
  then show ?thesis using add_index_run [OF assms(1) wf Some] by simp
qed

lemma remove_metadata_cases:
  assumes "lid_laws env" "lid_inv env s"
  shows "(info_of env s p = None \<and> remove_piece_metadata env p s = (Err (PieceNotFound p), s)) \<or>
    (\<exists>t. info_of env s p \<noteq> None \<and> remove_indexes_with_cursor env p 0 s = (Ok (), t) \<and>
      remove_piece_metadata env p s = (Ok (), delete_cf PIECE_CID_TO_CURSOR_CF (lc_to_bytes env p) t))"
proof (cases "info_of env s p")
  case None
  then show ?thesis
    by (simp add: remove_piece_metadata_def get_piece_metadata_def bindM_def liftM_def
        get_metadata [OF assms(1) lid_invD(1) [OF assms(2)]])
next
  case (Some info)
  obtain t where "remove_indexes_with_cursor env p 0 s = (Ok (), t)"
    using remove_with_cursor [OF assms, of p] by blast
  then show ?thesis using Some lid_invD(4) [OF assms(2) Some]
    by (simp add: remove_piece_metadata_def get_piece_metadata_def bindM_def liftM_def remove_value_at_key_def
        modifyM_def get_metadata [OF assms(1) lid_invD(1) [OF assms(2)]])
qed

lemma delete_metadata_inv:
  assumes "lid_laws env" "lid_inv env s"
  shows "lid_inv env (delete_cf PIECE_CID_TO_CURSOR_CF (lc_to_bytes env p) s)"
proof (rule lid_inv_frame [OF assms(2) lid_wf_delete [OF lid_invD(1) [OF assms(2)]]])
  show "pm_cursor info = 0"
    if "info_of env (delete_cf PIECE_CID_TO_CURSOR_CF (lc_to_bytes env p) s) c = Some info" for c info
    using that lid_invD(4) [OF assms(2), of c info]
    by (simp add: info_of_def to_bytes_inj [OF assms(1)] split: if_splits)
qed (simp_all add: holders_of_def)

lemma remove_metadata_inv:
  assumes "lid_laws env" "lid_inv env s"
  shows "lid_inv env (snd (remove_piece_metadata env p s))"
proof -
  obtain t where "remove_indexes_with_cursor env p 0 s = (Ok (), t)" "lid_inv env t"
    using remove_with_cursor [OF assms, of p] by blast
  with remove_metadata_cases [OF assms, of p] show ?thesis
    using assms(2) delete_metadata_inv [OF assms(1)] by auto
qed

lemma snd_ignore_not_found: "snd (ignore_not_found m s) = snd (m s)"
  by (simp add: ignore_not_found_def split: prod.splits)

lemma remove_deal_inv:
  assumes "lid_laws env" "lid_inv env s"
  shows "lid_inv env (snd (remove_deal_for_piece env p u s))"
proof (cases "info_of env s p")
  case None
  then show ?thesis using assms(2)
    by (simp add: remove_deal_for_piece_def get_piece_metadata_def bindM_def liftM_def
        get_metadata [OF assms(1) lid_invD(1) [OF assms(2)]])
next
  case (Some info)
  then show ?thesis using lid_invD(4) [OF assms(2) Some] remove_metadata_inv [OF assms, of p]
    by (simp add: remove_deal_for_piece_def get_piece_metadata_def bindM_def liftM_def Let_def snd_ignore_not_found
        get_metadata [OF assms(1) lid_invD(1) [OF assms(2)]] put_value laws_codecs [OF assms(1)]
        put_metadata_inv [OF assms])
qed

lemma remove_indexes_inv:
  assumes "lid_laws env" "lid_inv env s"
  shows "lid_inv env (snd (remove_indexes env p s))"
proof -
  obtain t where "remove_indexes_with_cursor env p 0 s = (Ok (), t)" "lid_inv env t"
    using remove_with_cursor [OF assms, of p] by blast
  then show ?thesis using assms(2) lid_invD(4) [OF assms(2), of p]
    by (auto simp: remove_indexes_def bindM_def errM_def get_metadata [OF assms(1) lid_invD(1) [OF assms(2)]]
        split: option.split)
qed

text \<open>What a provider's flag on a piece becomes.\<close>

definition flagged :: "('c, 'm, 'z) lid_env_scheme \<Rightarrow> lid \<Rightarrow> 'c \<Rightarrow> bool \<Rightarrow> bytes \<Rightarrow> 'c flagged_piece" where
  "flagged env s p b a =
    (case flag_of env s p a of
       None \<Rightarrow> \<lparr> fp_piece_cid = p, fp_storage_provider_address = a, fp_created_at = lid_clock env (lid_ticks s),
         fp_updated_at = lid_clock env (Suc (lid_ticks s)), fp_has_unsealed_copy = b \<rparr>
     | Some old \<Rightarrow> old\<lparr> fp_updated_at := lid_clock env (lid_ticks s), fp_has_unsealed_copy := b \<rparr>)"

lemma flag_run:
  assumes "lid_laws env" "lid_wf env s"
  shows "\<exists>n. flag_piece env p b a s =
    (Ok (), put_cf PIECE_CID_TO_FLAGGED_CF (key_flag_piece env p a) (enc (flagged_codec env) (flagged env s p b a))
      (s\<lparr> lid_ticks := n \<rparr>))"
proof (cases "flag_of env s p a")
  case None
  then show ?thesis
    by (intro exI [of _ "Suc (Suc (lid_ticks s))"])
      (simp add: flagged_def flag_piece_def Let_def bindM_def get_flag [OF assms] flagged_piece_new_def utc_now_run retM_def
        put_value laws_codecs [OF assms(1)])
next
  case (Some old)
  then show ?thesis
    by (intro exI [of _ "Suc (lid_ticks s)"])
      (simp add: flagged_def flag_piece_def Let_def bindM_def get_flag [OF assms] utc_now_run retM_def
        put_value laws_codecs [OF assms(1)])
qed

text \<open>An entry of the table of flagged pieces names the piece and the provider of its key.\<close>

lemma flag_of_names:
  assumes "lid_laws env" "lid_wf env s" "flag_of env s p a = Some fp"
  shows "fp_piece_cid fp = p \<and> fp_storage_provider_address fp = a \<and> utf8 [] a"
proof -
  obtain v where v: "fmlookup (lid_db s PIECE_CID_TO_FLAGGED_CF) (key_flag_piece env p a) = Some v"
    "snd (flagged_codec env) v = Some fp"
    using assms(3) by (auto simp: flag_of_def bind_eq_Some_conv)
  from lid_wfD [OF assms(2) v(1)] v(2) show ?thesis
    by (auto simp: entry_wf_def flag_key_inj [OF assms(1)] laws_enc [OF assms(1)])
qed

lemma flag_inv:
  assumes "lid_laws env" "lid_inv env s" "utf8 [] a"
  shows "lid_inv env (snd (flag_piece env p b a s))"
proof -
  note wf = lid_invD(1) [OF assms(2)]
  let ?fp = "flagged env s p b a"
  obtain n where run: "flag_piece env p b a s =
      (Ok (), put_cf PIECE_CID_TO_FLAGGED_CF (key_flag_piece env p a) (enc (flagged_codec env) ?fp) (s\<lparr> lid_ticks := n \<rparr>))"
    using flag_run [OF assms(1) wf, of p b a] by blast
  have "fp_piece_cid ?fp = p" "fp_storage_provider_address ?fp = a"
    using flag_of_names [OF assms(1) wf, of p a] by (cases "flag_of env s p a"; simp add: flagged_def)+
  then have "entry_wf env PIECE_CID_TO_FLAGGED_CF (key_flag_piece env p a) (enc (flagged_codec env) ?fp)"
    using assms(3) unfolding entry_wf_def by (auto intro!: exI [of _ ?fp])
  then have "lid_wf env (put_cf PIECE_CID_TO_FLAGGED_CF (key_flag_piece env p a) (enc (flagged_codec env) ?fp)
      (s\<lparr> lid_ticks := n \<rparr>))"
    by (intro lid_wf_put) (simp_all add: wf)
  then show ?thesis unfolding run
    by (simp, intro lid_inv_frame [OF assms(2)]) (simp_all add: lid_invD(4) [OF assms(2)])
qed

lemma unflag_inv:
  assumes "lid_laws env" "lid_inv env s"
  shows "lid_inv env (snd (unflag_piece env p a s))"
proof -
  let ?t = "delete_cf PIECE_CID_TO_FLAGGED_CF (key_flag_piece env p a) s"
  have "info_of env ?t = info_of env s" "holders_of env ?t = holders_of env s"
    by (simp_all add: fun_eq_iff info_of_def holders_of_def)
  then have "lid_inv env ?t"
    by (intro lid_inv_frame [OF assms(2) lid_wf_delete [OF lid_invD(1) [OF assms(2)]]])
      (simp_all add: lid_invD(4) [OF assms(2)])
  then show ?thesis by (simp add: unflag_piece_def remove_value_at_key_def modifyM_def)
qed

text \<open>Looking for the pieces to check does not write to the database.\<close>

lemma keeps_utc_now [frame]: "keeps lid_db (utc_now env)"
  by (simp add: keeps_def utc_now_def)

lemma keeps_check_piece [frame]: "keeps lid_db (check_piece env a line cids)"
  by (cases line) (auto simp: check_piece_def intro!: frame)

lemma keeps_next_pieces: "keeps lid_db (next_pieces_to_check env a)"
  by (auto simp: next_pieces_to_check_def intro!: frame)

lemma lid_step_inv:
  assumes "lid_laws env" "lid_step env s t" "lid_inv env s"
  shows "lid_inv env t"
  using assms(2,3)
proof cases
  case step_reopen
  then show ?thesis using assms(3) lid_inv_db [of t s env] by (simp add: lid_new_def)
next
  case (step_check a)
  have "lid_db t = lid_db s"
    unfolding step_check(1) using keeps_next_pieces [of env a] by (simp add: keeps_def)
  then show ?thesis using assms(3) lid_inv_db [of t s env] by simp
qed (simp_all add: assms add_deal_inv add_index_inv remove_deal_inv remove_metadata_inv remove_indexes_inv flag_inv
    unflag_inv)

lemma lid_reachable_inv:
  assumes "lid_laws env" "(lid_step env)\<^sup>*\<^sup>* lid_empty s"
  shows "lid_inv env s"
  using assms(2)
proof (induction rule: rtranclp_induct)
  case base
  then show ?case by (rule lid_inv_empty)
next
  case (step s t)
  then show ?case using lid_step_inv [OF assms(1)] by blast
qed

end
