(* ===== verification/LocalIndex_Ref.thy ===== *)
theory LocalIndex_Ref
  imports LocalIndex_Inv
begin

text \<open>
  An instance of the parameters of the local index directory, with two identifiers and a
  self-delimiting code for the stored records. It satisfies the laws that the properties of the
  directory assume.
\<close>

section \<open>Self-delimiting codes\<close>

type_synonym 'v prefix_code = "('v \<Rightarrow> bytes) \<times> (bytes \<Rightarrow> ('v \<times> bytes) option)"

definition prefix_ok :: "'v prefix_code \<Rightarrow> bool" where
  "prefix_ok c \<longleftrightarrow> (\<forall>v rest. snd c (fst c v @ rest) = Some (v, rest))"

fun read_unary :: "bytes \<Rightarrow> (nat \<times> bytes) option" where
  "read_unary [] = None"
| "read_unary (b # bs) = (if b = 0 then Some (0, bs) else map_option (apfst Suc) (read_unary bs))"

definition nat_code :: "nat prefix_code" where
  "nat_code = (\<lambda>n. replicate n 1 @ [0], read_unary)"

definition map_code :: "('a \<Rightarrow> 'b) \<Rightarrow> ('b \<Rightarrow> 'a) \<Rightarrow> 'b prefix_code \<Rightarrow> 'a prefix_code" where
  "map_code f g c = (fst c \<circ> f, \<lambda>bs. map_option (apfst g) (snd c bs))"

definition pair_code :: "'a prefix_code \<Rightarrow> 'b prefix_code \<Rightarrow> ('a \<times> 'b) prefix_code" where
  "pair_code a b =
    (\<lambda>(x, y). fst a x @ fst b y,
     \<lambda>bs. case snd a bs of None \<Rightarrow> None | Some (x, rest) \<Rightarrow> map_option (apfst (Pair x)) (snd b rest))"

fun read_many :: "(bytes \<Rightarrow> ('v \<times> bytes) option) \<Rightarrow> nat \<Rightarrow> bytes \<Rightarrow> ('v list \<times> bytes) option" where
  "read_many f 0 bs = Some ([], bs)"
| "read_many f (Suc n) bs =
    (case f bs of None \<Rightarrow> None | Some (x, rest) \<Rightarrow> map_option (apfst (Cons x)) (read_many f n rest))"

definition list_code :: "'v prefix_code \<Rightarrow> 'v list prefix_code" where
  "list_code c =
    (\<lambda>xs. fst nat_code (length xs) @ concat (map (fst c) xs),
     \<lambda>bs. case read_unary bs of None \<Rightarrow> None | Some (n, rest) \<Rightarrow> read_many (snd c) n rest)"

lemma read_unary_replicate: "read_unary (replicate n 1 @ 0 # rest) = Some (n, rest)"
  by (induction n) simp_all

lemma prefix_nat [simp]: "prefix_ok nat_code"
  by (simp add: prefix_ok_def nat_code_def read_unary_replicate)

lemma prefix_map: "prefix_ok c \<Longrightarrow> (\<And>x. g (f x) = x) \<Longrightarrow> prefix_ok (map_code f g c)"
  by (simp add: prefix_ok_def map_code_def)

lemma prefix_pair [simp]: "prefix_ok a \<Longrightarrow> prefix_ok b \<Longrightarrow> prefix_ok (pair_code a b)"
  by (simp add: prefix_ok_def pair_code_def)

lemma read_many_concat: "prefix_ok c \<Longrightarrow> read_many (snd c) (length xs) (concat (map (fst c) xs) @ rest) = Some (xs, rest)"
  by (induction xs) (simp_all add: prefix_ok_def)

lemma prefix_list [simp]: "prefix_ok c \<Longrightarrow> prefix_ok (list_code c)"
  unfolding prefix_ok_def [of "list_code c"]
  by (simp add: list_code_def nat_code_def read_unary_replicate read_many_concat)

text \<open>The codec of a whole value.\<close>

definition codec_of :: "'v prefix_code \<Rightarrow> 'v codec" where
  "codec_of c = (\<lambda>v. Some (fst c v), \<lambda>bs. case snd c bs of Some (v, []) \<Rightarrow> Some v | _ \<Rightarrow> None)"

lemma codec_of_ok: "prefix_ok c \<Longrightarrow> codec_ok (codec_of c)"
  unfolding codec_ok_def codec_of_def prefix_ok_def by (simp, metis append_Nil2 list.case(1) option.case(2) prod.case)

section \<open>Codes of the stored records\<close>

definition bool_code :: "bool prefix_code" where
  "bool_code = map_code (\<lambda>b. if b then 1 else 0) (\<lambda>n. n = 1) nat_code"

definition int_code :: "int prefix_code" where
  "int_code = map_code (\<lambda>i. (0 \<le> i, nat \<bar>i\<bar>)) (\<lambda>(b, n). if b then int n else - int n) (pair_code bool_code nat_code)"

definition bytes_code :: "bytes prefix_code" where
  "bytes_code = map_code (map unat) (map word_of_nat) (list_code nat_code)"

definition option_code :: "'v prefix_code \<Rightarrow> 'v option prefix_code" where
  "option_code c = map_code (\<lambda>x. case x of None \<Rightarrow> [] | Some v \<Rightarrow> [v]) (\<lambda>xs. case xs of [] \<Rightarrow> None | v # _ \<Rightarrow> Some v) (list_code c)"

definition deal_code :: "lid_deal_info prefix_code" where
  "deal_code =
    map_code
      (\<lambda>d. (ld_deal_uuid d, ld_is_legacy d, ld_chain_deal_id d, ld_storage_provider_address d, ld_sector_number d,
        ld_piece_offset d, ld_piece_length d, ld_car_length d, ld_is_direct_deal d))
      (\<lambda>(u, y, i, m, s, po, l, c, d). \<lparr> ld_deal_uuid = u, ld_is_legacy = y, ld_chain_deal_id = i,
        ld_storage_provider_address = m, ld_sector_number = s, ld_piece_offset = po, ld_piece_length = l,
        ld_car_length = c, ld_is_direct_deal = d \<rparr>)
      (pair_code nat_code (pair_code bool_code (pair_code nat_code (pair_code bytes_code (pair_code nat_code
        (pair_code nat_code (pair_code nat_code (pair_code nat_code bool_code))))))))"

definition metadata_code :: "piece_metadata prefix_code" where
  "metadata_code =
    map_code (\<lambda>p. (pm_version p, pm_indexed_at p, pm_complete_index p, pm_deals p, pm_cursor p))
      (\<lambda>(v, i, c, d, n). \<lparr> pm_version = v, pm_indexed_at = i, pm_complete_index = c, pm_deals = d, pm_cursor = n \<rparr>)
      (pair_code bytes_code (pair_code (option_code int_code) (pair_code bool_code
        (pair_code (list_code deal_code) nat_code))))"

definition offset_code :: "offset_size prefix_code" where
  "offset_code =
    map_code (\<lambda>x. (os_offset x, os_size x)) (\<lambda>(a, b). \<lparr> os_offset = a, os_size = b \<rparr>) (pair_code nat_code nat_code)"

definition flagged_code :: "bool flagged_piece prefix_code" where
  "flagged_code =
    map_code
      (\<lambda>f. (fp_piece_cid f, fp_storage_provider_address f, fp_created_at f, fp_updated_at f, fp_has_unsealed_copy f))
      (\<lambda>(p, a, c, u, h). \<lparr> fp_piece_cid = p, fp_storage_provider_address = a, fp_created_at = c, fp_updated_at = u,
        fp_has_unsealed_copy = h \<rparr>)
      (pair_code bool_code (pair_code bytes_code (pair_code int_code (pair_code int_code bool_code))))"

lemma prefix_bool [simp]: "prefix_ok bool_code"
  unfolding bool_code_def by (rule prefix_map) simp_all

lemma prefix_int [simp]: "prefix_ok int_code"
  unfolding int_code_def by (rule prefix_map) simp_all

lemma prefix_bytes [simp]: "prefix_ok bytes_code"
  unfolding bytes_code_def by (rule prefix_map) (simp_all add: comp_def map_idI)

lemma prefix_option [simp]: "prefix_ok c \<Longrightarrow> prefix_ok (option_code c)"
  unfolding option_code_def by (rule prefix_map) (simp_all split: option.split)

lemma prefix_deal [simp]: "prefix_ok deal_code"
  unfolding deal_code_def by (rule prefix_map) simp_all

lemma prefix_metadata: "prefix_ok metadata_code"
  unfolding metadata_code_def by (rule prefix_map) simp_all

lemma prefix_offset: "prefix_ok offset_code"
  unfolding offset_code_def by (rule prefix_map) simp_all

lemma prefix_flagged: "prefix_ok flagged_code"
  unfolding flagged_code_def by (rule prefix_map) simp_all

section \<open>The instance\<close>

definition two_to_bytes :: "bool \<Rightarrow> bytes" where
  "two_to_bytes c = [if c then 1 else 0]"

definition two_from_bytes :: "bytes \<Rightarrow> bool option" where
  "two_from_bytes bs = (if bs = [0] then Some False else if bs = [1] then Some True else None)"

definition two_to_string :: "bool \<Rightarrow> bytes" where
  "two_to_string c = (if c then ascii ''cid1'' else ascii ''cid0'')"

definition two_from_str :: "bytes \<Rightarrow> bool option" where
  "two_from_str bs = (if bs = ascii ''cid0'' then Some False else if bs = ascii ''cid1'' then Some True else None)"

definition ref_lid :: "(bool, bool) lid_env" where
  "ref_lid =
    \<lparr> lc_to_bytes = two_to_bytes, lc_try_from = two_from_bytes, lc_read_bytes = two_from_bytes,
      lc_to_string = two_to_string, lc_from_str = two_from_str, lc_hash = id, lc_new_v1 = (\<lambda>_. id),
      lm_to_bytes = two_to_bytes, lm_from_bytes = two_from_bytes, base64_encode = id, base64_decode = Some,
      lv_encode = le_bytes 8, lv_read = Some \<circ> of_le_bytes,
      metadata_codec = codec_of metadata_code, cids_codec = codec_of (list_code bool_code),
      offset_codec = codec_of offset_code, flagged_codec = codec_of flagged_code,
      prefix_iterator = (\<lambda>t p. filter (\<lambda>(k, _). take (length p) k = p) (table_entries t)),
      lid_clock = int \<rparr>"

lemma ref_lid_hash [simp]: "lc_hash ref_lid = id"
  by (simp add: ref_lid_def)

lemma two_laws:
  "two_from_bytes (two_to_bytes c) = Some c" "two_from_str (two_to_string c) = Some c"
  "\<forall>b \<in> set (two_to_string c). unat b < 128 \<and> b \<noteq> slash"
  by (cases c; simp add: two_from_bytes_def two_to_bytes_def two_from_str_def two_to_string_def ascii_def of_char_def)+

lemma ref_lid_laws: "lid_laws ref_lid"
proof -
  have "filter (\<lambda>(k, _). take (length p) k = p) (table_entries t) = table_entries t"
    if "\<forall>k. k |\<in>| fmdom t \<longrightarrow> take (length p) k = p" for t p
    using that by (auto simp: table_entries_def intro!: filter_True)
  moreover have "of_le_bytes (le_bytes 8 n) = n" if "n < u64_bound" for n
    using that by (intro of_le_bytes_le_bytes) (simp add: u64_bound_def)
  ultimately show ?thesis
    using two_laws
    by (simp add: lid_laws_def ref_lid_def codec_of_ok prefix_metadata prefix_offset prefix_flagged)
qed

section \<open>Example states\<close>

definition demo_deal :: lid_deal_info where
  "demo_deal = \<lparr> ld_deal_uuid = 1, ld_is_legacy = False, ld_chain_deal_id = 2, ld_storage_provider_address = ascii ''a'',
    ld_sector_number = 3, ld_piece_offset = 0, ld_piece_length = 4, ld_car_length = 4, ld_is_direct_deal = True \<rparr>"

definition demo_records :: "bool index_record list" where
  "demo_records = [\<lparr> ir_cid = True, ir_offset_size = \<lparr> os_offset = 5, os_size = 6 \<rparr> \<rparr>]"

text \<open>A directory with a deal for one piece, with a deal for both pieces, and with an index and a flag.\<close>

definition demo_one :: lid where
  "demo_one = snd (add_deal_for_piece ref_lid False demo_deal lid_empty)"

definition demo_two :: lid where
  "demo_two = snd (add_deal_for_piece ref_lid True demo_deal demo_one)"

definition demo_indexed :: lid where
  "demo_indexed = snd (flag_piece ref_lid False True (ascii ''a'') (snd (add_index ref_lid False demo_records True demo_two)))"

lemma demo_one_reachable: "(lid_step ref_lid)\<^sup>*\<^sup>* lid_empty demo_one"
  unfolding demo_one_def by (blast intro: lid_step.intros)

lemma demo_two_reachable: "(lid_step ref_lid)\<^sup>*\<^sup>* lid_empty demo_two"
  unfolding demo_two_def by (blast intro: lid_step.intros rtranclp.rtrancl_into_rtrancl demo_one_reachable)

lemma demo_indexed_reachable: "(lid_step ref_lid)\<^sup>*\<^sup>* lid_empty demo_indexed"
proof -
  have "utf8 [] (ascii ''a'')" by code_simp
  from step_flag [OF this] step_add_index demo_two_reachable show ?thesis unfolding demo_indexed_def
    by (metis rtranclp.rtrancl_into_rtrancl)
qed

lemma demo_one_info: "info_of ref_lid demo_one = [False \<mapsto> piece_metadata_default\<lparr> pm_deals := [demo_deal] \<rparr>]"
proof -
  note run = add_deal_run [OF ref_lid_laws lid_invD(1) [OF lid_inv_empty], of False demo_deal]
  have "info_of ref_lid lid_empty = Map.empty" by (simp add: fun_eq_iff info_of_def lid_empty_def lid_new_def)
  then show ?thesis
    by (simp add: demo_one_def run info_or_default_def info_put [OF ref_lid_laws] piece_metadata_default_def)
qed

lemma demo_two_info: "info_of ref_lid demo_two = (info_of ref_lid demo_one)(True \<mapsto> piece_metadata_default\<lparr> pm_deals := [demo_deal] \<rparr>)"
proof -
  note run = add_deal_run [OF ref_lid_laws lid_invD(1) [OF lid_reachable_inv [OF ref_lid_laws demo_one_reachable]], of True demo_deal]
  show ?thesis
    by (simp add: demo_two_def run info_or_default_def info_put [OF ref_lid_laws] piece_metadata_default_def demo_one_info)
qed

lemma demo_indexed_contents:
  "info_of ref_lid demo_indexed False \<noteq> None" "info_of ref_lid demo_indexed True \<noteq> None"
  "offset_of ref_lid demo_indexed 0 True = Some \<lparr> os_offset = 5, os_size = 6 \<rparr>"
  "flag_of ref_lid demo_indexed False (ascii ''a'') \<noteq> None"
proof -
  note wf = lid_invD(1) [OF lid_reachable_inv [OF ref_lid_laws demo_two_reachable]]
  obtain info where info: "info_of ref_lid demo_two False = Some info" "pm_cursor info = 0"
    by (simp add: demo_two_info demo_one_info piece_metadata_default_def)
  define t where "t = after_index ref_lid False demo_records info demo_two"
  have run: "snd (add_index ref_lid False demo_records True demo_two) = t"
    using add_index_run [OF ref_lid_laws wf info(1)] by (simp add: t_def)
  note e = after_index_effect [OF ref_lid_laws wf, of False demo_records info, folded t_def]
  obtain n where flag: "flag_piece ref_lid False True (ascii ''a'') t =
    (Ok (), put_cf PIECE_CID_TO_FLAGGED_CF (key_flag_piece ref_lid False (ascii ''a''))
      (enc (flagged_codec ref_lid) (flagged ref_lid t False True (ascii ''a''))) (t\<lparr> lid_ticks := n \<rparr>))"
    using flag_run [OF ref_lid_laws e(6)] by blast
  have demo: "demo_indexed = put_cf PIECE_CID_TO_FLAGGED_CF (key_flag_piece ref_lid False (ascii ''a''))
      (enc (flagged_codec ref_lid) (flagged ref_lid t False True (ascii ''a''))) (t\<lparr> lid_ticks := n \<rparr>)"
    by (simp add: demo_indexed_def run flag)
  show "info_of ref_lid demo_indexed False \<noteq> None" "info_of ref_lid demo_indexed True \<noteq> None"
    by (simp_all add: demo e demo_two_info)
  show "offset_of ref_lid demo_indexed 0 True = Some \<lparr> os_offset = 5, os_size = 6 \<rparr>"
    by (simp add: demo e info(2) index_offsets_lookup demo_records_def)
  show "flag_of ref_lid demo_indexed False (ascii ''a'') \<noteq> None"
    by (simp add: demo flag_put [OF ref_lid_laws])
qed

end
