(* ===== verification/LocalIndex_Claims.thy ===== *)
theory LocalIndex_Claims
  imports LocalIndex_Ref
begin

text \<open>
  The properties of the local index directory: what its listings contain, what an index that has
  been added can be asked for, how the pieces of a provider are handed out for checking, and what
  follows from the fact that the next free cursor is never initialised. The parameters of the
  model are instantiated by a small codec for the witnesses.
\<close>

section \<open>Reading under the invariant\<close>

lemma get_offset_size_run:
  assumes "lid_laws env" "lid_inv env s"
  shows "get_offset_size env p m s =
    ((case info_of env s p of
        None \<Rightarrow> Err (PieceNotFound p)
      | Some _ \<Rightarrow> ok_or (MultihashNotFound m) (offset_of env s 0 m)), s)"
  using lid_invD(4) [OF assms(2), of p]
  by (auto simp: get_offset_size_def bindM_def liftM_def get_metadata [OF assms(1) lid_invD(1) [OF assms(2)]]
      get_offset [OF assms(1) lid_invD(1) [OF assms(2)]] split: option.split)

lemma pieces_containing_run:
  assumes "lid_laws env" "lid_inv env s"
  shows "pieces_containing_multihash env m s = (ok_or (MultihashNotFound m) (holders_of env s m), s)"
  by (simp add: pieces_containing_multihash_def get_multihash_to_piece_cids_def bindM_def liftM_def
      get_holders [OF assms(1) lid_invD(1) [OF assms(2)]])

lemma get_piece_metadata_run:
  assumes "lid_laws env" "lid_inv env s"
  shows "get_piece_metadata env p s = (ok_or (PieceNotFound p) (info_of env s p), s)"
  by (simp add: get_piece_metadata_def bindM_def liftM_def get_metadata [OF assms(1) lid_invD(1) [OF assms(2)]])

lemma remove_indexes_run:
  assumes "lid_laws env" "lid_inv env s" "info_of env s p = Some info"
  shows "remove_indexes env p s = remove_indexes_with_cursor env p 0 s"
  using lid_invD(4) [OF assms(2,3)] assms(3)
  by (simp add: remove_indexes_def bindM_def get_metadata [OF assms(1) lid_invD(1) [OF assms(2)]])

lemma get_index_run:
  assumes "lid_laws env" "lid_inv env s" "info_of env s p = Some info"
  shows "\<exists>ms. distinct ms \<and> set ms = {m. offset_of env s 0 m \<noteq> None} \<and>
    get_index env p s =
      (Ok (map (\<lambda>m. \<lparr> ir_cid = lc_new_v1 env RAW_CODEC m, ir_offset_size = the (offset_of env s 0 m) \<rparr>) ms), s)"
proof -
  obtain ms where ms: "distinct ms" "set ms = {m. offset_of env s 0 m \<noteq> None}"
    "prefix_iterator env (lid_db s DEFAULT_CF) (key_cursor_prefix 0) =
     map (\<lambda>m. (index_key env m, enc (offset_codec env) (the (offset_of env s 0 m)))) ms"
    by (rule default_entries [OF assms(1,2)])
  have "foldM (read_index_record env (key_cursor_prefix 0))
      (map (\<lambda>m. (index_key env m, enc (offset_codec env) (f m))) ms) rs s =
    (Ok (rs @ map (\<lambda>m. \<lparr> ir_cid = lc_new_v1 env RAW_CODEC m, ir_offset_size = f m \<rparr>) ms), s)" for f rs
    using assms(1)
    by (induction ms arbitrary: rs)
      (simp_all add: retM_def read_index_record_def bindM_def liftM_def split_at_def multihash_base64_def lid_laws_def
        laws_enc [OF assms(1)])
  then have "get_index env p s =
      (Ok (map (\<lambda>m. \<lparr> ir_cid = lc_new_v1 env RAW_CODEC m, ir_offset_size = the (offset_of env s 0 m) \<rparr>) ms), s)"
    using assms(3) lid_invD(4) [OF assms(2,3)]
    by (simp add: get_index_def bindM_def getM_def Let_def ms(3) get_metadata [OF assms(1) lid_invD(1) [OF assms(2)]])
  with ms(1,2) show ?thesis by blast
qed

lemma get_index_has:
  assumes "lid_laws env" "lid_inv env s" "info_of env s p = Some info"
  shows "\<exists>stored. get_index env p s = (Ok stored, s) \<and>
    (\<forall>m os. offset_of env s 0 m = Some os \<longrightarrow>
      (\<exists>q \<in> set stored. lc_hash env (ir_cid q) = m \<and> ir_offset_size q = os))"
proof -
  obtain ms where ms: "set ms = {m. offset_of env s 0 m \<noteq> None}" "get_index env p s =
      (Ok (map (\<lambda>m. \<lparr> ir_cid = lc_new_v1 env RAW_CODEC m, ir_offset_size = the (offset_of env s 0 m) \<rparr>) ms), s)"
    using get_index_run [OF assms] by blast
  have "lc_hash env (lc_new_v1 env RAW_CODEC m) = m" for m using assms(1) by (simp add: lid_laws_def)
  then show ?thesis unfolding ms(2) by (force simp: ms(1))
qed

section \<open>The table of pieces\<close>

lemma piece_entries:
  assumes "lid_laws env" "lid_wf env s"
  obtains cs where "distinct cs" "set cs = {c. info_of env s c \<noteq> None}" "sorted (map (lc_to_bytes env) cs)"
    "iterator_cf PIECE_CID_TO_CURSOR_CF s =
     map (\<lambda>c. (lc_to_bytes env c, enc (metadata_codec env) (the (info_of env s c)))) cs"
proof (rule table_entries_map [of "lc_to_bytes env" "lid_db s PIECE_CID_TO_CURSOR_CF" "enc (metadata_codec env)" "info_of env s"])
  show "inj (lc_to_bytes env)" by (simp add: inj_def to_bytes_inj [OF assms(1)])
  show "\<exists>c. k = lc_to_bytes env c" if "k |\<in>| fmdom (lid_db s PIECE_CID_TO_CURSOR_CF)" for k
    using that lid_wfD [OF assms(2)] by (fastforce simp: entry_wf_def elim!: fmdomE)
  show "fmlookup (lid_db s PIECE_CID_TO_CURSOR_CF) (lc_to_bytes env c) =
    map_option (enc (metadata_codec env)) (info_of env s c)" for c
    using lid_wfD [OF assms(2), of PIECE_CID_TO_CURSOR_CF "lc_to_bytes env c"]
    by (cases "fmlookup (lid_db s PIECE_CID_TO_CURSOR_CF) (lc_to_bytes env c)")
      (auto simp: entry_wf_def info_of_def laws_enc [OF assms(1)])
qed (simp add: that iterator_cf_def)

lemma list_pieces_run:
  assumes "lid_laws env"
  shows "foldM (list_piece_line env) (map (\<lambda>c. (lc_to_bytes env c, v c)) cs) ds s = (Ok (ds @ cs), s)"
  using assms by (induction cs arbitrary: ds) (simp_all add: retM_def list_piece_line_def bindM_def liftM_def lid_laws_def)

lemma list_pieces_ok:
  assumes "lid_laws env" "lid_wf env s"
  shows "\<exists>cids. list_pieces env s = (Ok cids, s) \<and> distinct cids \<and> sorted (map (lc_to_bytes env) cids) \<and>
    set cids = {c. info_of env s c \<noteq> None}"
proof -
  obtain cs where cs: "distinct cs" "set cs = {c. info_of env s c \<noteq> None}" "sorted (map (lc_to_bytes env) cs)"
    "iterator_cf PIECE_CID_TO_CURSOR_CF s =
     map (\<lambda>c. (lc_to_bytes env c, enc (metadata_codec env) (the (info_of env s c)))) cs"
    by (rule piece_entries [OF assms])
  have "list_pieces env s = (Ok cs, s)"
    by (simp add: list_pieces_def bindM_def getM_def cs(4) list_pieces_run [OF assms(1)])
  with cs(1-3) show ?thesis by blast
qed

text \<open>
  C15: In every state that the directory reaches from an empty database, listing the pieces succeeds;
  the list has every piece that the directory has metadata for exactly once, in the order of
  the binary identifiers, and asking for the metadata of any other piece is an error.
\<close>

theorem listed_pieces_are_known:
  assumes "lid_laws env" "(lid_step env)\<^sup>*\<^sup>* lid_empty s"
  shows "\<exists>cids. list_pieces env s = (Ok cids, s) \<and> distinct cids \<and> sorted (map (lc_to_bytes env) cids) \<and>
    (\<forall>c \<in> set cids. \<exists>info. get_piece_metadata env c s = (Ok info, s)) \<and>
    (\<forall>c. c \<notin> set cids \<longrightarrow> get_piece_metadata env c s = (Err (PieceNotFound c), s))"
proof -
  note inv = lid_reachable_inv [OF assms]
  from list_pieces_ok [OF assms(1) lid_invD(1) [OF inv]] show ?thesis
    by (auto simp: get_piece_metadata_run [OF assms(1) inv])
qed

theorem listed_pieces_are_known_witness:
  "\<exists>cids. list_pieces ref_lid demo_two = (Ok cids, demo_two) \<and> distinct cids \<and> set cids = {False, True}"
proof -
  obtain cids where cids: "list_pieces ref_lid demo_two = (Ok cids, demo_two)" "distinct cids"
    "\<forall>c. c \<notin> set cids \<longrightarrow> get_piece_metadata ref_lid c demo_two = (Err (PieceNotFound c), demo_two)"
    using listed_pieces_are_known [OF ref_lid_laws demo_two_reachable] by blast
  have "c \<in> set cids" for c
    using cids(3) get_piece_metadata_run [OF ref_lid_laws lid_reachable_inv [OF ref_lid_laws demo_two_reachable], of c]
    by (cases c) (auto simp: demo_two_info demo_one_info)
  then show ?thesis using cids(1,2) by auto
qed

section \<open>Indexes\<close>

text \<open>
  C14: Adding an index to a piece that the directory knows succeeds. Afterwards every multihash of
  the index leads to the piece, the offset and size of a block are those of its last record, the
  piece counts as indexed with its deals unchanged, and the index that is read back has a record
  with the multihash and offset of every record whose multihash is not repeated.
\<close>

theorem indexed_piece_is_found:
  assumes "lid_laws env" "(lid_step env)\<^sup>*\<^sup>* lid_empty s" "get_piece_metadata env p s = (Ok info, s)"
  shows "\<exists>t. add_index env p rs complete s = (Ok (), t) \<and>
    (\<forall>r \<in> set rs. \<exists>cids. pieces_containing_multihash env (lc_hash env (ir_cid r)) t = (Ok cids, t) \<and> p \<in> set cids) \<and>
    (\<forall>r us vs. rs = us @ r # vs \<and> lc_hash env (ir_cid r) \<notin> (\<lambda>r. lc_hash env (ir_cid r)) ` set vs \<longrightarrow>
      get_offset_size env p (lc_hash env (ir_cid r)) t = (Ok (ir_offset_size r), t) \<and>
      (\<exists>stored. get_index env p t = (Ok stored, t) \<and>
        (\<exists>q \<in> set stored. lc_hash env (ir_cid q) = lc_hash env (ir_cid r) \<and> ir_offset_size q = ir_offset_size r))) \<and>
    is_indexed env p t = (Ok True, t) \<and> get_piece_deals env p t = (Ok (pm_deals info), t)"
proof -
  note inv = lid_reachable_inv [OF assms(1,2)]
  note wf = lid_invD(1) [OF inv]
  have known: "info_of env s p = Some info"
    using assms(3) by (simp add: get_piece_metadata_run [OF assms(1) inv] ok_iff)
  define t where "t = after_index env p rs info s"
  have run: "add_index env p rs complete s = (Ok (), t)" unfolding t_def by (rule add_index_run [OF assms(1) wf known])
  have inv': "lid_inv env t" using add_index_inv [OF assms(1) inv, of p rs complete] run by simp
  note e = after_index_effect [OF assms(1) wf, of p rs info, folded t_def]
  have cursor: "pm_cursor info = 0" by (rule lid_invD(4) [OF inv known])
  have info': "info_of env t p = Some (info\<lparr> pm_indexed_at := Some (lid_clock env (lid_ticks s)) \<rparr>)" by (simp add: e)
  have linked: "\<exists>cids. holders_of env t (lc_hash env (ir_cid r)) = Some cids \<and> p \<in> set cids" if "r \<in> set rs" for r
    using that by (cases "holders_of env s (lc_hash env (ir_cid r))") (auto simp: e link_holders_def)
  have last: "offset_of env t 0 (lc_hash env (ir_cid r)) = Some (ir_offset_size r)"
    if "rs = us @ r # vs" "lc_hash env (ir_cid r) \<notin> (\<lambda>r. lc_hash env (ir_cid r)) ` set vs" for r us vs
  proof -
    have "find (\<lambda>q. lc_hash env (ir_cid q) = lc_hash env (ir_cid r)) (rev vs) = None"
      using that(2) by (auto simp: find_None image_iff)
    then show ?thesis by (simp add: e cursor index_offsets_lookup that(1) find_append)
  qed
  obtain stored where stored: "get_index env p t = (Ok stored, t)"
    "\<And>m os. offset_of env t 0 m = Some os \<Longrightarrow> \<exists>q \<in> set stored. lc_hash env (ir_cid q) = m \<and> ir_offset_size q = os"
    using get_index_has [OF assms(1) inv' info'] by blast
  have queries: "is_indexed env p t = (Ok True, t)" "get_piece_deals env p t = (Ok (pm_deals info), t)"
    by (simp_all add: info' is_indexed_def get_piece_deals_def bindM_def liftM_def retM_def
        get_metadata [OF assms(1) lid_invD(1) [OF inv']])
  have offsets: "get_offset_size env p m t = (Ok os, t)" if "offset_of env t 0 m = Some os" for m os
    using that by (simp add: get_offset_size_run [OF assms(1) inv'] info')
  show ?thesis
    using run linked offsets [OF last] stored(1) stored(2) [OF last] queries
    by (intro exI [of _ t]) (simp add: pieces_containing_run [OF assms(1) inv'] ok_iff)
qed

theorem indexed_piece_is_found_witness:
  "\<exists>t. add_index ref_lid False demo_records True demo_two = (Ok (), t) \<and>
    get_offset_size ref_lid False True t = (Ok \<lparr> os_offset = 5, os_size = 6 \<rparr>, t)"
proof -
  have "get_piece_metadata ref_lid False demo_two = (Ok (piece_metadata_default\<lparr> pm_deals := [demo_deal] \<rparr>), demo_two)"
    using get_piece_metadata_run [OF ref_lid_laws lid_reachable_inv [OF ref_lid_laws demo_two_reachable], of False]
    by (simp add: demo_two_info demo_one_info)
  from indexed_piece_is_found [OF ref_lid_laws demo_two_reachable this, of demo_records True]
  obtain t where t: "add_index ref_lid False demo_records True demo_two = (Ok (), t)"
    "\<And>r us vs. demo_records = us @ r # vs \<Longrightarrow> lc_hash ref_lid (ir_cid r) \<notin> (\<lambda>r. lc_hash ref_lid (ir_cid r)) ` set vs \<Longrightarrow>
      get_offset_size ref_lid False (lc_hash ref_lid (ir_cid r)) t = (Ok (ir_offset_size r), t)"
    by blast
  from t(2) [of "[]" "\<lparr> ir_cid = True, ir_offset_size = \<lparr> os_offset = 5, os_size = 6 \<rparr> \<rparr>" "[]"] t(1)
  show ?thesis by (simp add: demo_records_def)
qed

text \<open>
  C39: The next free cursor is never set in a database that starts empty: adding the index of a piece without
  metadata always fails with the error that no cursor was found, although a new piece should be
  created. The multihashes of the index lead to the piece nevertheless.
\<close>

theorem unknown_piece_is_not_indexed:
  assumes "lid_laws env" "(lid_step env)\<^sup>*\<^sup>* lid_empty s" "get_piece_metadata env p s = (Err (PieceNotFound p), s)"
  shows "\<exists>t. add_index env p rs complete s = (Err CursorNotFound, t) \<and>
    get_piece_metadata env p t = (Err (PieceNotFound p), t) \<and>
    (\<forall>r \<in> set rs. \<exists>cids. pieces_containing_multihash env (lc_hash env (ir_cid r)) t = (Ok cids, t) \<and> p \<in> set cids)"
proof -
  note inv = lid_reachable_inv [OF assms(1,2)]
  note wf = lid_invD(1) [OF inv]
  have unknown: "info_of env s p = None"
    using assms(3) by (cases "info_of env s p") (simp_all add: get_piece_metadata_run [OF assms(1) inv])
  define t where "t = fold apply_op (link_ops env s p (map (\<lambda>r. lc_hash env (ir_cid r)) rs)) s"
  have run: "add_index env p rs complete s = (Err CursorNotFound, t)"
    unfolding t_def by (rule add_index_unknown [OF assms(1) wf unknown lid_invD(2) [OF inv]])
  have inv': "lid_inv env t" using add_index_inv [OF assms(1) inv, of p rs complete] run by simp
  note e = link_effect [OF assms(1) wf, of p "map (\<lambda>r. lc_hash env (ir_cid r)) rs", folded t_def]
  have linked: "\<exists>cids. holders_of env t (lc_hash env (ir_cid r)) = Some cids \<and> p \<in> set cids" if "r \<in> set rs" for r
    using that by (cases "holders_of env s (lc_hash env (ir_cid r))") (auto simp: e link_holders_def)
  show ?thesis
    using run linked unknown
    by (intro exI [of _ t])
      (auto simp: pieces_containing_run [OF assms(1) inv'] get_piece_metadata_run [OF assms(1) inv'] e(2) ok_iff)
qed

theorem unknown_piece_is_not_indexed_witness:
  "\<exists>t cids. add_index ref_lid True demo_records True demo_one = (Err CursorNotFound, t) \<and>
    pieces_containing_multihash ref_lid True t = (Ok cids, t) \<and> True \<in> set cids"
proof -
  have "get_piece_metadata ref_lid True demo_one = (Err (PieceNotFound True), demo_one)"
    using get_piece_metadata_run [OF ref_lid_laws lid_reachable_inv [OF ref_lid_laws demo_one_reachable], of True]
    by (simp add: demo_one_info)
  from unknown_piece_is_not_indexed [OF ref_lid_laws demo_one_reachable this, of demo_records True]
  show ?thesis by (auto simp: demo_records_def)
qed

text \<open>
  C40: All pieces have the same cursor, so that they share one index: two known pieces give the same answer for
  every multihash, and removing the index of one piece removes the offsets of all pieces, although
  the multihashes go on leading to the other pieces.
\<close>

theorem pieces_share_one_index:
  assumes "lid_laws env" "(lid_step env)\<^sup>*\<^sup>* lid_empty s"
    "get_piece_metadata env p s = (Ok info, s)" "get_piece_metadata env q s = (Ok info', s)" "q \<noteq> p"
  shows "get_offset_size env p m s = get_offset_size env q m s \<and>
    (\<exists>t. remove_indexes env p s = (Ok (), t) \<and> get_offset_size env q m t = (Err (MultihashNotFound m), t) \<and>
      (\<forall>cids. pieces_containing_multihash env m s = (Ok cids, s) \<and> q \<in> set cids \<longrightarrow>
        (\<exists>rest. pieces_containing_multihash env m t = (Ok rest, t) \<and> q \<in> set rest)))"
proof -
  note inv = lid_reachable_inv [OF assms(1,2)]
  have known: "info_of env s p = Some info" "info_of env s q = Some info'"
    using assms(3,4) by (simp_all add: get_piece_metadata_run [OF assms(1) inv] ok_iff)
  obtain t where t: "remove_indexes_with_cursor env p 0 s = (Ok (), t)" "lid_inv env t"
    "\<And>n m. offset_of env t n m = None" "info_of env t = info_of env s"
    "\<And>m. holders_of env t m =
      (if offset_of env s 0 m \<noteq> None then unlinked p (the (holders_of env s m)) else holders_of env s m)"
    using remove_with_cursor [OF assms(1) inv, of p] by blast
  have keeps: "\<exists>rest. holders_of env t m = Some rest \<and> q \<in> set rest"
    if "holders_of env s m = Some cids" "q \<in> set cids" for cids
    using that unlinked_keeps [OF that(2) assms(5)] by (cases "offset_of env s 0 m") (simp_all add: t(5))
  show ?thesis
    using t(1) keeps
    by (auto simp: get_offset_size_run [OF assms(1) inv] get_offset_size_run [OF assms(1) t(2)] known t(3,4)
        remove_indexes_run [OF assms(1) inv known(1)] pieces_containing_run [OF assms(1) inv] ok_iff
        pieces_containing_run [OF assms(1) t(2)] intro!: exI [of _ t])
qed

theorem pieces_share_one_index_witness:
  "get_offset_size ref_lid True True demo_indexed = (Ok \<lparr> os_offset = 5, os_size = 6 \<rparr>, demo_indexed) \<and>
   (\<exists>t. remove_indexes ref_lid False demo_indexed = (Ok (), t) \<and>
     get_offset_size ref_lid True True t = (Err (MultihashNotFound True), t))"
proof -
  note inv = lid_reachable_inv [OF ref_lid_laws demo_indexed_reachable]
  note run = get_piece_metadata_run [OF ref_lid_laws inv]
  obtain info info' where "get_piece_metadata ref_lid False demo_indexed = (Ok info, demo_indexed)"
    "get_piece_metadata ref_lid True demo_indexed = (Ok info', demo_indexed)"
    using demo_indexed_contents(1,2) by (auto simp: run)
  from pieces_share_one_index [OF ref_lid_laws demo_indexed_reachable this, of True] show ?thesis
    using demo_indexed_contents(2,3) by (auto simp: get_offset_size_run [OF ref_lid_laws inv])
qed

end
