(* ===== verification/LocalIndex_Checks.thy ===== *)
theory LocalIndex_Checks
  imports LocalIndex_Claims
begin

text \<open>
  The listings of the local index directory that are handed out in parts: the flagged pieces, in
  pages, and the pieces of a provider that are due for a check, in batches.
\<close>

section \<open>Flagged pieces\<close>

lemma utf8_ascii: "\<forall>b \<in> set xs. unat b < 128 \<Longrightarrow> utf8 [] (xs @ ys) = utf8 [] ys"
  by (induction xs) (simp_all add: utf8_rest_def)

lemma split_slash_append: "slash \<notin> set xs \<Longrightarrow> split_slash (xs @ slash # ys) = xs # split_slash ys"
  by (induction xs) auto

lemma flag_key_parts:
  assumes "lid_laws env" "utf8 [] a"
  shows "utf8 [] (key_flag_piece env c a)" "drop 1 (split_slash (key_flag_piece env c a)) = lc_to_string env c # split_slash a"
proof -
  have str: "\<forall>b \<in> set (lc_to_string env c). unat b < 128 \<and> b \<noteq> slash" using assms(1) by (simp add: lid_laws_def)
  then have "slash \<notin> set (lc_to_string env c)" by blast
  then show "drop 1 (split_slash (key_flag_piece env c a)) = lc_to_string env c # split_slash a"
    by (simp add: key_flag_piece_def split_slash_append)
  have "\<forall>b \<in> set ([slash] @ lc_to_string env c @ [slash]). unat b < 128" using str by auto
  from utf8_ascii [OF this, of a] show "utf8 [] (key_flag_piece env c a)"
    using assms(2) by (simp add: key_flag_piece_def)
qed

text \<open>Whether a flag is listed.\<close>

definition accepted :: "flagged_pieces_list_filter option \<Rightarrow> timestamp \<Rightarrow> 'c flagged_piece \<Rightarrow> bool" where
  "accepted flt cursor fp \<longleftrightarrow>
    (case flt of None \<Rightarrow> True | Some f \<Rightarrow> \<not> filter_rejects f fp) \<and> cursor \<le> fp_created_at fp"

lemma list_flagged_line_run:
  assumes "lid_laws env" "lid_wf env s" "flag_of env s c a = Some fp"
  shows "list_flagged_line env flt cursor (key_flag_piece env c a, enc (flagged_codec env) fp) fps s =
    (Ok (if accepted flt cursor fp then fps @ [fp] else fps), s)"
proof -
  have names: "fp_piece_cid fp = c" "utf8 [] a" using flag_of_names [OF assms] by auto
  have "lc_from_str env (lc_to_string env c) = Some c" using assms(1) by (simp add: lid_laws_def)
  moreover have "fp\<lparr> fp_piece_cid := c \<rparr> = fp" using names(1) by simp
  ultimately show ?thesis
    using flag_key_parts [OF assms(1) names(2), of c]
    by (auto simp: list_flagged_line_def bindM_def liftM_def retM_def laws_enc [OF assms(1)] accepted_def split: option.split)
qed

lemma flag_entries:
  assumes "lid_laws env" "lid_wf env s"
  obtains fps where "distinct fps"
    "set fps = {fp. flag_of env s (fp_piece_cid fp) (fp_storage_provider_address fp) = Some fp}"
    "iterator_cf PIECE_CID_TO_FLAGGED_CF s =
     map (\<lambda>fp. (key_flag_piece env (fp_piece_cid fp) (fp_storage_provider_address fp), enc (flagged_codec env) fp)) fps"
proof (rule table_entries_map [of "\<lambda>(c, a). key_flag_piece env c a" "lid_db s PIECE_CID_TO_FLAGGED_CF"
      "enc (flagged_codec env)" "\<lambda>(c, a). flag_of env s c a"])
  show "inj (\<lambda>(c, a). key_flag_piece env c a)" by (auto simp: inj_def flag_key_inj [OF assms(1)])
  show "\<exists>x. k = (\<lambda>(c, a). key_flag_piece env c a) x" if "k |\<in>| fmdom (lid_db s PIECE_CID_TO_FLAGGED_CF)" for k
    using that lid_wfD [OF assms(2)] by (fastforce simp: entry_wf_def elim!: fmdomE)
  show "fmlookup (lid_db s PIECE_CID_TO_FLAGGED_CF) (case x of (c, a) \<Rightarrow> key_flag_piece env c a) =
    map_option (enc (flagged_codec env)) (case x of (c, a) \<Rightarrow> flag_of env s c a)" for x
    using lid_wfD [OF assms(2), of PIECE_CID_TO_FLAGGED_CF "key_flag_piece env (fst x) (snd x)"]
    by (cases x; cases "fmlookup (lid_db s PIECE_CID_TO_FLAGGED_CF) (key_flag_piece env (fst x) (snd x))")
      (auto simp: entry_wf_def flag_of_def laws_enc [OF assms(1)])
  fix xs
  assume xs: "distinct xs" "set xs = {x. (\<lambda>(c, a). flag_of env s c a) x \<noteq> None}"
    "table_entries (lid_db s PIECE_CID_TO_FLAGGED_CF) =
     map (\<lambda>x. ((\<lambda>(c, a). key_flag_piece env c a) x, enc (flagged_codec env) (the ((\<lambda>(c, a). flag_of env s c a) x)))) xs"
  define F where "F = (\<lambda>(c, a). the (flag_of env s c a))"
  have stored: "flag_of env s (fst x) (snd x) = Some (F x)" if "x \<in> set xs" for x
    using that unfolding xs(2) by (auto simp: F_def case_prod_beta)
  have names: "fp_piece_cid (F x) = fst x" "fp_storage_provider_address (F x) = snd x" if "x \<in> set xs" for x
    using flag_of_names [OF assms stored [OF that]] by auto
  have "inj_on F (set xs)" using names by (intro inj_onI) (metis prod.expand)
  then have "distinct (map F xs)" using xs(1) by (simp add: distinct_map)
  moreover have "set (map F xs) = {fp. flag_of env s (fp_piece_cid fp) (fp_storage_provider_address fp) = Some fp}"
  proof (intro set_eqI iffI)
    fix fp assume "fp \<in> set (map F xs)"
    then show "fp \<in> {fp. flag_of env s (fp_piece_cid fp) (fp_storage_provider_address fp) = Some fp}"
      using names stored by auto
  next
    fix fp assume fp: "fp \<in> {fp. flag_of env s (fp_piece_cid fp) (fp_storage_provider_address fp) = Some fp}"
    let ?x = "(fp_piece_cid fp, fp_storage_provider_address fp)"
    have "?x \<in> set xs" "F ?x = fp" using fp unfolding xs(2) by (simp_all add: F_def)
    then show "fp \<in> set (map F xs)" by (metis image_eqI image_set)
  qed
  moreover have "iterator_cf PIECE_CID_TO_FLAGGED_CF s =
     map (\<lambda>fp. (key_flag_piece env (fp_piece_cid fp) (fp_storage_provider_address fp), enc (flagged_codec env) fp)) (map F xs)"
    using names by (simp add: iterator_cf_def xs(3) F_def case_prod_beta)
  ultimately show thesis by (rule that)
qed

lemma list_flagged_run:
  assumes "lid_laws env" "lid_wf env s"
    "\<forall>fp \<in> set fps. flag_of env s (fp_piece_cid fp) (fp_storage_provider_address fp) = Some fp"
  shows "foldM (list_flagged_line env flt cursor)
     (map (\<lambda>fp. (key_flag_piece env (fp_piece_cid fp) (fp_storage_provider_address fp), enc (flagged_codec env) fp)) fps) acc s =
    (Ok (acc @ filter (accepted flt cursor) fps), s)"
  using assms(3)
  by (induction fps arbitrary: acc) (simp_all add: retM_def bindM_def list_flagged_line_run [OF assms(1,2)])

lemma count_flagged_run:
  assumes "lid_laws env" "length fps + n < u64_bound"
  shows "foldM (count_flagged_line env f) (map (\<lambda>fp. (k fp, enc (flagged_codec env) fp)) fps) n s =
    (Ok (n + length (filter (\<lambda>fp. \<not> filter_rejects f fp) fps)), s)"
  using assms(2)
  by (induction fps arbitrary: n)
    (simp_all add: retM_def bindM_def liftM_def count_flagged_line_def laws_enc [OF assms(1)] add_u_def)

text \<open>
  C17: The flagged pieces are listed in pages: every page is a section of one list, which is
  sorted by the time of the first flag and has exactly the flags that pass the filter and are not
  older than the cursor, each once. If the cursor excludes no flag then the number of flags that is
  reported for the filter is the length of the list.
\<close>

theorem flagged_pieces_are_paged:
  assumes "lid_laws env" "(lid_step env)\<^sup>*\<^sup>* lid_empty s"
  shows "\<exists>fps. (\<forall>offset limit. flagged_pieces_list env flt cursor offset limit s = (Ok (take limit (drop offset fps)), s)) \<and>
    sorted (map fp_created_at fps) \<and> distinct fps \<and>
    set fps = {fp. flag_of env s (fp_piece_cid fp) (fp_storage_provider_address fp) = Some fp \<and> accepted flt cursor fp} \<and>
    (fcard (fmdom (lid_db s PIECE_CID_TO_FLAGGED_CF)) < u64_bound \<and>
      (\<forall>c a fp. flag_of env s c a = Some fp \<longrightarrow> cursor \<le> fp_created_at fp) \<longrightarrow>
      flagged_pieces_count env flt s = (Ok (length fps), s))"
proof -
  note wf = lid_invD(1) [OF lid_reachable_inv [OF assms]]
  obtain all where all: "distinct all"
    "set all = {fp. flag_of env s (fp_piece_cid fp) (fp_storage_provider_address fp) = Some fp}"
    "iterator_cf PIECE_CID_TO_FLAGGED_CF s =
     map (\<lambda>fp. (key_flag_piece env (fp_piece_cid fp) (fp_storage_provider_address fp), enc (flagged_codec env) fp)) all"
    by (rule flag_entries [OF assms(1) wf])
  have len: "length all = fcard (fmdom (lid_db s PIECE_CID_TO_FLAGGED_CF))"
    using arg_cong [OF all(3), of length] by (simp add: iterator_cf_def table_entries_def)
  define fps where "fps = sort_key fp_created_at (filter (accepted flt cursor) all)"
  have "flagged_pieces_list env flt cursor offset limit s = (Ok (take limit (drop offset fps)), s)" for offset limit
    using list_flagged_run [OF assms(1) wf, of all flt cursor "[]"] all(2)
    by (simp add: flagged_pieces_list_def bindM_def getM_def all(3) Let_def retM_def fps_def)
  moreover have "flagged_pieces_count env flt s = (Ok (length fps), s)"
    if "length all < u64_bound" "\<forall>c a fp. flag_of env s c a = Some fp \<longrightarrow> cursor \<le> fp_created_at fp"
  proof -
    have "filter (accepted flt cursor) all = filter (\<lambda>fp. case flt of None \<Rightarrow> True | Some f \<Rightarrow> \<not> filter_rejects f fp) all"
      using that(2) all(2) by (intro filter_cong) (auto simp: accepted_def)
    then show ?thesis
      using count_flagged_run [OF assms(1), of all 0] that(1)
      by (cases flt) (simp_all add: flagged_pieces_count_def bindM_def getM_def retM_def all(3) fps_def)
  qed
  moreover have "sorted (map fp_created_at fps)" "distinct fps"
    "set fps = {fp. flag_of env s (fp_piece_cid fp) (fp_storage_provider_address fp) = Some fp \<and> accepted flt cursor fp}"
    using all(1,2) by (auto simp: fps_def)
  ultimately show ?thesis unfolding len by blast
qed

theorem flagged_pieces_are_paged_witness:
  "\<exists>cursor fps. flagged_pieces_list ref_lid None cursor 0 10 demo_indexed = (Ok (take 10 fps), demo_indexed) \<and>
    flagged_pieces_list ref_lid None cursor 1 10 demo_indexed = (Ok (take 10 (drop 1 fps)), demo_indexed) \<and> fps \<noteq> []"
proof -
  obtain fp where fp: "flag_of ref_lid demo_indexed False (ascii ''a'') = Some fp"
    using demo_indexed_contents(4) by blast
  note names = flag_of_names [OF ref_lid_laws lid_invD(1) [OF lid_reachable_inv [OF ref_lid_laws demo_indexed_reachable]] fp]
  from flagged_pieces_are_paged [OF ref_lid_laws demo_indexed_reachable, of None "fp_created_at fp"]
  obtain fps where
    fps: "\<And>offset limit. flagged_pieces_list ref_lid None (fp_created_at fp) offset limit demo_indexed =
      (Ok (take limit (drop offset fps)), demo_indexed)"
    "set fps = {x. flag_of ref_lid demo_indexed (fp_piece_cid x) (fp_storage_provider_address x) = Some x \<and>
      accepted None (fp_created_at fp) x}"
    by blast
  have "fp \<in> set fps" using fp names unfolding fps(2) by (simp add: accepted_def)
  then have "fps \<noteq> []" by auto
  then show ?thesis using fps(1) [of 0 10] fps(1) [of 1 10]
    by (intro exI [of _ "fp_created_at fp"] exI [of _ fps]) simp
qed

section \<open>Pieces to check\<close>










end
