(* ===== verification/ExpirationQueue.thy ===== *)
theory ExpirationQueue
  imports Primitives
begin

text \<open>
  The expiration queue of a partition (\<^verbatim>\<open>pallets/storage-provider/src/expiration_queue.rs\<close>):
  which sectors expire at which block, either on time or early because they
  are faulty. This theory holds the data and the operations as the source has
  them; \<^verbatim>\<open>ExpirationQueue_Props\<close> relates them to the abstract schedule.
\<close>

abbreviation InsertionFailed :: general_pallet_error where
  "InsertionFailed \<equiv> ExpirationQueueErrorInsertionFailed"

section \<open>Expiration sets\<close>

record expiration_set =
  on_time_sectors :: "sector_number fset"
  early_sectors :: "sector_number fset"

definition es_new :: expiration_set where
  "es_new = \<lparr> on_time_sectors = {||}, early_sectors = {||} \<rparr>"

definition on_timeM :: "(sector_number fset, 'e, 'a) stM \<Rightarrow> (expiration_set, 'e, 'a) stM" where
  [monad_defs]: "on_timeM = zoomM on_time_sectors (\<lambda>S es. es\<lparr>on_time_sectors := S\<rparr>)"

definition earlyM :: "(sector_number fset, 'e, 'a) stM \<Rightarrow> (expiration_set, 'e, 'a) stM" where
  [monad_defs]: "earlyM = zoomM early_sectors (\<lambda>S es. es\<lparr>early_sectors := S\<rparr>)"

definition es_add ::
  "sector_number list \<Rightarrow> sector_number list \<Rightarrow> (expiration_set, general_pallet_error, unit) stM" where
  "es_add on_time early =
    bindM (on_timeM (forM on_time (insert_setM MAX_SECTORS InsertionFailed))) (\<lambda>_.
    earlyM (forM early (insert_setM MAX_SECTORS InsertionFailed)))"

definition es_remove :: "sector_number list \<Rightarrow> sector_number list \<Rightarrow> expiration_set \<Rightarrow> expiration_set" where
  "es_remove on_time early es =
    es\<lparr> on_time_sectors := fold (\<lambda>s S. S |-| {|s|}) on_time (on_time_sectors es),
        early_sectors := fold (\<lambda>s S. S |-| {|s|}) early (early_sectors es) \<rparr>"

definition es_is_empty :: "expiration_set \<Rightarrow> bool" where
  "es_is_empty es \<longleftrightarrow> on_time_sectors es = {||} \<and> early_sectors es = {||}"

definition es_len :: "expiration_set \<Rightarrow> nat" where
  "es_len es = fcard (on_time_sectors es) + fcard (early_sectors es)"

section \<open>The queue\<close>

type_synonym expiration_queue = "(block, expiration_set) fmap"

definition eq_new :: expiration_queue where
  "eq_new = fmempty"

definition add_to_expiration_set ::
  "block \<Rightarrow> sector_number list \<Rightarrow> sector_number list
    \<Rightarrow> (expiration_queue, general_pallet_error, unit) stM" where
  "add_to_expiration_set expiration on_time early =
    (if on_time = [] \<and> early = [] then retM ()
     else
       bindM (getM (\<lambda>q. case fmlookup q expiration of None \<Rightarrow> es_new | Some es \<Rightarrow> es)) (\<lambda>es.
       bindM (liftM (on_local (es_add on_time early) es)) (\<lambda>(_, es').
       insert_mapM MAX_SECTORS InsertionFailed expiration es')))"

definition must_update_or_delete ::
  "block \<Rightarrow> expiration_set \<Rightarrow> (expiration_queue, general_pallet_error, unit) stM" where
  "must_update_or_delete expiration es =
    (if es_is_empty es then modifyM (fmdrop expiration)
     else insert_mapM MAX_SECTORS InsertionFailed expiration es)"

definition eq_add_active_sectors ::
  "sector_on_chain_info list \<Rightarrow> (expiration_queue, general_pallet_error, unit) stM" where
  "eq_add_active_sectors sectors =
    forM sectors (\<lambda>s. add_to_expiration_set (si_expiration s) [si_sector_number s] [])"

subsection \<open>Searching for active sectors\<close>

record sector_expiration_set =
  ses_sectors :: "sector_number list"
  ses_set :: expiration_set

type_synonym expiration_groups = "(block, sector_expiration_set) fmap"

text \<open>
  The sectors of the set that are searched for, and what remains to be found
  (\<^verbatim>\<open>include_set\<close> is updated in place by the code).
\<close>

definition group_expiration_set ::
  "sector_number fset \<Rightarrow> expiration_set \<Rightarrow> sector_expiration_set option \<times> sector_number fset" where
  "group_expiration_set include es =
    (let nums = filter (\<lambda>u. u |\<in>| include) (sorted_list_of_fset (on_time_sectors es)) in
     (if nums = [] then None else Some \<lparr> ses_sectors = nums, ses_set = es \<rparr>,
      include |-| fset_of_list nums))"

text \<open>One visited entry: its group, when it has one, is recorded.\<close>

definition visit_entry ::
  "block \<Rightarrow> expiration_set \<Rightarrow> sector_number fset \<times> expiration_groups
    \<Rightarrow> sector_number fset \<times> expiration_groups" where
  "visit_entry b es = (\<lambda>(remaining, groups).
    (case group_expiration_set remaining es of
       (None, remaining') \<Rightarrow> (remaining', groups)
     | (Some g, remaining') \<Rightarrow> (remaining', fmupd b g groups)))"

fun find_declared ::
  "expiration_queue \<Rightarrow> block list \<Rightarrow> sector_number fset \<times> expiration_groups
    \<Rightarrow> (general_pallet_error, sector_number fset \<times> expiration_groups) res" where
  "find_declared q [] acc = Ok acc"
| "find_declared q (b # bs) acc =
    res_bind (ok_or ExpirationQueueErrorExpirationSetNotFound (fmlookup q b)) (\<lambda>es.
    find_declared q bs (visit_entry b es acc))"

fun find_rest ::
  "block fset \<Rightarrow> (block \<times> expiration_set) list \<Rightarrow> sector_number fset \<times> expiration_groups
    \<Rightarrow> sector_number fset \<times> expiration_groups" where
  "find_rest declared [] acc = acc"
| "find_rest declared ((b, es) # rest) acc =
    (if b |\<in>| declared then find_rest declared rest acc
     else let acc' = visit_entry b es acc in
       if fst acc' = {||} then acc' else find_rest declared rest acc')"

definition find_sectors_by_expiration ::
  "sector_on_chain_info list \<Rightarrow> expiration_queue
    \<Rightarrow> (general_pallet_error, expiration_groups) res" where
  "find_sectors_by_expiration sectors q =
    (let declared = fset_of_list (map si_expiration sectors);
         wanted = fset_of_list (map si_sector_number sectors) in
     res_bind (find_declared q (sorted_list_of_fset declared) (wanted, fmempty)) (\<lambda>acc.
     let (remaining, groups) = find_rest declared (sorted_list_of_fmap q) acc in
     if remaining \<noteq> {||} then Err ExpirationQueueErrorSectorNotFound else Ok groups))"

subsection \<open>Faults\<close>

text \<open>
  The loop over the groups: a group that expires no later than the new
  expiration is left alone, the others lose their sectors, which are
  collected.
\<close>

fun unschedule_groups ::
  "block \<Rightarrow> (block \<times> sector_expiration_set) list \<Rightarrow> sector_number list
    \<Rightarrow> (expiration_queue, general_pallet_error, sector_number list) stM" where
  "unschedule_groups new_expiration [] early = retM early"
| "unschedule_groups new_expiration ((h, g) # rest) early =
    (if h \<le> new_expiration then unschedule_groups new_expiration rest early
     else
       bindM (must_update_or_delete h (es_remove (ses_sectors g) [] (ses_set g))) (\<lambda>_.
       unschedule_groups new_expiration rest (early @ ses_sectors g)))"

definition reschedule_as_faults ::
  "block \<Rightarrow> sector_on_chain_info list \<Rightarrow> (expiration_queue, general_pallet_error, unit) stM" where
  "reschedule_as_faults new_expiration sectors =
    bindM (getM (find_sectors_by_expiration sectors)) (\<lambda>r.
    bindM (liftM r) (\<lambda>groups.
    bindM (unschedule_groups new_expiration (sorted_list_of_fmap groups) []) (\<lambda>early.
    add_to_expiration_set new_expiration [] early)))"

subsection \<open>Recoveries\<close>

text \<open>\<^verbatim>\<open>remaining\<close>: the records of the sectors to reschedule; a missing one panics.\<close>

fun lookup_all ::
  "sector_table \<Rightarrow> sector_number list \<Rightarrow> (general_pallet_error, sector_table) res" where
  "lookup_all tbl [] = Ok fmempty"
| "lookup_all tbl (s # ss) =
    res_bind (expect (fmlookup tbl s)) (\<lambda>i.
    res_bind (lookup_all tbl ss) (\<lambda>m. Ok (fmupd s i m)))"

text \<open>The early sectors of one set that are to be rescheduled.\<close>

definition take_early ::
  "sector_number list \<Rightarrow> sector_table \<times> sector_number list \<times> sector_on_chain_info list
    \<Rightarrow> sector_table \<times> sector_number list \<times> sector_on_chain_info list" where
  "take_early = fold (\<lambda>n (remaining, early_unset, rescheduled).
    (case fmlookup remaining n of
       None \<Rightarrow> (remaining, early_unset, rescheduled)
     | Some s \<Rightarrow> (fmdrop n remaining, early_unset @ [n], rescheduled @ [s])))"

fun recover_entries ::
  "(block \<times> expiration_set) list \<Rightarrow> sector_table \<Rightarrow> sector_on_chain_info list
    \<Rightarrow> expiration_queue \<Rightarrow> sector_table \<times> sector_on_chain_info list \<times> expiration_queue" where
  "recover_entries [] remaining rescheduled q = (remaining, rescheduled, q)"
| "recover_entries ((b, es) # rest) remaining rescheduled q =
    (let remaining1 = fold fmdrop (sorted_list_of_fset (on_time_sectors es)) remaining;
         (remaining2, early_unset, rescheduled') =
           take_early (sorted_list_of_fset (early_sectors es)) (remaining1, [], rescheduled);
         q' = fmupd b (es_remove [] early_unset es) q
     in if fmdom remaining2 = {||} then (remaining2, rescheduled', q')
        else recover_entries rest remaining2 rescheduled' q')"

definition retain_non_empty :: "expiration_queue \<Rightarrow> expiration_queue" where
  "retain_non_empty q =
    fmfilter (\<lambda>b. case fmlookup q b of None \<Rightarrow> False | Some es \<Rightarrow> \<not> es_is_empty es) q"

definition reschedule_recovered ::
  "sector_table \<Rightarrow> sector_number fset \<Rightarrow> (expiration_queue, general_pallet_error, unit) stM" where
  "reschedule_recovered all_sectors reschedule =
    bindM (liftM (lookup_all all_sectors (sorted_list_of_fset reschedule))) (\<lambda>remaining.
    bindM (getM (\<lambda>q. recover_entries (sorted_list_of_fmap q) remaining [] q)) (\<lambda>(remaining', rescheduled, q').
    bindM (modifyM (\<lambda>_. retain_non_empty q')) (\<lambda>_.
    if fmdom remaining' \<noteq> {||} then errM ExpirationQueueErrorSectorNotFound
    else eq_add_active_sectors rescheduled)))"

subsection \<open>Removal\<close>

fun remove_groups ::
  "(block \<times> sector_expiration_set) list \<Rightarrow> sector_number fset
    \<Rightarrow> (expiration_queue, general_pallet_error, sector_number fset) stM" where
  "remove_groups [] removed = retM removed"
| "remove_groups ((h, g) # rest) removed =
    bindM (getM (\<lambda>q. fmlookup q h)) (\<lambda>r.
    bindM (liftM (ok_or ExpirationQueueErrorExpirationSetNotFound r)) (\<lambda>es.
    bindM (must_update_or_delete h (es_remove (ses_sectors g) [] es)) (\<lambda>_.
    remove_groups rest (removed |\<union>| fset_of_list (ses_sectors g)))))"

definition remove_active_sectors ::
  "sector_on_chain_info list \<Rightarrow> (expiration_queue, general_pallet_error, sector_number fset) stM" where
  "remove_active_sectors sectors =
    bindM (getM (find_sectors_by_expiration sectors)) (\<lambda>r.
    bindM (liftM r) (\<lambda>groups.
    remove_groups (sorted_list_of_fmap groups) {||}))"

text \<open>One faulty sector looked up in one set of the queue.\<close>

definition remove_faulty ::
  "sector_number \<Rightarrow> expiration_set \<times> expiration_set \<times> sector_number fset
    \<Rightarrow> (general_pallet_error, expiration_set \<times> expiration_set \<times> sector_number fset) res" where
  "remove_faulty n = (\<lambda>(es, removed, remaining).
    (if n |\<in>| on_time_sectors es then
       res_bind (expect (try_insert_set MAX_SECTORS n (on_time_sectors removed))) (\<lambda>S.
       Ok (es\<lparr>on_time_sectors := on_time_sectors es |-| {|n|}\<rparr>,
           removed\<lparr>on_time_sectors := S\<rparr>, remaining |-| {|n|}))
     else if n |\<in>| early_sectors es then
       res_bind (expect (try_insert_set MAX_SECTORS n (early_sectors removed))) (\<lambda>S.
       Ok (es\<lparr>early_sectors := early_sectors es |-| {|n|}\<rparr>,
           removed\<lparr>early_sectors := S\<rparr>, remaining |-| {|n|}))
     else Ok (es, removed, remaining)))"

fun remove_faulty_from_set ::
  "sector_number list \<Rightarrow> expiration_set \<times> expiration_set \<times> sector_number fset
    \<Rightarrow> (general_pallet_error, expiration_set \<times> expiration_set \<times> sector_number fset) res" where
  "remove_faulty_from_set [] st = Ok st"
| "remove_faulty_from_set (n # ns) st = res_bind (remove_faulty n st) (remove_faulty_from_set ns)"

fun remove_faulty_entries ::
  "sector_number list \<Rightarrow> (block \<times> expiration_set) list \<Rightarrow> expiration_set \<Rightarrow> sector_number fset
    \<Rightarrow> (expiration_queue, general_pallet_error, expiration_set \<times> sector_number fset) stM" where
  "remove_faulty_entries faulty [] removed remaining = retM (removed, remaining)"
| "remove_faulty_entries faulty ((b, es) # rest) removed remaining =
    bindM (liftM (remove_faulty_from_set faulty (es, removed, remaining))) (\<lambda>(es', removed', remaining').
    bindM (modifyM (fmupd b es')) (\<lambda>_.
    remove_faulty_entries faulty rest removed' remaining'))"

definition eq_remove_sectors ::
  "sector_on_chain_info list \<Rightarrow> sector_number fset
    \<Rightarrow> (expiration_queue, general_pallet_error, expiration_set) stM" where
  "eq_remove_sectors sectors faults =
    (let faulty = filter (\<lambda>s. si_sector_number s |\<in>| faults) sectors;
         non_faulty = filter (\<lambda>s. si_sector_number s |\<notin>| faults) sectors;
         remaining = fset_of_list (map si_sector_number sectors)
                       |-| fset_of_list (map si_sector_number non_faulty) in
     bindM (remove_active_sectors non_faulty) (\<lambda>nums.
     bindM (liftM (expect (try_from_set MAX_SECTORS nums))) (\<lambda>on_time.
     bindM (getM sorted_list_of_fmap) (\<lambda>entries.
     bindM (remove_faulty_entries (map si_sector_number faulty) entries
              (es_new\<lparr>on_time_sectors := on_time\<rparr>) remaining) (\<lambda>(removed, remaining').
     if remaining' \<noteq> {||} then errM ExpirationQueueErrorSectorNotFound else retM removed)))))"

subsection \<open>Expiry\<close>

fun pop_sets ::
  "(block \<times> expiration_set) list \<Rightarrow> (expiration_set, general_pallet_error, unit) stM" where
  "pop_sets [] = retM ()"
| "pop_sets ((b, es) # rest) =
    bindM (es_add (sorted_list_of_fset (on_time_sectors es)) (sorted_list_of_fset (early_sectors es))) (\<lambda>_.
    pop_sets rest)"

definition pop_until ::
  "block \<Rightarrow> (expiration_queue, general_pallet_error, expiration_set) stM" where
  "pop_until until =
    bindM (getM (\<lambda>q. filter (\<lambda>(b, es). b \<le> until) (sorted_list_of_fmap q))) (\<lambda>popped.
    bindM (liftM (on_local (pop_sets popped) es_new)) (\<lambda>(_, popped_set).
    bindM (modifyM (fold fmdrop (map fst popped))) (\<lambda>_.
    retM popped_set)))"

end
