(* ===== verification/ExpirationQueue_Props.thy ===== *)
theory ExpirationQueue_Props
  imports ExpirationQueue
begin

text \<open>
  The meaning of an expiration queue is its schedule: the set of pairs of a
  sector and the slot (block and kind) it expires in. A queue is well formed
  when every sector has at most one slot. Each operation of the source is
  shown to be a simple update of the schedule.
\<close>

section \<open>The schedule\<close>

datatype expiry = OnTime | Early

fun es_part :: "expiry \<Rightarrow> expiration_set \<Rightarrow> sector_number fset" where
  "es_part OnTime es = on_time_sectors es"
| "es_part Early es = early_sectors es"

definition slot_list :: "expiration_queue \<Rightarrow> (sector_number \<times> block \<times> expiry) list" where
  "slot_list q = concat (map (\<lambda>(b, es).
      map (\<lambda>s. (s, b, OnTime)) (sorted_list_of_fset (on_time_sectors es)) @
      map (\<lambda>s. (s, b, Early)) (sorted_list_of_fset (early_sectors es))) (sorted_list_of_fmap q))"

definition slots :: "expiration_queue \<Rightarrow> (sector_number \<times> block \<times> expiry) set" where
  "slots q = set (slot_list q)"

definition eq_wf :: "expiration_queue \<Rightarrow> bool" where
  "eq_wf q \<longleftrightarrow> single_valued (slots q)"

definition scheduled :: "expiration_queue \<Rightarrow> sector_number set" where
  "scheduled q = fst ` slots q"

lemma in_slots:
  "(s, b, k) \<in> slots q \<longleftrightarrow> (\<exists>es. fmlookup q b = Some es \<and> s |\<in>| es_part k es)"
proof -
  have "(s, b, k) \<in> slots q \<longleftrightarrow> (\<exists>es. (b, es) \<in> set (sorted_list_of_fmap q) \<and> s |\<in>| es_part k es)"
    by (cases k) (auto simp: slots_def slot_list_def image_iff simp del: in_set_sorted_list_of_fmap)
  then show ?thesis by simp
qed

lemma in_scheduled: "s \<in> scheduled q \<longleftrightarrow> (\<exists>b k. (s, b, k) \<in> slots q)"
  by (force simp: scheduled_def)

lemma slots_empty [simp]: "slots fmempty = {}"
  by (auto simp: in_slots)

lemma eq_wf_empty [simp]: "eq_wf fmempty"
  by (simp add: eq_wf_def)

lemma eq_wfD: "eq_wf q \<Longrightarrow> (s, b, k) \<in> slots q \<Longrightarrow> (s, b', k') \<in> slots q \<Longrightarrow> b' = b \<and> k' = k"
  by (auto simp: eq_wf_def single_valued_def)

lemma eq_wf_subset: "eq_wf q \<Longrightarrow> slots q' \<subseteq> slots q \<Longrightarrow> eq_wf q'"
  unfolding eq_wf_def by (rule single_valued_subset)

lemma slots_fmupd:
  "slots (fmupd b es q) =
   {(s, b', k). (s, b', k) \<in> slots q \<and> b' \<noteq> b} \<union> {(s, b', k). b' = b \<and> s |\<in>| es_part k es}"
  by (auto simp: in_slots split: if_splits)

lemma slots_fmdrop: "slots (fmdrop b q) = {(s, b', k). (s, b', k) \<in> slots q \<and> b' \<noteq> b}"
  by (auto simp: in_slots split: if_splits)

lemma es_part_es_new [simp]: "es_part k es_new = {||}"
  by (cases k) (simp_all add: es_new_def)

lemma es_is_empty_iff: "es_is_empty es \<longleftrightarrow> (\<forall>k. es_part k es = {||})"
proof -
  have "(\<forall>k. P k) \<longleftrightarrow> P OnTime \<and> P Early" for P by (metis expiry.exhaust)
  then show ?thesis by (simp add: es_is_empty_def)
qed

lemma in_es_part_es_remove [simp]:
  "s |\<in>| es_part k (es_remove on early es) \<longleftrightarrow>
   s |\<in>| es_part k es \<and> (k = OnTime \<longrightarrow> s \<notin> set on) \<and> (k = Early \<longrightarrow> s \<notin> set early)"
  by (cases k) (auto simp: es_remove_def fold_fminus fset_of_list_elem)

section \<open>Adding sectors\<close>

lemma es_add_Ok:
  assumes "es_add on early es = (Ok u, es')"
  shows "es' = \<lparr> on_time_sectors = on_time_sectors es |\<union>| fset_of_list on,
                 early_sectors = early_sectors es |\<union>| fset_of_list early \<rparr>"
  using assms
  by (auto simp: es_add_def on_timeM_def earlyM_def ok_iff dest!: forM_insert_setM)

lemma es_add_part:
  assumes "es_add on early es = (Ok u, es')"
  shows "s |\<in>| es_part k es' \<longleftrightarrow>
    s |\<in>| es_part k es \<or> (k = OnTime \<and> s \<in> set on) \<or> (k = Early \<and> s \<in> set early)"
  using es_add_Ok [OF assms] by (cases k) (auto simp: fset_of_list_elem)

lemma add_to_expiration_set_slots:
  assumes "add_to_expiration_set b on early q = (Ok u, q')"
  shows "slots q' = slots q \<union> set on \<times> {(b, OnTime)} \<union> set early \<times> {(b, Early)}"
proof (cases "on = [] \<and> early = []")
  case True
  then show ?thesis using assms by (simp add: add_to_expiration_set_def ok_iff)
next
  case False
  define es where "es = (case fmlookup q b of None \<Rightarrow> es_new | Some es \<Rightarrow> es)"
  from assms False obtain es' where es': "es_add on early es = (Ok (), es')" and "q' = fmupd b es' q"
    by (auto simp: add_to_expiration_set_def ok_iff es_def)
  moreover have "s |\<in>| es_part k es \<longleftrightarrow> (s, b, k) \<in> slots q" for s k
    by (auto simp: es_def in_slots split: option.splits)
  ultimately show ?thesis
    by (auto simp: slots_fmupd es_add_part [OF es'])
qed

lemma eq_add_active_sectors_slots:
  assumes "eq_add_active_sectors sectors q = (Ok u, q')"
  shows "slots q' = slots q \<union> (\<lambda>s. (si_sector_number s, si_expiration s, OnTime)) ` set sectors"
  using assms
proof (induction sectors arbitrary: q)
  case (Cons s sectors)
  then obtain q1 where
    "add_to_expiration_set (si_expiration s) [si_sector_number s] [] q = (Ok (), q1)"
    "eq_add_active_sectors sectors q1 = (Ok u, q')"
    by (auto simp: eq_add_active_sectors_def ok_iff)
  then show ?case using Cons.IH add_to_expiration_set_slots by fastforce
qed (simp add: eq_add_active_sectors_def ok_iff)

lemma must_update_or_delete_Ok:
  assumes "fmlookup q b = Some es0"
  obtains q' where "must_update_or_delete b es q = (Ok (), q')" "slots q' = slots (fmupd b es q)"
    "\<And>b'. b' \<noteq> b \<Longrightarrow> fmlookup q' b' = fmlookup q b'" "fmdom q' |\<subseteq>| fmdom q"
proof (cases "es_is_empty es")
  case True
  then have "slots (fmdrop b q) = slots (fmupd b es q)"
    by (auto simp: slots_fmdrop slots_fmupd es_is_empty_iff)
  with True show ?thesis
    by (intro that [of "fmdrop b q"]) (auto simp: must_update_or_delete_def ok_iff)
next
  case False
  then show ?thesis using assms
    by (intro that [of "fmupd b es q"])
       (auto simp: must_update_or_delete_def ok_iff fmdomI)
qed

section \<open>Searching\<close>

text \<open>What the search returns for one block when nothing else interferes.\<close>

definition group_at ::
  "expiration_queue \<Rightarrow> sector_number fset \<Rightarrow> block \<Rightarrow> sector_expiration_set option" where
  "group_at q N b = (case fmlookup q b of None \<Rightarrow> None | Some es \<Rightarrow> fst (group_expiration_set N es))"

definition visited ::
  "expiration_queue \<Rightarrow> sector_number fset \<Rightarrow> block set \<Rightarrow> sector_number fset \<times> expiration_groups \<Rightarrow> bool" where
  "visited q N V acc \<longleftrightarrow>
    (\<forall>s. s |\<in>| fst acc \<longleftrightarrow> s |\<in>| N \<and> (\<forall>b\<in>V. (s, b, OnTime) \<notin> slots q)) \<and>
    (\<forall>b. fmlookup (snd acc) b = (if b \<in> V then group_at q N b else None))"

lemma group_at_Some:
  "group_at q N b = Some g \<longleftrightarrow>
   fmlookup q b = Some (ses_set g) \<and>
   ses_sectors g = filter (\<lambda>u. u |\<in>| N) (sorted_list_of_fset (on_time_sectors (ses_set g))) \<and>
   ses_sectors g \<noteq> []"
  by (cases g) (auto simp: group_at_def group_expiration_set_def Let_def split: option.splits)

lemma group_at_None:
  "group_at q N b = None \<longleftrightarrow> (\<forall>s. s |\<in>| N \<longrightarrow> (s, b, OnTime) \<notin> slots q)"
  by (force simp: group_at_def group_expiration_set_def Let_def in_slots filter_empty_conv
      split: option.splits)

lemma visit_entry_visited:
  assumes wf: "eq_wf q" and V: "visited q N V acc" and b: "fmlookup q b = Some es" "b \<notin> V"
  shows "visited q N (insert b V) (visit_entry b es acc)"
proof -
  obtain R G where acc: "acc = (R, G)" by (cases acc)
  have R: "s |\<in>| R \<longleftrightarrow> s |\<in>| N \<and> (\<forall>b\<in>V. (s, b, OnTime) \<notin> slots q)" for s
    using V by (simp add: visited_def acc)
  have on: "u |\<in>| on_time_sectors es \<longleftrightarrow> (u, b, OnTime) \<in> slots q" for u
    using b(1) by (simp add: in_slots)
  have "u |\<in>| R \<longleftrightarrow> u |\<in>| N" if "u |\<in>| on_time_sectors es" for u
    using that R [of u] on [of u] eq_wfD [OF wf] b(2) by metis
  then have f: "filter (\<lambda>u. u |\<in>| R) (sorted_list_of_fset (on_time_sectors es)) =
      filter (\<lambda>u. u |\<in>| N) (sorted_list_of_fset (on_time_sectors es))"
    by (intro filter_cong) auto
  have g: "group_at q N b = fst (group_expiration_set R es)"
    using b(1) f by (simp add: group_at_def group_expiration_set_def Let_def)
  have r: "snd (group_expiration_set R es) |\<inter>| N = R |\<inter>| N |-| on_time_sectors es"
    by (auto simp: group_expiration_set_def Let_def f fset_of_list_elem)
  have "visit_entry b es acc = (snd (group_expiration_set R es),
      case group_at q N b of None \<Rightarrow> G | Some g \<Rightarrow> fmupd b g G)"
    by (simp add: visit_entry_def acc g split: prod.splits option.splits)
  moreover have "s |\<in>| snd (group_expiration_set R es) \<longleftrightarrow> s |\<in>| R \<and> (s, b, OnTime) \<notin> slots q" for s
    using R on by (auto simp: group_expiration_set_def Let_def f fset_of_list_elem)
  ultimately show ?thesis
    using V R b(2) by (auto simp: visited_def acc split: option.splits)
qed

lemma find_declared_visited:
  assumes "eq_wf q" "visited q N V acc" "distinct bs" "set bs \<inter> V = {}" "find_declared q bs acc = Ok acc'"
  shows "visited q N (V \<union> set bs) acc'"
  using assms
proof (induction bs arbitrary: V acc)
  case (Cons b bs)
  then obtain es where "fmlookup q b = Some es" "find_declared q bs (visit_entry b es acc) = Ok acc'"
    by (auto simp: ok_iff)
  with Cons.IH [of "insert b V"] Cons.prems visit_entry_visited [of q N V acc b es]
  show ?case by auto
qed simp

lemma find_rest_visited:
  assumes "eq_wf q" "visited q N V acc" "distinct (map fst es)"
    and "\<And>b e. (b, e) \<in> set es \<Longrightarrow> fmlookup q b = Some e"
    and "\<And>b e. (b, e) \<in> set es \<Longrightarrow> b \<in> V \<longleftrightarrow> b |\<in>| D"
  obtains V' where "visited q N V' (find_rest D es acc)"
    "fst (find_rest D es acc) = {||} \<or> V \<union> fst ` set es \<subseteq> V'"
proof -
  have "\<exists>V'. visited q N V' (find_rest D es acc) \<and>
      (fst (find_rest D es acc) = {||} \<or> V \<union> fst ` set es \<subseteq> V')"
    using assms
  proof (induction es arbitrary: V acc)
    case Nil
    then show ?case by auto
  next
    case (Cons p es)
    obtain b e where p: "p = (b, e)" by (cases p)
    show ?case
    proof (cases "b |\<in>| D")
      case True
      then have "b \<in> V" using Cons.prems(5) p by auto
      moreover have "\<exists>V'. visited q N V' (find_rest D es acc) \<and>
        (fst (find_rest D es acc) = {||} \<or> V \<union> fst ` set es \<subseteq> V')"
        by (intro Cons.IH [OF Cons.prems(1,2)]) (use Cons.prems(3-5) p in auto)
      ultimately show ?thesis using True p by auto
    next
      case False
      then have "b \<notin> V" using Cons.prems(5) p by auto
      then have v: "visited q N (insert b V) (visit_entry b e acc)"
        using visit_entry_visited Cons.prems p by simp
      have "\<exists>V'. visited q N V' (find_rest D es (visit_entry b e acc)) \<and>
        (fst (find_rest D es (visit_entry b e acc)) = {||} \<or> insert b V \<union> fst ` set es \<subseteq> V')"
        by (intro Cons.IH [OF Cons.prems(1) v]) (use Cons.prems(3-5) p in \<open>auto simp: rev_image_eqI\<close>)
      with v False p show ?thesis by (auto simp: Let_def)
    qed
  qed
  then show thesis using that by blast
qed

abbreviation numbers_of :: "sector_on_chain_info list \<Rightarrow> sector_number fset" where
  "numbers_of sectors \<equiv> fset_of_list (map si_sector_number sectors)"

text \<open>
  The search succeeds with the groups of all sectors, and only if every sector
  is scheduled on time somewhere.
\<close>

lemma find_sectors_by_expiration_Ok:
  assumes wf: "eq_wf q" and ok: "find_sectors_by_expiration sectors q = Ok groups"
  shows "fmlookup groups b = group_at q (numbers_of sectors) b"
    and "s |\<in>| numbers_of sectors \<Longrightarrow> \<exists>b. (s, b, OnTime) \<in> slots q"
proof -
  define D where "D = fset_of_list (map si_expiration sectors)"
  define N where "N = numbers_of sectors"
  from ok obtain acc where d: "find_declared q (sorted_list_of_fset D) (N, fmempty) = Ok acc"
    and r: "find_rest D (sorted_list_of_fmap q) acc = ({||}, groups)"
    by (auto simp: find_sectors_by_expiration_def D_def N_def Let_def ok_iff case_prod_beta prod_eq_iff
        simp del: split_paired_Ex split: if_splits)
  have "visited q N {} (N, fmempty)" by (simp add: visited_def)
  then have "visited q N (fset D) acc"
    using find_declared_visited [OF wf _ _ _ d, of N "{}"] by simp
  then obtain V where V: "visited q N V ({||}, groups)"
    using find_rest_visited [OF wf, of N "fset D" acc "sorted_list_of_fmap q" D] r by force
  then show on: "s |\<in>| numbers_of sectors \<Longrightarrow> \<exists>b. (s, b, OnTime) \<in> slots q"
    by (auto simp: visited_def N_def)
  have "group_at q N b = None" if "b \<notin> V"
    using that V eq_wfD [OF wf] by (simp add: group_at_None visited_def) blast
  then show "fmlookup groups b = group_at q (numbers_of sectors) b"
    using V by (auto simp: visited_def N_def)
qed

text \<open>
  Conversely the search finds them all when the declared expirations exist in
  the queue.
\<close>

lemma find_declared_total:
  "set bs \<subseteq> fset (fmdom q) \<Longrightarrow> \<exists>acc'. find_declared q bs acc = Ok acc'"
proof (induction bs arbitrary: acc)
  case (Cons b bs)
  then obtain es where "fmlookup q b = Some es" by (auto simp: fmlookup_dom_iff)
  with Cons show ?case by simp
qed simp

lemma find_sectors_by_expiration_total:
  assumes wf: "eq_wf q"
    and on: "\<And>s. s \<in> set sectors \<Longrightarrow> (si_sector_number s, si_expiration s, OnTime) \<in> slots q"
  shows "\<exists>groups. find_sectors_by_expiration sectors q = Ok groups"
proof -
  define D where "D = fset_of_list (map si_expiration sectors)"
  define N where "N = numbers_of sectors"
  have "fset D \<subseteq> fset (fmdom q)"
    using on by (force simp: D_def in_slots fmlookup_dom_iff fset_of_list_elem)
  then obtain acc where d: "find_declared q (sorted_list_of_fset D) (N, fmempty) = Ok acc"
    using find_declared_total [of "sorted_list_of_fset D" q "(N, fmempty)"] by auto
  have "visited q N {} (N, fmempty)" by (simp add: visited_def)
  then have va: "visited q N (fset D) acc"
    using find_declared_visited [OF wf _ _ _ d, of N "{}"] by simp
  obtain V where V: "visited q N V (find_rest D (sorted_list_of_fmap q) acc)"
    "fst (find_rest D (sorted_list_of_fmap q) acc) = {||} \<or>
     fset D \<union> fst ` set (sorted_list_of_fmap q) \<subseteq> V"
    by (rule find_rest_visited [OF wf va, of "sorted_list_of_fmap q" D]) auto
  have "\<exists>b\<in>fset D. (s, b, OnTime) \<in> slots q" if "s |\<in>| N" for s
    using that on by (force simp: N_def D_def fset_of_list_elem)
  then have "fst (find_rest D (sorted_list_of_fmap q) acc) = {||}"
    using V unfolding visited_def by (metis Un_subset_iff bot_fset.rep_eq empty_iff fset_eqI subsetD)
  then show ?thesis
    using d by (simp add: find_sectors_by_expiration_def D_def N_def Let_def case_prod_beta)
qed

section \<open>Faults\<close>

text \<open>Removing the groups from their blocks, as both removal loops do.\<close>

definition group_slots ::
  "(block \<times> sector_expiration_set) list \<Rightarrow> (sector_number \<times> block \<times> expiry) set" where
  "group_slots L = {(s, b, k). k = OnTime \<and> (\<exists>g. (b, g) \<in> set L \<and> s \<in> set (ses_sectors g))}"

lemma group_slots_simps [simp]:
  "group_slots [] = {}"
  "group_slots ((b, g) # L) = set (ses_sectors g) \<times> {(b, OnTime)} \<union> group_slots L"
  by (auto simp: group_slots_def)

lemma slots_remove_group:
  "fmlookup q b = Some es \<Longrightarrow>
   slots (fmupd b (es_remove xs [] es) q) = slots q - set xs \<times> {(b, OnTime)}"
  by (auto simp: slots_fmupd in_slots)

lemma unschedule_groups_slots:
  fixes new :: block
  assumes "distinct (map fst L)" "\<And>b g. (b, g) \<in> set L \<Longrightarrow> fmlookup q b = Some (ses_set g)"
  defines "M \<equiv> filter (\<lambda>(b, g). new < b) L"
  shows "\<exists>q'. unschedule_groups new L early q =
      (Ok (early @ concat (map (ses_sectors \<circ> snd) M)), q') \<and>
    slots q' = slots q - group_slots M \<and> fmdom q' |\<subseteq>| fmdom q"
  using assms(1,2) unfolding M_def
proof (induction L arbitrary: early q)
  case (Cons p L)
  obtain b g where p: "p = (b, g)" by (cases p)
  have L: "b \<notin> fst ` set L" "distinct (map fst L)" using Cons.prems(1) p by auto
  have lk: "fmlookup q b = Some (ses_set g)" using Cons.prems(2) p by simp
  show ?case
  proof (cases "b \<le> new")
    case True
    then show ?thesis using Cons.IH [OF L(2), of q] Cons.prems(2) p by simp
  next
    case False
    obtain q1 where q1: "must_update_or_delete b (es_remove (ses_sectors g) [] (ses_set g)) q = (Ok (), q1)"
      "slots q1 = slots q - set (ses_sectors g) \<times> {(b, OnTime)}"
      "\<And>b'. b' \<noteq> b \<Longrightarrow> fmlookup q1 b' = fmlookup q b'" "fmdom q1 |\<subseteq>| fmdom q"
      using must_update_or_delete_Ok [OF lk] slots_remove_group [OF lk] by metis
    have "fmlookup q1 b' = Some (ses_set g')" if "(b', g') \<in> set L" for b' g'
      using that q1(3) L(1) Cons.prems(2) by force
    with Cons.IH [OF L(2), of q1 "early @ ses_sectors g"] q1 False p
    show ?thesis by (auto simp: bindM_def) (metis fsubsetD)
  qed
qed (simp add: retM_def)

text \<open>The groups of a search cover exactly the on-time slots of the wanted sectors.\<close>

lemma in_groups_of_search:
  assumes "\<And>b. fmlookup groups b = group_at q N b"
  shows "(\<exists>g. fmlookup groups b = Some g \<and> s \<in> set (ses_sectors g)) \<longleftrightarrow>
    s |\<in>| N \<and> (s, b, OnTime) \<in> slots q"
  using assms by (cases "group_at q N b") (auto simp: group_at_Some group_at_None in_slots)

definition fault_slots ::
  "block \<Rightarrow> sector_number set \<Rightarrow> (sector_number \<times> block \<times> expiry) set
    \<Rightarrow> (sector_number \<times> block \<times> expiry) set" where
  "fault_slots new N S =
    {(s, b, k). (s, b, k) \<in> S \<and> \<not> (s \<in> N \<and> k = OnTime \<and> new < b)} \<union>
    {(s, b, k). b = new \<and> k = Early \<and> s \<in> N \<and> (\<exists>b'. new < b' \<and> (s, b', OnTime) \<in> S)}"

lemma reschedule_as_faults_slots:
  assumes wf: "eq_wf q" and ok: "reschedule_as_faults new sectors q = (Ok u, q')"
  shows "slots q' = fault_slots new (si_sector_number ` set sectors) (slots q)"
    and "s \<in> si_sector_number ` set sectors \<Longrightarrow> \<exists>b. (s, b, OnTime) \<in> slots q"
proof -
  let ?N = "numbers_of sectors"
  from ok obtain groups early q1 where g: "find_sectors_by_expiration sectors q = Ok groups"
    and u: "unschedule_groups new (sorted_list_of_fmap groups) [] q = (Ok early, q1)"
    and a: "add_to_expiration_set new [] early q1 = (Ok u, q')"
    by (auto simp: reschedule_as_faults_def ok_iff)
  note search = find_sectors_by_expiration_Ok [OF wf g]
  define M where "M = filter (\<lambda>(b, g). new < b) (sorted_list_of_fmap groups)"
  have "early = concat (map (ses_sectors \<circ> snd) M)" and q1: "slots q1 = slots q - group_slots M"
    using unschedule_groups_slots [of "sorted_list_of_fmap groups" q new "[]"] search(1) u
    by (auto simp: group_at_Some M_def)
  then have e: "set early = {s. s |\<in>| ?N \<and> (\<exists>b>new. (s, b, OnTime) \<in> slots q)}"
    using in_groups_of_search [OF search(1)] by (fastforce simp: M_def)
  have m: "group_slots M = {(s, b, k). k = OnTime \<and> new < b \<and> s |\<in>| ?N \<and> (s, b, OnTime) \<in> slots q}"
    using in_groups_of_search [OF search(1)] by (fastforce simp: M_def group_slots_def)
  show "slots q' = fault_slots new (si_sector_number ` set sectors) (slots q)"
    unfolding add_to_expiration_set_slots [OF a] q1 e m
    by (auto simp: fault_slots_def fset_of_list_elem)
  show "s \<in> si_sector_number ` set sectors \<Longrightarrow> \<exists>b. (s, b, OnTime) \<in> slots q"
    using search(2) by (auto simp: fset_of_list_elem)
qed

lemma fault_slots_single_valued:
  "single_valued S \<Longrightarrow> single_valued (fault_slots new N S)"
  unfolding single_valued_def fault_slots_def by auto (metis Pair_inject less_irrefl)+

lemma in_fst_slots: "s \<in> fst ` S \<longleftrightarrow> (\<exists>b k. (s, b, k) \<in> S)"
  by force

lemma fault_slots_domain: "fst ` fault_slots new N S = fst ` S"
proof (intro set_eqI iffI)
  fix s assume "s \<in> fst ` S"
  then obtain b k where "(s, b, k) \<in> S" by (auto simp: in_fst_slots)
  then show "s \<in> fst ` fault_slots new N S"
    unfolding in_fst_slots fault_slots_def by (cases "s \<in> N \<and> k = OnTime \<and> new < b") auto
qed (auto simp: in_fst_slots fault_slots_def)

section \<open>Recoveries\<close>

lemma lookup_all_Ok:
  "lookup_all tbl ns = Ok m \<Longrightarrow>
   fmlookup m n = (if n \<in> set ns then fmlookup tbl n else None) \<and> set ns \<subseteq> fset (fmdom tbl)"
  by (induction ns arbitrary: m) (auto simp: ok_iff fmdomI)

lemma fmlookup_fold_fmdrop:
  "fmlookup (fold fmdrop xs m) k = (if k \<in> set xs then None else fmlookup m k)"
  by (induction xs arbitrary: m) auto

lemma take_early_result:
  assumes "distinct ns"
  shows "take_early ns (R, E, A) = (R', E', A') \<Longrightarrow>
    (\<forall>n. fmlookup R' n = (if n \<in> set ns then None else fmlookup R n)) \<and>
    set E' = set E \<union> {n \<in> set ns. n |\<in>| fmdom R} \<and>
    set A' = set A \<union> {i. \<exists>n\<in>set ns. fmlookup R n = Some i}"
  using assms
proof (induction ns arbitrary: R E A)
  case Nil
  then show ?case by (simp add: take_early_def)
next
  case (Cons n ns)
  show ?case
  proof (cases "fmlookup R n")
    case None
    then have "take_early ns (R, E, A) = (R', E', A')" using Cons.prems by (simp add: take_early_def)
    with Cons.IH [of R E A] Cons.prems None show ?thesis by (auto simp: fmdom_notI)
  next
    case (Some i)
    then have "take_early ns (fmdrop n R, E @ [n], A @ [i]) = (R', E', A')"
      using Cons.prems by (simp add: take_early_def)
    with Cons.IH [of "fmdrop n R" "E @ [n]" "A @ [i]"] Cons.prems Some
    show ?thesis by (auto simp: fmdomI)
  qed
qed

text \<open>
  The sweep over the queue: every wanted sector of the visited entries is
  struck off, and those found in an early set lose that slot and are collected.
\<close>

definition slots_of :: "(block \<times> expiration_set) list \<Rightarrow> (sector_number \<times> block \<times> expiry) set" where
  "slots_of L = {(n, b, k). \<exists>es. (b, es) \<in> set L \<and> n |\<in>| es_part k es}"

lemma in_slots_of_Cons:
  "(n, b', k) \<in> slots_of ((b, es) # L) \<longleftrightarrow>
   b' = b \<and> n |\<in>| es_part k es \<or> (n, b', k) \<in> slots_of L"
  by (auto simp: slots_of_def)

lemma slots_of_sorted_list_of_fmap [simp]: "slots_of (sorted_list_of_fmap q) = slots q"
  by (auto simp: slots_of_def in_slots)

lemma slots_of_block: "(n, b, k) \<in> slots_of L \<Longrightarrow> b \<in> fst ` set L"
  by (force simp: slots_of_def)

lemma ex_es_part: "(\<exists>k. n |\<in>| es_part k es) \<longleftrightarrow> n |\<in>| on_time_sectors es \<or> n |\<in>| early_sectors es"
  by (metis es_part.simps expiry.exhaust)

text \<open>One entry of the sweep.\<close>

lemma take_early_entry:
  assumes t: "take_early (sorted_list_of_fset (early_sectors es))
      (fold fmdrop (sorted_list_of_fset (on_time_sectors es)) R, [], A) = (R2, E, A2)"
    and disj: "on_time_sectors es |\<inter>| early_sectors es = {||}"
  shows "fmlookup R2 n = (if \<exists>k. n |\<in>| es_part k es then None else fmlookup R n)"
    and "set E = {n. n |\<in>| early_sectors es \<and> n |\<in>| fmdom R}"
    and "set A2 = set A \<union> {i. \<exists>n. n |\<in>| early_sectors es \<and> fmlookup R n = Some i}"
proof -
  have d: "n |\<notin>| on_time_sectors es" if "n |\<in>| early_sectors es" for n using that disj by blast
  note te = take_early_result [OF distinct_sorted_list_of_fset t, unfolded fmlookup_fold_fmdrop]
  show "fmlookup R2 n = (if \<exists>k. n |\<in>| es_part k es then None else fmlookup R n)"
    using te by (simp add: ex_es_part)
  show "set E = {n. n |\<in>| early_sectors es \<and> n |\<in>| fmdom R}"
    using te d by (auto simp: fmlookup_dom_iff fmlookup_fold_fmdrop)
  show "set A2 = set A \<union> {i. \<exists>n. n |\<in>| early_sectors es \<and> fmlookup R n = Some i}"
    using te d by auto
qed

lemma slots_of_ConsE:
  assumes "single_valued (slots_of ((b, es) # L))" "b \<notin> fst ` set L"
  obtains "on_time_sectors es |\<inter>| early_sectors es = {||}" "single_valued (slots_of L)"
    "\<And>n k k' b'. n |\<in>| es_part k es \<Longrightarrow> (n, b', k') \<notin> slots_of L"
proof
  show "on_time_sectors es |\<inter>| early_sectors es = {||}"
  proof (rule ccontr)
    assume "on_time_sectors es |\<inter>| early_sectors es \<noteq> {||}"
    then obtain n where "n |\<in>| on_time_sectors es" "n |\<in>| early_sectors es" by blast
    then have "(n, b, OnTime) \<in> slots_of ((b, es) # L)" "(n, b, Early) \<in> slots_of ((b, es) # L)"
      by (auto simp: slots_of_def intro: exI [of _ es])
    from single_valuedD [OF assms(1) this] show False by simp
  qed
  show "single_valued (slots_of L)"
    by (rule single_valued_subset [OF _ assms(1)]) (auto simp: slots_of_def)
  show "(n, b', k') \<notin> slots_of L" if "n |\<in>| es_part k es" for n k k' b'
    using assms that slots_of_block single_valuedD [OF assms(1), of n "(b, k)" "(b', k')"]
    by (auto simp: in_slots_of_Cons)
qed

lemma recover_entries_result:
  assumes "recover_entries L R A q = (R', A', q')" "single_valued (slots_of L)"
    and "distinct (map fst L)" "\<And>b es. (b, es) \<in> set L \<Longrightarrow> fmlookup q b = Some es"
  shows "(\<forall>n. fmlookup R' n = (if \<exists>b k. (n, b, k) \<in> slots_of L then None else fmlookup R n)) \<and>
    set A' = set A \<union> {i. \<exists>n b. (n, b, Early) \<in> slots_of L \<and> fmlookup R n = Some i} \<and>
    slots q' = slots q - {(n, b, k). k = Early \<and> n |\<in>| fmdom R \<and> (n, b, Early) \<in> slots_of L}"
  using assms
proof (induction L arbitrary: R A q)
  case Nil
  then show ?case by (simp add: slots_of_def)
next
  case (Cons p L)
  obtain b es where p: "p = (b, es)" by (cases p)
  obtain R2 E A2 where t: "take_early (sorted_list_of_fset (early_sectors es))
      (fold fmdrop (sorted_list_of_fset (on_time_sectors es)) R, [], A) = (R2, E, A2)"
    by (metis prod_cases3)
  define q2 where "q2 = fmupd b (es_remove [] E es) q"
  have b: "b \<notin> fst ` set L" and lk: "fmlookup q b = Some es" using Cons.prems p by auto
  obtain disj: "on_time_sectors es |\<inter>| early_sectors es = {||}" and sv: "single_valued (slots_of L)"
    and out: "\<And>n k k' b'. n |\<in>| es_part k es \<Longrightarrow> (n, b', k') \<notin> slots_of L"
    using slots_of_ConsE [OF _ b] Cons.prems(2) p by metis
  note entry = take_early_entry [OF t disj]
  have q2: "slots q2 = slots q - {(n, b', k). k = Early \<and> n |\<in>| fmdom R \<and> b' = b \<and> n |\<in>| early_sectors es}"
    using lk by (auto simp: q2_def slots_fmupd entry(2) in_slots)
  have lk2: "fmlookup q2 b' = Some es'" if "(b', es') \<in> set L" for b' es'
    using that b Cons.prems(4) p by (force simp: q2_def)
  have keep: "fmlookup R2 n = fmlookup R n" if "(n, b', k) \<in> slots_of L" for n b' k
    using that entry(1) [of n] out by auto
  have "(\<forall>n. fmlookup R' n = (if \<exists>b k. (n, b, k) \<in> slots_of L then None else fmlookup R2 n)) \<and>
    set A' = set A2 \<union> {i. \<exists>n b. (n, b, Early) \<in> slots_of L \<and> fmlookup R2 n = Some i} \<and>
    slots q' = slots q2 - {(n, b, k). k = Early \<and> n |\<in>| fmdom R2 \<and> (n, b, Early) \<in> slots_of L}"
  proof (cases "fmdom R2 = {||}")
    case True
    then have "R' = R2" "A' = A2" "q' = q2" and "\<And>n. fmlookup R2 n = None"
      using Cons.prems(1) p t by (auto simp: q2_def Let_def)
    with True show ?thesis by auto
  next
    case False
    then have "recover_entries L R2 A2 q2 = (R', A', q')"
      using Cons.prems(1) p t by (auto simp: q2_def Let_def)
    from Cons.IH [OF this sv _ lk2] Cons.prems(3) show ?thesis by simp
  qed
  then have R': "\<And>n. fmlookup R' n = (if \<exists>b k. (n, b, k) \<in> slots_of L then None else fmlookup R2 n)"
    and A': "set A' = set A2 \<union> {i. \<exists>n b. (n, b, Early) \<in> slots_of L \<and> fmlookup R n = Some i}"
    and q': "slots q' = slots q2 - {(n, b, k). k = Early \<and> n |\<in>| fmdom R \<and> (n, b, Early) \<in> slots_of L}"
    by (auto simp: keep fmlookup_dom_iff)
  show ?case unfolding A' q' p in_slots_of_Cons
    by (intro conjI allI) (auto simp: R' entry q2)
qed

lemma slots_retain_non_empty: "slots (retain_non_empty q) = slots q"
  by (auto simp: retain_non_empty_def in_slots es_is_empty_iff split: if_splits) blast

definition recovered_slots ::
  "sector_table \<Rightarrow> sector_number set \<Rightarrow> (sector_number \<times> block \<times> expiry) set
    \<Rightarrow> (sector_number \<times> block \<times> expiry) set" where
  "recovered_slots tbl N S =
    {(s, b, k). (s, b, k) \<in> S \<and> \<not> (s \<in> N \<and> k = Early)} \<union>
    {(s, b, k). k = OnTime \<and> s \<in> N \<and> (\<exists>b'. (s, b', Early) \<in> S) \<and>
                (\<exists>i. fmlookup tbl s = Some i \<and> b = si_expiration i)}"

lemma reschedule_recovered_slots:
  assumes wf: "eq_wf q" and tbl: "sector_table_ok tbl"
    and ok: "reschedule_recovered tbl N q = (Ok u, q')"
  shows "slots q' = recovered_slots tbl (fset N) (slots q)"
    and "fset N \<subseteq> scheduled q" and "fset N \<subseteq> fset (fmdom tbl)"
proof -
  from ok obtain R R' A q1 where l: "lookup_all tbl (sorted_list_of_fset N) = Ok R"
    and e: "recover_entries (sorted_list_of_fmap q) R [] q = (R', A, q1)"
    and fin: "fmdom R' = {||}"
    and a: "eq_add_active_sectors A (retain_non_empty q1) = (Ok u, q')"
    by (auto simp: reschedule_recovered_def ok_iff split: if_splits)
  have R: "fmlookup R n = (if n |\<in>| N then fmlookup tbl n else None)"
    and dom: "fset N \<subseteq> fset (fmdom tbl)" for n
    using lookup_all_Ok [OF l] by simp_all
  have R_dom: "n |\<in>| fmdom R \<longleftrightarrow> n |\<in>| N" for n
    using R [of n] dom by (auto simp: fmlookup_dom_iff)
  have "single_valued (slots_of (sorted_list_of_fmap q))" using wf by (simp add: eq_wf_def)
  note rec = recover_entries_result [OF e this, simplified]
  have "\<exists>b k. (n, b, k) \<in> slots q" if "n |\<in>| N" for n
    using rec fin that R_dom [of n] by (metis fmdom_notI fempty_iff fmdom_notD)
  then show "fset N \<subseteq> scheduled q" by (auto simp: in_scheduled)
  show "fset N \<subseteq> fset (fmdom tbl)" by (rule dom)
  have "(\<lambda>s. (si_sector_number s, si_expiration s, OnTime)) ` set A =
    {(s, b, k). k = OnTime \<and> s |\<in>| N \<and> (\<exists>b'. (s, b', Early) \<in> slots q) \<and>
                (\<exists>i. fmlookup tbl s = Some i \<and> b = si_expiration i)}"
    using rec sector_table_okD [OF tbl] by (auto simp: R image_iff split: if_splits) blast
  then show "slots q' = recovered_slots tbl (fset N) (slots q)"
    unfolding eq_add_active_sectors_slots [OF a] slots_retain_non_empty
    using rec R_dom by (auto simp: recovered_slots_def)
qed

lemma recovered_slots_single_valued:
  "single_valued S \<Longrightarrow> single_valued (recovered_slots tbl N S)"
  unfolding single_valued_def recovered_slots_def by auto

lemma recovered_slots_domain:
  assumes "N \<subseteq> fset (fmdom tbl)"
  shows "fst ` recovered_slots tbl N S = fst ` S"
proof (intro set_eqI iffI)
  fix s assume "s \<in> fst ` S"
  then obtain b k where "(s, b, k) \<in> S" by (auto simp: in_fst_slots)
  then show "s \<in> fst ` recovered_slots tbl N S"
    unfolding in_fst_slots recovered_slots_def using assms
    by (cases "s \<in> N \<and> k = Early") (auto 4 4 simp: fmlookup_dom_iff subset_iff)
qed (auto simp: in_fst_slots recovered_slots_def)

section \<open>Removal\<close>

lemma remove_groups_slots:
  assumes "distinct (map fst L)" "\<And>b g. (b, g) \<in> set L \<Longrightarrow> fmlookup q b = Some (ses_set g)"
  shows "\<exists>q'. remove_groups L removed q =
      (Ok (removed |\<union>| fset_of_list (concat (map (ses_sectors \<circ> snd) L))), q') \<and>
    slots q' = slots q - group_slots L"
  using assms
proof (induction L arbitrary: removed q)
  case (Cons p L)
  obtain b g where p: "p = (b, g)" by (cases p)
  have L: "b \<notin> fst ` set L" "distinct (map fst L)" using Cons.prems(1) p by auto
  have lk: "fmlookup q b = Some (ses_set g)" using Cons.prems(2) p by simp
  obtain q1 where q1: "must_update_or_delete b (es_remove (ses_sectors g) [] (ses_set g)) q = (Ok (), q1)"
    "slots q1 = slots q - set (ses_sectors g) \<times> {(b, OnTime)}"
    "\<And>b'. b' \<noteq> b \<Longrightarrow> fmlookup q1 b' = fmlookup q b'"
    using must_update_or_delete_Ok [OF lk] slots_remove_group [OF lk] by metis
  have "fmlookup q1 b' = Some (ses_set g')" if "(b', g') \<in> set L" for b' g'
    using that q1(3) L(1) Cons.prems(2) by force
  with Cons.IH [OF L(2), of q1 "removed |\<union>| fset_of_list (ses_sectors g)"] q1 lk p
  show ?case by (auto simp: bindM_def getM_def liftM_def sup_assoc)
qed (simp add: retM_def)

lemma remove_active_sectors_slots:
  assumes wf: "eq_wf q" and ok: "remove_active_sectors sectors q = (Ok nums, q')"
  shows "slots q' = {(s, b, k). (s, b, k) \<in> slots q \<and> s |\<notin>| numbers_of sectors}"
    and "nums = numbers_of sectors"
    and "s |\<in>| numbers_of sectors \<Longrightarrow> \<exists>b. (s, b, OnTime) \<in> slots q"
proof -
  from ok obtain groups where g: "find_sectors_by_expiration sectors q = Ok groups"
    and r: "remove_groups (sorted_list_of_fmap groups) {||} q = (Ok nums, q')"
    by (auto simp: remove_active_sectors_def ok_iff)
  note search = find_sectors_by_expiration_Ok [OF wf g]
  show on: "\<exists>b. (s, b, OnTime) \<in> slots q" if "s |\<in>| numbers_of sectors" for s
    using search(2) that .
  note found = in_groups_of_search [OF search(1)]
  have n: "nums = fset_of_list (concat (map (ses_sectors \<circ> snd) (sorted_list_of_fmap groups)))"
    and q': "slots q' = slots q - group_slots (sorted_list_of_fmap groups)"
    using remove_groups_slots [of "sorted_list_of_fmap groups" q "{||}"] search(1) r
    by (auto simp: group_at_Some)
  have "s |\<in>| nums \<longleftrightarrow> (\<exists>b. s |\<in>| numbers_of sectors \<and> (s, b, OnTime) \<in> slots q)" for s
    unfolding found [symmetric] by (simp add: n fset_of_list_elem Bex_def)
  then show "nums = numbers_of sectors" using on by (metis fset_eqI)
  have "(s, b, k) \<in> group_slots (sorted_list_of_fmap groups) \<longleftrightarrow>
      s |\<in>| numbers_of sectors \<and> (s, b, OnTime) \<in> slots q \<and> k = OnTime" for s b k
    using found [of b s] by (auto simp: group_slots_def)
  then show "slots q' = {(s, b, k). (s, b, k) \<in> slots q \<and> s |\<notin>| numbers_of sectors}"
    unfolding q' using on eq_wfD [OF wf] by (auto simp del: fset_of_list_map) blast+
qed

text \<open>The faulty sectors of one set, and of all entries of the queue.\<close>

lemma remove_faulty_from_set_result:
  assumes "remove_faulty_from_set ns (es, D, R) = Ok (es', D', R')"
    and "on_time_sectors es |\<inter>| early_sectors es = {||}"
  shows "(\<forall>k n. n |\<in>| es_part k es' \<longleftrightarrow> n |\<in>| es_part k es \<and> n \<notin> set ns) \<and>
    (\<forall>k n. n |\<in>| es_part k D' \<longleftrightarrow> n |\<in>| es_part k D \<or> n |\<in>| es_part k es \<and> n \<in> set ns) \<and>
    (\<forall>n. n |\<in>| R' \<longleftrightarrow> n |\<in>| R \<and> \<not> (n \<in> set ns \<and> (\<exists>k. n |\<in>| es_part k es)))"
  using assms
proof (induction ns arbitrary: es D R)
  case (Cons n ns)
  then obtain es1 D1 R1 where step: "remove_faulty n (es, D, R) = Ok (es1, D1, R1)"
    and rest: "remove_faulty_from_set ns (es1, D1, R1) = Ok (es', D', R')"
    by (auto simp: ok_iff)
  have one: "\<And>k m. m |\<in>| es_part k es1 \<longleftrightarrow> m |\<in>| es_part k es \<and> m \<noteq> n"
    "\<And>k m. m |\<in>| es_part k D1 \<longleftrightarrow> m |\<in>| es_part k D \<or> m |\<in>| es_part k es \<and> m = n"
    "\<And>m. m |\<in>| R1 \<longleftrightarrow> m |\<in>| R \<and> \<not> (m = n \<and> (\<exists>k. m |\<in>| es_part k es))"
    subgoal for k m using step Cons.prems(2)
      by (cases k) (auto simp: remove_faulty_def ok_iff split: if_splits)
    subgoal for k m using step Cons.prems(2)
      by (cases k) (auto simp: remove_faulty_def ok_iff split: if_splits)
    subgoal for m using step Cons.prems(2)
      by (auto simp: remove_faulty_def ok_iff ex_es_part split: if_splits)
    done
  have "on_time_sectors es1 |\<inter>| early_sectors es1 = {||}"
    using one(1) [of _ OnTime] one(1) [of _ Early] Cons.prems(2) by auto
  from Cons.IH [OF rest this] show ?case by (auto simp: one)
qed auto

lemma remove_faulty_entries_result:
  assumes "remove_faulty_entries ns L D R q = (Ok (D', R'), q')" "single_valued (slots_of L)"
    and "distinct (map fst L)" "\<And>b es. (b, es) \<in> set L \<Longrightarrow> fmlookup q b = Some es"
  shows "slots q' = slots q - {(n, b, k). n \<in> set ns \<and> (n, b, k) \<in> slots_of L} \<and>
    (\<forall>k n. n |\<in>| es_part k D' \<longleftrightarrow> n |\<in>| es_part k D \<or> n \<in> set ns \<and> (\<exists>b. (n, b, k) \<in> slots_of L)) \<and>
    (\<forall>n. n |\<in>| R' \<longleftrightarrow> n |\<in>| R \<and> \<not> (n \<in> set ns \<and> (\<exists>b k. (n, b, k) \<in> slots_of L)))"
  using assms
proof (induction L arbitrary: D R q)
  case Nil
  then show ?case by (simp add: slots_of_def ok_iff)
next
  case (Cons p L)
  obtain b es where p: "p = (b, es)" by (cases p)
  obtain es1 D1 R1 where step: "remove_faulty_from_set ns (es, D, R) = Ok (es1, D1, R1)"
    and rest: "remove_faulty_entries ns L D1 R1 (fmupd b es1 q) = (Ok (D', R'), q')"
    using Cons.prems(1) p by (auto simp: ok_iff)
  have b: "b \<notin> fst ` set L" and lk: "fmlookup q b = Some es" using Cons.prems p by auto
  obtain disj: "on_time_sectors es |\<inter>| early_sectors es = {||}" and sv: "single_valued (slots_of L)"
    using slots_of_ConsE [OF _ b] Cons.prems(2) p by metis
  note one = remove_faulty_from_set_result [OF step disj]
  have q1: "slots (fmupd b es1 q) = slots q - {(n, b', k). n \<in> set ns \<and> b' = b \<and> n |\<in>| es_part k es}"
    using one lk by (auto simp: slots_fmupd in_slots)
  have "fmlookup (fmupd b es1 q) b' = Some es'" if "(b', es') \<in> set L" for b' es'
    using that b Cons.prems(4) p by force
  note IH = Cons.IH [OF rest sv _ this]
  show ?case unfolding p in_slots_of_Cons
    using IH Cons.prems(3) one q1 by (intro conjI) auto
qed

lemma eq_remove_sectors_slots:
  assumes wf: "eq_wf q" and ok: "eq_remove_sectors sectors faults q = (Ok D, q')"
  defines "N \<equiv> si_sector_number ` set sectors"
  shows "slots q' = {(s, b, k). (s, b, k) \<in> slots q \<and> s \<notin> N}"
    and "N \<subseteq> scheduled q"
    and "s |\<in>| es_part k D \<longleftrightarrow> s \<in> N \<and> (\<exists>b. (s, b, k) \<in> slots q)"
proof -
  define F where "F = map si_sector_number (filter (\<lambda>s. si_sector_number s |\<in>| faults) sectors)"
  define U where "U = filter (\<lambda>s. si_sector_number s |\<notin>| faults) sectors"
  have N: "N = set F \<union> fset (numbers_of U)" "set F \<inter> fset (numbers_of U) = {}"
    by (auto simp: N_def F_def U_def fset_of_list.rep_eq)
  define R where "R = numbers_of sectors |-| numbers_of U"
  from ok obtain nums q1 R' where r: "remove_active_sectors U q = (Ok nums, q1)"
    and f: "remove_faulty_entries F (sorted_list_of_fmap q1) (es_new\<lparr>on_time_sectors := nums\<rparr>) R q1
      = (Ok (D, {||}), q')"
    by (auto simp: eq_remove_sectors_def Let_def ok_iff F_def U_def R_def)
  note act = remove_active_sectors_slots [OF wf r]
  have "eq_wf q1" using eq_wf_subset [OF wf, of q1] act(1) by auto
  then have "single_valued (slots_of (sorted_list_of_fmap q1))" by (simp add: eq_wf_def)
  note fa = remove_faulty_entries_result [OF f this, simplified]
  have R: "s |\<in>| R \<longleftrightarrow> s \<in> set F" for s by (auto simp: R_def F_def U_def fset_of_list_elem)
  show "slots q' = {(s, b, k). (s, b, k) \<in> slots q \<and> s \<notin> N}"
    using fa act(1) unfolding N by auto
  have "\<exists>b k. (s, b, k) \<in> slots q1" if "s \<in> set F" for s using that fa R by blast
  then show "N \<subseteq> scheduled q" using act unfolding N by (auto simp: in_scheduled) blast+
  have d: "s |\<in>| es_part k D \<longleftrightarrow> s |\<in>| es_part k (es_new\<lparr>on_time_sectors := nums\<rparr>) \<or>
     s \<in> set F \<and> (\<exists>b. (s, b, k) \<in> slots q1)" using fa by blast
  show "s |\<in>| es_part k D \<longleftrightarrow> s \<in> N \<and> (\<exists>b. (s, b, k) \<in> slots q)"
  proof (cases "s |\<in>| numbers_of U")
    case True
    then obtain b where "(s, b, OnTime) \<in> slots q" using act(3) by blast
    then have "(\<exists>b'. (s, b', k) \<in> slots q) \<longleftrightarrow> k = OnTime" using eq_wfD [OF wf] by blast
    moreover have "s \<notin> set F" "s \<in> N" using True N by blast+
    ultimately show ?thesis using d act(2) True by (cases k) (simp_all add: es_new_def)
  next
    case False
    with d act(1,2) N show ?thesis by (cases k) (auto simp: es_new_def)
  qed
qed

section \<open>Expiry\<close>

lemma pop_sets_part:
  "pop_sets L es = (Ok u, es') \<Longrightarrow>
   s |\<in>| es_part k es' \<longleftrightarrow> s |\<in>| es_part k es \<or> (\<exists>b. (s, b, k) \<in> slots_of L)"
proof (induction L arbitrary: es)
  case (Cons p L)
  obtain b e where p: "p = (b, e)" by (cases p)
  from Cons.prems p obtain es1 where
    a: "es_add (sorted_list_of_fset (on_time_sectors e)) (sorted_list_of_fset (early_sectors e)) es = (Ok (), es1)"
    and r: "pop_sets L es1 = (Ok u, es')" by (auto simp: ok_iff)
  have "s |\<in>| es_part k es1 \<longleftrightarrow> s |\<in>| es_part k es \<or> s |\<in>| es_part k e"
    unfolding es_add_part [OF a] by (cases k) simp_all
  then show ?case using Cons.IH [OF r] by (auto simp: p in_slots_of_Cons)
qed (simp add: slots_of_def ok_iff)

lemma pop_until_slots:
  assumes "pop_until until q = (Ok D, q')"
  shows "slots q' = {(s, b, k). (s, b, k) \<in> slots q \<and> until < b}"
    and "s |\<in>| es_part k D \<longleftrightarrow> (\<exists>b\<le>until. (s, b, k) \<in> slots q)"
proof -
  let ?P = "filter (\<lambda>(b, es). b \<le> until) (sorted_list_of_fmap q)"
  from assms have p: "pop_sets ?P es_new = (Ok (), D)" and q': "q' = fold fmdrop (map fst ?P) q"
    by (auto simp: pop_until_def ok_iff)
  have P: "(s, b, k) \<in> slots_of ?P \<longleftrightarrow> b \<le> until \<and> (s, b, k) \<in> slots q" for s b k
    by (auto simp: slots_of_def in_slots)
  show "s |\<in>| es_part k D \<longleftrightarrow> (\<exists>b\<le>until. (s, b, k) \<in> slots q)"
    using pop_sets_part [OF p] P by simp
  have "b \<in> set (map fst ?P) \<longleftrightarrow> b \<le> until \<and> b |\<in>| fmdom q" for b
    by (force simp: fmlookup_dom_iff)
  then show "slots q' = {(s, b, k). (s, b, k) \<in> slots q \<and> until < b}"
    by (auto simp: q' in_slots fmlookup_fold_fmdrop fmlookup_dom_iff simp del: set_map split: if_splits)
qed

section \<open>The interface offered to the partitions\<close>

lemma recovered_fault_slots:
  assumes sv: "single_valued S"
    and on: "\<And>s. s \<in> N \<Longrightarrow> \<exists>i. fmlookup tbl s = Some i \<and> (s, si_expiration i, OnTime) \<in> S"
  shows "recovered_slots tbl N (fault_slots new N S) = S"
proof -
  have "(s, c, k) \<in> recovered_slots tbl N (fault_slots new N S) \<longleftrightarrow> (s, c, k) \<in> S" for s c k
  proof (cases "s \<in> N")
    case True
    then obtain i where i: "fmlookup tbl s = Some i" "(s, si_expiration i, OnTime) \<in> S" using on by blast
    have "(s, c, k) \<in> S \<longleftrightarrow> c = si_expiration i \<and> k = OnTime" for c k
      using single_valuedD [OF sv i(2), of "(c, k)"] i(2) by auto
    then show ?thesis using True i(1) by (auto simp: recovered_slots_def fault_slots_def)
  qed (simp add: recovered_slots_def fault_slots_def)
  then show ?thesis by (intro set_eqI) auto
qed

lemma single_valued_Un_disjoint:
  assumes "single_valued A" "single_valued B" "fst ` A \<inter> fst ` B = {}"
  shows "single_valued (A \<union> B)"
proof (rule single_valuedI)
  fix x y z assume "(x, y) \<in> A \<union> B" "(x, z) \<in> A \<union> B"
  moreover have "\<not> ((x, y) \<in> A \<and> (x, z) \<in> B)" "\<not> ((x, y) \<in> B \<and> (x, z) \<in> A)" for y z
    using assms(3) by force+
  ultimately show "y = z" using assms(1,2) by (auto dest: single_valuedD)
qed

text \<open>
  A partition relies on five operations of its expiration queue. The locale
  states what each does to the schedule; what a partition needs is derived
  from these laws alone.
\<close>

locale expiration_schedule =
  fixes sched :: "'q \<Rightarrow> (sector_number \<times> block \<times> expiry) set"
    and add :: "sector_on_chain_info list \<Rightarrow> ('q, 'e, unit) stM"
    and fault :: "block \<Rightarrow> sector_on_chain_info list \<Rightarrow> ('q, 'e, unit) stM"
    and recover :: "sector_table \<Rightarrow> sector_number fset \<Rightarrow> ('q, 'e, unit) stM"
    and remove :: "sector_on_chain_info list \<Rightarrow> sector_number fset \<Rightarrow> ('q, 'e, expiration_set) stM"
    and pop :: "block \<Rightarrow> ('q, 'e, expiration_set) stM"
  assumes add_law: "add infos q = (Ok u, q') \<Longrightarrow>
      sched q' = sched q \<union> (\<lambda>i. (si_sector_number i, si_expiration i, OnTime)) ` set infos"
    and fault_law: "single_valued (sched q) \<Longrightarrow> fault b infos q = (Ok u, q') \<Longrightarrow>
      sched q' = fault_slots b (si_sector_number ` set infos) (sched q) \<and>
      (\<forall>n \<in> si_sector_number ` set infos. \<exists>b. (n, b, OnTime) \<in> sched q)"
    and recover_law: "single_valued (sched q) \<Longrightarrow> sector_table_ok tbl \<Longrightarrow> recover tbl N q = (Ok u, q') \<Longrightarrow>
      sched q' = recovered_slots tbl (fset N) (sched q) \<and>
      fset N \<subseteq> fst ` sched q \<and> fset N \<subseteq> fset (fmdom tbl)"
    and remove_law: "single_valued (sched q) \<Longrightarrow> remove infos F q = (Ok D, q') \<Longrightarrow>
      sched q' = {(s, b, k). (s, b, k) \<in> sched q \<and> s \<notin> si_sector_number ` set infos} \<and>
      si_sector_number ` set infos \<subseteq> fst ` sched q \<and>
      (\<forall>s k. s |\<in>| es_part k D \<longleftrightarrow> s \<in> si_sector_number ` set infos \<and> (\<exists>b. (s, b, k) \<in> sched q))"
    and pop_law: "pop until q = (Ok D, q') \<Longrightarrow>
      sched q' = {(s, b, k). (s, b, k) \<in> sched q \<and> until < b} \<and>
      (\<forall>s k. s |\<in>| es_part k D \<longleftrightarrow> (\<exists>b\<le>until. (s, b, k) \<in> sched q))"
begin

lemma add_keeps:
  assumes "single_valued (sched q)" "add infos q = (Ok u, q')"
    and "distinct (map si_sector_number infos)" "si_sector_number ` set infos \<inter> fst ` sched q = {}"
  shows "single_valued (sched q')" "fst ` sched q' = fst ` sched q \<union> si_sector_number ` set infos"
proof -
  let ?A = "(\<lambda>i. (si_sector_number i, si_expiration i, OnTime)) ` set infos"
  have "single_valued ?A"
    using assms(3) by (auto simp: single_valued_def distinct_map dest: inj_onD)
  moreover have "fst ` ?A = si_sector_number ` set infos" by (simp add: image_image)
  ultimately show "single_valued (sched q')"
    using assms(1,4) add_law [OF assms(2)] single_valued_Un_disjoint [of "sched q" ?A] by (simp add: Int_commute)
  show "fst ` sched q' = fst ` sched q \<union> si_sector_number ` set infos"
    using add_law [OF assms(2)] by (simp add: image_Un image_image)
qed

lemma fault_keeps:
  assumes "single_valued (sched q)" "fault b infos q = (Ok u, q')"
  shows "single_valued (sched q')" "fst ` sched q' = fst ` sched q"
    "si_sector_number ` set infos \<subseteq> fst ` sched q"
proof -
  note law = fault_law [OF assms]
  show "single_valued (sched q')" "fst ` sched q' = fst ` sched q"
    using law fault_slots_single_valued [OF assms(1)] fault_slots_domain by simp_all
  show "si_sector_number ` set infos \<subseteq> fst ` sched q"
    using law unfolding subset_eq in_fst_slots by blast
qed

lemma recover_keeps:
  assumes "single_valued (sched q)" "sector_table_ok tbl" "recover tbl N q = (Ok u, q')"
  shows "single_valued (sched q')" "fst ` sched q' = fst ` sched q"
  using recover_law [OF assms] recovered_slots_single_valued [OF assms(1)] recovered_slots_domain
  by simp_all

lemma remove_takes:
  assumes "single_valued (sched q)" "remove infos F q = (Ok D, q')"
  shows "single_valued (sched q')" "fst ` sched q' = fst ` sched q - si_sector_number ` set infos"
    and "fset (on_time_sectors D |\<union>| early_sectors D) = si_sector_number ` set infos"
proof -
  note law = remove_law [OF assms]
  show "single_valued (sched q')" by (rule single_valued_subset [OF _ assms(1)]) (use law in auto)
  show "fst ` sched q' = fst ` sched q - si_sector_number ` set infos"
    using law by (auto simp: in_fst_slots)
  have "n |\<in>| on_time_sectors D |\<union>| early_sectors D \<longleftrightarrow> n \<in> si_sector_number ` set infos" for n
  proof -
    have "n |\<in>| on_time_sectors D |\<union>| early_sectors D \<longleftrightarrow> (\<exists>k. n |\<in>| es_part k D)"
      by (simp add: ex_es_part)
    also have "\<dots> \<longleftrightarrow> n \<in> si_sector_number ` set infos \<and> (\<exists>b k. (n, b, k) \<in> sched q)"
      using law by blast
    finally show ?thesis using law unfolding subset_eq in_fst_slots by blast
  qed
  then show "fset (on_time_sectors D |\<union>| early_sectors D) = si_sector_number ` set infos" by blast
qed

lemma pop_takes:
  assumes "single_valued (sched q)" "pop until q = (Ok D, q')"
  shows "single_valued (sched q')"
    and "fst ` sched q' = fst ` sched q - fset (on_time_sectors D |\<union>| early_sectors D)"
    and "fset (on_time_sectors D |\<union>| early_sectors D) \<subseteq> fst ` sched q"
proof -
  note law = pop_law [OF assms(2)]
  show "single_valued (sched q')" by (rule single_valued_subset [OF _ assms(1)]) (use law in auto)
  have D: "n |\<in>| on_time_sectors D |\<union>| early_sectors D \<longleftrightarrow> (\<exists>b\<le>until. \<exists>k. (n, b, k) \<in> sched q)" for n
    using law ex_es_part [of n D] unfolding funion_iff by blast
  have "b = b'" if "(s, b, k) \<in> sched q" "(s, b', k') \<in> sched q" for s b k b' k'
    using single_valuedD [OF assms(1) that] by simp
  then show "fst ` sched q' = fst ` sched q - fset (on_time_sectors D |\<union>| early_sectors D)"
    using D law unfolding set_eq_iff Diff_iff in_fst_slots by (simp del: funion_iff) (metis leD leI)
  show "fset (on_time_sectors D |\<union>| early_sectors D) \<subseteq> fst ` sched q"
    using D unfolding subset_eq in_fst_slots by blast
qed

text \<open>Faulting sectors and recovering them afterwards restores the schedule.\<close>

lemma fault_recover_restores:
  assumes sv: "single_valued (sched q)" and tbl: "sector_table_ok tbl"
    and on: "\<And>i. i \<in> set infos \<Longrightarrow> fmlookup tbl (si_sector_number i) = Some i \<and>
      (si_sector_number i, si_expiration i, OnTime) \<in> sched q"
    and f: "fault b infos q = (Ok u, q1)"
    and r: "recover tbl (fset_of_list (map si_sector_number infos)) q1 = (Ok v, q2)"
  shows "sched q2 = sched q"
proof -
  let ?N = "si_sector_number ` set infos"
  have "sched q2 = recovered_slots tbl ?N (fault_slots b ?N (sched q))"
    using recover_law [OF fault_keeps(1) [OF sv f] tbl r] fault_law [OF sv f]
    by (simp add: fset_of_list.rep_eq)
  also have "\<dots> = sched q" using recovered_fault_slots [OF sv] on by blast
  finally show ?thesis .
qed

end

interpretation eq: expiration_schedule slots eq_add_active_sectors reschedule_as_faults
  reschedule_recovered eq_remove_sectors pop_until
proof (standard, goal_cases)
  case 1
  then show ?case by (rule eq_add_active_sectors_slots)
next
  case 2
  note 2 [folded eq_wf_def]
  from reschedule_as_faults_slots [OF this] show ?case by blast
next
  case 3
  note 3 [folded eq_wf_def]
  from reschedule_recovered_slots [OF this] show ?case by (simp add: scheduled_def)
next
  case 4
  note 4 [folded eq_wf_def]
  from eq_remove_sectors_slots [OF this] show ?case by (simp add: scheduled_def)
next
  case 5
  from pop_until_slots [OF this] show ?case by simp
qed

section \<open>When faults can be rescheduled\<close>

lemma add_to_expiration_set_total:
  assumes "fcard (fmdom q) < MAX_SECTORS" "set on = {}"
    and "\<And>es. fmlookup q b = Some es \<Longrightarrow> fcard (early_sectors es |\<union>| fset_of_list early) \<le> MAX_SECTORS"
    and "fcard (fset_of_list early) \<le> MAX_SECTORS"
  shows "\<exists>q'. add_to_expiration_set b on early q = (Ok (), q')"
proof (cases "early = []")
  case True
  then show ?thesis using assms(2) by (simp add: add_to_expiration_set_def monad_defs)
next
  case False
  define es where "es = (case fmlookup q b of None \<Rightarrow> es_new | Some es \<Rightarrow> es)"
  have room: "fcard (early_sectors es |\<union>| fset_of_list early) \<le> MAX_SECTORS"
    using assms(3,4) by (auto simp: es_def es_new_def split: option.splits)
  have "es_add [] early es = (Ok (), es\<lparr>early_sectors := early_sectors es |\<union>| fset_of_list early\<rparr>)"
    using forM_insert_setM_room [OF room, of InsertionFailed] by (simp add: es_add_def monad_defs)
  then show ?thesis using assms(1,2) False
    by (simp add: add_to_expiration_set_def monad_defs insert_mapM_def try_insert_map_def es_def [symmetric])
qed

lemma reschedule_as_faults_total:
  assumes wf: "eq_wf q" and room: "fcard (fmdom q) < MAX_SECTORS"
    and live: "scheduled q \<subseteq> fset L" "fcard L \<le> MAX_SECTORS"
    and on: "\<And>s. s \<in> set sectors \<Longrightarrow> (si_sector_number s, si_expiration s, OnTime) \<in> slots q"
  shows "\<exists>q'. reschedule_as_faults new sectors q = (Ok (), q')"
proof -
  obtain groups where g: "find_sectors_by_expiration sectors q = Ok groups"
    using find_sectors_by_expiration_total [OF wf on] by blast
  note search = find_sectors_by_expiration_Ok(1) [OF wf g]
  define M where "M = filter (\<lambda>(b, g). new < b) (sorted_list_of_fmap groups)"
  define early where "early = concat (map (ses_sectors \<circ> snd) M)"
  obtain q1 where q1: "unschedule_groups new (sorted_list_of_fmap groups) [] q = (Ok early, q1)"
    "slots q1 = slots q - group_slots M" "fmdom q1 |\<subseteq>| fmdom q"
    using unschedule_groups_slots [of "sorted_list_of_fmap groups" q new "[]"] search
    by (auto simp: group_at_Some M_def early_def)
  have e: "fset_of_list early |\<subseteq>| L"
  proof
    fix s assume "s |\<in>| fset_of_list early"
    then obtain b where "(s, b, OnTime) \<in> slots q"
      using in_groups_of_search [OF search] by (fastforce simp: early_def M_def fset_of_list_elem)
    then show "s |\<in>| L" using live(1) in_scheduled by blast
  qed
  have "early_sectors es |\<subseteq>| L" if "fmlookup q1 new = Some es" for es
  proof
    fix s assume "s |\<in>| early_sectors es"
    then have "(s, new, Early) \<in> slots q1" using that by (simp add: in_slots)
    then have "(s, new, Early) \<in> slots q" using q1(2) by simp
    then show "s |\<in>| L" using live(1) in_scheduled by blast
  qed
  then have "fcard (early_sectors es |\<union>| fset_of_list early) \<le> MAX_SECTORS"
    if "fmlookup q1 new = Some es" for es
    using e live(2) that fcard_mono [of "early_sectors es |\<union>| fset_of_list early" L]
    by (metis le_trans le_sup_iff)
  moreover have "fcard (fset_of_list early) \<le> MAX_SECTORS" using fcard_mono [OF e] live(2) by simp
  moreover have "fcard (fmdom q1) < MAX_SECTORS" using fcard_mono [OF q1(3)] room by simp
  ultimately obtain q' where "add_to_expiration_set new [] early q1 = (Ok (), q')"
    using add_to_expiration_set_total [of q1 "[]" new early] by auto
  then show ?thesis using g q1(1)
    by (auto simp: reschedule_as_faults_def bindM_def getM_def liftM_def)
qed

end
