(* ===== verification/Partition.thy ===== *)
theory Partition
  imports ExpirationQueue_Props
begin

text \<open>
  A partition of a deadline (\<^verbatim>\<open>pallets/storage-provider/src/partition.rs\<close>): its
  sectors with their unproven, faulty, recovering and terminated subsets, its
  expiration queue and the early terminations still to be processed.
\<close>

section \<open>State\<close>

record partition =
  p_sectors :: "sector_number fset"
  p_unproven :: "sector_number fset"
  p_faults :: "sector_number fset"
  p_recoveries :: "sector_number fset"
  p_terminated :: "sector_number fset"
  p_expirations :: expiration_queue
  p_early_terminations :: "(block, sector_number fset) fmap"

type_synonym 'a partitionM = "(partition, general_pallet_error, 'a) stM"

definition partition_new :: partition where
  "partition_new =
    \<lparr> p_sectors = {||}, p_unproven = {||}, p_faults = {||}, p_recoveries = {||},
      p_terminated = {||}, p_expirations = eq_new, p_early_terminations = fmempty \<rparr>"

text \<open>\<^verbatim>\<open>try_into().expect(..)\<close> to a set bounded by \<open>MAX_SECTORS\<close>.\<close>

definition bounded_set :: "sector_number fset \<Rightarrow> (general_pallet_error, sector_number fset) res" where
  "bounded_set S = expect (try_from_set MAX_SECTORS S)"

definition live_sectors :: "partition \<Rightarrow> (general_pallet_error, sector_number fset) res" where
  "live_sectors p = bounded_set (p_sectors p |-| p_terminated p)"

definition queueM :: "(expiration_queue, general_pallet_error, 'a) stM \<Rightarrow> 'a partitionM" where
  "queueM = zoomM p_expirations (\<lambda>q p. p\<lparr>p_expirations := q\<rparr>)"

section \<open>Operations\<close>

definition partition_add_sectors :: "sector_on_chain_info list \<Rightarrow> unit partitionM" where
  "partition_add_sectors sectors =
    bindM (queueM (eq_add_active_sectors sectors)) (\<lambda>_.
    forM sectors (\<lambda>s.
      bindM (ensureM (\<lambda>p. si_sector_number s |\<notin>| p_sectors p) PartitionErrorDuplicateSectorNumber) (\<lambda>_.
      bindM (zoomM p_sectors (\<lambda>S p. p\<lparr>p_sectors := S\<rparr>)
        (insert_setM MAX_SECTORS PartitionErrorFailedToAddSector (si_sector_number s))) (\<lambda>_.
      zoomM p_unproven (\<lambda>S p. p\<lparr>p_unproven := S\<rparr>)
        (insert_setM MAX_SECTORS PartitionErrorFailedToAddSector (si_sector_number s))))))"

definition add_faults :: "sector_on_chain_info list \<Rightarrow> block \<Rightarrow> unit partitionM" where
  "add_faults sectors fault_expiration =
    bindM (map_errM (\<lambda>_. PartitionErrorFailedToAddFaults)
      (queueM (reschedule_as_faults fault_expiration sectors))) (\<lambda>_.
    let numbers = fset_of_list (map si_sector_number sectors) in
    bindM (getM (\<lambda>p. try_from_set MAX_SECTORS (p_faults p |\<union>| numbers))) (\<lambda>r.
    bindM (liftM (ok_or PartitionErrorFailedToAddFaults r)) (\<lambda>faults.
    modifyM (\<lambda>p. p\<lparr>p_faults := faults,
      p_unproven := fold (\<lambda>n S. S |-| {|n|}) (sorted_list_of_fset numbers) (p_unproven p)\<rparr>))))"

definition remove_recoveries :: "sector_number fset \<Rightarrow> unit partitionM" where
  "remove_recoveries numbers =
    bindM (getM (\<lambda>p. try_from_set MAX_SECTORS (p_recoveries p |-| numbers))) (\<lambda>r.
    bindM (liftM (ok_or PartitionErrorFailedToRemoveRecoveries r)) (\<lambda>recoveries.
    modifyM (\<lambda>p. p\<lparr>p_recoveries := recoveries\<rparr>)))"

definition new_faults :: "sector_number fset \<Rightarrow> partition \<Rightarrow> sector_number fset" where
  "new_faults numbers p =
    ffilter (\<lambda>n. n |\<notin>| p_recoveries p |\<inter>| numbers \<and> n |\<notin>| p_terminated p \<and> n |\<notin>| p_faults p) numbers"

definition record_faults ::
  "sector_table \<Rightarrow> sector_number fset \<Rightarrow> block \<Rightarrow> sector_number fset partitionM" where
  "record_faults sectors numbers fault_expiration =
    bindM (getM (\<lambda>p. p)) (\<lambda>p.
    let retracted = p_recoveries p |\<inter>| numbers;
        new = new_faults numbers p;
        new_fault_sectors = map snd (filter (\<lambda>(n, info). n |\<in>| new) (sorted_list_of_fmap sectors));
        retracted_sectors = fset_of_list (filter (\<lambda>n. n |\<in>| retracted) (map fst (sorted_list_of_fmap sectors)))
    in
    bindM (if new_fault_sectors \<noteq> [] then add_faults new_fault_sectors fault_expiration else retM ()) (\<lambda>_.
    bindM (if retracted_sectors \<noteq> {||} then remove_recoveries retracted_sectors else retM ()) (\<lambda>_.
    retM new)))"

definition partition_declare_faults_recovered :: "sector_number fset \<Rightarrow> unit partitionM" where
  "partition_declare_faults_recovered numbers =
    bindM (getM (\<lambda>p. bounded_set (p_recoveries p |\<union>| (numbers |\<inter>| p_faults p)))) (\<lambda>r.
    bindM (liftM r) (\<lambda>recoveries.
    modifyM (\<lambda>p. p\<lparr>p_recoveries := recoveries\<rparr>)))"

definition recover_all_declared_recoveries :: "sector_table \<Rightarrow> unit partitionM" where
  "recover_all_declared_recoveries all_sectors =
    bindM (getM p_recoveries) (\<lambda>recoveries.
    bindM (map_errM (\<lambda>_. PartitionErrorFailedToRemoveRecoveries)
      (queueM (reschedule_recovered all_sectors recoveries))) (\<lambda>_.
    bindM (getM (\<lambda>p. bounded_set (p_faults p |-| p_recoveries p))) (\<lambda>r.
    bindM (liftM r) (\<lambda>faults.
    modifyM (\<lambda>p. p\<lparr>p_faults := faults, p_recoveries := {||}\<rparr>)))))"

definition record_early_terminations :: "block \<Rightarrow> sector_number fset \<Rightarrow> unit partitionM" where
  "record_early_terminations block_number sectors =
    bindM (getM (\<lambda>p. try_insert_map MAX_SECTORS block_number sectors (p_early_terminations p))) (\<lambda>r.
    bindM (liftM (expect r)) (\<lambda>m.
    modifyM (\<lambda>p. p\<lparr>p_early_terminations := m\<rparr>)))"

definition partition_terminate_sectors ::
  "block \<Rightarrow> sector_on_chain_info list \<Rightarrow> sector_number fset \<Rightarrow> expiration_set partitionM" where
  "partition_terminate_sectors block_number sectors numbers =
    bindM (getM live_sectors) (\<lambda>r.
    bindM (liftM r) (\<lambda>live.
    bindM (ensureM (\<lambda>_. numbers |-| live = {||}) PartitionErrorSectorsNotLive) (\<lambda>_.
    bindM (getM p_faults) (\<lambda>faults.
    bindM (queueM (eq_remove_sectors (filter (\<lambda>s. si_sector_number s |\<in>| numbers) sectors) faults)) (\<lambda>removed.
    bindM (liftM (bounded_set (on_time_sectors removed |\<union>| early_sectors removed))) (\<lambda>removed_sectors.
    bindM (record_early_terminations block_number removed_sectors) (\<lambda>_.
    bindM (getM (\<lambda>p. res_bind (bounded_set (p_faults p |-| removed_sectors)) (\<lambda>faults.
                     res_bind (bounded_set (p_recoveries p |-| removed_sectors)) (\<lambda>recoveries.
                     res_bind (bounded_set (p_terminated p |\<union>| removed_sectors)) (\<lambda>terminated.
                     res_bind (bounded_set (p_unproven p |-| (removed_sectors |\<inter>| p_unproven p))) (\<lambda>unproven.
                     Ok (p\<lparr>p_faults := faults, p_recoveries := recoveries,
                           p_terminated := terminated, p_unproven := unproven\<rparr>))))))) (\<lambda>r.
    bindM (liftM r) (\<lambda>p'.
    bindM (modifyM (\<lambda>_. p')) (\<lambda>_.
    retM removed))))))))))"

definition partition_pop_expired_sectors :: "block \<Rightarrow> expiration_set partitionM" where
  "partition_pop_expired_sectors until =
    bindM (ensureM (\<lambda>p. p_unproven p = {||}) PartitionErrorCannotPopUnprovenSectors) (\<lambda>_.
    bindM (queueM (pop_until until)) (\<lambda>popped.
    let expired = on_time_sectors popped |\<union>| early_sectors popped in
    bindM (ensureM (\<lambda>p. p_recoveries p = {||}) PartitionErrorUnexpectedRecoveries) (\<lambda>_.
    bindM (ensureM (\<lambda>p. fcard (p_terminated p |\<inter>| expired) = 0)
      PartitionErrorExpiredSectorsAlreadyTerminated) (\<lambda>_.
    bindM (getM (\<lambda>p. bounded_set (p_terminated p |\<union>| expired))) (\<lambda>r.
    bindM (liftM r) (\<lambda>terminated.
    bindM (modifyM (\<lambda>p. p\<lparr>p_terminated := terminated,
      p_faults := fold (\<lambda>n S. S |-| {|n|}) (sorted_list_of_fset expired) (p_faults p)\<rparr>)) (\<lambda>_.
    bindM (record_early_terminations until (early_sectors popped)) (\<lambda>_.
    retM popped))))))))"

definition activate_unproven :: "partition \<Rightarrow> partition" where
  "activate_unproven p = p\<lparr>p_unproven := {||}\<rparr>"

section \<open>Processing early terminations\<close>

record termination_result =
  tr_sectors :: "(block, sector_number fset) fmap"
  tr_partitions_processed :: nat
  tr_sectors_processed :: nat

definition tr_new :: termination_result where
  "tr_new = \<lparr> tr_sectors = fmempty, tr_partitions_processed = 0, tr_sectors_processed = 0 \<rparr>"

definition tr_merge_entry ::
  "block \<times> sector_number fset \<Rightarrow> (block, sector_number fset) fmap \<Rightarrow> (block, sector_number fset) fmap" where
  "tr_merge_entry = (\<lambda>(b, S) m.
    (case fmlookup m b of None \<Rightarrow> fmupd b S m | Some T \<Rightarrow> fmupd b (T |\<union>| S) m))"

definition tr_add_assign ::
  "termination_result \<Rightarrow> termination_result \<Rightarrow> (general_pallet_error, termination_result) res" where
  "tr_add_assign t rhs =
    res_bind (add_u u64_bound (tr_partitions_processed t) (tr_partitions_processed rhs)) (\<lambda>partitions.
    res_bind (add_u u64_bound (tr_sectors_processed t) (tr_sectors_processed rhs)) (\<lambda>sectors.
    Ok \<lparr> tr_sectors = fold tr_merge_entry (sorted_list_of_fmap (tr_sectors rhs)) (tr_sectors t),
         tr_partitions_processed = partitions,
         tr_sectors_processed = sectors \<rparr>))"

definition tr_below_limit :: "nat \<Rightarrow> nat \<Rightarrow> termination_result \<Rightarrow> bool" where
  "tr_below_limit partition_limit sector_limit t \<longleftrightarrow>
    tr_partitions_processed t < partition_limit \<and> tr_sectors_processed t < sector_limit"

definition tr_is_empty :: "termination_result \<Rightarrow> bool" where
  "tr_is_empty t \<longleftrightarrow> fmdom (tr_sectors t) = {||}"

text \<open>
  The loop over the early terminations, oldest block first: the blocks that
  were processed entirely, what remains of the block the limit cut, and the
  result.
\<close>

fun pop_early_loop ::
  "nat \<Rightarrow> (block \<times> sector_number fset) list
    \<Rightarrow> block list \<times> (sector_number fset \<times> block) option \<times> termination_result
    \<Rightarrow> (general_pallet_error, block list \<times> (sector_number fset \<times> block) option \<times> termination_result) res" where
  "pop_early_loop max_sectors [] acc = Ok acc"
| "pop_early_loop max_sectors ((b, S) # rest) (processed, remaining, result) =
    res_bind (sub_u max_sectors (tr_sectors_processed result)) (\<lambda>limit.
    let cut = limit < fcard S;
        to_process = (if cut then fset_of_list (take limit (sorted_list_of_fset S)) else S);
        remaining' = (if cut then Some (ffilter (\<lambda>n. n |\<notin>| to_process) S, b) else remaining);
        processed' = (if cut then processed else processed @ [b])
    in
    res_bind (add_u u64_bound (tr_sectors_processed result) (if cut then limit else fcard S)) (\<lambda>n.
    let result' = result\<lparr>tr_sectors_processed := n, tr_sectors := fmupd b to_process (tr_sectors result)\<rparr> in
    if max_sectors \<le> n then Ok (processed', remaining', result')
    else pop_early_loop max_sectors rest (processed', remaining', result')))"

definition put_remaining ::
  "(sector_number fset \<times> block) option \<Rightarrow> (block, sector_number fset) fmap
    \<Rightarrow> (general_pallet_error, (block, sector_number fset) fmap) res" where
  "put_remaining remaining m =
    (case remaining of
       None \<Rightarrow> Ok m
     | Some (S, b) \<Rightarrow> res_bind (bounded_set S) (\<lambda>S. expect (try_insert_map MAX_SECTORS b S m)))"

definition partition_pop_early_terminations :: "nat \<Rightarrow> (termination_result \<times> bool) partitionM" where
  "partition_pop_early_terminations max_sectors =
    bindM (getM (\<lambda>p. pop_early_loop max_sectors (sorted_list_of_fmap (p_early_terminations p))
      ([], None, tr_new\<lparr>tr_partitions_processed := 1\<rparr>))) (\<lambda>r.
    bindM (liftM r) (\<lambda>(processed, remaining, result).
    bindM (getM (\<lambda>p. put_remaining remaining (p_early_terminations p))) (\<lambda>r.
    bindM (liftM r) (\<lambda>m.
    let m' = fmfilter (\<lambda>b. b \<notin> set processed) m in
    bindM (liftM (expect (try_from_map MAX_SECTORS m'))) (\<lambda>m''.
    bindM (modifyM (\<lambda>p. p\<lparr>p_early_terminations := m''\<rparr>)) (\<lambda>_.
    retM (result, fmdom m'' \<noteq> {||})))))))"

end
