(* ===== verification/SectorMap.thy ===== *)
theory SectorMap
  imports Primitives
begin

text \<open>
  The maps from partitions to sectors and from deadlines to such maps in which
  an extrinsic collects its declarations
  (\<^verbatim>\<open>pallets/storage-provider/src/sector_map.rs\<close>).
\<close>

type_synonym partition_map = "(partition_number, sector_number fset) fmap"
type_synonym deadline_sector_map = "(nat, partition_map) fmap"

definition partition_map_new :: partition_map where
  "partition_map_new = fmempty"

definition insert_sectors_into_new_partition ::
  "partition_number \<Rightarrow> sector_number fset \<Rightarrow> (partition_map, general_pallet_error, unit) stM" where
  "insert_sectors_into_new_partition part sectors =
    bindM (liftM (on_local (forM (sorted_list_of_fset sectors)
      (insert_setM MAX_SECTORS SectorMapErrorFailedToInsertSector)) {||})) (\<lambda>(_, new_sectors).
    insert_mapM MAX_TERMINATIONS_PER_CALL SectorMapErrorFailedToInsertSector part new_sectors)"

text \<open>The sectors inserted before a failing one stay in the partition.\<close>

definition try_insert_sectors ::
  "partition_number \<Rightarrow> sector_number fset \<Rightarrow> (partition_map, general_pallet_error, unit) stM" where
  "try_insert_sectors part sectors m =
    (case fmlookup m part of
       Some S \<Rightarrow>
         (case forM (sorted_list_of_fset sectors)
                 (insert_setM MAX_SECTORS SectorMapErrorFailedToInsertSector) S of
            (r, S') \<Rightarrow> (r, fmupd part S' m))
     | None \<Rightarrow>
         map_errM (\<lambda>_. SectorMapErrorFailedToInsertSector)
           (insert_sectors_into_new_partition part sectors) m)"

definition deadline_sector_map_new :: deadline_sector_map where
  "deadline_sector_map_new = fmempty"

definition deadline_sector_map_try_insert ::
  "nat \<Rightarrow> partition_number \<Rightarrow> sector_number fset \<Rightarrow> (deadline_sector_map, general_pallet_error, unit) stM" where
  "deadline_sector_map_try_insert deadline part sectors m =
    (case fmlookup m deadline of
       Some p_map \<Rightarrow>
         (case try_insert_sectors part sectors p_map of (r, p_map') \<Rightarrow> (r, fmupd deadline p_map' m))
     | None \<Rightarrow>
         bindM (liftM (on_local (try_insert_sectors part sectors) partition_map_new)) (\<lambda>(_, p_map).
         insert_mapM MAX_TERMINATIONS_PER_CALL SectorMapErrorFailedToInsertPartition deadline p_map) m)"

section \<open>What the maps hold\<close>

definition pm_sectors :: "partition_map \<Rightarrow> partition_number \<Rightarrow> sector_number fset" where
  "pm_sectors m n = (case fmlookup m n of None \<Rightarrow> {||} | Some S \<Rightarrow> S)"

definition dsm_sectors :: "deadline_sector_map \<Rightarrow> nat \<Rightarrow> partition_number \<Rightarrow> sector_number fset" where
  "dsm_sectors m d n = (case fmlookup m d of None \<Rightarrow> {||} | Some pm \<Rightarrow> pm_sectors pm n)"

lemma try_insert_sectors_Ok:
  assumes "try_insert_sectors n S m = (Ok u, m')"
  shows "m' = fmupd n (pm_sectors m n |\<union>| S) m"
proof (cases "fmlookup m n")
  case None
  then show ?thesis using assms
    by (auto simp: try_insert_sectors_def insert_sectors_into_new_partition_def pm_sectors_def ok_iff
        dest!: forM_insert_setM)
next
  case (Some T)
  obtain r T' where run: "forM (sorted_list_of_fset S)
      (insert_setM MAX_SECTORS SectorMapErrorFailedToInsertSector) T = (r, T')"
    by (cases "forM (sorted_list_of_fset S) (insert_setM MAX_SECTORS SectorMapErrorFailedToInsertSector) T")
  with Some assms have "r = Ok ()" "m' = fmupd n T' m" by (simp_all add: try_insert_sectors_def)
  with run Some show ?thesis by (auto simp: pm_sectors_def dest!: forM_insert_setM)
qed

text \<open>
  A successful insertion of declared sectors adds them to the entry of
  exactly that deadline and partition.
\<close>

theorem deadline_sector_map_insert:
  assumes "deadline_sector_map_try_insert d n S m = (Ok (), m')"
  shows "dsm_sectors m' d' n' =
    (if d' = d \<and> n' = n then dsm_sectors m d n |\<union>| S else dsm_sectors m d' n')"
proof (cases "fmlookup m d")
  case None
  with assms obtain pm where "try_insert_sectors n S fmempty = (Ok (), pm)" "m' = fmupd d pm m"
    by (auto simp: deadline_sector_map_try_insert_def partition_map_new_def ok_iff)
  then show ?thesis using None
    by (auto simp: dsm_sectors_def pm_sectors_def dest!: try_insert_sectors_Ok)
next
  case (Some pm)
  obtain r pm' where run: "try_insert_sectors n S pm = (r, pm')" by (cases "try_insert_sectors n S pm")
  with Some assms have "r = Ok ()" "m' = fmupd d pm' m"
    by (simp_all add: deadline_sector_map_try_insert_def)
  with run Some show ?thesis
    by (auto simp: dsm_sectors_def pm_sectors_def dest!: try_insert_sectors_Ok)
qed

theorem deadline_sector_map_insert_witness:
  "dsm_sectors (snd (deadline_sector_map_try_insert 3 0 {|7, 9|} deadline_sector_map_new)) 3 0 = {|7, 9|}"
proof -
  have "fst (deadline_sector_map_try_insert 3 0 {|7, 9|} deadline_sector_map_new) = Ok ()" by code_simp
  from deadline_sector_map_insert [OF run_eqI [OF this], of 3 0] show ?thesis
    by (simp add: dsm_sectors_def deadline_sector_map_new_def)
qed

end
