(* ===== verification/DeadlineInfo.thy ===== *)
theory DeadlineInfo
  imports Primitives
begin

text \<open>
  The proving-period arithmetic of \<^verbatim>\<open>pallets/storage-provider/src/deadline.rs\<close>: when
  a deadline opens, closes, gets its challenge and stops accepting fault
  declarations, and its next occurrences.
\<close>

record deadline_info =
  di_block_number :: block
  di_period_start :: block
  di_idx :: nat
  di_open_at :: block
  di_close_at :: block
  di_fault_cutoff :: block
  di_challenge :: block
  di_w_post_period_deadlines :: nat
  di_w_post_proving_period :: block
  di_w_post_challenge_window :: block
  di_w_post_challenge_lookback :: block
  di_fault_declaration_cutoff :: block

type_synonym 'a gres = "(general_pallet_error, 'a) res"

text \<open>
  Block numbers are 64-bit in the runtime, so the conversions of the number of
  deadlines and of the index to a block number succeed.
\<close>

definition deadline_info_new ::
  "block \<Rightarrow> block \<Rightarrow> nat \<Rightarrow> nat \<Rightarrow> block \<Rightarrow> block \<Rightarrow> block \<Rightarrow> block \<Rightarrow> deadline_info gres" where
  "deadline_info_new block_number period_start idx deadlines proving_period window lookback cutoff =
    res_bind
      (if idx < deadlines then
         res_bind (mul_u u64_bound idx window) (\<lambda>offset.
         res_bind (add_u u64_bound period_start offset) (\<lambda>open_at.
         res_bind (add_u u64_bound open_at window) (\<lambda>close_at.
         res_bind (sub_u open_at lookback) (\<lambda>challenge.
         res_bind (sub_u open_at cutoff) (\<lambda>fault_cutoff.
         Ok (open_at, close_at, challenge, fault_cutoff))))))
       else
         res_bind (add_u u64_bound period_start proving_period) (\<lambda>after_last_deadline.
         Ok (after_last_deadline, after_last_deadline, after_last_deadline, 0)))
      (\<lambda>(open_at, close_at, challenge, fault_cutoff).
    Ok \<lparr> di_block_number = block_number, di_period_start = period_start, di_idx = idx,
         di_open_at = open_at, di_close_at = close_at, di_fault_cutoff = fault_cutoff,
         di_challenge = challenge, di_w_post_period_deadlines = deadlines,
         di_w_post_proving_period = proving_period, di_w_post_challenge_window = window,
         di_w_post_challenge_lookback = lookback, di_fault_declaration_cutoff = cutoff \<rparr>)"

definition period_started :: "deadline_info \<Rightarrow> bool" where
  "period_started d \<longleftrightarrow> di_period_start d \<le> di_block_number d"

definition is_open :: "deadline_info \<Rightarrow> bool" where
  "is_open d \<longleftrightarrow> di_open_at d \<le> di_block_number d \<and> di_block_number d < di_close_at d"

definition has_elapsed :: "deadline_info \<Rightarrow> bool" where
  "has_elapsed d \<longleftrightarrow> di_close_at d \<le> di_block_number d"

text \<open>\<^verbatim>\<open>saturating_less_one\<close>: zero stays zero, as on the natural numbers.\<close>

definition di_last :: "deadline_info \<Rightarrow> block" where
  "di_last d = di_close_at d - 1"

definition fault_cutoff_passed :: "deadline_info \<Rightarrow> bool" where
  "fault_cutoff_passed d \<longleftrightarrow> di_fault_cutoff d \<le> di_block_number d"

definition di_next :: "deadline_info \<Rightarrow> deadline_info gres" where
  "di_next d =
    res_bind (sub_u (di_block_number d) (di_period_start d)) (\<lambda>gap.
    res_bind (div_u gap (di_w_post_proving_period d)) (\<lambda>periods.
    res_bind (add_u u64_bound 1 periods) (\<lambda>delta_periods.
    res_bind (mul_u u64_bound (di_w_post_proving_period d) delta_periods) (\<lambda>delta.
    res_bind (add_u u64_bound (di_period_start d) delta) (\<lambda>period_start.
    deadline_info_new (di_block_number d) period_start (di_idx d) (di_w_post_period_deadlines d)
      (di_w_post_proving_period d) (di_w_post_challenge_window d) (di_w_post_challenge_lookback d)
      (di_fault_declaration_cutoff d))))))"

definition next_not_elapsed :: "deadline_info \<Rightarrow> deadline_info gres" where
  "next_not_elapsed d = (if \<not> has_elapsed d then Ok d else di_next d)"

definition next_not_opened :: "deadline_info \<Rightarrow> deadline_info gres" where
  "next_not_opened d = (if \<not> is_open d \<and> \<not> has_elapsed d then Ok d else di_next d)"

definition deadline_is_mutable ::
  "block \<Rightarrow> nat \<Rightarrow> block \<Rightarrow> nat \<Rightarrow> block \<Rightarrow> block \<Rightarrow> block \<Rightarrow> block \<Rightarrow> bool gres" where
  "deadline_is_mutable proving_period_start deadline_idx current_block deadlines proving_period window lookback cutoff =
    res_bind (deadline_info_new current_block proving_period_start deadline_idx deadlines
      proving_period window lookback cutoff) (\<lambda>d.
    res_bind (next_not_elapsed d) (\<lambda>dl_info.
    res_bind (sub_u (di_open_at dl_info) window) (\<lambda>limit.
    Ok (current_block < limit))))"

end
