(* ===== verification/Deadline.thy ===== *)
theory Deadline
  imports Partition SectorMap DeadlineInfo
begin

text \<open>
  A deadline and the list of deadlines of a proving period
  (\<^verbatim>\<open>pallets/storage-provider/src/deadline.rs\<close>).
\<close>

section \<open>State\<close>

record deadline =
  d_partitions :: "(partition_number, partition) fmap"
  d_expirations_blocks :: "(block, partition_number) fmap"
  d_partitions_posted :: "partition_number fset"
  d_early_terminations :: "partition_number fset"
  d_live_sectors :: nat
  d_total_sectors :: nat

type_synonym 'a deadlineM = "(deadline, general_pallet_error, 'a) stM"

definition deadline_new :: deadline where
  "deadline_new = \<lparr> d_partitions = fmempty, d_expirations_blocks = fmempty, d_partitions_posted = {||},
     d_early_terminations = {||}, d_live_sectors = 0, d_total_sectors = 0 \<rparr>"

text \<open>Running a method on a partition of the deadline, in place.\<close>

definition at_partition :: "partition_number \<Rightarrow> 'a partitionM \<Rightarrow> 'a deadlineM" where
  "at_partition n f d =
    (case fmlookup (d_partitions d) n of
       None \<Rightarrow> (Err DeadlineErrorPartitionNotFound, d)
     | Some p \<Rightarrow> (case f p of (r, p') \<Rightarrow> (r, d\<lparr>d_partitions := fmupd n p' (d_partitions d)\<rparr>)))"

section \<open>Proofs\<close>

definition record_proven_partition :: "sector_table \<Rightarrow> partition_number \<Rightarrow> unit deadlineM" where
  "record_proven_partition all_sectors n =
    bindM (at_partition n (retM ())) (\<lambda>_.
    bindM (ensureM (\<lambda>d. n |\<notin>| d_partitions_posted d) DeadlineErrorPartitionAlreadyProven) (\<lambda>_.
    bindM (zoomM d_partitions_posted (\<lambda>S d. d\<lparr>d_partitions_posted := S\<rparr>)
      (insert_setM MAX_PARTITIONS_PER_DEADLINE DeadlineErrorProofUpdateFailed n)) (\<lambda>_.
    bindM (at_partition n (recover_all_declared_recoveries all_sectors)) (\<lambda>_.
    at_partition n (modifyM activate_unproven)))))"

definition deadline_record_proven :: "sector_table \<Rightarrow> partition_number list \<Rightarrow> unit deadlineM" where
  "deadline_record_proven all_sectors partitions = forM partitions (record_proven_partition all_sectors)"

section \<open>Adding sectors\<close>

text \<open>
  The loop that fills the partitions, starting at index \<open>idx\<close>: it returns the
  partitions and the pairs of expiration block and partition to record. The
  first argument bounds the number of iterations; \<^verbatim>\<open>add_sectors_fuel\<close> below is
  enough whenever partitions can hold at least one sector.
\<close>

fun fill_partitions ::
  "nat \<Rightarrow> nat \<Rightarrow> nat \<Rightarrow> sector_on_chain_info list \<Rightarrow> (partition_number, partition) fmap
    \<Rightarrow> (block \<times> partition_number) list
    \<Rightarrow> (general_pallet_error, (partition_number, partition) fmap \<times> (block \<times> partition_number) list) res" where
  "fill_partitions 0 partition_size idx sectors partitions updates = Panic"
| "fill_partitions (Suc fuel) partition_size idx sectors partitions updates =
    (let part = (case fmlookup partitions idx of None \<Rightarrow> partition_new | Some p \<Rightarrow> p);
         partitions' = fmupd idx part partitions;
         sector_count = fcard (p_sectors part)
     in
     if partition_size \<le> sector_count then
       fill_partitions fuel partition_size (idx + 1) sectors partitions' updates
     else
       let size = min (partition_size - sector_count) (length sectors);
           partition_new_sectors = take size sectors;
           new_sectors = drop size sectors in
       res_bind (on_local (partition_add_sectors partition_new_sectors) part) (\<lambda>(_, part').
       let partitions'' = fmupd idx part' partitions';
           updates' = updates @ map (\<lambda>s. (si_expiration s, idx)) partition_new_sectors in
       if new_sectors = [] then Ok (partitions'', updates')
       else fill_partitions fuel partition_size idx new_sectors partitions'' updates'))"

definition add_sectors_fuel :: "sector_on_chain_info list \<Rightarrow> (partition_number, partition) fmap \<Rightarrow> nat" where
  "add_sectors_fuel sectors partitions = fcard (fmdom partitions) + 2 * length sectors + 2"

definition deadline_add_sectors :: "nat \<Rightarrow> sector_on_chain_info list \<Rightarrow> unit deadlineM" where
  "deadline_add_sectors partition_size sectors =
    (if sectors = [] then retM ()
     else
       bindM (getM (\<lambda>d. add_u u64_bound (d_live_sectors d) (length sectors))) (\<lambda>r.
       bindM (liftM r) (\<lambda>live.
       bindM (modifyM (\<lambda>d. d\<lparr>d_live_sectors := live\<rparr>)) (\<lambda>_.
       bindM (getM (\<lambda>d. add_u u64_bound (d_total_sectors d) (length sectors))) (\<lambda>r.
       bindM (liftM r) (\<lambda>total.
       bindM (modifyM (\<lambda>d. d\<lparr>d_total_sectors := total\<rparr>)) (\<lambda>_.
       bindM (getM d_partitions) (\<lambda>partitions.
       bindM (modifyM (\<lambda>d. d\<lparr>d_partitions := fmempty\<rparr>)) (\<lambda>_.
       bindM (liftM (fill_partitions (add_sectors_fuel sectors partitions) partition_size
         (fcard (fmdom partitions) - 1) sectors partitions [])) (\<lambda>(partitions', updates).
       bindM (liftM (ok_or DeadlineErrorCouldNotAddSectors
         (try_from_map MAX_PARTITIONS_PER_DEADLINE partitions'))) (\<lambda>partitions''.
       bindM (modifyM (\<lambda>d. d\<lparr>d_partitions := partitions''\<rparr>)) (\<lambda>_.
       forM updates (\<lambda>(b, n).
         zoomM d_expirations_blocks (\<lambda>m d. d\<lparr>d_expirations_blocks := m\<rparr>)
           (insert_mapM MAX_PARTITIONS_PER_DEADLINE DeadlineErrorCouldNotAddSectors b n))))))))))))))"

section \<open>Faults, recoveries and terminations\<close>

text \<open>The block under which a partition is found first, and its replacement.\<close>

definition update_expiration_block :: "block \<Rightarrow> partition_number \<Rightarrow> unit deadlineM" where
  "update_expiration_block fault_expiration n =
    bindM (modifyM (\<lambda>d.
      (case find (\<lambda>(b, m). m = n) (sorted_list_of_fmap (d_expirations_blocks d)) of
         Some (b, _) \<Rightarrow> d\<lparr>d_expirations_blocks := fmdrop b (d_expirations_blocks d)\<rparr>
       | None \<Rightarrow> d))) (\<lambda>_.
    zoomM d_expirations_blocks (\<lambda>m d. d\<lparr>d_expirations_blocks := m\<rparr>)
      (insert_mapM MAX_PARTITIONS_PER_DEADLINE DeadlineErrorFailedToUpdateFaultExpiration fault_expiration n))"

definition deadline_record_faults :: "sector_table \<Rightarrow> partition_map \<Rightarrow> block \<Rightarrow> unit deadlineM" where
  "deadline_record_faults sectors partition_sectors fault_expiration =
    forM (sorted_list_of_fmap partition_sectors) (\<lambda>(n, faulty).
      bindM (at_partition n (retM ())) (\<lambda>_.
      bindM (ensureM (\<lambda>_. faulty |\<subseteq>| fmdom sectors) DeadlineErrorSectorsNotFound) (\<lambda>_.
      bindM (at_partition n (record_faults sectors faulty fault_expiration)) (\<lambda>_.
      update_expiration_block fault_expiration n))))"

definition deadline_declare_faults_recovered :: "sector_table \<Rightarrow> partition_map \<Rightarrow> unit deadlineM" where
  "deadline_declare_faults_recovered sectors partition_sectors =
    forM (sorted_list_of_fmap partition_sectors) (\<lambda>(n, recovered).
      bindM (at_partition n (getM p_faults)) (\<lambda>faults.
      bindM (ensureM (\<lambda>_. recovered |\<subseteq>| fmdom sectors) DeadlineErrorSectorsNotFound) (\<lambda>_.
      bindM (ensureM (\<lambda>_. recovered |\<subseteq>| faults) DeadlineErrorSectorsNotFaulty) (\<lambda>_.
      at_partition n (partition_declare_faults_recovered recovered)))))"

definition deadline_terminate_partition ::
  "block \<Rightarrow> sector_on_chain_info list \<Rightarrow> partition_number \<Rightarrow> sector_number fset \<Rightarrow> unit deadlineM" where
  "deadline_terminate_partition block_number sectors n numbers =
    bindM (at_partition n (partition_terminate_sectors block_number sectors numbers)) (\<lambda>removed.
    if es_is_empty removed then retM ()
    else
      bindM (getM (\<lambda>d. try_insert_set MAX_PARTITIONS_PER_DEADLINE n (d_early_terminations d))) (\<lambda>r.
      bindM (liftM (expect r)) (\<lambda>S.
      bindM (modifyM (\<lambda>d. d\<lparr>d_early_terminations := S\<rparr>)) (\<lambda>_.
      bindM (getM (\<lambda>d. sub_u (d_live_sectors d) (es_len removed))) (\<lambda>r.
      bindM (liftM r) (\<lambda>live.
      modifyM (\<lambda>d. d\<lparr>d_live_sectors := live\<rparr>)))))))"

definition deadline_terminate_sectors ::
  "block \<Rightarrow> sector_on_chain_info list \<Rightarrow> partition_map \<Rightarrow> unit deadlineM" where
  "deadline_terminate_sectors block_number sectors partition_sectors =
    forM (sorted_list_of_fmap partition_sectors) (\<lambda>(n, numbers).
      deadline_terminate_partition block_number sectors n numbers)"

text \<open>
  The loop over the partitions with early terminations; the finished ones are
  collected.
\<close>

fun pop_early_partitions ::
  "nat \<Rightarrow> nat \<Rightarrow> partition_number list \<Rightarrow> partition_number list \<Rightarrow> termination_result
    \<Rightarrow> (partition_number list \<times> termination_result) deadlineM" where
  "pop_early_partitions max_partitions max_sectors [] finished result = retM (finished, result)"
| "pop_early_partitions max_partitions max_sectors (n # ns) finished result =
    bindM (getM (\<lambda>d. fmlookup (d_partitions d) n)) (\<lambda>found.
    case found of
      None \<Rightarrow> pop_early_partitions max_partitions max_sectors ns (finished @ [n]) result
    | Some part \<Rightarrow>
        bindM (liftM (sub_u max_sectors (tr_sectors_processed result))) (\<lambda>limit.
        bindM (liftM (on_local (partition_pop_early_terminations limit) part)) (\<lambda>((partition_result, more), part').
        bindM (liftM (tr_add_assign result partition_result)) (\<lambda>result'.
        bindM (getM (\<lambda>d. try_insert_map MAX_PARTITIONS_PER_DEADLINE n part' (d_partitions d))) (\<lambda>r.
        bindM (liftM (expect r)) (\<lambda>partitions.
        bindM (modifyM (\<lambda>d. d\<lparr>d_partitions := partitions\<rparr>)) (\<lambda>_.
        let finished' = (if more then finished else finished @ [n]) in
        if \<not> tr_below_limit max_partitions max_sectors result' then retM (finished', result')
        else pop_early_partitions max_partitions max_sectors ns finished' result')))))))"

definition deadline_pop_early_terminations ::
  "nat \<Rightarrow> nat \<Rightarrow> (termination_result \<times> bool) deadlineM" where
  "deadline_pop_early_terminations max_partitions max_sectors =
    bindM (getM (\<lambda>d. sorted_list_of_fset (d_early_terminations d))) (\<lambda>ns.
    bindM (pop_early_partitions max_partitions max_sectors ns [] tr_new) (\<lambda>(finished, result).
    bindM (modifyM (\<lambda>d. d\<lparr>d_early_terminations :=
      fold (\<lambda>n S. S |-| {|n|}) finished (d_early_terminations d)\<rparr>)) (\<lambda>_.
    bindM (getM (\<lambda>d. d_early_terminations d \<noteq> {||})) (\<lambda>more.
    retM (result, more)))))"

section \<open>Expiry\<close>

definition pop_expired_partitions :: "block \<Rightarrow> partition_number list deadlineM" where
  "pop_expired_partitions until =
    bindM (getM (\<lambda>d. filter (\<lambda>(b, n). b \<le> until) (sorted_list_of_fmap (d_expirations_blocks d)))) (\<lambda>popped.
    bindM (modifyM (\<lambda>d. d\<lparr>d_expirations_blocks := fold fmdrop (map fst popped) (d_expirations_blocks d)\<rparr>)) (\<lambda>_.
    retM (map snd popped)))"

fun pop_expired_loop ::
  "block \<Rightarrow> partition_number list \<Rightarrow> partition_number fset \<Rightarrow> sector_number fset \<Rightarrow> sector_number fset
    \<Rightarrow> (partition_number fset \<times> sector_number fset \<times> sector_number fset) deadlineM" where
  "pop_expired_loop until [] with_early on_time early = retM (with_early, on_time, early)"
| "pop_expired_loop until (n # ns) with_early on_time early =
    bindM (at_partition n (partition_pop_expired_sectors until)) (\<lambda>expiration.
    pop_expired_loop until ns
      (if early_sectors expiration \<noteq> {||} then finsert n with_early else with_early)
      (on_time |\<union>| on_time_sectors expiration) (early |\<union>| early_sectors expiration))"

definition deadline_pop_expired_sectors :: "block \<Rightarrow> expiration_set deadlineM" where
  "deadline_pop_expired_sectors until =
    bindM (pop_expired_partitions until) (\<lambda>expired.
    if expired = [] then retM es_new
    else
      bindM (pop_expired_loop until expired {||} {||} {||}) (\<lambda>(with_early, on_time, early).
      bindM (getM (\<lambda>d. try_from_set MAX_PARTITIONS_PER_DEADLINE (d_early_terminations d |\<union>| with_early))) (\<lambda>r.
      bindM (liftM (expect r)) (\<lambda>S.
      bindM (modifyM (\<lambda>d. d\<lparr>d_early_terminations := S\<rparr>)) (\<lambda>_.
      bindM (liftM (add_u u64_bound (fcard on_time) (fcard early))) (\<lambda>count.
      bindM (getM (\<lambda>d. sub_u (d_live_sectors d) count)) (\<lambda>r.
      bindM (liftM r) (\<lambda>live.
      bindM (modifyM (\<lambda>d. d\<lparr>d_live_sectors := live\<rparr>)) (\<lambda>_.
      bindM (liftM (bounded_set on_time)) (\<lambda>on_time'.
      bindM (liftM (bounded_set early)) (\<lambda>early'.
      retM \<lparr> on_time_sectors = on_time', early_sectors = early' \<rparr>)))))))))))"

section \<open>The deadlines of a proving period\<close>

type_synonym deadlines = "deadline list"
type_synonym 'a deadlinesM = "(deadlines, general_pallet_error, 'a) stM"

definition deadlines_new :: "nat \<Rightarrow> deadlines" where
  "deadlines_new w_post_period_deadlines = replicate (min w_post_period_deadlines 48) deadline_new"

text \<open>Running a method on the deadline that \<^verbatim>\<open>load_deadline_mut\<close> returns.\<close>

definition load_deadline_mut :: "nat \<Rightarrow> 'a deadlineM \<Rightarrow> 'a deadlinesM" where
  "load_deadline_mut idx f ds =
    (if idx < length ds then (case f (ds ! idx) of (r, d') \<Rightarrow> (r, ds[idx := d']))
     else (Err DeadlineErrorDeadlineIndexOutOfRange, ds))"

definition deadlines_record_proven ::
  "nat \<Rightarrow> sector_table \<Rightarrow> partition_number list \<Rightarrow> unit deadlinesM" where
  "deadlines_record_proven idx all_sectors partitions =
    load_deadline_mut idx (deadline_record_proven all_sectors partitions)"

end
