(* ===== verification/Partition_Props.thy ===== *)
theory Partition_Props
  imports Partition
begin

text \<open>
  Correctness of the partition operations: the bookkeeping invariant that ties
  the sector subsets to the expiration queue, its preservation by every
  operation, and what the operations do.
\<close>

section \<open>The effect of each operation\<close>

lemma bounded_set_Ok_iff [ok_iff]: "bounded_set S = Ok T \<longleftrightarrow> fcard S \<le> MAX_SECTORS \<and> T = S"
  by (auto simp: bounded_set_def ok_iff)

lemma queueM_Ok_iff [ok_iff]:
  "queueM m p = (Ok a, p') \<longleftrightarrow>
   (\<exists>q'. m (p_expirations p) = (Ok a, q') \<and> p' = p\<lparr>p_expirations := q'\<rparr>)"
  by (auto simp: queueM_def ok_iff)

lemma record_early_terminations_Ok_iff [ok_iff]:
  "record_early_terminations b S p = (Ok u, p') \<longleftrightarrow>
   (b |\<in>| fmdom (p_early_terminations p) \<or> fcard (fmdom (p_early_terminations p)) < MAX_SECTORS) \<and>
   p' = p\<lparr>p_early_terminations := fmupd b S (p_early_terminations p)\<rparr>"
  by (auto simp: record_early_terminations_def ok_iff)

lemma add_sectors_loop_Ok:
  assumes "forM infos (\<lambda>s.
      bindM (ensureM (\<lambda>p. si_sector_number s |\<notin>| p_sectors p) PartitionErrorDuplicateSectorNumber) (\<lambda>_.
      bindM (zoomM p_sectors (\<lambda>S p. p\<lparr>p_sectors := S\<rparr>)
        (insert_setM MAX_SECTORS PartitionErrorFailedToAddSector (si_sector_number s))) (\<lambda>_.
      zoomM p_unproven (\<lambda>S p. p\<lparr>p_unproven := S\<rparr>)
        (insert_setM MAX_SECTORS PartitionErrorFailedToAddSector (si_sector_number s))))) p = (Ok u, p')"
  shows "distinct (map si_sector_number infos) \<and>
    si_sector_number ` set infos \<inter> fset (p_sectors p) = {} \<and>
    p' = p\<lparr>p_sectors := p_sectors p |\<union>| numbers_of infos, p_unproven := p_unproven p |\<union>| numbers_of infos\<rparr>"
  using assms
proof (induction infos arbitrary: p)
  case (Cons i infos)
  let ?p = "p\<lparr>p_sectors := finsert (si_sector_number i) (p_sectors p),
    p_unproven := finsert (si_sector_number i) (p_unproven p)\<rparr>"
  from Cons.prems have i: "si_sector_number i |\<notin>| p_sectors p"
    and rest: "forM infos (\<lambda>s.
      bindM (ensureM (\<lambda>p. si_sector_number s |\<notin>| p_sectors p) PartitionErrorDuplicateSectorNumber) (\<lambda>_.
      bindM (zoomM p_sectors (\<lambda>S p. p\<lparr>p_sectors := S\<rparr>)
        (insert_setM MAX_SECTORS PartitionErrorFailedToAddSector (si_sector_number s))) (\<lambda>_.
      zoomM p_unproven (\<lambda>S p. p\<lparr>p_unproven := S\<rparr>)
        (insert_setM MAX_SECTORS PartitionErrorFailedToAddSector (si_sector_number s))))) ?p = (Ok u, p')"
    by (auto simp: ok_iff)
  from Cons.IH [OF rest] i show ?case by (auto simp: image_iff)
qed (simp add: ok_iff)

lemma partition_add_sectors_Ok:
  assumes "partition_add_sectors infos p = (Ok u, p')"
  obtains q' where "eq_add_active_sectors infos (p_expirations p) = (Ok (), q')"
    "distinct (map si_sector_number infos)" "si_sector_number ` set infos \<inter> fset (p_sectors p) = {}"
    "p' = p\<lparr>p_expirations := q', p_sectors := p_sectors p |\<union>| numbers_of infos,
      p_unproven := p_unproven p |\<union>| numbers_of infos\<rparr>"
  using assms by (auto simp: partition_add_sectors_def ok_iff dest!: add_sectors_loop_Ok)

lemma add_faults_Ok:
  assumes "add_faults infos fe p = (Ok u, p')"
  obtains q' where "reschedule_as_faults fe infos (p_expirations p) = (Ok (), q')"
    "p' = p\<lparr>p_expirations := q', p_faults := p_faults p |\<union>| numbers_of infos,
      p_unproven := p_unproven p |-| numbers_of infos\<rparr>"
  using assms by (auto simp: add_faults_def ok_iff fold_fminus Let_def)

text \<open>
  The sectors a fault declaration concerns are those of the sector table; a
  retraction only clears the recovery flag.
\<close>

lemma record_faults_Ok:
  assumes tbl: "sector_table_ok tbl" and ok: "record_faults tbl nums fe p = (Ok new, p')"
  obtains infos q' where "new = new_faults nums p"
    and "numbers_of infos = new |\<inter>| fmdom tbl" "set infos \<subseteq> {i. \<exists>n. fmlookup tbl n = Some i}"
    and "if infos = [] then q' = p_expirations p
         else reschedule_as_faults fe infos (p_expirations p) = (Ok (), q')"
    and "p' = p\<lparr>p_expirations := q', p_faults := p_faults p |\<union>| (new |\<inter>| fmdom tbl),
      p_unproven := p_unproven p |-| (new |\<inter>| fmdom tbl),
      p_recoveries := p_recoveries p |-| (nums |\<inter>| fmdom tbl)\<rparr>"
proof -
  define infos where "infos = map snd (filter (\<lambda>(n, i). n |\<in>| new_faults nums p) (sorted_list_of_fmap tbl))"
  define rr where "rr = fset_of_list (filter (\<lambda>n. n |\<in>| p_recoveries p |\<inter>| nums) (map fst (sorted_list_of_fmap tbl)))"
  have rr: "p_recoveries p |-| rr = p_recoveries p |-| (nums |\<inter>| fmdom tbl)"
    by (auto simp: rr_def fset_of_list_elem)
  have infos: "i \<in> set infos \<longleftrightarrow> (\<exists>n. n |\<in>| new_faults nums p \<and> fmlookup tbl n = Some i)" for i
    by (force simp: infos_def)
  have N: "numbers_of infos = new_faults nums p |\<inter>| fmdom tbl"
  proof (rule fset_eqI)
    fix n
    have "n |\<in>| numbers_of infos \<longleftrightarrow> (\<exists>i \<in> set infos. n = si_sector_number i)"
      unfolding fset_of_list_elem by auto
    also have "\<dots> \<longleftrightarrow> n |\<in>| new_faults nums p |\<inter>| fmdom tbl"
      unfolding Bex_def infos finter_iff fmlookup_dom_iff using sector_table_okD [OF tbl] by metis
    finally show "n |\<in>| numbers_of infos \<longleftrightarrow> n |\<in>| new_faults nums p |\<inter>| fmdom tbl" .
  qed
  from ok obtain p1 where
    p1: "(if infos \<noteq> [] then add_faults infos fe else retM ()) p = (Ok (), p1)"
    and p2: "(if rr \<noteq> {||} then remove_recoveries rr else retM ()) p1 = (Ok (), p')"
    and new: "new = new_faults nums p"
    by (auto simp: record_faults_def ok_iff Let_def infos_def rr_def)
  have p': "p' = p1\<lparr>p_recoveries := p_recoveries p1 |-| rr\<rparr>"
    using p2 by (auto simp: remove_recoveries_def ok_iff split: if_splits)
  have s: "set infos \<subseteq> {i. \<exists>n. fmlookup tbl n = Some i}" using infos by blast
  show thesis
  proof (cases "infos = []")
    case True
    then have "p1 = p" using p1 by (simp add: ok_iff)
    moreover have "new |\<inter>| fmdom tbl = {||}" using True N new by simp
    ultimately show thesis
      using that [OF new N [folded new] s, of "p_expirations p"] p' rr True by simp
  next
    case False
    with p1 have "add_faults infos fe p = (Ok (), p1)" by simp
    then obtain q' where "reschedule_as_faults fe infos (p_expirations p) = (Ok (), q')"
      "p1 = p\<lparr>p_expirations := q', p_faults := p_faults p |\<union>| numbers_of infos,
        p_unproven := p_unproven p |-| numbers_of infos\<rparr>" by (rule add_faults_Ok)
    then show thesis using that [OF new N [folded new] s, of q'] p' rr N new False by simp
  qed
qed

lemma declare_faults_recovered_Ok:
  assumes "partition_declare_faults_recovered nums p = (Ok u, p')"
  shows "p' = p\<lparr>p_recoveries := p_recoveries p |\<union>| (nums |\<inter>| p_faults p)\<rparr>"
  using assms by (auto simp: partition_declare_faults_recovered_def ok_iff)

lemma recover_all_declared_recoveries_Ok:
  assumes "recover_all_declared_recoveries tbl p = (Ok u, p')"
  obtains q' where "reschedule_recovered tbl (p_recoveries p) (p_expirations p) = (Ok (), q')"
    "p' = p\<lparr>p_expirations := q', p_faults := p_faults p |-| p_recoveries p, p_recoveries := {||}\<rparr>"
  using assms by (auto simp: recover_all_declared_recoveries_def ok_iff)

lemma partition_terminate_sectors_Ok:
  assumes "partition_terminate_sectors b infos nums p = (Ok D, p')"
  obtains q' where
    "eq_remove_sectors (filter (\<lambda>s. si_sector_number s |\<in>| nums) infos) (p_faults p) (p_expirations p) = (Ok D, q')"
    "nums |\<subseteq>| p_sectors p |-| p_terminated p"
    "p' = p\<lparr>p_expirations := q',
      p_early_terminations := fmupd b (on_time_sectors D |\<union>| early_sectors D) (p_early_terminations p),
      p_faults := p_faults p |-| (on_time_sectors D |\<union>| early_sectors D),
      p_recoveries := p_recoveries p |-| (on_time_sectors D |\<union>| early_sectors D),
      p_terminated := p_terminated p |\<union>| (on_time_sectors D |\<union>| early_sectors D),
      p_unproven := p_unproven p |-| (on_time_sectors D |\<union>| early_sectors D)\<rparr>"
proof -
  have "A |-| (B |\<inter>| A) = A |-| B" for A B :: "sector_number fset" by blast
  then show thesis using assms that
    by (auto simp: partition_terminate_sectors_def live_sectors_def ok_iff)
qed

lemma partition_pop_expired_sectors_Ok:
  assumes "partition_pop_expired_sectors until p = (Ok D, p')"
  obtains q' where "pop_until until (p_expirations p) = (Ok D, q')"
    "p_unproven p = {||}" "p_recoveries p = {||}"
    "p' = p\<lparr>p_expirations := q',
      p_terminated := p_terminated p |\<union>| (on_time_sectors D |\<union>| early_sectors D),
      p_faults := p_faults p |-| (on_time_sectors D |\<union>| early_sectors D),
      p_early_terminations := fmupd until (early_sectors D) (p_early_terminations p)\<rparr>"
  using assms by (auto simp: partition_pop_expired_sectors_def ok_iff Let_def fold_fminus)

section \<open>The invariant\<close>

definition partition_inv :: "partition \<Rightarrow> bool" where
  "partition_inv p \<longleftrightarrow>
    eq_wf (p_expirations p) \<and>
    scheduled (p_expirations p) = fset (p_sectors p |-| p_terminated p) \<and>
    p_terminated p |\<subseteq>| p_sectors p \<and>
    p_faults p |\<subseteq>| p_sectors p |-| p_terminated p \<and>
    p_recoveries p |\<subseteq>| p_faults p \<and>
    p_unproven p |\<subseteq>| p_sectors p |-| p_terminated p |-| p_faults p \<and>
    (\<forall>s b. (s, b, Early) \<in> slots (p_expirations p) \<longrightarrow> s |\<in>| p_faults p)"

lemma partition_new_inv: "partition_inv partition_new"
  by (auto simp: partition_inv_def partition_new_def eq_new_def in_scheduled)

lemma partition_invD:
  assumes "partition_inv p"
  shows "single_valued (slots (p_expirations p))"
    "fst ` slots (p_expirations p) = fset (p_sectors p |-| p_terminated p)"
  using assms by (simp_all add: partition_inv_def eq_wf_def scheduled_def)

lemma partition_invI:
  assumes "single_valued (slots (p_expirations p))"
    "fst ` slots (p_expirations p) = fset (p_sectors p |-| p_terminated p)"
    "p_terminated p |\<subseteq>| p_sectors p" "p_faults p |\<subseteq>| p_sectors p |-| p_terminated p"
    "p_recoveries p |\<subseteq>| p_faults p" "p_unproven p |\<subseteq>| p_sectors p |-| p_terminated p |-| p_faults p"
    "\<And>s b. (s, b, Early) \<in> slots (p_expirations p) \<Longrightarrow> s |\<in>| p_faults p"
  shows "partition_inv p"
  using assms by (simp add: partition_inv_def eq_wf_def scheduled_def)

lemma add_sectors_inv:
  assumes inv: "partition_inv p" and "partition_add_sectors infos p = (Ok u, p')"
  shows "partition_inv p'"
proof -
  let ?N = "si_sector_number ` set infos"
  obtain q' where q': "eq_add_active_sectors infos (p_expirations p) = (Ok (), q')"
    and d: "distinct (map si_sector_number infos)" and new: "?N \<inter> fset (p_sectors p) = {}"
    and p': "p' = p\<lparr>p_expirations := q', p_sectors := p_sectors p |\<union>| numbers_of infos,
      p_unproven := p_unproven p |\<union>| numbers_of infos\<rparr>"
    using assms(2) by (rule partition_add_sectors_Ok)
  define M where "M = numbers_of infos"
  have N: "fset M = ?N" by (simp add: M_def fset_of_list.rep_eq)
  have M: "s |\<in>| M \<Longrightarrow> s |\<notin>| p_sectors p" for s using new N by blast
  note p' = p' [folded M_def]
  have disj: "?N \<inter> fst ` slots (p_expirations p) = {}" using partition_invD(2) [OF inv] new by auto
  note keeps = eq.add_keeps [OF partition_invD(1) [OF inv] q' d disj]
  show ?thesis
  proof (rule partition_invI)
    show "single_valued (slots (p_expirations p'))" using keeps(1) p' by simp
    show "fst ` slots (p_expirations p') = fset (p_sectors p' |-| p_terminated p')"
      using keeps(2) partition_invD(2) [OF inv] M inv p' N by (auto simp: partition_inv_def)
    show "(s, b, Early) \<in> slots (p_expirations p') \<Longrightarrow> s |\<in>| p_faults p'" for s b
      using eq.add_law [OF q'] inv p' by (auto simp: partition_inv_def)
  qed (use inv p' in \<open>auto simp: partition_inv_def dest: M\<close>)
qed

lemma record_faults_inv:
  assumes inv: "partition_inv p" and tbl: "sector_table_ok tbl"
    and "record_faults tbl nums fe p = (Ok new, p')"
  shows "partition_inv p'"
proof -
  obtain infos q' where n: "new = new_faults nums p" and N: "numbers_of infos = new |\<inter>| fmdom tbl"
    and q': "if infos = [] then q' = p_expirations p
      else reschedule_as_faults fe infos (p_expirations p) = (Ok (), q')"
    and p': "p' = p\<lparr>p_expirations := q', p_faults := p_faults p |\<union>| (new |\<inter>| fmdom tbl),
      p_unproven := p_unproven p |-| (new |\<inter>| fmdom tbl),
      p_recoveries := p_recoveries p |-| (nums |\<inter>| fmdom tbl)\<rparr>"
    using assms(3) by (rule record_faults_Ok [OF tbl])
  let ?N = "si_sector_number ` set infos"
  define M where "M = new |\<inter>| fmdom tbl"
  have NN: "fset M = ?N" unfolding M_def N [symmetric] by (simp add: fset_of_list.rep_eq)
  note p' = p' [folded M_def]
  note sv = partition_invD(1) [OF inv]
  have k: "single_valued (slots q') \<and> fst ` slots q' = fst ` slots (p_expirations p) \<and>
      ?N \<subseteq> fst ` slots (p_expirations p) \<and>
      (\<forall>s b. (s, b, Early) \<in> slots q' \<longrightarrow> (s, b, Early) \<in> slots (p_expirations p) \<or> s \<in> ?N)"
  proof (cases "infos = []")
    case False
    then have f: "reschedule_as_faults fe infos (p_expirations p) = (Ok (), q')" using q' by simp
    show ?thesis using eq.fault_keeps [OF sv f] eq.fault_law [OF sv f] by (auto simp: fault_slots_def)
  qed (use q' sv in simp)
  have "fset M \<subseteq> fset (p_sectors p |-| p_terminated p)"
    unfolding partition_invD(2) [OF inv, symmetric] NN using k by simp
  then have M: "s |\<in>| M \<Longrightarrow> s |\<in>| p_sectors p |-| p_terminated p" for s by blast
  show ?thesis
  proof (rule partition_invI)
    show "p_faults p' |\<subseteq>| p_sectors p' |-| p_terminated p'"
      using inv p' by (auto simp: partition_inv_def dest: M)
    show "s |\<in>| p_faults p'" if "(s, b, Early) \<in> slots (p_expirations p')" for s b
    proof -
      have "(s, b, Early) \<in> slots (p_expirations p) \<or> s |\<in>| M" using that k NN p' by simp
      then show ?thesis using inv p' by (auto simp: partition_inv_def)
    qed
    show "p_recoveries p' |\<subseteq>| p_faults p'"
      using inv p' by (auto simp: partition_inv_def)
  qed (use k partition_invD(2) [OF inv] inv p' in \<open>auto simp: partition_inv_def\<close>)
qed

lemma declare_faults_recovered_inv:
  assumes "partition_inv p" "partition_declare_faults_recovered nums p = (Ok u, p')"
  shows "partition_inv p'"
  using assms(1) declare_faults_recovered_Ok [OF assms(2)] by (auto simp: partition_inv_def)

lemma recover_all_inv:
  assumes inv: "partition_inv p" and tbl: "sector_table_ok tbl"
    and "recover_all_declared_recoveries tbl p = (Ok u, p')"
  shows "partition_inv p'"
proof -
  obtain q' where q': "reschedule_recovered tbl (p_recoveries p) (p_expirations p) = (Ok (), q')"
    and p': "p' = p\<lparr>p_expirations := q', p_faults := p_faults p |-| p_recoveries p, p_recoveries := {||}\<rparr>"
    using assms(3) by (rule recover_all_declared_recoveries_Ok)
  note sv = partition_invD(1) [OF inv]
  note keeps = eq.recover_keeps [OF sv tbl q'] and law = eq.recover_law [OF sv tbl q']
  have early: "s |\<in>| p_faults p |-| p_recoveries p" if "(s, b, Early) \<in> slots q'" for s b
    using that law inv by (auto simp: recovered_slots_def partition_inv_def)
  show ?thesis
    by (rule partition_invI) (use keeps partition_invD(2) [OF inv] inv p' early in \<open>auto simp: partition_inv_def\<close>)
qed

lemma terminate_sectors_inv:
  assumes inv: "partition_inv p" and "partition_terminate_sectors b infos nums p = (Ok D, p')"
  shows "partition_inv p'"
proof -
  let ?D = "on_time_sectors D |\<union>| early_sectors D"
  obtain q' where q': "eq_remove_sectors (filter (\<lambda>s. si_sector_number s |\<in>| nums) infos)
      (p_faults p) (p_expirations p) = (Ok D, q')"
    and p': "p' = p\<lparr>p_expirations := q', p_early_terminations := fmupd b ?D (p_early_terminations p),
      p_faults := p_faults p |-| ?D, p_recoveries := p_recoveries p |-| ?D,
      p_terminated := p_terminated p |\<union>| ?D, p_unproven := p_unproven p |-| ?D\<rparr>"
    using assms(2) by (rule partition_terminate_sectors_Ok)
  note sv = partition_invD(1) [OF inv]
  note takes = eq.remove_takes [OF sv q'] and law = eq.remove_law [OF sv q']
  have D: "fset ?D \<subseteq> fset (p_sectors p |-| p_terminated p)"
    using law takes(3) partition_invD(2) [OF inv] by simp
  have early: "s |\<in>| p_faults p |-| ?D" if "(s, b, Early) \<in> slots q'" for s b
    using that law inv takes(3) by (auto simp: partition_inv_def)
  show ?thesis
  proof (rule partition_invI)
    show "fst ` slots (p_expirations p') = fset (p_sectors p' |-| p_terminated p')"
      using takes(2,3) partition_invD(2) [OF inv] p' by auto
    show "p_faults p' |\<subseteq>| p_sectors p' |-| p_terminated p'"
      "p_unproven p' |\<subseteq>| p_sectors p' |-| p_terminated p' |-| p_faults p'"
      "p_recoveries p' |\<subseteq>| p_faults p'"
      using inv p' by (auto simp: partition_inv_def)
    show "p_terminated p' |\<subseteq>| p_sectors p'" using inv D p' by (auto simp: partition_inv_def)
  qed (use takes(1) early p' in auto)
qed

lemma pop_expired_sectors_inv:
  assumes inv: "partition_inv p" and "partition_pop_expired_sectors until p = (Ok D, p')"
  shows "partition_inv p'"
proof -
  let ?D = "on_time_sectors D |\<union>| early_sectors D"
  obtain q' where q': "pop_until until (p_expirations p) = (Ok D, q')"
    and e: "p_unproven p = {||}" "p_recoveries p = {||}"
    and p': "p' = p\<lparr>p_expirations := q', p_terminated := p_terminated p |\<union>| ?D,
      p_faults := p_faults p |-| ?D,
      p_early_terminations := fmupd until (early_sectors D) (p_early_terminations p)\<rparr>"
    using assms(2) by (rule partition_pop_expired_sectors_Ok)
  note sv = partition_invD(1) [OF inv]
  note takes = eq.pop_takes [OF sv q']
  have early: "s |\<in>| p_faults p |-| ?D" if a: "(s, b, Early) \<in> slots q'" for s b
  proof -
    have "(s, b, Early) \<in> slots (p_expirations p)" using eq.pop_law [OF q'] a by simp
    moreover have "s \<notin> fset ?D" using takes(2) a by (force simp: in_fst_slots)
    ultimately show ?thesis using inv by (auto simp: partition_inv_def)
  qed
  show ?thesis
  proof (rule partition_invI)
    show "fst ` slots (p_expirations p') = fset (p_sectors p' |-| p_terminated p')"
      using takes(2) partition_invD(2) [OF inv] p' by auto
    show "p_terminated p' |\<subseteq>| p_sectors p'"
      using inv takes(3) partition_invD(2) [OF inv] p' by (auto simp: partition_inv_def)
    show "p_faults p' |\<subseteq>| p_sectors p' |-| p_terminated p'"
      using inv p' by (auto simp: partition_inv_def)
  qed (use takes(1) early e p' in auto)
qed

lemma activate_unproven_inv: "partition_inv p \<Longrightarrow> partition_inv (activate_unproven p)"
  by (simp add: partition_inv_def activate_unproven_def)

lemma pop_early_terminations_Ok:
  assumes "partition_pop_early_terminations n p = (Ok r, p')"
  shows "\<exists>m. p' = p\<lparr>p_early_terminations := m\<rparr>"
  using assms by (auto simp: partition_pop_early_terminations_def ok_iff Let_def)

section \<open>Reachable partitions\<close>

text \<open>
  A partition changes only by successful calls of its operations; the sector
  tables they receive file each record under its own number.
\<close>

inductive partition_step :: "partition \<Rightarrow> partition \<Rightarrow> bool" where
  step_add: "partition_add_sectors infos p = (Ok u, p') \<Longrightarrow> partition_step p p'"
| step_faults: "sector_table_ok tbl \<Longrightarrow> record_faults tbl nums fe p = (Ok new, p') \<Longrightarrow> partition_step p p'"
| step_declare: "partition_declare_faults_recovered nums p = (Ok u, p') \<Longrightarrow> partition_step p p'"
| step_recover: "sector_table_ok tbl \<Longrightarrow> recover_all_declared_recoveries tbl p = (Ok u, p') \<Longrightarrow> partition_step p p'"
| step_terminate: "partition_terminate_sectors b infos nums p = (Ok D, p') \<Longrightarrow> partition_step p p'"
| step_expire: "partition_pop_expired_sectors until p = (Ok D, p') \<Longrightarrow> partition_step p p'"
| step_pop_early: "partition_pop_early_terminations n p = (Ok r, p') \<Longrightarrow> partition_step p p'"
| step_activate: "partition_step p (activate_unproven p)"

lemma partition_step_inv: "partition_step p p' \<Longrightarrow> partition_inv p \<Longrightarrow> partition_inv p'"
proof (induction rule: partition_step.induct)
  case (step_pop_early n p r p')
  then obtain m where "p' = p\<lparr>p_early_terminations := m\<rparr>" using pop_early_terminations_Ok by blast
  with step_pop_early.prems show ?case by (simp add: partition_inv_def)
qed (blast intro: add_sectors_inv record_faults_inv declare_faults_recovered_inv recover_all_inv
      terminate_sectors_inv pop_expired_sectors_inv activate_unproven_inv)+

section \<open>Early terminations\<close>

text \<open>The block and sector pairs recorded in a map of early terminations.\<close>

definition et_pairs :: "(block, sector_number fset) fmap \<Rightarrow> (block \<times> sector_number) set" where
  "et_pairs m = {(b, s). \<exists>S. fmlookup m b = Some S \<and> s |\<in>| S}"

definition pairs_of :: "(block \<times> sector_number fset) list \<Rightarrow> (block \<times> sector_number) set" where
  "pairs_of L = {(b, s). \<exists>S. (b, S) \<in> set L \<and> s |\<in>| S}"

lemma in_et_pairs: "(b, s) \<in> et_pairs m \<longleftrightarrow> (\<exists>S. fmlookup m b = Some S \<and> s |\<in>| S)"
  by (simp add: et_pairs_def)

lemma in_pairs_of: "(b, s) \<in> pairs_of L \<longleftrightarrow> (\<exists>S. (b, S) \<in> set L \<and> s |\<in>| S)"
  by (simp add: pairs_of_def)

lemma finite_et_pairs [simp]: "finite (et_pairs m)"
proof -
  have "et_pairs m = (SIGMA b:fset (fmdom m). fset (the (fmlookup m b)))"
    by (auto simp: et_pairs_def fmdomI fmlookup_dom_iff)
  then show ?thesis by simp
qed

lemma et_pairs_fmupd:
  assumes "b |\<notin>| fmdom m"
  shows "et_pairs (fmupd b S m) = et_pairs m \<union> {b} \<times> fset S"
    and "card (et_pairs m \<union> {b} \<times> fset S) = card (et_pairs m) + fcard S"
proof -
  show "et_pairs (fmupd b S m) = et_pairs m \<union> {b} \<times> fset S"
    using assms by (auto simp: et_pairs_def fmdom_notD split: if_splits)
  have "et_pairs m \<inter> {b} \<times> fset S = {}" using assms by (auto simp: et_pairs_def fmdomI)
  then show "card (et_pairs m \<union> {b} \<times> fset S) = card (et_pairs m) + fcard S"
    by (simp add: card_Un_disjoint fcard.rep_eq card_cartesian_product)
qed

lemma fset_of_take_sorted:
  assumes "n \<le> fcard S"
  shows "fset_of_list (take n (sorted_list_of_fset S)) |\<subseteq>| S"
    and "fcard (fset_of_list (take n (sorted_list_of_fset S))) = n"
proof -
  show "fset_of_list (take n (sorted_list_of_fset S)) |\<subseteq>| S"
    using set_take_subset [of n "sorted_list_of_fset S"] by (auto simp: fset_of_list_elem)
  have "fcard (fset_of_list (take n (sorted_list_of_fset S))) = length (take n (sorted_list_of_fset S))"
    by (simp add: fcard.rep_eq fset_of_list.rep_eq distinct_card)
  then show "fcard (fset_of_list (take n (sorted_list_of_fset S))) = n" using assms by simp
qed

text \<open>What the loop has taken when it stops with \<open>P\<close> processed and \<open>R\<close> remaining.\<close>

definition popped_pairs ::
  "block set \<Rightarrow> (sector_number fset \<times> block) option \<Rightarrow> (block \<times> sector_number) set
    \<Rightarrow> (block \<times> sector_number) set" where
  "popped_pairs P R A = {(b, s). (b, s) \<in> A \<and> (b \<in> P \<or> (\<exists>T. R = Some (T, b) \<and> s |\<notin>| T))}"

definition loop_done ::
  "nat \<Rightarrow> (block \<times> sector_number fset) list \<Rightarrow> termination_result
    \<Rightarrow> block set \<Rightarrow> (sector_number fset \<times> block) option \<Rightarrow> termination_result \<Rightarrow> bool" where
  "loop_done n L r P R r' \<longleftrightarrow>
    et_pairs (tr_sectors r') = et_pairs (tr_sectors r) \<union> popped_pairs P R (pairs_of L) \<and>
    tr_sectors_processed r' + card (et_pairs (tr_sectors r)) =
      tr_sectors_processed r + card (et_pairs (tr_sectors r')) \<and>
    tr_sectors_processed r' \<le> n \<and> tr_partitions_processed r' = tr_partitions_processed r \<and>
    P \<subseteq> fst ` set L \<and>
    (\<forall>T b. R = Some (T, b) \<longrightarrow> b \<notin> P \<and> (\<exists>S. (b, S) \<in> set L \<and> T |\<subseteq>| S)) \<and>
    (tr_sectors_processed r' < n \<longrightarrow> P = fst ` set L \<and> R = None)"

lemma loop_doneD:
  assumes "loop_done n L r P R r'"
  shows "et_pairs (tr_sectors r') = et_pairs (tr_sectors r) \<union> popped_pairs P R (pairs_of L)"
    and "tr_sectors_processed r' + card (et_pairs (tr_sectors r)) =
      tr_sectors_processed r + card (et_pairs (tr_sectors r'))"
    and "tr_sectors_processed r' \<le> n"
    and "tr_sectors_processed r' < n \<Longrightarrow> P = fst ` set L"
  using assms unfolding loop_done_def by blast+

lemma popped_pairs_Cons_whole:
  assumes "b \<notin> fst ` set L" "P \<subseteq> fst ` set L" "\<forall>T b'. R = Some (T, b') \<longrightarrow> b' \<in> fst ` set L"
  shows "popped_pairs (insert b P) R (pairs_of ((b, S) # L)) =
    {b} \<times> fset S \<union> popped_pairs P R (pairs_of L)"
proof -
  have "(b, s) \<in> pairs_of L \<longleftrightarrow> False" for s using assms(1) by (force simp: pairs_of_def)
  then show ?thesis using assms(3) by (auto simp: popped_pairs_def in_pairs_of assms(1))
qed

lemma loop_done_Cons_whole:
  assumes d: "loop_done n L (r\<lparr>tr_sectors_processed := tr_sectors_processed r + fcard S,
      tr_sectors := fmupd b S (tr_sectors r)\<rparr>) P R r'"
    and b: "b |\<notin>| fmdom (tr_sectors r)" "b \<notin> fst ` set L"
  shows "loop_done n ((b, S) # L) r (insert b P) R r'"
proof -
  have P: "P \<subseteq> fst ` set L" using d by (simp add: loop_done_def)
  have R: "b' \<notin> P \<and> (\<exists>S. (b', S) \<in> set L \<and> T |\<subseteq>| S)" if "R = Some (T, b')" for T b'
    using d that unfolding loop_done_def by blast
  then have R': "\<forall>T b'. R = Some (T, b') \<longrightarrow> b' \<in> fst ` set L" by (metis fst_conv image_eqI)
  note upd = et_pairs_fmupd [OF b(1)]
  show ?thesis unfolding loop_done_def
  proof (intro conjI allI impI)
    show "et_pairs (tr_sectors r') =
        et_pairs (tr_sectors r) \<union> popped_pairs (insert b P) R (pairs_of ((b, S) # L))"
      using d unfolding popped_pairs_Cons_whole [OF b(2) P R'] by (simp add: loop_done_def upd Un_assoc)
    show "R = Some (T, b') \<Longrightarrow> b' \<notin> insert b P" for T b' using R R' b(2) by blast
    show "R = Some (T, b') \<Longrightarrow> \<exists>S'. (b', S') \<in> set ((b, S) # L) \<and> T |\<subseteq>| S'" for T b' using R by force
  qed (use d upd P in \<open>simp_all add: loop_done_def subset_insertI2\<close>)
qed

lemma pop_early_loop_result:
  assumes "distinct (map fst L)" "fst ` set L \<inter> fset (fmdom (tr_sectors r)) = {}"
    and "tr_sectors_processed r \<le> n" "n < u64_bound"
  shows "\<exists>P R r'. pop_early_loop n L (processed, None, r) = Ok (processed @ P, R, r') \<and>
    loop_done n L r (set P) R r'"
  using assms(1-3)
proof (induction L arbitrary: processed r)
  case Nil
  then show ?case by (intro exI [of _ "[]"]) (simp add: loop_done_def popped_pairs_def pairs_of_def)
next
  case (Cons p L)
  obtain b S where p: "p = (b, S)" by (cases p)
  define c where "c = tr_sectors_processed r"
  have c: "c \<le> n" "n < u64_bound" and b: "b |\<notin>| fmdom (tr_sectors r)" "b \<notin> fst ` set L"
    using Cons.prems assms(4) p by (auto simp: c_def)
  note upd = et_pairs_fmupd [OF b(1)]
  show ?case
  proof (cases "n - c < fcard S")
    case True
    let ?t = "fset_of_list (take (n - c) (sorted_list_of_fset S))"
    let ?r = "r\<lparr>tr_sectors_processed := n, tr_sectors := fmupd b ?t (tr_sectors r)\<rparr>"
    let ?R = "Some (ffilter (\<lambda>m. m |\<notin>| ?t) S, b)"
    have t: "?t |\<subseteq>| S" "fcard ?t = n - c" using fset_of_take_sorted [of "n - c" S] True by auto
    have none: "(b, s) \<notin> pairs_of L" for s using b(2) by (force simp: pairs_of_def)
    have "popped_pairs {} ?R (pairs_of (p # L)) = {b} \<times> fset ?t"
      using t(1) none by (auto simp: popped_pairs_def in_pairs_of p)
    then have "loop_done n (p # L) r {} ?R ?r"
      using c t by (auto simp: loop_done_def upd p c_def)
    moreover have "pop_early_loop n (p # L) (processed, None, r) = Ok (processed @ [], ?R, ?r)"
      using True c by (simp add: p c_def [symmetric] sub_u_def add_u_def Let_def)
    ultimately show ?thesis by (metis list.set(1))
  next
    case False
    let ?r = "r\<lparr>tr_sectors_processed := c + fcard S, tr_sectors := fmupd b S (tr_sectors r)\<rparr>"
    have le: "c + fcard S \<le> n" using False c by simp
    note whole = loop_done_Cons_whole [OF _ b, of n S, folded c_def p]
    show ?thesis
    proof (cases "n \<le> c + fcard S")
      case True
      then have "loop_done n L ?r {} None ?r" using le by (simp add: loop_done_def popped_pairs_def)
      then have "loop_done n (p # L) r (set [b]) None ?r" using whole by simp
      moreover have "pop_early_loop n (p # L) (processed, None, r) = Ok (processed @ [b], None, ?r)"
        using True False c le by (simp add: p c_def [symmetric] sub_u_def add_u_def Let_def)
      ultimately show ?thesis by blast
    next
      case less: False
      obtain P R r' where "pop_early_loop n L (processed @ [b], None, ?r) = Ok ((processed @ [b]) @ P, R, r')"
        and "loop_done n L ?r (set P) R r'"
        using Cons.IH [of ?r "processed @ [b]"] Cons.prems le p by auto
      then have "pop_early_loop n (p # L) (processed, None, r) = Ok (processed @ (b # P), R, r')"
        "loop_done n (p # L) r (set (b # P)) R r'"
        using less False c le whole by (simp_all add: p c_def [symmetric] sub_u_def add_u_def Let_def)
      then show ?thesis by blast
    qed
  qed
qed

lemma et_pairs_put_remaining:
  assumes d: "loop_done n (sorted_list_of_fmap m) r P R r'" and P: "P = set Ps"
    and bound: "fcard (fmdom m) \<le> MAX_SECTORS" "\<forall>b S. fmlookup m b = Some S \<longrightarrow> fcard S \<le> MAX_SECTORS"
  obtains m1 where "put_remaining R m = Ok m1" "fmdom m1 = fmdom m"
    "et_pairs (fmfilter (\<lambda>b. b \<notin> set Ps) m1) = et_pairs m - popped_pairs P R (et_pairs m)"
proof (cases R)
  case None
  then show thesis using P
    by (intro that [of m]) (auto simp: put_remaining_def et_pairs_def popped_pairs_def split: if_splits)
next
  case (Some Tb)
  then obtain T b where R: "R = Some (T, b)" by (cases Tb) auto
  with d obtain S where S: "b \<notin> P" "fmlookup m b = Some S" "T |\<subseteq>| S" by (auto simp: loop_done_def)
  have "fcard T \<le> MAX_SECTORS" using fcard_mono [OF S(3)] bound(2) S(2) by force
  then have "put_remaining R m = Ok (fmupd b T m)"
    using S(2) by (simp add: put_remaining_def R ok_iff fmdomI)
  moreover have "fmdom (fmupd b T m) = fmdom m" using S(2) by (auto simp: fmdomI)
  moreover have "et_pairs (fmfilter (\<lambda>b. b \<notin> set Ps) (fmupd b T m)) =
      et_pairs m - popped_pairs P R (et_pairs m)"
    using S P by (auto simp: et_pairs_def popped_pairs_def R split: if_splits)
  ultimately show thesis by (rule that)
qed

lemma pop_early_terminations_result:
  fixes p defines "m \<equiv> p_early_terminations p"
  assumes "n < u64_bound"
    and bound: "fcard (fmdom m) \<le> MAX_SECTORS" "\<forall>b S. fmlookup m b = Some S \<longrightarrow> fcard S \<le> MAX_SECTORS"
  obtains r m' where
    "partition_pop_early_terminations n p = (Ok (r, fmdom m' \<noteq> {||}), p\<lparr>p_early_terminations := m'\<rparr>)"
    "et_pairs m = et_pairs (tr_sectors r) \<union> et_pairs m'" "et_pairs (tr_sectors r) \<inter> et_pairs m' = {}"
    "tr_sectors_processed r = card (et_pairs (tr_sectors r))" "tr_sectors_processed r \<le> n"
    "tr_sectors_processed r < n \<Longrightarrow> fmdom m' = {||}"
proof -
  let ?r = "tr_new\<lparr>tr_partitions_processed := 1\<rparr>"
  obtain P R r where loop: "pop_early_loop n (sorted_list_of_fmap m) ([], None, ?r) = Ok (P, R, r)"
    and d: "loop_done n (sorted_list_of_fmap m) ?r (set P) R r"
    using pop_early_loop_result [of "sorted_list_of_fmap m" ?r n "[]"] assms(2) by (auto simp: tr_new_def)
  obtain m1 where m1: "put_remaining R m = Ok m1" "fmdom m1 = fmdom m"
    "et_pairs (fmfilter (\<lambda>b. b \<notin> set P) m1) = et_pairs m - popped_pairs (set P) R (et_pairs m)"
    by (rule et_pairs_put_remaining [OF d refl bound])
  define m' where "m' = fmfilter (\<lambda>b. b \<notin> set P) m1"
  have "fmdom m' |\<subseteq>| fmdom m" by (auto simp: m'_def m1(2))
  from fcard_mono [OF this] have "fcard (fmdom m') \<le> MAX_SECTORS" using bound(1) by simp
  then have run: "partition_pop_early_terminations n p = (Ok (r, fmdom m' \<noteq> {||}), p\<lparr>p_early_terminations := m'\<rparr>)"
    using loop m1(1) unfolding m'_def
    by (simp add: partition_pop_early_terminations_def monad_defs m_def [symmetric] Let_def try_from_map_def)
  have e: "et_pairs (tr_sectors r) = popped_pairs (set P) R (et_pairs m)"
  proof -
    have "pairs_of (sorted_list_of_fmap m) = et_pairs m" by (auto simp: pairs_of_def et_pairs_def)
    moreover have "et_pairs (tr_sectors ?r) = {}" by (simp add: tr_new_def et_pairs_def)
    ultimately show ?thesis using loop_doneD(1) [OF d] by (metis Un_empty_left)
  qed
  have "popped_pairs (set P) R (et_pairs m) \<subseteq> et_pairs m" by (auto simp: popped_pairs_def)
  moreover have "tr_sectors_processed r = card (et_pairs (tr_sectors r)) \<and> tr_sectors_processed r \<le> n"
    using loop_doneD(2,3) [OF d] by (simp add: tr_new_def et_pairs_def)
  moreover have "fmdom m' = {||}" if "tr_sectors_processed r < n"
  proof -
    have "set P = fst ` set (sorted_list_of_fmap m)" by (rule loop_doneD(4) [OF d that])
    then have "set P = fset (fmdom m)" by (metis list.set_map map_fst_sorted_list_of_fmap sorted_list_of_fset_simps(1))
    then show ?thesis by (auto simp: m'_def m1(2))
  qed
  ultimately show thesis using that [OF run] e m1(3) unfolding m'_def by blast
qed

section \<open>Declaring faults succeeds\<close>

lemma record_faults_total:
  assumes inv: "partition_inv p" and tbl: "sector_table_ok tbl"
    and live: "nums |\<subseteq>| p_sectors p |-| p_terminated p"
    and filed: "\<And>n. n |\<in>| nums \<Longrightarrow> n |\<notin>| p_faults p \<Longrightarrow>
      \<exists>i. fmlookup tbl n = Some i \<and> (n, si_expiration i, OnTime) \<in> slots (p_expirations p)"
    and room: "fcard (fmdom (p_expirations p)) < MAX_SECTORS" "fcard (p_sectors p) \<le> MAX_SECTORS"
  shows "\<exists>p'. record_faults tbl nums fe p = (Ok (new_faults nums p), p')"
proof -
  define infos where "infos = map snd (filter (\<lambda>(n, i). n |\<in>| new_faults nums p) (sorted_list_of_fmap tbl))"
  have i: "(si_sector_number i, si_expiration i, OnTime) \<in> slots (p_expirations p) \<and>
      si_sector_number i |\<in>| p_sectors p" if "i \<in> set infos" for i
  proof -
    from that obtain n where n: "n |\<in>| nums" "n |\<notin>| p_faults p" "fmlookup tbl n = Some i"
      by (auto simp: infos_def new_faults_def)
    have "si_sector_number i = n" using sector_table_okD [OF tbl n(3)] .
    then show ?thesis using filed [OF n(1,2)] n live by auto
  qed
  have "eq_wf (p_expirations p)" "scheduled (p_expirations p) \<subseteq> fset (p_sectors p)"
    using inv by (auto simp: partition_inv_def)
  then obtain q' where q': "reschedule_as_faults fe infos (p_expirations p) = (Ok (), q')"
    using reschedule_as_faults_total [OF _ room(1) _ room(2), of infos fe] i by blast
  have "p_faults p |\<union>| numbers_of infos |\<subseteq>| p_sectors p"
    using i inv by (auto simp: fset_of_list_elem partition_inv_def)
  from fcard_mono [OF this] have f: "fcard (p_faults p |\<union>| numbers_of infos) \<le> MAX_SECTORS"
    using room(2) by simp
  have r: "fcard (p_recoveries p |-| T) \<le> MAX_SECTORS" for T
  proof -
    have "p_recoveries p |-| T |\<subseteq>| p_sectors p" using inv by (auto simp: partition_inv_def)
    from fcard_mono [OF this] show ?thesis using room(2) by simp
  qed
  define rr where "rr = fset_of_list (filter (\<lambda>n. n |\<in>| p_recoveries p |\<inter>| nums) (map fst (sorted_list_of_fmap tbl)))"
  have "\<exists>p1. add_faults infos fe p = (Ok (), p1) \<and> p_recoveries p1 = p_recoveries p"
    using q' f by (simp add: add_faults_def queueM_def monad_defs try_from_set_def Let_def)
  then obtain p1 where p1: "(if infos \<noteq> [] then add_faults infos fe else retM ()) p = (Ok (), p1)"
    "p_recoveries p1 = p_recoveries p" by (cases "infos = []") (auto simp: retM_def)
  have "\<exists>p2. (if rr \<noteq> {||} then remove_recoveries rr else retM ()) p1 = (Ok (), p2)"
    using r p1(2) by (simp add: remove_recoveries_def monad_defs try_from_set_def)
  then obtain p2 where p2: "(if rr \<noteq> {||} then remove_recoveries rr else retM ()) p1 = (Ok (), p2)" ..
  have "record_faults tbl nums fe p =
      bindM (if infos \<noteq> [] then add_faults infos fe else retM ()) (\<lambda>_.
      bindM (if rr \<noteq> {||} then remove_recoveries rr else retM ()) (\<lambda>_.
      retM (new_faults nums p))) p"
    unfolding record_faults_def Let_def infos_def rr_def bindM_def getM_def by simp
  also have "\<dots> = (Ok (new_faults nums p), p2)" using p1(1) p2 by (simp add: bindM_def retM_def)
  finally show ?thesis by blast
qed

end
