(* ===== verification/Deadline_Props.thy ===== *)
theory Deadline_Props
  imports Deadline Partition_Props
begin

text \<open>
  The invariant of a deadline: consistent partitions with disjoint sectors,
  exact counts of live and of all sectors, and partitions filled in order. Every
  operation preserves it; in particular no count ever underflows.
\<close>

section \<open>Counting over the partitions\<close>

type_synonym partitions = "(partition_number, partition) fmap"

definition live_set :: "partition \<Rightarrow> sector_number fset" where
  "live_set p = p_sectors p |-| p_terminated p"

abbreviation live_count :: "partitions \<Rightarrow> nat" where
  "live_count \<equiv> count_over (\<lambda>p. fcard (live_set p))"

abbreviation total_count :: "partitions \<Rightarrow> nat" where
  "total_count \<equiv> count_over (\<lambda>p. fcard (p_sectors p))"

section \<open>Well-formed partitions\<close>

definition parts_ok :: "partitions \<Rightarrow> bool" where
  "parts_ok m \<longleftrightarrow>
    (\<forall>n p. fmlookup m n = Some p \<longrightarrow> partition_inv p) \<and>
    (\<forall>n k p q. fmlookup m n = Some p \<longrightarrow> fmlookup m k = Some q \<longrightarrow> n \<noteq> k \<longrightarrow>
       p_sectors p |\<inter>| p_sectors q = {||})"

definition all_sectors :: "partitions \<Rightarrow> sector_number set" where
  "all_sectors m = {s. \<exists>n p. fmlookup m n = Some p \<and> s |\<in>| p_sectors p}"

definition packed :: "nat \<Rightarrow> partitions \<Rightarrow> bool" where
  "packed psize m \<longleftrightarrow> (\<exists>N. fset (fmdom m) = {0..<N} \<and>
    (\<forall>n p. fmlookup m n = Some p \<longrightarrow> fcard (p_sectors p) \<le> psize \<and> (n + 1 < N \<longrightarrow> fcard (p_sectors p) = psize)))"

definition deadline_inv :: "nat \<Rightarrow> deadline \<Rightarrow> bool" where
  "deadline_inv psize d \<longleftrightarrow>
    parts_ok (d_partitions d) \<and> packed psize (d_partitions d) \<and>
    d_live_sectors d = live_count (d_partitions d) \<and>
    d_total_sectors d = total_count (d_partitions d)"

lemma deadline_new_inv: "deadline_inv psize deadline_new"
  by (auto simp: deadline_inv_def deadline_new_def parts_ok_def packed_def)

lemma parts_okD: "parts_ok m \<Longrightarrow> fmlookup m n = Some p \<Longrightarrow> partition_inv p"
  by (simp add: parts_ok_def)

text \<open>Replacing a partition by one with the same sectors.\<close>

lemma parts_ok_update:
  assumes "parts_ok m" "fmlookup m n = Some p" "partition_inv p'" "p_sectors p' = p_sectors p"
  shows "parts_ok (fmupd n p' m)"
  using assms unfolding parts_ok_def by (auto split: if_splits)

lemma packed_update:
  assumes "packed psize m" "fmlookup m n = Some p" "p_sectors p' = p_sectors p"
  shows "packed psize (fmupd n p' m)"
proof -
  obtain N where N: "fset (fmdom m) = {0..<N}" "\<And>n p. fmlookup m n = Some p \<Longrightarrow>
      fcard (p_sectors p) \<le> psize \<and> (n + 1 < N \<longrightarrow> fcard (p_sectors p) = psize)"
    using assms(1) unfolding packed_def by blast
  have "fmdom (fmupd n p' m) = fmdom m" using assms(2) by (simp add: fmdomI finsert_absorb)
  then have "fset (fmdom (fmupd n p' m)) = {0..<N}" using N(1) by simp
  moreover have "fcard (p_sectors q) \<le> psize \<and> (k + 1 < N \<longrightarrow> fcard (p_sectors q) = psize)"
    if "fmlookup (fmupd n p' m) k = Some q" for k q
    using that N(2) [OF assms(2)] N(2) [of k q] assms(3) by (auto split: if_splits)
  ultimately show ?thesis unfolding packed_def by blast
qed

lemma live_count_update:
  assumes "fmlookup m n = Some p" "live_set p' = live_set p"
  shows "live_count (fmupd n p' m) = live_count m"
  using count_over_fmupd [OF assms(1), of "\<lambda>p. fcard (live_set p)" p'] assms(2) by simp

lemma total_count_update:
  assumes "fmlookup m n = Some p" "p_sectors p' = p_sectors p"
  shows "total_count (fmupd n p' m) = total_count m"
  using count_over_fmupd [OF assms(1), of "\<lambda>p. fcard (p_sectors p)" p'] assms(2) by simp

lemma at_partition_Ok_iff [ok_iff]:
  "at_partition n f d = (Ok a, d') \<longleftrightarrow>
   (\<exists>p p'. fmlookup (d_partitions d) n = Some p \<and> f p = (Ok a, p') \<and>
           d' = d\<lparr>d_partitions := fmupd n p' (d_partitions d)\<rparr>)"
  by (auto simp: at_partition_def split: option.splits prod.splits)

text \<open>
  The contract of the operations on one partition that touch neither its
  sectors nor its terminated set: running one keeps the deadline invariant.
\<close>

locale quiet_partition_op =
  fixes f :: "'a partitionM"
  assumes quiet: "partition_inv p \<Longrightarrow> f p = (Ok a, p') \<Longrightarrow>
    partition_inv p' \<and> p_sectors p' = p_sectors p \<and> p_terminated p' = p_terminated p"
begin

lemma at_partition_keeps:
  assumes "deadline_inv psize d" "at_partition n f d = (Ok a, d')"
  shows "deadline_inv psize d'"
proof -
  obtain p p' where p: "fmlookup (d_partitions d) n = Some p" "f p = (Ok a, p')"
    "d' = d\<lparr>d_partitions := fmupd n p' (d_partitions d)\<rparr>"
    using assms(2) by (auto simp: ok_iff)
  have "parts_ok (d_partitions d)" using assms(1) by (simp add: deadline_inv_def)
  then have q: "partition_inv p'" "p_sectors p' = p_sectors p" "p_terminated p' = p_terminated p"
    using quiet [OF _ p(2)] parts_okD p(1) by blast+
  then have "live_set p' = live_set p" by (simp add: live_set_def)
  then show ?thesis using assms(1) p q parts_ok_update packed_update live_count_update total_count_update
    by (simp add: deadline_inv_def)
qed

end

interpretation quiet_ret: quiet_partition_op "retM a"
  by unfold_locales (auto simp: ok_iff)

interpretation quiet_faults_of: quiet_partition_op "getM g"
  by unfold_locales (auto simp: ok_iff)

interpretation quiet_activate: quiet_partition_op "modifyM activate_unproven"
  by unfold_locales (auto simp: ok_iff activate_unproven_inv, simp_all add: activate_unproven_def)

interpretation quiet_declare: quiet_partition_op "partition_declare_faults_recovered nums"
  using declare_faults_recovered_inv declare_faults_recovered_Ok by unfold_locales force

lemma quiet_record_faults: "sector_table_ok tbl \<Longrightarrow> quiet_partition_op (record_faults tbl nums fe)"
  by unfold_locales (auto intro: record_faults_inv elim: record_faults_Ok [rotated])

lemma quiet_recover: "sector_table_ok tbl \<Longrightarrow> quiet_partition_op (recover_all_declared_recoveries tbl)"
  by unfold_locales (auto intro: recover_all_inv elim: recover_all_declared_recoveries_Ok)

interpretation quiet_pop_early: quiet_partition_op "partition_pop_early_terminations k"
proof
  fix p a p' assume "partition_inv p" "partition_pop_early_terminations k p = (Ok a, p')"
  moreover obtain m where "p' = p\<lparr>p_early_terminations := m\<rparr>"
    using pop_early_terminations_Ok calculation(2) by blast
  ultimately show "partition_inv p' \<and> p_sectors p' = p_sectors p \<and> p_terminated p' = p_terminated p"
    by (simp add: partition_inv_def)
qed

section \<open>Operations that only touch flags\<close>

text \<open>Only the partitions and the two counts matter for the invariant.\<close>

lemma deadline_inv_cong:
  assumes "d_partitions d' = d_partitions d" "d_live_sectors d' = d_live_sectors d"
    "d_total_sectors d' = d_total_sectors d"
  shows "deadline_inv psize d' \<longleftrightarrow> deadline_inv psize d"
  using assms by (simp add: deadline_inv_def)

lemma forM_keeps_inv:
  assumes "deadline_inv psize d" "forM xs f d = (Ok (), d')"
    and "\<And>x d d'. x \<in> set xs \<Longrightarrow> deadline_inv psize d \<Longrightarrow> f x d = (Ok (), d') \<Longrightarrow> deadline_inv psize d'"
  shows "deadline_inv psize d'"
  using forM_invariant [where I = "deadline_inv psize", OF assms(2,1)] assms(3) by blast

lemma record_proven_inv:
  assumes "deadline_inv psize d" "sector_table_ok tbl" "deadline_record_proven tbl ns d = (Ok (), d')"
  shows "deadline_inv psize d'"
  using assms(1) assms(3) [unfolded deadline_record_proven_def]
proof (rule forM_keeps_inv)
  fix n d d' assume inv: "deadline_inv psize d" and "record_proven_partition tbl n d = (Ok (), d')"
  then obtain S d1 d2 where d1: "at_partition n (retM ()) d = (Ok (), d1)"
    and d2: "at_partition n (recover_all_declared_recoveries tbl) (d1\<lparr>d_partitions_posted := S\<rparr>) = (Ok (), d2)"
    and d': "at_partition n (modifyM activate_unproven) d2 = (Ok (), d')"
    unfolding record_proven_partition_def bindM_Ok_iff by (auto simp: ensureM_Ok_iff zoomM_Ok_iff)
  have "deadline_inv psize d1" by (rule quiet_ret.at_partition_keeps [OF inv d1])
  then have "deadline_inv psize (d1\<lparr>d_partitions_posted := S\<rparr>)" by (simp add: deadline_inv_def)
  from quiet_partition_op.at_partition_keeps [OF quiet_recover [OF assms(2)] this d2]
  show "deadline_inv psize d'" using quiet_activate.at_partition_keeps d' by blast
qed

lemma update_expiration_block_keeps:
  assumes "deadline_inv psize d" "update_expiration_block b n d = (Ok u, d')"
  shows "deadline_inv psize d'"
  using assms by (auto simp: update_expiration_block_def ok_iff deadline_inv_def split: option.splits)

lemma deadline_record_faults_inv:
  assumes "deadline_inv psize d" "sector_table_ok tbl" "deadline_record_faults tbl pm fe d = (Ok (), d')"
  shows "deadline_inv psize d'"
  using assms(1) assms(3) [unfolded deadline_record_faults_def]
proof (rule forM_keeps_inv, clarify)
  fix n nums d d' assume inv: "deadline_inv psize d"
    and "bindM (at_partition n (retM ())) (\<lambda>_.
      bindM (ensureM (\<lambda>_. nums |\<subseteq>| fmdom tbl) DeadlineErrorSectorsNotFound) (\<lambda>_.
      bindM (at_partition n (record_faults tbl nums fe)) (\<lambda>_.
      update_expiration_block fe n))) d = (Ok (), d')"
  then obtain d1 r d2 where d1: "at_partition n (retM ()) d = (Ok (), d1)"
    and d2: "at_partition n (record_faults tbl nums fe) d1 = (Ok r, d2)"
    and d': "update_expiration_block fe n d2 = (Ok (), d')"
    unfolding bindM_Ok_iff by (auto simp: ensureM_Ok_iff)
  have "deadline_inv psize d1" by (rule quiet_ret.at_partition_keeps [OF inv d1])
  from quiet_partition_op.at_partition_keeps [OF quiet_record_faults [OF assms(2)] this d2]
  show "deadline_inv psize d'" using update_expiration_block_keeps d' by blast
qed

lemma deadline_declare_faults_recovered_inv:
  assumes "deadline_inv psize d" "deadline_declare_faults_recovered tbl pm d = (Ok (), d')"
  shows "deadline_inv psize d'"
  using assms(1) assms(2) [unfolded deadline_declare_faults_recovered_def]
proof (rule forM_keeps_inv, clarify)
  fix n nums d d' assume inv: "deadline_inv psize d"
    and "bindM (at_partition n (getM p_faults)) (\<lambda>faults.
      bindM (ensureM (\<lambda>_. nums |\<subseteq>| fmdom tbl) DeadlineErrorSectorsNotFound) (\<lambda>_.
      bindM (ensureM (\<lambda>_. nums |\<subseteq>| faults) DeadlineErrorSectorsNotFaulty) (\<lambda>_.
      at_partition n (partition_declare_faults_recovered nums)))) d = (Ok (), d')"
  then obtain F d1 where d1: "at_partition n (getM p_faults) d = (Ok F, d1)"
    and d': "at_partition n (partition_declare_faults_recovered nums) d1 = (Ok (), d')"
    unfolding bindM_Ok_iff by (auto simp: ensureM_Ok_iff)
  have "deadline_inv psize d1" by (rule quiet_faults_of.at_partition_keeps [OF inv d1])
  then show "deadline_inv psize d'" using quiet_declare.at_partition_keeps d' by blast
qed

lemma pop_early_partitions_keeps:
  assumes "deadline_inv psize d" "pop_early_partitions mp ms ns fin r d = (Ok x, d')"
  shows "deadline_inv psize d'"
  using assms
proof (induction ns arbitrary: fin r d)
  case (Cons n ns)
  show ?case
  proof (cases "fmlookup (d_partitions d) n")
    case None
    then show ?thesis using Cons by (auto simp: ok_iff)
  next
    case (Some p)
    have keep: "deadline_inv psize (d\<lparr>d_partitions := fmupd n p' (d_partitions d)\<rparr>)"
      if "partition_pop_early_terminations limit p = (Ok pr, p')" for limit pr p'
      by (rule quiet_pop_early.at_partition_keeps [OF Cons.prems(1), of n limit pr])
         (use Some that in \<open>simp add: ok_iff\<close>)
    then show ?thesis using Cons.prems(2) Some
      by (auto simp: ok_iff Let_def dest: keep split: if_splits intro: Cons.IH)
  qed
qed (simp add: ok_iff)

lemma deadline_pop_early_terminations_inv:
  assumes "deadline_inv psize d" "deadline_pop_early_terminations mp ms d = (Ok r, d')"
  shows "deadline_inv psize d'"
proof -
  from assms(2) obtain fin res d1 where
    d1: "pop_early_partitions mp ms (sorted_list_of_fset (d_early_terminations d)) [] tr_new d = (Ok (fin, res), d1)"
    and d': "d' = d1\<lparr>d_early_terminations := fold (\<lambda>n S. S |-| {|n|}) fin (d_early_terminations d1)\<rparr>"
    unfolding deadline_pop_early_terminations_def by (auto simp: ok_iff)
  show ?thesis using pop_early_partitions_keeps [OF assms(1) d1] d' by (simp add: deadline_inv_def)
qed

section \<open>Terminations\<close>

lemma fset_of_es_len:
  assumes "single_valued (slots q)" "eq_remove_sectors infos F q = (Ok D, q')"
  shows "es_len D = fcard (on_time_sectors D |\<union>| early_sectors D)"
proof -
  have "on_time_sectors D |\<inter>| early_sectors D = {||}"
  proof (rule ccontr)
    assume "on_time_sectors D |\<inter>| early_sectors D \<noteq> {||}"
    then obtain s where "s |\<in>| on_time_sectors D |\<inter>| early_sectors D" by blast
    then have s: "s |\<in>| es_part OnTime D" "s |\<in>| es_part Early D" by simp_all
    obtain b b' where "(s, b, OnTime) \<in> slots q" "(s, b', Early) \<in> slots q"
      using eq_remove_sectors_slots(3) [OF assms(1) [folded eq_wf_def] assms(2), of s] s by metis
    from single_valuedD [OF assms(1) this] show False by simp
  qed
  then show ?thesis by (simp add: es_len_def fcard_funion_disjoint)
qed

lemma live_count_shrink:
  assumes "fmlookup m n = Some p" "live_set p' = live_set p |-| T" "T |\<subseteq>| live_set p"
  shows "live_count (fmupd n p' m) + fcard T = live_count m"
proof -
  have "fcard (live_set p') = fcard (live_set p) - fcard T" "fcard T \<le> fcard (live_set p)"
    using assms(2,3) by (simp_all add: fcard_funion_fsubset fcard_mono)
  then show ?thesis using count_over_fmupd [OF assms(1), of "\<lambda>p. fcard (live_set p)" p'] by simp
qed

lemma deadline_terminate_partition_inv:
  assumes inv: "deadline_inv psize d" and run: "deadline_terminate_partition b infos n nums d = (Ok u, d')"
  shows "deadline_inv psize d'"
proof -
  obtain D d1 where d1: "at_partition n (partition_terminate_sectors b infos nums) d = (Ok D, d1)"
    and d': "if es_is_empty D then d' = d1
      else es_len D \<le> d_live_sectors d1 \<and>
        d' = d1\<lparr>d_early_terminations := finsert n (d_early_terminations d1),
          d_live_sectors := d_live_sectors d1 - es_len D\<rparr>"
    using run unfolding deadline_terminate_partition_def bindM_Ok_iff
    by (auto simp: ok_iff split: if_splits)
  obtain p p' where p: "fmlookup (d_partitions d) n = Some p"
    and t: "partition_terminate_sectors b infos nums p = (Ok D, p')"
    and d1: "d1 = d\<lparr>d_partitions := fmupd n p' (d_partitions d)\<rparr>"
    using d1 by (auto simp: ok_iff)
  have pinv: "partition_inv p" using inv p parts_okD by (auto simp: deadline_inv_def)
  let ?D = "on_time_sectors D |\<union>| early_sectors D"
  obtain q' where q': "eq_remove_sectors (filter (\<lambda>s. si_sector_number s |\<in>| nums) infos) (p_faults p) (p_expirations p) = (Ok D, q')"
    and p': "p_sectors p' = p_sectors p" "p_terminated p' = p_terminated p |\<union>| ?D"
    using t by (rule partition_terminate_sectors_Ok) simp
  note sv = partition_invD(1) [OF pinv]
  have "fset ?D \<subseteq> fset (live_set p)"
    using eq.remove_law [OF sv q'] eq.remove_takes(3) [OF sv q'] partition_invD(2) [OF pinv]
    by (simp add: live_set_def)
  then have "?D |\<subseteq>| live_set p" by blast
  moreover have "live_set p' = live_set p |-| ?D" using p' by (auto simp: live_set_def)
  ultimately have live: "live_count (fmupd n p' (d_partitions d)) + es_len D = live_count (d_partitions d)"
    using live_count_shrink [OF p] fset_of_es_len [OF sv q'] by simp
  have "es_len D = 0" if "es_is_empty D" using that by (simp add: es_is_empty_def es_len_def)
  then have "d_partitions d' = fmupd n p' (d_partitions d)"
    "d_live_sectors d' + es_len D = d_live_sectors d" "d_total_sectors d' = d_total_sectors d"
    using d' d1 by (auto split: if_splits)
  moreover have "partition_inv p'" by (rule terminate_sectors_inv [OF pinv t])
  ultimately show ?thesis
    using inv live p p'(1) parts_ok_update packed_update total_count_update
    by (simp add: deadline_inv_def)
qed

lemma deadline_terminate_sectors_inv:
  assumes "deadline_inv psize d" "deadline_terminate_sectors b infos pm d = (Ok (), d')"
  shows "deadline_inv psize d'"
  using assms(1) assms(2) [unfolded deadline_terminate_sectors_def]
  by (rule forM_keeps_inv) (auto intro: deadline_terminate_partition_inv)

section \<open>Expiry\<close>

lemma partition_expiry_live:
  assumes inv: "partition_inv p" and run: "partition_pop_expired_sectors until p = (Ok D, p')"
  shows "partition_inv p'" "p_sectors p' = p_sectors p"
    "live_set p' = live_set p |-| (on_time_sectors D |\<union>| early_sectors D)"
    "on_time_sectors D |\<union>| early_sectors D |\<subseteq>| live_set p"
    "on_time_sectors D |\<inter>| early_sectors D = {||}"
proof -
  obtain q' where q': "pop_until until (p_expirations p) = (Ok D, q')"
    and p': "p_sectors p' = p_sectors p"
      "p_terminated p' = p_terminated p |\<union>| (on_time_sectors D |\<union>| early_sectors D)"
    using run by (rule partition_pop_expired_sectors_Ok) simp
  note sv = partition_invD(1) [OF inv]
  show "partition_inv p'" by (rule pop_expired_sectors_inv [OF inv run])
  show "p_sectors p' = p_sectors p" by (fact p')
  show "live_set p' = live_set p |-| (on_time_sectors D |\<union>| early_sectors D)"
    using p' by (auto simp: live_set_def)
  have "fset (on_time_sectors D |\<union>| early_sectors D) \<subseteq> fset (live_set p)"
    using eq.pop_takes(3) [OF sv q'] partition_invD(2) [OF inv] by (simp add: live_set_def)
  then show "on_time_sectors D |\<union>| early_sectors D |\<subseteq>| live_set p" by blast
  show "on_time_sectors D |\<inter>| early_sectors D = {||}"
  proof (rule ccontr)
    assume "on_time_sectors D |\<inter>| early_sectors D \<noteq> {||}"
    then obtain s where "s |\<in>| on_time_sectors D |\<inter>| early_sectors D" by blast
    then have s: "s |\<in>| es_part OnTime D" "s |\<in>| es_part Early D" by simp_all
    obtain b b' where "(s, b, OnTime) \<in> slots (p_expirations p)" "(s, b', Early) \<in> slots (p_expirations p)"
      using pop_until_slots(2) [OF q', of s] s by metis
    from single_valuedD [OF sv this] show False by simp
  qed
qed

definition expiry_acc_ok :: "partitions \<Rightarrow> sector_number fset \<Rightarrow> sector_number fset \<Rightarrow> bool" where
  "expiry_acc_ok m on early \<longleftrightarrow> on |\<inter>| early = {||} \<and>
    (\<forall>n p. fmlookup m n = Some p \<longrightarrow> (on |\<union>| early) |\<inter>| live_set p = {||})"

lemma expiry_acc_step:
  assumes ok: "parts_ok m" and p: "fmlookup m n = Some p" and acc: "expiry_acc_ok m on early"
    and D: "D |\<union>| E |\<subseteq>| live_set p" "D |\<inter>| E = {||}" and p': "live_set p' = live_set p |-| (D |\<union>| E)"
  shows "expiry_acc_ok (fmupd n p' m) (on |\<union>| D) (early |\<union>| E)"
    and "fcard (on |\<union>| D) + fcard (early |\<union>| E) = fcard on + fcard early + fcard (D |\<union>| E)"
proof -
  have a: "on |\<inter>| early = {||}" "(on |\<union>| early) |\<inter>| live_set p = {||}"
    using acc p by (auto simp: expiry_acc_ok_def)
  have "(on |\<union>| D |\<union>| (early |\<union>| E)) |\<inter>| live_set q = {||}" if "fmlookup (fmupd n p' m) k = Some q" for k q
  proof (cases "k = n")
    case True
    then show ?thesis using that p' a by auto
  next
    case False
    then have q: "fmlookup m k = Some q" using that by simp
    then have "p_sectors p |\<inter>| p_sectors q = {||}" using ok p False unfolding parts_ok_def by metis
    then have "(D |\<union>| E) |\<inter>| live_set q = {||}" using D(1) by (auto simp: live_set_def)
    moreover have "(on |\<union>| early) |\<inter>| live_set q = {||}" using acc q unfolding expiry_acc_ok_def by blast
    ultimately show ?thesis by auto
  qed
  moreover have "(on |\<union>| D) |\<inter>| (early |\<union>| E) = {||}" using a D by auto
  ultimately show "expiry_acc_ok (fmupd n p' m) (on |\<union>| D) (early |\<union>| E)"
    unfolding expiry_acc_ok_def by blast
  have "on |\<inter>| D = {||}" "early |\<inter>| E = {||}" using a(2) D(1) by auto
  then show "fcard (on |\<union>| D) + fcard (early |\<union>| E) = fcard on + fcard early + fcard (D |\<union>| E)"
    using D(2) by (simp add: fcard_funion_disjoint)
qed

lemma pop_expired_loop_keeps:
  assumes "pop_expired_loop until ns W on early d = (Ok (W', on', early'), d')"
    and "parts_ok (d_partitions d)" "packed psize (d_partitions d)" "expiry_acc_ok (d_partitions d) on early"
  shows "parts_ok (d_partitions d') \<and> packed psize (d_partitions d') \<and>
    total_count (d_partitions d') = total_count (d_partitions d) \<and>
    live_count (d_partitions d') + fcard on' + fcard early' = live_count (d_partitions d) + fcard on + fcard early \<and>
    d_live_sectors d' = d_live_sectors d \<and> d_total_sectors d' = d_total_sectors d"
  using assms
proof (induction ns arbitrary: W on early d)
  case (Cons n ns)
  then obtain p D p' W1 where p: "fmlookup (d_partitions d) n = Some p"
    and run: "partition_pop_expired_sectors until p = (Ok D, p')"
    and rest: "pop_expired_loop until ns W1 (on |\<union>| on_time_sectors D) (early |\<union>| early_sectors D)
      (d\<lparr>d_partitions := fmupd n p' (d_partitions d)\<rparr>) = (Ok (W', on', early'), d')"
    by (auto simp: ok_iff)
  note e = partition_expiry_live [OF parts_okD [OF Cons.prems(2) p] run]
  note acc = expiry_acc_step [OF Cons.prems(2) p Cons.prems(4) e(4,5,3)]
  have "live_count (fmupd n p' (d_partitions d)) + fcard (on_time_sectors D |\<union>| early_sectors D) = live_count (d_partitions d)"
    by (rule live_count_shrink [OF p e(3,4)])
  moreover have "total_count (fmupd n p' (d_partitions d)) = total_count (d_partitions d)"
    by (rule total_count_update [OF p e(2)])
  ultimately show ?case
    using Cons.IH [OF rest] parts_ok_update [OF Cons.prems(2) p e(1,2)] packed_update [OF Cons.prems(3) p e(2)] acc
    by simp
qed (simp add: ok_iff)

lemma deadline_pop_expired_sectors_inv:
  assumes inv: "deadline_inv psize d" and run: "deadline_pop_expired_sectors until d = (Ok D, d')"
  shows "deadline_inv psize d'"
proof -
  obtain ns d1 where d1: "pop_expired_partitions until d = (Ok ns, d1)"
    and rest: "(if ns = [] then d' = d1 else
      \<exists>W on early d2 S. pop_expired_loop until ns {||} {||} {||} d1 = (Ok (W, on, early), d2) \<and>
        d' = d2\<lparr>d_early_terminations := S, d_live_sectors := d_live_sectors d2 - (fcard on + fcard early)\<rparr> \<and>
        fcard on + fcard early \<le> d_live_sectors d2)"
    using run unfolding deadline_pop_expired_sectors_def
    by (auto simp: ok_iff split: if_splits) blast+
  have inv1: "deadline_inv psize d1" using inv d1 by (auto simp: pop_expired_partitions_def ok_iff deadline_inv_def)
  show ?thesis
  proof (cases "ns = []")
    case False
    with rest obtain W on early d2 S where l: "pop_expired_loop until ns {||} {||} {||} d1 = (Ok (W, on, early), d2)"
      and d': "d' = d2\<lparr>d_early_terminations := S, d_live_sectors := d_live_sectors d2 - (fcard on + fcard early)\<rparr>"
      by auto
    have "expiry_acc_ok (d_partitions d1) {||} {||}" by (simp add: expiry_acc_ok_def)
    with pop_expired_loop_keeps [OF l, of psize] inv1 d' show ?thesis by (auto simp: deadline_inv_def)
  qed (use rest inv1 in simp)
qed

text \<open>The subtraction from the live count cannot underflow.\<close>

lemma pop_expired_loop_bound:
  assumes "deadline_inv psize d" "pop_expired_loop until ns {||} {||} {||} d = (Ok (W, on, early), d')"
  shows "fcard on + fcard early \<le> d_live_sectors d'"
proof -
  have "expiry_acc_ok (d_partitions d) {||} {||}" by (simp add: expiry_acc_ok_def)
  with pop_expired_loop_keeps [OF assms(2), of psize] assms(1) show ?thesis by (auto simp: deadline_inv_def)
qed

end
