(* ===== verification/Deadline_Add.thy ===== *)
theory Deadline_Add
  imports Deadline_Props
begin

text \<open>
  Adding sectors to a deadline: the loop that fills its partitions ends within
  its fuel, fills them in order, and keeps the deadline invariant.
\<close>

section \<open>Adding sectors\<close>

text \<open>
  While the loop fills partition \<open>idx\<close>, the partitions before it are full and
  there is none after it.
\<close>

definition packed_at :: "nat \<Rightarrow> nat \<Rightarrow> partitions \<Rightarrow> bool" where
  "packed_at psize idx m \<longleftrightarrow>
    (fset (fmdom m) = {0..<idx} \<or> fset (fmdom m) = {0..<idx + 1}) \<and>
    (\<forall>n p. fmlookup m n = Some p \<longrightarrow>
      fcard (p_sectors p) \<le> psize \<and> (n < idx \<longrightarrow> fcard (p_sectors p) = psize))"

lemma packed_at_dom:
  "packed_at psize idx m \<Longrightarrow> fset (fmdom m) = {0..<idx} \<or> fset (fmdom m) = {0..<idx + 1}"
  by (simp add: packed_at_def)

definition entry_or_new :: "partitions \<Rightarrow> nat \<Rightarrow> partition" where
  "entry_or_new m idx = (case fmlookup m idx of None \<Rightarrow> partition_new | Some p \<Rightarrow> p)"

lemma packed_at_start:
  assumes "packed psize m"
  shows "packed_at psize (fcard (fmdom m) - 1) m"
proof -
  obtain N where N: "fset (fmdom m) = {0..<N}" "\<And>n p. fmlookup m n = Some p \<Longrightarrow>
      fcard (p_sectors p) \<le> psize \<and> (n + 1 < N \<longrightarrow> fcard (p_sectors p) = psize)"
    using assms unfolding packed_def by blast
  then have "fcard (fmdom m) = N" by (simp add: fcard.rep_eq)
  then show ?thesis using N unfolding packed_at_def by (cases N) auto
qed

lemma packed_of_packed_at:
  assumes "packed_at psize idx m" "fmlookup m idx = Some p"
  shows "packed psize m"
proof -
  have "idx \<in> fset (fmdom m)" using assms(2) by (simp add: fmdomI)
  then have "fset (fmdom m) = {0..<idx + 1}" using assms(1) by (auto simp: packed_at_def)
  then show ?thesis using assms(1) unfolding packed_def packed_at_def by (intro exI [of _ "idx + 1"]) auto
qed

lemma partition_new_simps [simp]: "p_sectors partition_new = {||}" "live_set partition_new = {||}"
  by (simp_all add: partition_new_def live_set_def)

lemma all_sectors_fmupd:
  assumes "fset (p_sectors (entry_or_new m n)) \<subseteq> fset (p_sectors p)"
  shows "all_sectors (fmupd n p m) = all_sectors m \<union> fset (p_sectors p)"
proof (intro set_eqI iffI)
  fix s assume "s \<in> all_sectors m \<union> fset (p_sectors p)"
  then consider "s |\<in>| p_sectors p" | k q where "fmlookup m k = Some q" "s |\<in>| p_sectors q" "k \<noteq> n"
    | q where "fmlookup m n = Some q" "s |\<in>| p_sectors q"
    unfolding all_sectors_def by blast
  then show "s \<in> all_sectors (fmupd n p m)"
  proof cases
    case 1
    then have "fmlookup (fmupd n p m) n = Some p \<and> s |\<in>| p_sectors p" by simp
    then show ?thesis unfolding all_sectors_def by blast
  next
    case 2
    then have "fmlookup (fmupd n p m) k = Some q \<and> s |\<in>| p_sectors q" by simp
    then show ?thesis unfolding all_sectors_def by blast
  next
    case 3
    then have "fmlookup (fmupd n p m) n = Some p \<and> s |\<in>| p_sectors p"
      using assms by (auto simp: entry_or_new_def)
    then show ?thesis unfolding all_sectors_def by blast
  qed
qed (auto simp: all_sectors_def split: if_splits)

lemma finter_empty_iff: "A |\<inter>| B = {||} \<longleftrightarrow> fset A \<inter> fset B = {}"
  by (metis bot_fset.rep_eq fset_inject inf_fset.rep_eq)

lemma fset_fmdom_fmupd [simp]: "fset (fmdom (fmupd k v m)) = insert k (fset (fmdom m))"
  by simp

text \<open>Creating the entry of the current partition changes nothing that counts.\<close>

lemma ensure_entry:
  assumes ok: "parts_ok m" and pk: "packed_at psize idx m"
  defines "m1 \<equiv> fmupd idx (entry_or_new m idx) m"
  shows "parts_ok m1" "packed_at psize idx m1" "all_sectors m1 = all_sectors m"
    "total_count m1 = total_count m" "live_count m1 = live_count m"
proof -
  have "parts_ok m1 \<and> packed_at psize idx m1 \<and> all_sectors m1 = all_sectors m \<and>
      total_count m1 = total_count m \<and> live_count m1 = live_count m"
  proof (cases "fmlookup m idx")
    case None
    then have m1: "m1 = fmupd idx partition_new m" by (simp add: m1_def entry_or_new_def)
    have "parts_ok m1" using ok partition_new_inv unfolding m1 parts_ok_def by auto
    moreover have "fset (fmdom m1) = {0..<idx + 1}"
    proof -
      have "idx \<notin> fset (fmdom m)" using None by (auto simp: fmlookup_dom_iff)
      then have "fset (fmdom m) = {0..<idx}"
        using packed_at_dom [OF pk] by (elim disjE) simp_all
      then show ?thesis unfolding m1 fset_fmdom_fmupd by (simp only: atLeast0_lessThan_Suc Suc_eq_plus1 [symmetric])
    qed
    moreover have "all_sectors m1 = all_sectors m"
      unfolding m1 using None by (simp add: all_sectors_fmupd entry_or_new_def)
    ultimately show ?thesis
      using pk None by (auto simp: packed_at_def m1 count_over_fmupd_new split: if_splits)
  next
    case (Some p)
    then have "m1 = m" by (auto simp: m1_def entry_or_new_def intro!: fmap_ext)
    then show ?thesis using ok pk by simp
  qed
  then show "parts_ok m1" "packed_at psize idx m1" "all_sectors m1 = all_sectors m"
    "total_count m1 = total_count m" "live_count m1 = live_count m" by blast+
qed

lemma fset_numbers_of: "fset (numbers_of infos) = si_sector_number ` set infos"
  by (simp add: fset_of_list.rep_eq)

lemma fcard_numbers_of:
  "distinct (map si_sector_number infos) \<Longrightarrow> fcard (numbers_of infos) = length infos"
  by (metis fcard.rep_eq fset_of_list.rep_eq distinct_card length_map)

text \<open>Adding sectors that are new to the deadline to one of its partitions.\<close>

lemma grow_partition:
  assumes ok: "parts_ok m" and pk: "packed_at psize idx m" and p: "fmlookup m idx = Some p"
    and add: "partition_add_sectors ns p = (Ok u, p')"
    and new: "si_sector_number ` set ns \<inter> all_sectors m = {}"
    and room: "fcard (p_sectors p) + length ns \<le> psize"
  defines "m2 \<equiv> fmupd idx p' m"
  shows "parts_ok m2" "packed_at psize idx m2" "all_sectors m2 = all_sectors m \<union> si_sector_number ` set ns"
    "total_count m2 = total_count m + length ns" "live_count m2 = live_count m + length ns"
proof -
  let ?N = "numbers_of ns"
  obtain q' where "distinct (map si_sector_number ns)" "si_sector_number ` set ns \<inter> fset (p_sectors p) = {}"
    and p': "p' = p\<lparr>p_expirations := q', p_sectors := p_sectors p |\<union>| ?N, p_unproven := p_unproven p |\<union>| ?N\<rparr>"
    using add by (rule partition_add_sectors_Ok)
  then have N: "fcard ?N = length ns" "fset ?N = si_sector_number ` set ns" "p_sectors p |\<inter>| ?N = {||}"
    using fcard_numbers_of [of ns] fset_numbers_of [of ns] by (simp, simp, simp only: finter_empty_iff inf_commute)
  have pinv: "partition_inv p" using parts_okD [OF ok p] .
  have sec: "p_sectors p' = p_sectors p |\<union>| ?N" "live_set p' = live_set p |\<union>| ?N"
    using p' N(3) pinv by (auto simp: live_set_def partition_inv_def)
  have card: "fcard (p_sectors p') = fcard (p_sectors p) + length ns" "fcard (live_set p') = fcard (live_set p) + length ns"
  proof -
    have "live_set p |\<inter>| ?N = {||}" using N(3) by (auto simp: live_set_def)
    then show "fcard (p_sectors p') = fcard (p_sectors p) + length ns" "fcard (live_set p') = fcard (live_set p) + length ns"
      using N(1,3) sec by (simp_all add: fcard_funion_disjoint)
  qed
  show "total_count m2 = total_count m + length ns" "live_count m2 = live_count m + length ns"
    using count_over_fmupd [OF p, of "\<lambda>p. fcard (p_sectors p)" p']
      count_over_fmupd [OF p, of "\<lambda>p. fcard (live_set p)" p'] card by (simp_all add: m2_def)
  show "all_sectors m2 = all_sectors m \<union> si_sector_number ` set ns"
  proof -
    have "fset (p_sectors p) \<subseteq> all_sectors m" using p by (auto simp: all_sectors_def)
    then show ?thesis unfolding m2_def using p sec(1)
      by (simp add: all_sectors_fmupd entry_or_new_def fset_of_list.rep_eq Un_assoc [symmetric] Un_absorb2)
  qed
  show "packed_at psize idx m2"
    using pk p card room by (auto simp: packed_at_def m2_def fmdomI insert_absorb split: if_splits)
  have dis: "p_sectors p' |\<inter>| p_sectors q = {||}" if "fmlookup m k = Some q" "k \<noteq> idx" for k q
  proof -
    have "p_sectors p |\<inter>| p_sectors q = {||}" using ok p that unfolding parts_ok_def by metis
    moreover have "fset (p_sectors q) \<subseteq> all_sectors m" using that(1) by (auto simp: all_sectors_def)
    then have "?N |\<inter>| p_sectors q = {||}" unfolding finter_empty_iff N(2) using new by blast
    ultimately show ?thesis using sec(1) by auto
  qed
  have "partition_inv p'" by (rule add_sectors_inv [OF pinv add])
  then show "parts_ok m2" using ok dis unfolding parts_ok_def m2_def
    by (auto simp: inf_commute split: if_splits)
qed

text \<open>What one run of the loop establishes.\<close>

definition fill_ok :: "nat \<Rightarrow> sector_on_chain_info list \<Rightarrow> partitions \<Rightarrow> partitions \<Rightarrow> bool" where
  "fill_ok psize sectors m m' \<longleftrightarrow>
    parts_ok m' \<and> packed psize m' \<and> all_sectors m' = all_sectors m \<union> si_sector_number ` set sectors \<and>
    total_count m' = total_count m + length sectors \<and> live_count m' = live_count m + length sectors"

lemma packed_at_next:
  assumes "packed_at psize idx m" "fmlookup m idx = Some p" "psize \<le> fcard (p_sectors p)"
  shows "packed_at psize (idx + 1) m"
proof -
  have idx: "idx \<in> fset (fmdom m)" using assms(2) by (rule fmdomI)
  then have "fset (fmdom m) = {0..<idx + 1}"
    using packed_at_dom [OF assms(1)] by (elim disjE) simp_all
  moreover have "fcard (p_sectors q) \<le> psize \<and> (n < idx + 1 \<longrightarrow> fcard (p_sectors q) = psize)"
    if "fmlookup m n = Some q" for n q
  proof (cases "n = idx")
    case True
    then show ?thesis using that assms unfolding packed_at_def by fastforce
  next
    case False
    then show ?thesis using that assms(1) unfolding packed_at_def by (metis less_antisym Suc_eq_plus1)
  qed
  ultimately show ?thesis unfolding packed_at_def by blast
qed

lemma fill_ok_trans:
  assumes "parts_ok m1" "all_sectors m1 = all_sectors m \<union> si_sector_number ` set a"
    "total_count m1 = total_count m + length a" "live_count m1 = live_count m + length a"
    "fill_ok psize b m1 m'"
  shows "fill_ok psize (a @ b) m m'"
  using assms unfolding fill_ok_def by (simp add: image_Un Un_assoc)

text \<open>One iteration of the loop, on a full and on a partly filled partition.\<close>

lemma fill_partitions_full:
  assumes "psize \<le> fcard (p_sectors (entry_or_new m idx))"
  shows "fill_partitions (Suc fuel) psize idx sectors m us =
    fill_partitions fuel psize (idx + 1) sectors (fmupd idx (entry_or_new m idx) m) us"
  using assms by (simp add: entry_or_new_def Let_def)

lemma fill_partitions_room:
  assumes "fcard (p_sectors (entry_or_new m idx)) < psize"
    and "k = min (psize - fcard (p_sectors (entry_or_new m idx))) (length sectors)"
  shows "fill_partitions (Suc fuel) psize idx sectors m us =
    res_bind (on_local (partition_add_sectors (take k sectors)) (entry_or_new m idx)) (\<lambda>(_, p').
      if drop k sectors = [] then Ok (fmupd idx p' (fmupd idx (entry_or_new m idx) m),
        us @ map (\<lambda>s. (si_expiration s, idx)) (take k sectors))
      else fill_partitions fuel psize idx (drop k sectors) (fmupd idx p' (fmupd idx (entry_or_new m idx) m))
        (us @ map (\<lambda>s. (si_expiration s, idx)) (take k sectors)))"
  using assms(1) unfolding assms(2) fill_partitions.simps entry_or_new_def [symmetric] Let_def by simp

lemma fill_partitions_Ok:
  assumes "fill_partitions fuel psize idx sectors m us = Ok (m', us')"
    "parts_ok m" "packed_at psize idx m"
    "si_sector_number ` set sectors \<inter> all_sectors m = {}" "distinct (map si_sector_number sectors)"
  shows "fill_ok psize sectors m m'"
  using assms
proof (induction fuel arbitrary: idx sectors m us)
  case 0
  then show ?case by simp
next
  case (Suc fuel)
  let ?p = "entry_or_new m idx" let ?m1 = "fmupd idx ?p m"
  note E = ensure_entry [OF Suc.prems(2,3)]
  have lk: "fmlookup ?m1 idx = Some ?p" by simp
  show ?case
  proof (cases "psize \<le> fcard (p_sectors ?p)")
    case True
    have "fill_ok psize sectors ?m1 m'"
      using Suc.IH [OF _ E(1) packed_at_next [OF E(2) lk True]] Suc.prems(1,4,5) E(3)
      unfolding fill_partitions_full [OF True] by simp
    then show ?thesis using E by (simp add: fill_ok_def)
  next
    case False
    define k where "k = min (psize - fcard (p_sectors ?p)) (length sectors)"
    let ?a = "take k sectors" let ?b = "drop k sectors"
    obtain p' where p': "partition_add_sectors ?a ?p = (Ok (), p')"
      and rest: "if ?b = [] then m' = fmupd idx p' ?m1
        else fill_partitions fuel psize idx ?b (fmupd idx p' ?m1) (us @ map (\<lambda>s. (si_expiration s, idx)) ?a) = Ok (m', us')"
      using Suc.prems(1) False
      unfolding fill_partitions_room [OF False [unfolded not_le] k_def] by (auto simp: ok_iff split: if_splits)
    have room: "fcard (p_sectors ?p) + length ?a \<le> psize" using False by (simp add: k_def)
    have new: "si_sector_number ` set ?a \<inter> all_sectors ?m1 = {}"
      using Suc.prems(4) set_take_subset [of k sectors] unfolding E(3) by blast
    note G = grow_partition [OF E(1,2) lk p' new room]
    have "fill_ok psize ?b (fmupd idx p' ?m1) m'"
    proof (cases "?b = []")
      case True
      moreover have "packed psize (fmupd idx p' ?m1)" by (rule packed_of_packed_at [OF G(2)]) simp
      ultimately show ?thesis using rest G(1) by (simp add: fill_ok_def)
    next
      case False
      have "distinct (map si_sector_number (?a @ ?b))" "si_sector_number ` set (?a @ ?b) \<inter> all_sectors m = {}"
        using Suc.prems(4,5) by simp_all
      then have "si_sector_number ` set ?b \<inter> all_sectors (fmupd idx p' ?m1) = {}" "distinct (map si_sector_number ?b)"
        unfolding G(3) E(3) map_append distinct_append set_append image_Un set_map by blast+
      then show ?thesis using Suc.IH [OF _ G(1,2)] rest False by simp
    qed
    then have "fill_ok psize (?a @ ?b) m m'"
      by (rule fill_ok_trans [rotated -1]) (use G E in simp_all)
    then show ?thesis by simp
  qed
qed

section \<open>The loop ends\<close>

lemma never_panics_partition_add_sectors [no_panic]: "never_panics (partition_add_sectors sectors)"
  unfolding partition_add_sectors_def queueM_def eq_add_active_sectors_def add_to_expiration_set_def es_add_def
    on_timeM_def earlyM_def
  by (intro no_panic)

text \<open>
  The number of iterations still to come is below the partitions from the
  current one on, plus two for each sector: a full partition is passed once,
  and every other iteration places a sector and creates at most one partition.
\<close>

definition fill_measure :: "nat \<Rightarrow> sector_on_chain_info list \<Rightarrow> partitions \<Rightarrow> nat" where
  "fill_measure idx sectors m = card {i \<in> fset (fmdom m). idx \<le> i} + 2 * length sectors"

lemma fill_measure_pass:
  assumes "fmlookup m idx = Some p"
  shows "fill_measure (idx + 1) sectors m < fill_measure idx sectors m"
proof -
  have "idx \<in> {i \<in> fset (fmdom m). idx \<le> i}" using assms by (simp add: fmdomI)
  moreover have "{i \<in> fset (fmdom m). idx + 1 \<le> i} = {i \<in> fset (fmdom m). idx \<le> i} - {idx}" by auto
  moreover have "finite {i \<in> fset (fmdom m). idx \<le> i}" by simp
  ultimately have "card {i \<in> fset (fmdom m). idx + 1 \<le> i} < card {i \<in> fset (fmdom m). idx \<le> i}"
    by (simp only: card_Diff1_less)
  then show ?thesis by (simp add: fill_measure_def)
qed

lemma fill_measure_place:
  assumes "0 < k" "k \<le> length sectors"
  shows "fill_measure idx (drop k sectors) (fmupd idx p m) < fill_measure idx sectors m"
proof -
  have "{i \<in> fset (fmdom (fmupd idx p m)). idx \<le> i} \<subseteq> insert idx {i \<in> fset (fmdom m). idx \<le> i}" by auto
  then have "card {i \<in> fset (fmdom (fmupd idx p m)). idx \<le> i} \<le> card (insert idx {i \<in> fset (fmdom m). idx \<le> i})"
    by (intro card_mono) simp_all
  also have "\<dots> \<le> card {i \<in> fset (fmdom m). idx \<le> i} + 1" by (simp add: card_insert_if)
  finally show ?thesis using assms by (simp add: fill_measure_def)
qed

lemma fill_partitions_returns:
  assumes "0 < psize" "sectors \<noteq> []" "fill_measure idx sectors m < fuel"
  shows "fill_partitions fuel psize idx sectors m us \<noteq> Panic"
  using assms(2,3)
proof (induction fuel arbitrary: idx sectors m us)
  case (Suc fuel)
  let ?p = "entry_or_new m idx"
  show ?case
  proof (cases "psize \<le> fcard (p_sectors ?p)")
    case True
    then have "fmlookup m idx = Some ?p"
      using assms(1) by (cases "fmlookup m idx") (auto simp: entry_or_new_def)
    moreover from this have "fmupd idx ?p m = m" by (intro fmap_ext) auto
    ultimately show ?thesis
      using Suc.IH [OF Suc.prems(1)] Suc.prems(2) fill_measure_pass [of m idx ?p sectors]
      by (simp only: fill_partitions_full [OF True]) simp
  next
    case False
    define k where "k = min (psize - fcard (p_sectors ?p)) (length sectors)"
    have k: "0 < k" "k \<le> length sectors" using False Suc.prems(1) by (simp_all add: k_def)
    obtain r p' where run: "partition_add_sectors (take k sectors) ?p = (r, p')"
      by (cases "partition_add_sectors (take k sectors) ?p")
    have "r \<noteq> Panic" using never_panicsD [OF never_panics_partition_add_sectors run] .
    moreover have "fill_measure idx (drop k sectors) (fmupd idx p' (fmupd idx ?p m)) < fuel"
      using fill_measure_place [OF k, of idx p' m] Suc.prems(2) by simp
    moreover from this have "fill_partitions fuel psize idx (drop k sectors) (fmupd idx p' (fmupd idx ?p m)) us' \<noteq> Panic"
      if "drop k sectors \<noteq> []" for us' using Suc.IH that by blast
    ultimately show ?thesis
      unfolding fill_partitions_room [OF False [unfolded not_le] k_def] on_local_def run by (cases r) simp_all
  qed
qed simp

lemma fill_partitions_fuel_mono:
  assumes "fill_partitions fuel psize idx sectors m us = r" "r \<noteq> Panic" "fuel \<le> fuel'"
  shows "fill_partitions fuel' psize idx sectors m us = r"
  using assms
proof (induction fuel arbitrary: fuel' idx sectors m us)
  case (Suc fuel)
  obtain fuel'' where f: "fuel' = Suc fuel''" "fuel \<le> fuel''" using Suc.prems(3) by (cases fuel') auto
  let ?p = "entry_or_new m idx"
  show ?case
  proof (cases "psize \<le> fcard (p_sectors ?p)")
    case True
    then show ?thesis using Suc.IH [OF _ Suc.prems(2) f(2)] Suc.prems(1)
      unfolding f(1) fill_partitions_full [OF True] by simp
  next
    case False
    note R = fill_partitions_room [OF False [unfolded not_le] refl]
    show ?thesis
    proof (cases "on_local (partition_add_sectors (take (min (psize - fcard (p_sectors ?p)) (length sectors)) sectors)) ?p")
      case (Ok x)
      then show ?thesis using Suc.IH [OF _ Suc.prems(2) f(2)] Suc.prems(1)
        unfolding f(1) R by (cases x) (simp split: if_splits)
    qed (use Suc.prems(1) in \<open>simp_all only: f(1) R res_bind.simps\<close>)
  qed
qed simp

lemma fill_measure_fuel: "fill_measure idx sectors m < add_sectors_fuel sectors m"
proof -
  have "card {i \<in> fset (fmdom m). idx \<le> i} \<le> card (fset (fmdom m))" by (intro card_mono) auto
  then show ?thesis by (simp add: fill_measure_def add_sectors_fuel_def fcard.rep_eq)
qed

section \<open>Adding sectors keeps the invariant\<close>

lemma add_sectors_updates_keep:
  assumes "forM updates (\<lambda>(b, n). zoomM d_expirations_blocks (\<lambda>m d. d\<lparr>d_expirations_blocks := m\<rparr>)
      (insert_mapM k e b n)) d = (Ok (), d')"
  shows "d_partitions d' = d_partitions d \<and> d_live_sectors d' = d_live_sectors d \<and> d_total_sectors d' = d_total_sectors d"
proof (rule forM_invariant [where I = "\<lambda>x. d_partitions x = d_partitions d \<and>
    d_live_sectors x = d_live_sectors d \<and> d_total_sectors x = d_total_sectors d", OF assms])
qed (auto simp: ok_iff)

lemma deadline_add_sectors_Ok:
  assumes "deadline_add_sectors psize sectors d = (Ok u, d')" "sectors \<noteq> []"
  obtains us where "fill_partitions (add_sectors_fuel sectors (d_partitions d)) psize (fcard (fmdom (d_partitions d)) - 1)
      sectors (d_partitions d) [] = Ok (d_partitions d', us)"
    "d_live_sectors d' = d_live_sectors d + length sectors" "d_total_sectors d' = d_total_sectors d + length sectors"
    "fcard (fmdom (d_partitions d')) \<le> MAX_PARTITIONS_PER_DEADLINE"
  using assms by (auto simp: deadline_add_sectors_def ok_iff dest!: add_sectors_updates_keep)

lemma deadline_add_sectors_inv:
  assumes inv: "deadline_inv psize d" and run: "deadline_add_sectors psize sectors d = (Ok (), d')"
    and new: "si_sector_number ` set sectors \<inter> all_sectors (d_partitions d) = {}"
    and dist: "distinct (map si_sector_number sectors)"
  shows "deadline_inv psize d' \<and>
    all_sectors (d_partitions d') = all_sectors (d_partitions d) \<union> si_sector_number ` set sectors"
proof (cases "sectors = []")
  case True
  then show ?thesis using inv run by (simp add: deadline_add_sectors_def ok_iff)
next
  case False
  from run False obtain us where
    fill: "fill_partitions (add_sectors_fuel sectors (d_partitions d)) psize (fcard (fmdom (d_partitions d)) - 1)
      sectors (d_partitions d) [] = Ok (d_partitions d', us)"
    and n: "d_live_sectors d' = d_live_sectors d + length sectors" "d_total_sectors d' = d_total_sectors d + length sectors"
    by (rule deadline_add_sectors_Ok)
  have "fill_ok psize sectors (d_partitions d) (d_partitions d')"
    using inv by (intro fill_partitions_Ok [OF fill _ packed_at_start new dist]) (simp_all add: deadline_inv_def)
  then show ?thesis using inv n by (simp add: deadline_inv_def fill_ok_def)
qed

section \<open>Reachable deadlines\<close>

text \<open>
  A deadline changes only by successful calls of its operations. Sectors are
  added once, under numbers that no partition of the deadline has; the sector
  tables file each record under its own number.
\<close>

inductive deadline_step :: "nat \<Rightarrow> deadline \<Rightarrow> deadline \<Rightarrow> bool" for psize where
  dstep_add: "si_sector_number ` set sectors \<inter> all_sectors (d_partitions d) = {} \<Longrightarrow>
    distinct (map si_sector_number sectors) \<Longrightarrow>
    deadline_add_sectors psize sectors d = (Ok (), d') \<Longrightarrow> deadline_step psize d d'"
| dstep_proven: "sector_table_ok tbl \<Longrightarrow> deadline_record_proven tbl ns d = (Ok (), d') \<Longrightarrow> deadline_step psize d d'"
| dstep_faults: "sector_table_ok tbl \<Longrightarrow> deadline_record_faults tbl pm fe d = (Ok (), d') \<Longrightarrow> deadline_step psize d d'"
| dstep_declare: "deadline_declare_faults_recovered tbl pm d = (Ok (), d') \<Longrightarrow> deadline_step psize d d'"
| dstep_terminate: "deadline_terminate_sectors b infos pm d = (Ok (), d') \<Longrightarrow> deadline_step psize d d'"
| dstep_pop_early: "deadline_pop_early_terminations mp ms d = (Ok r, d') \<Longrightarrow> deadline_step psize d d'"
| dstep_expire: "deadline_pop_expired_sectors until d = (Ok D, d') \<Longrightarrow> deadline_step psize d d'"

lemma deadline_step_inv: "deadline_step psize d d' \<Longrightarrow> deadline_inv psize d \<Longrightarrow> deadline_inv psize d'"
  by (induction rule: deadline_step.induct)
    (blast intro: deadline_add_sectors_inv [THEN conjunct1] record_proven_inv deadline_record_faults_inv
      deadline_declare_faults_recovered_inv deadline_terminate_sectors_inv deadline_pop_early_terminations_inv
      deadline_pop_expired_sectors_inv)+

lemma deadline_reachable_inv: "(deadline_step psize)\<^sup>*\<^sup>* deadline_new d \<Longrightarrow> deadline_inv psize d"
  by (induction rule: rtranclp_induct) (auto intro: deadline_new_inv deadline_step_inv)

end
