(* ===== verification/Partition_Claims.thy ===== *)
theory Partition_Claims
  imports Partition_Props
begin

text \<open>
  The properties of the expiration queue and of the partitions, each with a
  run on concrete sectors that meets its hypotheses.
\<close>

section \<open>Concrete sectors\<close>

definition sector_at :: "sector_number \<Rightarrow> block \<Rightarrow> sector_on_chain_info" where
  "sector_at n e = \<lparr> si_sector_number = n, si_seal_proof = StackedDRG2KiBV1P1, si_sealed_cid = [],
     si_activation = 0, si_expiration = e, si_unsealed_cid = [] \<rparr>"

definition queue3 :: expiration_queue where
  "queue3 = snd (eq_add_active_sectors [sector_at 1 100, sector_at 2 100, sector_at 3 40] eq_new)"

definition table3 :: sector_table where
  "table3 = fmap_of_list [(1, sector_at 1 100), (2, sector_at 2 100), (3, sector_at 3 40)]"

definition partition3 :: partition where
  "partition3 = snd (partition_add_sectors [sector_at 1 100, sector_at 2 100, sector_at 3 40] partition_new)"

lemma sector_at_simps [simp]:
  "si_sector_number (sector_at n e) = n" "si_expiration (sector_at n e) = e"
  by (simp_all add: sector_at_def)

lemma slots_queue3: "slots queue3 = {(1, 100, OnTime), (2, 100, OnTime), (3, 40, OnTime)}"
proof -
  have "fst (eq_add_active_sectors [sector_at 1 100, sector_at 2 100, sector_at 3 40] eq_new) = Ok ()"
    by code_simp
  from eq_add_active_sectors_slots [OF run_eqI [OF this]] show ?thesis
    by (auto simp: eq_new_def queue3_def)
qed

lemma queue3_wf: "eq_wf queue3"
  by (auto simp: eq_wf_def slots_queue3 single_valued_def)

lemma table3_ok: "sector_table_ok table3"
  by (auto simp: sector_table_ok_def table3_def split: if_splits)

lemma partition3_run:
  "partition_add_sectors [sector_at 1 100, sector_at 2 100, sector_at 3 40] partition_new = (Ok (), partition3)"
  unfolding partition3_def by (rule run_eqI) code_simp

lemma partition3_inv: "partition_inv partition3"
  using add_sectors_inv [OF partition_new_inv partition3_run] .

section \<open>The expiration queue\<close>

text \<open>
  C22: Rescheduling sectors as faulty moves exactly those of them that would
  expire after the new block: each gets the early slot at that block instead of
  its on-time slot. Every other sector keeps its slot, no sector gets two slots
  and none is lost.
\<close>

theorem reschedule_as_faults_refines:
  assumes "eq_wf q" and "reschedule_as_faults new sectors q = (Ok (), q')"
  shows "slots q' = fault_slots new (si_sector_number ` set sectors) (slots q) \<and>
    eq_wf q' \<and> scheduled q' = scheduled q"
  using eq.fault_law [OF assms(1) [unfolded eq_wf_def] assms(2)]
    eq.fault_keeps [OF assms(1) [unfolded eq_wf_def] assms(2)]
  by (simp add: eq_wf_def scheduled_def)

theorem reschedule_as_faults_refines_witness:
  "slots (snd (reschedule_as_faults 60 [sector_at 1 100, sector_at 3 40] queue3)) =
   {(1, 60, Early), (2, 100, OnTime), (3, 40, OnTime)}"
proof -
  have "fst (reschedule_as_faults 60 [sector_at 1 100, sector_at 3 40] queue3) = Ok ()"
    by code_simp
  from reschedule_as_faults_refines [OF queue3_wf run_eqI [OF this]]
  have "slots (snd (reschedule_as_faults 60 [sector_at 1 100, sector_at 3 40] queue3)) =
      fault_slots 60 {1, 3} {(1, 100, OnTime), (2, 100, OnTime), (3, 40, OnTime)}"
    by (simp add: slots_queue3)
  also have "\<dots> = {(1, 60, Early), (2, 100, OnTime), (3, 40, OnTime)}"
    by (auto simp: fault_slots_def)
  finally show ?thesis .
qed

text \<open>
  Recovering sectors gives every one of them that was scheduled early its
  on-time slot back, at the expiration of its record; the sectors that had
  kept their on-time slot and all other sectors are untouched.
\<close>

theorem reschedule_recovered_refines:
  assumes "eq_wf q" and "sector_table_ok tbl" and "reschedule_recovered tbl N q = (Ok (), q')"
  shows "slots q' = recovered_slots tbl (fset N) (slots q) \<and> eq_wf q' \<and> scheduled q' = scheduled q"
  using eq.recover_law [OF assms(1) [unfolded eq_wf_def] assms(2,3)]
    eq.recover_keeps [OF assms(1) [unfolded eq_wf_def] assms(2,3)]
  by (simp add: eq_wf_def scheduled_def)

theorem reschedule_recovered_refines_witness:
  "slots (snd (reschedule_recovered table3 {|3|} queue3)) = slots queue3"
proof -
  have "fst (reschedule_recovered table3 {|3|} queue3) = Ok ()" by code_simp
  from reschedule_recovered_refines [OF queue3_wf table3_ok run_eqI [OF this]]
  have "slots (snd (reschedule_recovered table3 {|3|} queue3)) = recovered_slots table3 {3} (slots queue3)"
    by simp
  also have "\<dots> = slots queue3" by (auto simp: recovered_slots_def slots_queue3)
  finally show ?thesis .
qed

text \<open>
  C23: Declaring faults and recovering the same sectors afterwards restores the
  schedule, when the sectors were scheduled at their own expiration before.
\<close>

theorem fault_recovery_round_trip:
  assumes "eq_wf q" and "sector_table_ok tbl"
    and "\<forall>i \<in> set infos. fmlookup tbl (si_sector_number i) = Some i \<and>
      (si_sector_number i, si_expiration i, OnTime) \<in> slots q"
    and "reschedule_as_faults new infos q = (Ok (), q1)"
    and "reschedule_recovered tbl (fset_of_list (map si_sector_number infos)) q1 = (Ok (), q2)"
  shows "slots q2 = slots q"
  using eq.fault_recover_restores [OF assms(1) [unfolded eq_wf_def] assms(2) _ assms(4,5)] assms(3)
  by blast

theorem fault_recovery_round_trip_witness:
  "slots (snd (reschedule_recovered table3 (fset_of_list (map si_sector_number [sector_at 1 100, sector_at 2 100]))
      (snd (reschedule_as_faults 60 [sector_at 1 100, sector_at 2 100] queue3)))) = slots queue3"
proof -
  let ?q1 = "snd (reschedule_as_faults 60 [sector_at 1 100, sector_at 2 100] queue3)"
  have f: "fst (reschedule_as_faults 60 [sector_at 1 100, sector_at 2 100] queue3) = Ok ()"
    by code_simp
  have r: "fst (reschedule_recovered table3
      (fset_of_list (map si_sector_number [sector_at 1 100, sector_at 2 100])) ?q1) = Ok ()"
    by code_simp
  show ?thesis
    by (rule fault_recovery_round_trip [OF queue3_wf table3_ok _ run_eqI [OF f] run_eqI [OF r]])
       (simp add: table3_def slots_queue3)
qed

text \<open>
  Removing sectors deletes exactly their slots, whether they are active or
  faulty, and reports each as on time or early according to the slot it had; it
  only succeeds when all of them are in the queue.
\<close>

theorem remove_sectors_exact:
  assumes "eq_wf q" and "eq_remove_sectors sectors faults q = (Ok D, q')"
  shows "slots q' = {(s, b, k). (s, b, k) \<in> slots q \<and> s \<notin> si_sector_number ` set sectors} \<and>
    si_sector_number ` set sectors \<subseteq> scheduled q \<and>
    fset (on_time_sectors D) = {s \<in> si_sector_number ` set sectors. \<exists>b. (s, b, OnTime) \<in> slots q} \<and>
    fset (early_sectors D) = {s \<in> si_sector_number ` set sectors. \<exists>b. (s, b, Early) \<in> slots q}"
  using eq_remove_sectors_slots(1,2) [OF assms] eq_remove_sectors_slots(3) [OF assms, of _ OnTime]
    eq_remove_sectors_slots(3) [OF assms, of _ Early]
  by auto

theorem remove_sectors_exact_witness:
  "slots (snd (eq_remove_sectors [sector_at 2 100, sector_at 3 40] {||} queue3)) = {(1, 100, OnTime)}"
proof -
  have "fst (eq_remove_sectors [sector_at 2 100, sector_at 3 40] {||} queue3) =
      Ok \<lparr>on_time_sectors = {|2, 3|}, early_sectors = {||}\<rparr>"
    by code_simp
  from conjunct1 [OF remove_sectors_exact [OF queue3_wf run_eqI [OF this]]]
  have "slots (snd (eq_remove_sectors [sector_at 2 100, sector_at 3 40] {||} queue3)) =
      {(s, b, k). (s, b, k) \<in> slots queue3 \<and> s \<notin> {2, 3}}" by simp
  also have "\<dots> = {(1, 100, OnTime)}" by (auto simp: slots_queue3)
  finally show ?thesis .
qed

text \<open>
  Popping the queue up to a block returns exactly the sectors whose slot is
  not after that block, on-time and early ones apart, and leaves exactly the
  later slots.
\<close>

theorem pop_until_exact:
  assumes "pop_until until q = (Ok D, q')"
  shows "slots q' = {(s, b, k). (s, b, k) \<in> slots q \<and> until < b} \<and>
    fset (on_time_sectors D) = {s. \<exists>b\<le>until. (s, b, OnTime) \<in> slots q} \<and>
    fset (early_sectors D) = {s. \<exists>b\<le>until. (s, b, Early) \<in> slots q}"
  using pop_until_slots(1) [OF assms] pop_until_slots(2) [OF assms, of _ OnTime]
    pop_until_slots(2) [OF assms, of _ Early]
  by auto

theorem pop_until_exact_witness:
  "slots (snd (pop_until 40 queue3)) = {(1, 100, OnTime), (2, 100, OnTime)}"
proof -
  have "fst (pop_until 40 queue3) = Ok \<lparr>on_time_sectors = {|3|}, early_sectors = {||}\<rparr>"
    by code_simp
  from conjunct1 [OF pop_until_exact [OF run_eqI [OF this]]]
  have "slots (snd (pop_until 40 queue3)) = {(s, b, k). (s, b, k) \<in> slots queue3 \<and> 40 < b}" .
  also have "\<dots> = {(1, 100, OnTime), (2, 100, OnTime)}" by (auto simp: slots_queue3)
  finally show ?thesis .
qed

section \<open>Partitions\<close>

text \<open>
  C3: Every partition reachable from the empty one by successful operations is
  consistent: its queue schedules exactly the live sectors, each once; the
  terminated sectors are among its sectors; the faulty ones are live; the
  recovering ones are faulty; an unproven one is live and not faulty; and only
  faulty sectors are scheduled early.
\<close>

theorem partition_reachable_inv:
  assumes "partition_step\<^sup>*\<^sup>* partition_new p"
  shows "partition_inv p"
  using assms by (induction rule: rtranclp_induct) (auto intro: partition_new_inv partition_step_inv)

theorem partition_reachable_inv_witness:
  "partition_inv (activate_unproven partition3) \<and> p_sectors partition3 = {|1, 2, 3|}"
proof -
  have "partition_step\<^sup>*\<^sup>* partition_new (activate_unproven partition3)"
    using step_add [OF partition3_run] step_activate [of partition3] by (meson rtranclp.simps)
  moreover have "p_sectors partition3 = {|1, 2, 3|}" by code_simp
  ultimately show ?thesis using partition_reachable_inv by blast
qed

text \<open>
  Declaring faults on sectors of the provider marks exactly the declared
  sectors that are neither terminated nor faulty already; they leave the
  unproven set and are rescheduled to expire early at the given block unless they
  expire before it. A declared recovery of a declared sector is retracted.
\<close>

theorem record_faults_effect:
  assumes "partition_inv p" and "sector_table_ok tbl" and "nums |\<subseteq>| fmdom tbl"
    and "record_faults tbl nums fe p = (Ok new, p')"
  shows "new = nums |-| p_faults p |-| p_terminated p \<and>
    p_faults p' = p_faults p |\<union>| new \<and> p_unproven p' = p_unproven p |-| new \<and>
    p_recoveries p' = p_recoveries p |-| nums \<and>
    p_sectors p' = p_sectors p \<and> p_terminated p' = p_terminated p \<and>
    slots (p_expirations p') = fault_slots fe (fset new) (slots (p_expirations p))"
proof -
  obtain infos q' where n: "new = new_faults nums p" "numbers_of infos = new |\<inter>| fmdom tbl"
    and q': "if infos = [] then q' = p_expirations p
      else reschedule_as_faults fe infos (p_expirations p) = (Ok (), q')"
    and p': "p' = p\<lparr>p_expirations := q', p_faults := p_faults p |\<union>| (new |\<inter>| fmdom tbl),
      p_unproven := p_unproven p |-| (new |\<inter>| fmdom tbl),
      p_recoveries := p_recoveries p |-| (nums |\<inter>| fmdom tbl)\<rparr>"
    using assms(4) by (rule record_faults_Ok [OF assms(2)])
  have new: "new = nums |-| p_faults p |-| p_terminated p"
    using assms(1) by (auto simp: n(1) new_faults_def partition_inv_def)
  have tbl: "new |\<inter>| fmdom tbl = new" "nums |\<inter>| fmdom tbl = nums" using assms(3) new by auto
  have N: "si_sector_number ` set infos = fset new"
    using n(2) tbl by (metis fset_of_list.rep_eq list.set_map)
  have "slots q' = fault_slots fe (fset new) (slots (p_expirations p))"
  proof (cases "infos = []")
    case True
    then show ?thesis using q' N by (auto simp: fault_slots_def)
  next
    case False
    with q' eq.fault_law [OF partition_invD(1) [OF assms(1)], of fe infos "()" q'] N
    show ?thesis by simp
  qed
  with new p' tbl show ?thesis by simp
qed

theorem record_faults_effect_witness:
  "p_faults (snd (record_faults table3 {|1, 3|} 60 partition3)) = {|1, 3|}"
proof -
  have run: "fst (record_faults table3 {|1, 3|} 60 partition3) = Ok {|1, 3|}" by code_simp
  have "{|1, 3|} |\<subseteq>| fmdom table3" by (simp add: table3_def)
  from record_faults_effect [OF partition3_inv table3_ok this run_eqI [OF run]]
  have "p_faults (snd (record_faults table3 {|1, 3|} 60 partition3)) = p_faults partition3 |\<union>| {|1, 3|}"
    by simp
  also have "p_faults partition3 = {||}" by code_simp
  finally show ?thesis by simp
qed

text \<open>
  Declaring faults succeeds for any set of live sectors whose non-faulty
  members are scheduled on time at the expiration of their record, as long as
  the queue has room for one more block.
\<close>

theorem record_faults_succeeds:
  assumes "partition_inv p" and "sector_table_ok tbl"
    and "nums |\<subseteq>| p_sectors p |-| p_terminated p"
    and "\<forall>n. n |\<in>| nums |-| p_faults p \<longrightarrow>
      (\<exists>i. fmlookup tbl n = Some i \<and> (n, si_expiration i, OnTime) \<in> slots (p_expirations p))"
    and "fcard (fmdom (p_expirations p)) < MAX_SECTORS" and "fcard (p_sectors p) \<le> MAX_SECTORS"
  shows "\<exists>new p'. record_faults tbl nums fe p = (Ok new, p')"
  using record_faults_total [OF assms(1-3) _ assms(5,6)] assms(4) by blast

theorem record_faults_succeeds_witness:
  "\<exists>new p'. record_faults table3 {|2|} 60 partition3 = (Ok new, p')"
proof (rule record_faults_succeeds [OF partition3_inv table3_ok])
  have e: "p_expirations partition3 = queue3" by code_simp
  show "\<forall>n. n |\<in>| {|2|} |-| p_faults partition3 \<longrightarrow>
      (\<exists>i. fmlookup table3 n = Some i \<and> (n, si_expiration i, OnTime) \<in> slots (p_expirations partition3))"
    unfolding e slots_queue3 by (simp add: table3_def)
qed code_simp+

text \<open>
  Recovering the declared recoveries makes exactly those sectors non-faulty,
  clears the declarations and gives them their on-time slots back.
\<close>

theorem recover_all_declared_effect:
  assumes "partition_inv p" and "sector_table_ok tbl"
    and "recover_all_declared_recoveries tbl p = (Ok (), p')"
  shows "p_faults p' = p_faults p |-| p_recoveries p \<and> p_recoveries p' = {||} \<and>
    p_sectors p' = p_sectors p \<and> p_terminated p' = p_terminated p \<and> p_unproven p' = p_unproven p \<and>
    slots (p_expirations p') = recovered_slots tbl (fset (p_recoveries p)) (slots (p_expirations p))"
proof -
  obtain q' where q': "reschedule_recovered tbl (p_recoveries p) (p_expirations p) = (Ok (), q')"
    and p': "p' = p\<lparr>p_expirations := q', p_faults := p_faults p |-| p_recoveries p, p_recoveries := {||}\<rparr>"
    using assms(3) by (rule recover_all_declared_recoveries_Ok)
  from eq.recover_law [OF partition_invD(1) [OF assms(1)] assms(2) q'] p' show ?thesis by simp
qed

definition recovering_partition :: partition where
  "recovering_partition =
    snd (partition_declare_faults_recovered {|1|} (snd (record_faults table3 {|1, 2|} 60 partition3)))"

lemma recovering_partition_inv: "partition_inv recovering_partition"
proof -
  have "fst (record_faults table3 {|1, 2|} 60 partition3) = Ok {|1, 2|}" by code_simp
  note f = record_faults_inv [OF partition3_inv table3_ok run_eqI [OF this]]
  have "fst (partition_declare_faults_recovered {|1|} (snd (record_faults table3 {|1, 2|} 60 partition3))) = Ok ()"
    by code_simp
  from declare_faults_recovered_inv [OF f run_eqI [OF this]] show ?thesis
    by (simp add: recovering_partition_def)
qed

theorem recover_all_declared_effect_witness:
  "p_faults (snd (recover_all_declared_recoveries table3 recovering_partition)) = {|2|}"
proof -
  have "fst (recover_all_declared_recoveries table3 recovering_partition) = Ok ()" by code_simp
  from recover_all_declared_effect [OF recovering_partition_inv table3_ok run_eqI [OF this]]
  have "p_faults (snd (recover_all_declared_recoveries table3 recovering_partition)) =
      p_faults recovering_partition |-| p_recoveries recovering_partition" by simp
  also have "\<dots> = {|2|}" by code_simp
  finally show ?thesis .
qed

text \<open>
  C24: A successful termination names live sectors only, and it concerns exactly those
  of them for which a record is passed: they become terminated, leave the queue,
  the faulty, the recovering and the unproven set, and are recorded as early
  terminations of the block. A requested sector without a record is skipped
  without an error.
\<close>

theorem terminate_sectors_effect:
  assumes "partition_inv p" and "partition_terminate_sectors b infos nums p = (Ok D, p')"
  defines "T \<equiv> nums |\<inter>| numbers_of infos"
  shows "on_time_sectors D |\<union>| early_sectors D = T \<and> nums |\<subseteq>| p_sectors p |-| p_terminated p \<and>
    p_sectors p' = p_sectors p \<and> p_terminated p' = p_terminated p |\<union>| T \<and>
    p_faults p' = p_faults p |-| T \<and> p_recoveries p' = p_recoveries p |-| T \<and>
    p_unproven p' = p_unproven p |-| T \<and>
    slots (p_expirations p') = {(s, b, k). (s, b, k) \<in> slots (p_expirations p) \<and> s |\<notin>| T} \<and>
    fmlookup (p_early_terminations p') b = Some T"
proof -
  let ?D = "on_time_sectors D |\<union>| early_sectors D"
  let ?I = "filter (\<lambda>s. si_sector_number s |\<in>| nums) infos"
  obtain q' where q': "eq_remove_sectors ?I (p_faults p) (p_expirations p) = (Ok D, q')"
    and live: "nums |\<subseteq>| p_sectors p |-| p_terminated p"
    and p': "p' = p\<lparr>p_expirations := q', p_early_terminations := fmupd b ?D (p_early_terminations p),
      p_faults := p_faults p |-| ?D, p_recoveries := p_recoveries p |-| ?D,
      p_terminated := p_terminated p |\<union>| ?D, p_unproven := p_unproven p |-| ?D\<rparr>"
    using assms(2) by (rule partition_terminate_sectors_Ok)
  note sv = partition_invD(1) [OF assms(1)]
  have N: "si_sector_number ` set ?I = fset T"
    by (auto simp: T_def fset_of_list_elem fset_of_list.rep_eq)
  have D: "?D = T" using eq.remove_takes(3) [OF sv q'] N by (metis fset_inject)
  have "slots q' = {(s, b, k). (s, b, k) \<in> slots (p_expirations p) \<and> s |\<notin>| T}"
    using eq.remove_law [OF sv q'] N by simp
  with D p' live show ?thesis by simp
qed

theorem terminate_sectors_effect_witness:
  "p_terminated (snd (partition_terminate_sectors 30 [sector_at 1 100, sector_at 2 100, sector_at 3 40]
      {|1, 3|} partition3)) = {|1, 3|}"
proof -
  let ?run = "partition_terminate_sectors 30 [sector_at 1 100, sector_at 2 100, sector_at 3 40] {|1, 3|} partition3"
  have "fst ?run = Ok \<lparr>on_time_sectors = {|1, 3|}, early_sectors = {||}\<rparr>" by code_simp
  from terminate_sectors_effect [OF partition3_inv run_eqI [OF this]]
  have "p_terminated (snd ?run) =
    p_terminated partition3 |\<union>| ({|1, 3|} |\<inter>| numbers_of [sector_at 1 100, sector_at 2 100, sector_at 3 40])"
    by blast
  also have "\<dots> = {|1, 3|}" by code_simp
  finally show ?thesis .
qed

text \<open>
  Expiring the sectors of a proven partition without declared recoveries
  terminates exactly the sectors whose slot is not after the block, removes them
  from the faulty set and records those that expired early.
\<close>

theorem pop_expired_sectors_effect:
  assumes "partition_inv p" and "partition_pop_expired_sectors until p = (Ok D, p')"
  shows "p_unproven p = {||} \<and> p_recoveries p = {||} \<and>
    fset (p_terminated p') = fset (p_terminated p) \<union> {s. \<exists>b\<le>until. \<exists>k. (s, b, k) \<in> slots (p_expirations p)} \<and>
    fset (p_faults p') = fset (p_faults p) - {s. \<exists>b\<le>until. \<exists>k. (s, b, k) \<in> slots (p_expirations p)} \<and>
    slots (p_expirations p') = {(s, b, k). (s, b, k) \<in> slots (p_expirations p) \<and> until < b} \<and>
    fmlookup (p_early_terminations p') until = Some (early_sectors D) \<and>
    fset (early_sectors D) = {s. \<exists>b\<le>until. (s, b, Early) \<in> slots (p_expirations p)}"
proof -
  let ?D = "on_time_sectors D |\<union>| early_sectors D"
  obtain q' where q': "pop_until until (p_expirations p) = (Ok D, q')"
    and e: "p_unproven p = {||}" "p_recoveries p = {||}"
    and p': "p' = p\<lparr>p_expirations := q', p_terminated := p_terminated p |\<union>| ?D,
      p_faults := p_faults p |-| ?D,
      p_early_terminations := fmupd until (early_sectors D) (p_early_terminations p)\<rparr>"
    using assms(2) by (rule partition_pop_expired_sectors_Ok)
  have D: "s |\<in>| es_part k D \<longleftrightarrow> (\<exists>b\<le>until. (s, b, k) \<in> slots (p_expirations p))" for s k
    using eq.pop_law [OF q'] by blast
  have "fset ?D = {s. \<exists>b\<le>until. \<exists>k. (s, b, k) \<in> slots (p_expirations p)}"
    using D ex_es_part [of _ D] by (auto simp del: es_part.simps) metis+
  moreover have "fset (early_sectors D) = {s. \<exists>b\<le>until. (s, b, Early) \<in> slots (p_expirations p)}"
    using D [of _ Early] by auto
  moreover have "slots q' = {(s, b, k). (s, b, k) \<in> slots (p_expirations p) \<and> until < b}"
    using eq.pop_law [OF q'] by blast
  ultimately show ?thesis using p' e by auto
qed

theorem pop_expired_sectors_effect_witness:
  "fset (p_terminated (snd (partition_pop_expired_sectors 50 (activate_unproven partition3)))) = {3}"
proof -
  let ?run = "partition_pop_expired_sectors 50 (activate_unproven partition3)"
  have "fst ?run = Ok \<lparr>on_time_sectors = {|3|}, early_sectors = {||}\<rparr>" by code_simp
  from pop_expired_sectors_effect [OF activate_unproven_inv [OF partition3_inv] run_eqI [OF this]]
  have "fset (p_terminated (snd ?run)) = fset (p_terminated (activate_unproven partition3)) \<union>
      {s. \<exists>b\<le>50. \<exists>k. (s, b, k) \<in> slots (p_expirations (activate_unproven partition3))}" by blast
  moreover have "p_terminated (activate_unproven partition3) = {||}"
    and "p_expirations (activate_unproven partition3) = queue3" by code_simp+
  ultimately show ?thesis by (auto simp: slots_queue3)
qed

text \<open>
  C18: Popping at most n early terminations always succeeds, splits the recorded
  pairs of block and sector into those returned and those kept without losing or
  duplicating one, returns at most n and counts them, and reports that there is
  more exactly when something is left. When fewer than n were returned nothing is
  left.
\<close>

theorem pop_early_terminations_splits:
  assumes "n < u64_bound" and "fcard (fmdom (p_early_terminations p)) \<le> MAX_SECTORS"
    and "\<forall>b S. fmlookup (p_early_terminations p) b = Some S \<longrightarrow> fcard S \<le> MAX_SECTORS"
  shows "\<exists>r m. partition_pop_early_terminations n p =
      (Ok (r, fmdom m \<noteq> {||}), p\<lparr>p_early_terminations := m\<rparr>) \<and>
    et_pairs (p_early_terminations p) = et_pairs (tr_sectors r) \<union> et_pairs m \<and>
    et_pairs (tr_sectors r) \<inter> et_pairs m = {} \<and>
    tr_sectors_processed r = card (et_pairs (tr_sectors r)) \<and> tr_sectors_processed r \<le> n \<and>
    (tr_sectors_processed r < n \<longrightarrow> fmdom m = {||})"
  by (rule pop_early_terminations_result [OF assms]) blast

theorem pop_early_terminations_splits_witness:
  "\<exists>r m. partition_pop_early_terminations 2
      (partition_new\<lparr>p_early_terminations := fmap_of_list [(5, {|1, 2, 3|})]\<rparr>) =
      (Ok (r, fmdom m \<noteq> {||}), partition_new\<lparr>p_early_terminations := m\<rparr>) \<and>
    tr_sectors_processed r = card (et_pairs (tr_sectors r)) \<and> tr_sectors_processed r \<le> 2"
proof -
  let ?p = "partition_new\<lparr>p_early_terminations := fmap_of_list [(5, {|1, 2, 3|})]\<rparr>"
  have S: "fcard {|1, 2, 3 :: nat|} \<le> MAX_SECTORS" by code_simp
  have "2 < u64_bound" "fcard (fmdom (p_early_terminations ?p)) \<le> MAX_SECTORS"
    by code_simp+
  moreover have "\<forall>b S. fmlookup (p_early_terminations ?p) b = Some S \<longrightarrow> fcard S \<le> MAX_SECTORS"
    using S by simp
  ultimately show ?thesis using pop_early_terminations_splits [of 2 ?p] by auto
qed

text \<open>
  A terminated sector without a record never gets one again: the queue does not
  hold it, and only live sectors can be terminated.
\<close>

definition unrecorded :: "sector_number \<Rightarrow> (block, sector_number fset) fmap \<Rightarrow> bool" where
  "unrecorded s m \<longleftrightarrow> (\<forall>b S. fmlookup m b = Some S \<longrightarrow> s |\<notin>| S)"

lemma unrecorded_fmupd: "unrecorded s m \<Longrightarrow> s |\<notin>| S \<Longrightarrow> unrecorded s (fmupd b S m)"
  by (simp add: unrecorded_def)

lemma take_subset: "s |\<notin>| S \<Longrightarrow> s |\<notin>| fset_of_list (take n (sorted_list_of_fset S))"
  by (auto simp: fset_of_list_elem dest: in_set_takeD)

lemma pop_early_loop_unrecorded:
  assumes "pop_early_loop n L (P, R, r) = Ok (P', R', r')" "\<forall>(b, S)\<in>set L. s |\<notin>| S"
    "unrecorded s (tr_sectors r)" "\<forall>T b. R = Some (T, b) \<longrightarrow> s |\<notin>| T"
  shows "unrecorded s (tr_sectors r') \<and> (\<forall>T b. R' = Some (T, b) \<longrightarrow> s |\<notin>| T)"
  using assms
proof (induction L arbitrary: P R r)
  case (Cons x L)
  obtain b S where x: "x = (b, S)" by (cases x)
  obtain limit k where k: "sub_u n (tr_sectors_processed r) = (Ok limit :: (general_pallet_error, _) res)"
    "add_u u64_bound (tr_sectors_processed r) (if limit < fcard S then limit else fcard S) =
      (Ok k :: (general_pallet_error, _) res)"
    using Cons.prems(1) by (auto simp: x res_bind_Ok_iff Let_def split: if_splits)
  define T where "T = (if limit < fcard S then fset_of_list (take limit (sorted_list_of_fset S)) else S)"
  define r1 where "r1 = r\<lparr>tr_sectors_processed := k, tr_sectors := fmupd b T (tr_sectors r)\<rparr>"
  define R1 where "R1 = (if limit < fcard S then Some (ffilter (\<lambda>n. n |\<notin>| T) S, b) else R)"
  define P1 where "P1 = (if limit < fcard S then P else P @ [b])"
  have S: "s |\<notin>| S" using Cons.prems(2) by (simp add: x)
  have step: "unrecorded s (tr_sectors r1)" "\<forall>T b. R1 = Some (T, b) \<longrightarrow> s |\<notin>| T"
    using S Cons.prems(3,4) take_subset [OF S] by (auto simp: r1_def R1_def T_def intro: unrecorded_fmupd)
  have "(if n \<le> k then Ok (P1, R1, r1) else pop_early_loop n L (P1, R1, r1)) = Ok (P', R', r')"
    using Cons.prems(1) unfolding r1_def R1_def P1_def T_def by (simp add: x k Let_def split: if_splits)
  then show ?case using Cons.IH [of P1 R1 r1] step Cons.prems(2) by (auto split: if_splits)
qed simp

lemma pop_early_terminations_unrecorded:
  assumes "partition_pop_early_terminations n p = (Ok (r, more'), p')" "unrecorded s (p_early_terminations p)"
  shows "unrecorded s (tr_sectors r) \<and> unrecorded s (p_early_terminations p')"
proof -
  obtain P R m where run: "pop_early_loop n (sorted_list_of_fmap (p_early_terminations p))
      ([], None, tr_new\<lparr>tr_partitions_processed := 1\<rparr>) = Ok (P, R, r)"
    "put_remaining R (p_early_terminations p) = Ok m"
    "p' = p\<lparr>p_early_terminations := fmfilter (\<lambda>b. b \<notin> set P) m\<rparr>"
    using assms(1) by (auto simp: partition_pop_early_terminations_def ok_iff Let_def try_from_map_def split: if_splits)
  have "\<forall>(b, S)\<in>set (sorted_list_of_fmap (p_early_terminations p)). s |\<notin>| S"
    using assms(2) by (auto simp: unrecorded_def)
  then have R: "unrecorded s (tr_sectors r)" "\<forall>T b. R = Some (T, b) \<longrightarrow> s |\<notin>| T"
    using pop_early_loop_unrecorded [OF run(1), of s] by (auto simp: unrecorded_def tr_new_def)
  have "unrecorded s m"
    using run(2) R(2) assms(2) by (auto simp: put_remaining_def ok_iff intro: unrecorded_fmupd split: option.splits)
  then show ?thesis using R(1) run(3) by (simp add: unrecorded_def)
qed

definition forgotten :: "sector_number \<Rightarrow> partition \<Rightarrow> bool" where
  "forgotten s p \<longleftrightarrow> partition_inv p \<and> s |\<in>| p_terminated p \<and> unrecorded s (p_early_terminations p)"

lemma partition_step_forgotten: "partition_step p p' \<Longrightarrow> forgotten s p \<Longrightarrow> forgotten s p'"
proof -
  assume step: "partition_step p p'" and f: "forgotten s p"
  have inv: "partition_inv p'" using partition_step_inv [OF step] f by (simp add: forgotten_def)
  have s: "s \<notin> fst ` slots (p_expirations p)" "s |\<in>| p_terminated p" "unrecorded s (p_early_terminations p)"
    using f partition_invD(2) [of p] by (auto simp: forgotten_def)
  note sv = partition_invD(1) [OF conjunct1 [OF f [unfolded forgotten_def]]]
  from step have "s |\<in>| p_terminated p' \<and> unrecorded s (p_early_terminations p')"
  proof cases
    case (step_terminate b infos nums D)
    then show ?thesis
    proof (rule partition_terminate_sectors_Ok)
      fix q' assume q': "eq_remove_sectors (filter (\<lambda>s. si_sector_number s |\<in>| nums) infos) (p_faults p) (p_expirations p) = (Ok D, q')"
        "nums |\<subseteq>| p_sectors p |-| p_terminated p"
        and p': "p' = p\<lparr>p_expirations := q',
      p_early_terminations := fmupd b (on_time_sectors D |\<union>| early_sectors D) (p_early_terminations p),
      p_faults := p_faults p |-| (on_time_sectors D |\<union>| early_sectors D),
      p_recoveries := p_recoveries p |-| (on_time_sectors D |\<union>| early_sectors D),
      p_terminated := p_terminated p |\<union>| (on_time_sectors D |\<union>| early_sectors D),
      p_unproven := p_unproven p |-| (on_time_sectors D |\<union>| early_sectors D)\<rparr>"
      have "fset (on_time_sectors D |\<union>| early_sectors D) \<subseteq> fset nums" unfolding eq.remove_takes(3) [OF sv q'(1)] by auto
      then have "s |\<notin>| on_time_sectors D |\<union>| early_sectors D" using q'(2) s(2) by blast
      then show ?thesis using s p' by (simp add: unrecorded_fmupd)
    qed
  next
    case (step_expire until D)
    then show ?thesis
    proof (rule partition_pop_expired_sectors_Ok)
      fix q' assume q': "pop_until until (p_expirations p) = (Ok D, q')"
        and p': "p' = p\<lparr>p_expirations := q',
      p_terminated := p_terminated p |\<union>| (on_time_sectors D |\<union>| early_sectors D),
      p_faults := p_faults p |-| (on_time_sectors D |\<union>| early_sectors D),
      p_early_terminations := fmupd until (early_sectors D) (p_early_terminations p)\<rparr>"
      have "s |\<notin>| early_sectors D" using eq.pop_takes(3) [OF sv q'] s(1) by auto
      then show ?thesis using s p' by (simp add: unrecorded_fmupd)
    qed
  next
    case (step_pop_early n r)
    then show ?thesis
      using pop_early_terminations_unrecorded [of n p "fst r" "snd r" p' s] pop_early_terminations_Ok [of n p r p'] s by auto
  qed (use s in \<open>auto elim!: partition_add_sectors_Ok record_faults_Ok recover_all_declared_recoveries_Ok
      dest!: declare_faults_recovered_Ok simp: activate_unproven_def\<close>)
  then show ?thesis using inv by (simp add: forgotten_def)
qed

lemma partition_steps_forgotten: "partition_step\<^sup>*\<^sup>* p p' \<Longrightarrow> forgotten s p \<Longrightarrow> forgotten s p'"
  by (induction rule: rtranclp_induct) (blast intro: partition_step_forgotten)+

text \<open>
  C25: A second termination in the same block replaces the record of the first
  one. A sector that was recorded for this block only is still terminated then,
  but whatever is done with the partition afterwards, no call that pops the early
  terminations returns it; these calls are where the pallet learns which sectors
  it has to report to the market.
\<close>

theorem early_termination_record_lost:
  assumes "partition_inv p" and "partition_terminate_sectors b infos nums p = (Ok D, p')"
    and "(b, s) \<in> et_pairs (p_early_terminations p)" and "s |\<in>| p_terminated p"
    and "\<forall>b'. (b', s) \<in> et_pairs (p_early_terminations p) \<longrightarrow> b' = b"
    and "partition_step\<^sup>*\<^sup>* p' p''"
  shows "s |\<in>| p_terminated p'' \<and>
    (\<forall>n r more' q. partition_pop_early_terminations n p'' = (Ok (r, more'), q) \<longrightarrow>
      (\<forall>c. (c, s) \<notin> et_pairs (tr_sectors r)))"
proof -
  let ?D = "on_time_sectors D |\<union>| early_sectors D"
  let ?I = "filter (\<lambda>s. si_sector_number s |\<in>| nums) infos"
  obtain q' where q': "eq_remove_sectors ?I (p_faults p) (p_expirations p) = (Ok D, q')"
    and live: "nums |\<subseteq>| p_sectors p |-| p_terminated p"
    and p': "p' = p\<lparr>p_expirations := q', p_early_terminations := fmupd b ?D (p_early_terminations p),
      p_faults := p_faults p |-| ?D, p_recoveries := p_recoveries p |-| ?D,
      p_terminated := p_terminated p |\<union>| ?D, p_unproven := p_unproven p |-| ?D\<rparr>"
    using assms(2) by (rule partition_terminate_sectors_Ok)
  have "fset ?D \<subseteq> fset nums" unfolding eq.remove_takes(3) [OF partition_invD(1) [OF assms(1)] q'] by auto
  then have "s |\<notin>| ?D" using live assms(4) by blast
  then have "forgotten s p'"
    using terminate_sectors_inv [OF assms(1,2)] p' assms(4,5)
    by (auto simp: forgotten_def unrecorded_def in_et_pairs)
  then have "forgotten s p''" by (rule partition_steps_forgotten [OF assms(6)])
  then have last: "s |\<in>| p_terminated p''" "unrecorded s (p_early_terminations p'')" by (simp_all add: forgotten_def)
  have "(c, s) \<notin> et_pairs (tr_sectors r)" if "partition_pop_early_terminations n p'' = (Ok (r, more'), q)" for n r more' q c
    using pop_early_terminations_unrecorded [OF that last(2)] by (simp add: unrecorded_def in_et_pairs)
  then show ?thesis using last(1) by blast
qed

theorem early_termination_record_lost_witness:
  "let all = [sector_at 1 100, sector_at 2 100, sector_at 3 40];
       p1 = snd (partition_terminate_sectors 30 all {|1|} partition3);
       p2 = snd (partition_terminate_sectors 30 all {|2|} p1)
   in (30, 1) \<in> et_pairs (p_early_terminations p1) \<and> 1 |\<in>| p_terminated p2 \<and>
      (\<exists>r q. partition_pop_early_terminations 10 p2 = (Ok (r, False), q) \<and> (\<forall>c. (c, 1) \<notin> et_pairs (tr_sectors r)) \<and>
        (30, 2) \<in> et_pairs (tr_sectors r))"
proof -
  let ?all = "[sector_at 1 100, sector_at 2 100, sector_at 3 40]"
  let ?p1 = "snd (partition_terminate_sectors 30 ?all {|1|} partition3)"
  let ?p2 = "snd (partition_terminate_sectors 30 ?all {|2|} ?p1)"
  have r1: "fst (partition_terminate_sectors 30 ?all {|1|} partition3) =
      Ok \<lparr>on_time_sectors = {|1|}, early_sectors = {||}\<rparr>" by code_simp
  have r2: "fst (partition_terminate_sectors 30 ?all {|2|} ?p1) =
      Ok \<lparr>on_time_sectors = {|2|}, early_sectors = {||}\<rparr>" by code_simp
  have m: "p_early_terminations ?p1 = fmap_of_list [(30, {|1|})]" and t: "1 |\<in>| p_terminated ?p1" by code_simp+
  have e: "(30, 1) \<in> et_pairs (p_early_terminations ?p1)"
    "\<forall>b. (b, 1) \<in> et_pairs (p_early_terminations ?p1) \<longrightarrow> b = 30"
    unfolding m in_et_pairs by (auto split: if_splits)
  have "partition_inv ?p1" using terminate_sectors_inv [OF partition3_inv run_eqI [OF r1]] .
  note lost = early_termination_record_lost [OF this run_eqI [OF r2] e(1) t e(2) rtranclp.rtrancl_refl]
  have "(case fst (partition_pop_early_terminations 10 ?p2) of Ok (r, f) \<Rightarrow> \<not> f \<and> fmlookup (tr_sectors r) 30 = Some {|2|} | _ \<Rightarrow> False)"
    by code_simp
  then obtain r q where pop: "partition_pop_early_terminations 10 ?p2 = (Ok (r, False), q)" "fmlookup (tr_sectors r) 30 = Some {|2|}"
    by (cases "partition_pop_early_terminations 10 ?p2") (auto split: res.splits)
  then have "(30, 2) \<in> et_pairs (tr_sectors r)" by (simp add: in_et_pairs)
  then show ?thesis using lost e(1) pop(1) unfolding Let_def by blast
qed

end
