(* ===== verification/Deadline_Claims.thy ===== *)
theory Deadline_Claims
  imports Deadline_Add Partition_Claims
begin

text \<open>
  The properties of deadlines, each with a run on concrete sectors that meets
  its hypotheses, and two runs that show where sectors are lost.
\<close>

section \<open>Concrete deadlines\<close>

definition three_sectors :: "sector_on_chain_info list" where
  "three_sectors = [sector_at 1 100, sector_at 2 100, sector_at 3 100]"

definition deadline3 :: deadline where
  "deadline3 = snd (deadline_add_sectors 2 three_sectors deadline_new)"

lemma deadline3_run: "deadline_add_sectors 2 three_sectors deadline_new = (Ok (), deadline3)"
  unfolding deadline3_def by (rule run_eqI) code_simp

lemma three_sectors_fresh:
  "si_sector_number ` set three_sectors \<inter> all_sectors (d_partitions deadline_new) = {}"
  "distinct (map si_sector_number three_sectors)"
  by (simp_all add: three_sectors_def deadline_new_def all_sectors_def)

lemma deadline3_reachable: "(deadline_step 2)\<^sup>*\<^sup>* deadline_new deadline3"
  using three_sectors_fresh deadline3_run by (blast intro: dstep_add)

section \<open>The invariant\<close>

text \<open>
  C5: In every deadline that its operations can produce, the counters are exact:
  live_sectors is the number of sectors of the partitions that are not
  terminated and total_sectors the number of all of them. Each partition is
  consistent, no sector is in two partitions, the partitions are numbered
  without gaps, none holds more than the partition size and all but the last
  are full, which is what add_sectors relies on when it starts at the last one.
\<close>

theorem deadline_counts_and_packing:
  assumes "(deadline_step psize)\<^sup>*\<^sup>* deadline_new d"
  shows "deadline_inv psize d"
  using assms by (rule deadline_reachable_inv)

theorem deadline_counts_and_packing_witness:
  "deadline_inv 2 deadline3 \<and> d_live_sectors deadline3 = 3 \<and> fcard (fmdom (d_partitions deadline3)) = 2"
proof -
  have "d_live_sectors deadline3 = 3" "fcard (fmdom (d_partitions deadline3)) = 2"
    unfolding deadline3_def by code_simp+
  then show ?thesis using deadline_counts_and_packing [OF deadline3_reachable] by simp
qed

section \<open>Adding sectors\<close>

text \<open>
  C26: The unbounded loop of add_sectors ends whenever a partition can hold a
  sector: within as many iterations as there are partitions, plus two for each
  new sector, it has returned, with a result that more iterations would not
  change.
\<close>

theorem add_sectors_loop_ends:
  assumes "0 < psize" "sectors \<noteq> []" "add_sectors_fuel sectors m \<le> fuel"
  shows "fill_partitions fuel psize idx sectors m us \<noteq> Panic \<and>
    fill_partitions fuel psize idx sectors m us = fill_partitions (add_sectors_fuel sectors m) psize idx sectors m us"
proof -
  have "fill_partitions (add_sectors_fuel sectors m) psize idx sectors m us \<noteq> Panic"
    by (rule fill_partitions_returns [OF assms(1,2) fill_measure_fuel])
  with fill_partitions_fuel_mono [OF refl this assms(3)] show ?thesis by simp
qed

theorem add_sectors_loop_ends_witness:
  "fill_partitions 100 2 0 three_sectors fmempty [] \<noteq> Panic \<and>
   (\<exists>m. fill_partitions 100 2 0 three_sectors fmempty [] = Ok (m, [(100, 0), (100, 0), (100, 1)]))"
proof -
  have "fill_partitions (add_sectors_fuel three_sectors fmempty) 2 0 three_sectors fmempty [] =
      Ok (d_partitions deadline3, [(100, 0), (100, 0), (100, 1)])"
    unfolding deadline3_def by code_simp
  moreover have "three_sectors \<noteq> []" "add_sectors_fuel three_sectors fmempty \<le> 100"
    by (simp_all add: three_sectors_def add_sectors_fuel_def)
  ultimately show ?thesis using add_sectors_loop_ends [of 2 three_sectors fmempty 100 0 "[]"] by auto
qed

text \<open>
  C13: A successful add_sectors places each of the new sectors in a partition of
  the deadline, takes none away, counts them as live, and keeps the partitions
  packed.
\<close>

theorem add_sectors_places_all:
  assumes "deadline_inv psize d" "deadline_add_sectors psize sectors d = (Ok (), d')"
    "si_sector_number ` set sectors \<inter> all_sectors (d_partitions d) = {}"
    "distinct (map si_sector_number sectors)"
  shows "deadline_inv psize d' \<and>
    all_sectors (d_partitions d') = all_sectors (d_partitions d) \<union> si_sector_number ` set sectors \<and>
    d_live_sectors d' = d_live_sectors d + length sectors \<and> packed psize (d_partitions d')"
proof -
  have "d_live_sectors d' = d_live_sectors d + length sectors"
  proof (cases "sectors = []")
    case False
    with assms(2) show ?thesis by (rule deadline_add_sectors_Ok)
  qed (use assms(2) in \<open>simp add: deadline_add_sectors_def ok_iff\<close>)
  then show ?thesis using deadline_add_sectors_inv [OF assms] by (simp add: deadline_inv_def)
qed

theorem add_sectors_places_all_witness:
  "deadline_inv 2 deadline3 \<and> all_sectors (d_partitions deadline3) = {1, 2, 3}"
  using add_sectors_places_all [OF deadline_new_inv deadline3_run three_sectors_fresh]
  by (simp add: three_sectors_def deadline_new_def all_sectors_def)

section \<open>Proofs\<close>

lemma record_proven_partition_posts:
  assumes "record_proven_partition tbl n d = (Ok (), d')"
  shows "d_partitions_posted d' = finsert n (d_partitions_posted d) \<and> fmdom (d_partitions d') = fmdom (d_partitions d) \<and>
    n |\<in>| fmdom (d_partitions d)"
  using assms by (auto simp: record_proven_partition_def ok_iff fmdomI)

lemma record_proven_posts:
  assumes "deadline_record_proven tbl ns d = (Ok (), d')"
  shows "d_partitions_posted d' = d_partitions_posted d |\<union>| fset_of_list ns \<and> fmdom (d_partitions d') = fmdom (d_partitions d)
    \<and> set ns \<subseteq> fset (fmdom (d_partitions d))"
  using assms unfolding deadline_record_proven_def
proof (induction ns arbitrary: d)
  case (Cons n ns)
  from Cons.prems obtain d1 where d1: "record_proven_partition tbl n d = (Ok (), d1)"
    "forM ns (record_proven_partition tbl) d1 = (Ok (), d')"
    by (auto simp: ok_iff)
  from Cons.IH [OF d1(2)] record_proven_partition_posts [OF d1(1)] show ?case by auto
qed (simp add: ok_iff)

text \<open>
  Proving is once per window: after a successful record_proven, each of its
  partitions is marked as posted, and a later record_proven that starts with one
  of them fails with DeadlineErrorPartitionAlreadyProven and changes nothing.
\<close>

theorem proven_partition_rejected_again:
  assumes "deadline_record_proven tbl ns d = (Ok (), d')" "n \<in> set ns"
  shows "deadline_record_proven tbl' (n # ns') d' = (Err DeadlineErrorPartitionAlreadyProven, d')"
proof -
  have "n |\<in>| d_partitions_posted d'" "n |\<in>| fmdom (d_partitions d')"
    using record_proven_posts [OF assms(1)] assms(2) by (auto simp: fset_of_list_elem)
  then obtain p where "fmlookup (d_partitions d') n = Some p" "n |\<in>| d_partitions_posted d'" by (auto simp: fmlookup_dom_iff)
  moreover from this have "fmupd n p (d_partitions d') = d_partitions d'" by (intro fmap_ext) auto
  ultimately show ?thesis
    by (simp add: deadline_record_proven_def record_proven_partition_def at_partition_def monad_defs)
qed

theorem proven_partition_rejected_again_witness:
  "fst (deadline_record_proven fmempty [0, 1] deadline3) = Ok () \<and>
   fst (deadline_record_proven fmempty [1] (snd (deadline_record_proven fmempty [0, 1] deadline3))) =
     Err DeadlineErrorPartitionAlreadyProven"
proof -
  have run: "fst (deadline_record_proven fmempty [0, 1] deadline3) = Ok ()" unfolding deadline3_def by code_simp
  from proven_partition_rejected_again [OF run_eqI [OF this], of 1 fmempty "[]"] run show ?thesis by simp
qed

section \<open>Sectors that are lost\<close>

text \<open>
  The expiration blocks of a deadline name one partition per block. When
  sectors of two partitions expire at the same block, only the partition added
  last is visited: three sectors that expire at block 100, with partitions of
  two sectors, leave sectors 1 and 2 live after block 100 has been popped, and
  no later pop ever expires them.
\<close>

theorem colliding_expirations_never_expire:
  "\<exists>d d' D.
     deadline_add_sectors 2 three_sectors deadline_new = (Ok (), d) \<and>
     deadline_pop_expired_sectors 100 (snd (deadline_record_proven fmempty [0, 1] d)) = (Ok D, d') \<and>
     on_time_sectors D = {|3|} \<and> early_sectors D = {||} \<and> d_live_sectors d' = 2 \<and>
     (\<forall>until. deadline_pop_expired_sectors until d' = (Ok es_new, d'))"
proof -
  let ?d = "snd (deadline_record_proven fmempty [0, 1] deadline3)"
  let ?run = "deadline_pop_expired_sectors 100 ?d"
  have run: "fst ?run = Ok \<lparr> on_time_sectors = {|3|}, early_sectors = {||} \<rparr>"
    and rest: "d_live_sectors (snd ?run) = 2" "fmdom (d_expirations_blocks (snd ?run)) = {||}"
    unfolding deadline3_def by code_simp+
  from rest(2) have "d_expirations_blocks (snd ?run) = fmempty" by (metis fmrestrict_fset_dom fmrestrict_fset_null)
  then have "deadline_pop_expired_sectors until (snd ?run) = (Ok es_new, snd ?run)" for until
    by (simp add: deadline_pop_expired_sectors_def pop_expired_partitions_def monad_defs sorted_list_of_fmap_def)
  then show ?thesis using deadline3_run run_eqI [OF run] rest(1)
    by (intro exI [of _ deadline3] exI [of _ "snd ?run"] exI) auto
qed

text \<open>
  A partition that is due under two blocks is popped twice, and the second
  pop overwrites the early terminations that the first one recorded. Sector 1 is
  declared faulty and expires early together with sector 2, which expires on
  time: the deadline reports sector 1 as an early expiration, but processing the
  early terminations afterwards returns no sector at all, so its deal is never
  terminated.
\<close>

theorem repeated_pop_loses_early_termination:
  "let tbl = fmap_of_list [(1, sector_at 1 40), (2, sector_at 2 100)];
       d1 = snd (deadline_add_sectors 2 [sector_at 1 40, sector_at 2 100] deadline_new);
       d2 = snd (deadline_record_proven tbl [0] d1);
       d3 = snd (deadline_record_faults tbl (fmap_of_list [(0, {|1|})]) 30 d2);
       d4 = snd (deadline_pop_expired_sectors 100 d3)
   in fst (deadline_record_faults tbl (fmap_of_list [(0, {|1|})]) 30 d2) = Ok () \<and>
      fst (deadline_pop_expired_sectors 100 d3) = Ok \<lparr> on_time_sectors = {|2|}, early_sectors = {|1|} \<rparr> \<and>
      fst (deadline_pop_early_terminations 10 10 d4) =
        Ok (\<lparr> tr_sectors = fmap_of_list [(100, {||})], tr_partitions_processed = 1, tr_sectors_processed = 0 \<rparr>, False)"
  by code_simp

end
