(* ===== verification/DeadlineInfo_Claims.thy ===== *)
theory DeadlineInfo_Claims
  imports DeadlineInfo
begin

text \<open>
  Properties of the proving-period arithmetic: the challenge windows tile the
  proving period, the next occurrence of a deadline is the first one in a later
  period, and a mutable deadline neither is open nor opens soon.
\<close>

text \<open>The parameters of a proving period: its windows cover it exactly.\<close>

definition period_params_ok :: "nat \<Rightarrow> block \<Rightarrow> block \<Rightarrow> bool" where
  "period_params_ok deadlines period window \<longleftrightarrow> 0 < window \<and> 0 < deadlines \<and> deadlines * window = period"

lemma deadline_info_new_Ok:
  assumes "period_params_ok n period window" "idx < n" "ps + period < u64_bound"
    and "lookback \<le> ps" "cutoff \<le> ps"
  obtains d where "deadline_info_new b ps idx n period window lookback cutoff = Ok d"
    "di_block_number d = b" "di_period_start d = ps" "di_idx d = idx"
    "di_open_at d = ps + idx * window" "di_close_at d = ps + idx * window + window"
    "di_challenge d = ps + idx * window - lookback" "di_fault_cutoff d = ps + idx * window - cutoff"
    "di_w_post_proving_period d = period" "di_w_post_challenge_window d = window"
    "di_w_post_period_deadlines d = n" "di_w_post_challenge_lookback d = lookback"
    "di_fault_declaration_cutoff d = cutoff"
proof -
  have "(idx + 1) * window \<le> n * window" using assms(2) by (intro mult_le_mono1) simp
  then have "idx * window + window \<le> period" using assms(1) by (simp add: period_params_ok_def)
  then have "idx * window < u64_bound" "ps + idx * window < u64_bound"
    "ps + idx * window + window < u64_bound" using assms(3) by simp_all
  then have "deadline_info_new b ps idx n period window lookback cutoff = Ok
     \<lparr> di_block_number = b, di_period_start = ps, di_idx = idx,
       di_open_at = ps + idx * window, di_close_at = ps + idx * window + window,
       di_fault_cutoff = ps + idx * window - cutoff, di_challenge = ps + idx * window - lookback,
       di_w_post_period_deadlines = n, di_w_post_proving_period = period,
       di_w_post_challenge_window = window, di_w_post_challenge_lookback = lookback,
       di_fault_declaration_cutoff = cutoff \<rparr>"
    using assms(2,4,5) by (simp add: deadline_info_new_def mul_u_def add_u_def sub_u_def)
  then show thesis by (rule that) simp_all
qed

lemma deadline_info_new_OkD:
  assumes "deadline_info_new b ps idx n period window lookback cutoff = Ok d" "idx < n"
  shows "di_block_number d = b" "di_period_start d = ps" "di_idx d = idx"
    "di_open_at d = ps + idx * window" "di_close_at d = ps + idx * window + window"
    "di_w_post_proving_period d = period" "di_w_post_challenge_window d = window"
    "di_w_post_period_deadlines d = n"
  using assms by (auto simp: deadline_info_new_def ok_iff)

lemma di_next_OkD:
  assumes "di_next d = Ok d'" "di_idx d < di_w_post_period_deadlines d"
  shows "di_period_start d' = di_period_start d +
      di_w_post_proving_period d * (1 + (di_block_number d - di_period_start d) div di_w_post_proving_period d)"
    "di_open_at d' = di_period_start d' + di_idx d * di_w_post_challenge_window d"
    "di_close_at d' = di_open_at d' + di_w_post_challenge_window d"
    "di_block_number d' = di_block_number d" "di_idx d' = di_idx d"
    "di_period_start d \<le> di_block_number d" "0 < di_w_post_proving_period d"
proof -
  let ?ps = "di_period_start d +
    di_w_post_proving_period d * (1 + (di_block_number d - di_period_start d) div di_w_post_proving_period d)"
  from assms(1) have g: "di_period_start d \<le> di_block_number d" "0 < di_w_post_proving_period d"
    and new: "deadline_info_new (di_block_number d) ?ps (di_idx d) (di_w_post_period_deadlines d)
      (di_w_post_proving_period d) (di_w_post_challenge_window d) (di_w_post_challenge_lookback d)
      (di_fault_declaration_cutoff d) = Ok d'"
    by (auto simp: di_next_def ok_iff)
  note n = deadline_info_new_OkD [OF new assms(2)]
  show "di_period_start d' = ?ps" "di_block_number d' = di_block_number d" "di_idx d' = di_idx d"
    "di_open_at d' = di_period_start d' + di_idx d * di_w_post_challenge_window d"
    "di_close_at d' = di_open_at d' + di_w_post_challenge_window d"
    using n by simp_all
  show "di_period_start d \<le> di_block_number d" "0 < di_w_post_proving_period d" by (fact g)+
qed

lemma next_period_start_gt:
  fixes b ps P :: nat
  assumes "0 < P" "ps \<le> b"
  shows "b < ps + P * (1 + (b - ps) div P)" "ps + P * ((b - ps) div P) \<le> b"
proof -
  have "b - ps < P * (1 + (b - ps) div P)" using assms(1) by (simp add: dividend_less_times_div)
  then show "b < ps + P * (1 + (b - ps) div P)" using assms(2) by linarith
  have "P * ((b - ps) div P) \<le> b - ps" by simp
  then show "ps + P * ((b - ps) div P) \<le> b" using assms(2) by linarith
qed

text \<open>
  The first deadline of a period opens with the period, although the fields are
  documented with \<open>period_start < open_at\<close>.
\<close>

theorem first_deadline_opens_at_start:
  assumes "deadline_info_new b ps 0 n period window lookback cutoff = Ok d" "0 < n"
  shows "di_open_at d = di_period_start d"
  using deadline_info_new_OkD [OF assms] by simp

theorem first_deadline_opens_at_start_witness:
  "\<exists>d. deadline_info_new 45 40 0 4 40 10 1 2 = (Ok d :: (general_pallet_error, deadline_info) res) \<and> di_open_at d = di_period_start d"
proof -
  have "(case deadline_info_new 45 40 0 4 40 10 1 2 of (Ok d :: (general_pallet_error, deadline_info) res) \<Rightarrow> True | _ \<Rightarrow> False)"
    by code_simp
  then obtain d where "deadline_info_new 45 40 0 4 40 10 1 2 = (Ok d :: (general_pallet_error, deadline_info) res)"
    by (auto split: res.splits)
  from this first_deadline_opens_at_start [OF this] show ?thesis by simp
qed

text \<open>
  C27: Take a proving period that ends within 64 bits and starts at a block that is
  neither below the challenge lookback nor below the fault declaration cutoff. At
  each of its blocks, the first one included, exactly one deadline is open: the
  challenge windows tile the period.
\<close>

theorem exactly_one_open_deadline:
  assumes "period_params_ok n period window" and "ps + period < u64_bound"
    and "lookback \<le> ps" and "cutoff \<le> ps" and "ps \<le> b" and "b < ps + period"
  shows "\<exists>!idx. idx < n \<and> (\<exists>d. deadline_info_new b ps idx n period window lookback cutoff = Ok d \<and> is_open d)"
proof
  have w: "0 < window" and p: "n * window = period" using assms(1) by (auto simp: period_params_ok_def)
  let ?i = "(b - ps) div window"
  have "b - ps < n * window" using assms(5,6) p by linarith
  then have i: "?i < n" using w by (simp add: less_mult_imp_div_less)
  obtain d where d: "deadline_info_new b ps ?i n period window lookback cutoff = Ok d"
    and t: "di_block_number d = b" "di_open_at d = ps + ?i * window" "di_close_at d = ps + ?i * window + window"
    by (rule deadline_info_new_Ok [OF assms(1) i assms(2-4), of b])
  have "?i * window \<le> b - ps" "b - ps < ?i * window + window"
    using w div_mult_mod_eq [of "b - ps" window] mod_less_divisor [of window "b - ps"] by linarith+
  then have "is_open d" unfolding is_open_def t using assms(5) by linarith
  with i d show "?i < n \<and> (\<exists>d. deadline_info_new b ps ?i n period window lookback cutoff = Ok d \<and> is_open d)"
    by blast
next
  fix j assume "j < n \<and> (\<exists>d. deadline_info_new b ps j n period window lookback cutoff = Ok d \<and> is_open d)"
  then obtain d where j: "j < n" "deadline_info_new b ps j n period window lookback cutoff = Ok d" "is_open d"
    by blast
  note dd = deadline_info_new_OkD [OF j(2,1)]
  have "ps + j * window \<le> b" "b < ps + j * window + window" using j(3) unfolding is_open_def dd by simp_all
  then have "window * j \<le> b - ps" "b - ps < window * Suc j" by (simp_all add: mult.commute)
  then show "j = (b - ps) div window" by (rule div_nat_eqI [symmetric])
qed

theorem exactly_one_open_deadline_witness:
  "\<exists>!idx. idx < 48 \<and> (\<exists>d. deadline_info_new 15000 14400 idx 48 14400 300 100 225 = Ok d \<and> is_open d)"
  by (rule exactly_one_open_deadline) (simp_all add: period_params_ok_def u64_bound_def)

text \<open>
  The next occurrence of a deadline lies in the first proving period that
  starts after the current block: it has the same index, it is not open yet, and
  the period before it has already started.
\<close>

theorem next_is_first_later_period:
  assumes "di_next d = Ok d'" and "di_idx d < di_w_post_period_deadlines d"
  shows "di_idx d' = di_idx d \<and> di_block_number d < di_period_start d' \<and>
    di_period_start d' - di_w_post_proving_period d \<le> di_block_number d \<and>
    di_period_start d' \<le> di_open_at d' \<and>
    di_open_at d' = di_period_start d' + di_idx d * di_w_post_challenge_window d"
proof -
  note n = di_next_OkD [OF assms]
  show ?thesis using n next_period_start_gt [OF n(7,6)] by simp
qed

theorem next_is_first_later_period_witness:
  "\<exists>d d'. deadline_info_new 162 100 0 3 60 20 10 10 = Ok d \<and> di_open_at d = 100 \<and> di_close_at d = 120 \<and>
     di_next d = Ok d' \<and> 162 < di_open_at d' \<and> di_open_at d' = 220 \<and> di_close_at d' = 240"
proof -
  have "\<exists>d d'. deadline_info_new 162 100 0 3 60 20 10 10 = Ok d \<and> di_open_at d = 100 \<and> di_close_at d = 120 \<and>
     di_next d = Ok d' \<and> di_open_at d' = 220 \<and> di_close_at d' = 240 \<and>
     di_idx d < di_w_post_period_deadlines d \<and> di_block_number d = 162"
    by (simp add: deadline_info_new_def di_next_def mul_u_def add_u_def sub_u_def div_u_def u64_bound_def)
  then show ?thesis using next_is_first_later_period by (metis order_less_le_trans)
qed

text \<open>
  A deadline reported mutable, asked for during the proving period that
  contains the current block, is not open and does not open within the next
  challenge window.
\<close>

theorem mutable_deadline_not_open:
  assumes "deadline_is_mutable ps idx b n period window lookback cutoff = Ok True" and "idx < n"
    and "ps \<le> b" and "b < ps + period"
  shows "\<not> (ps + idx * window \<le> b + window \<and> b < ps + idx * window + window) \<and>
    b + window < ps + period + idx * window"
proof -
  from assms(1) obtain d dl where d: "deadline_info_new b ps idx n period window lookback cutoff = Ok d"
    and dl: "next_not_elapsed d = Ok dl" and opens: "window \<le> di_open_at dl" "b < di_open_at dl - window"
    by (auto simp: deadline_is_mutable_def ok_iff)
  note dd = deadline_info_new_OkD [OF d assms(2)]
  show ?thesis
  proof (cases "has_elapsed d")
    case True
    then have "di_next d = Ok dl" using dl by (simp add: next_not_elapsed_def)
    note n = di_next_OkD [OF this]
    have "di_period_start dl = ps + period" using n(1) dd assms(2-4) by (simp add: dd)
    then show ?thesis using n(2) dd True opens assms(2) by (auto simp: has_elapsed_def)
  next
    case False
    then have "dl = d" using dl by (simp add: next_not_elapsed_def)
    then show ?thesis using False dd opens by (auto simp: has_elapsed_def)
  qed
qed

theorem mutable_deadline_not_open_witness:
  "\<not> (14400 + 7 * 300 \<le> 15000 + (300 :: nat) \<and> (15000 :: nat) < 14400 + 7 * 300 + 300) \<and>
   deadline_is_mutable 14400 7 15000 48 14400 300 100 225 = Ok True"
proof
  show m: "deadline_is_mutable 14400 7 15000 48 14400 300 100 225 = Ok True"
    by (simp add: deadline_is_mutable_def next_not_elapsed_def has_elapsed_def deadline_info_new_def
        mul_u_def add_u_def sub_u_def u64_bound_def)
  show "\<not> (14400 + 7 * 300 \<le> 15000 + (300 :: nat) \<and> (15000 :: nat) < 14400 + 7 * 300 + 300)"
    by (rule conjunct1 [OF mutable_deadline_not_open [OF m]]) simp_all
qed

end
