(* ===== verification/Commitment.thy ===== *)
theory Commitment
  imports Primitives
begin

text \<open>
  Piece sizes, commitments and the computation of the data commitment of a
  sector (\<^verbatim>\<open>primitives/src/commitment\<close>). SHA-256 and the binary form of a CID are
  library code and are arguments of the definitions that use them.
\<close>

section \<open>Bit counting on 64-bit integers\<close>

fun count_ones :: "nat \<Rightarrow> nat" where
  "count_ones n = (if n = 0 then 0 else n mod 2 + count_ones (n div 2))"

fun trailing_zeros :: "nat \<Rightarrow> nat" where
  "trailing_zeros n = (if n = 0 then 64 else if n mod 2 = 1 then 0 else 1 + trailing_zeros (n div 2))"

text \<open>The smallest power of two that is not below a number, searched from \<open>2 ^ k\<close> on.\<close>

fun next_power_from :: "nat \<Rightarrow> nat \<Rightarrow> nat \<Rightarrow> nat" where
  "next_power_from 0 k n = 2 ^ k"
| "next_power_from (Suc fuel) k n = (if n \<le> 2 ^ k then 2 ^ k else next_power_from fuel (k + 1) n)"

text \<open>Without overflow checks, \<^verbatim>\<open>u64::next_power_of_two\<close> wraps to zero.\<close>

definition next_power_of_two :: "bool \<Rightarrow> nat \<Rightarrow> ('e, nat) res" where
  "next_power_of_two overflow_checks n =
    (let p = next_power_from 64 0 n in
     if p < u64_bound then Ok p else if overflow_checks then Panic else Ok 0)"

declare count_ones.simps [simp del] trailing_zeros.simps [simp del]

section \<open>Piece sizes\<close>

datatype unpadded_piece_error = UnpaddedTooSmall | UnpaddedWrongSize
datatype padded_piece_size_error = SizeTooSmall | SizeNotPowerOfTwo | NotAMultipleOfNodeSize

definition UNPADDED_MIN :: nat where "UNPADDED_MIN = 127"
definition PADDED_MIN :: nat where "PADDED_MIN = 128"

definition unpadded_new :: "nat \<Rightarrow> (unpadded_piece_error, nat) res" where
  "unpadded_new n =
    res_bind (ensure (\<not> n < 127) UnpaddedTooSmall) (\<lambda>_.
    res_bind (ensure (n div 2 ^ trailing_zeros n = 127) UnpaddedWrongSize) (\<lambda>_.
    Ok n))"

definition padded :: "nat \<Rightarrow> ('e, nat) res" where
  "padded n = add_u u64_bound n (n div 127)"

definition padded_new :: "nat \<Rightarrow> (padded_piece_size_error, nat) res" where
  "padded_new n =
    res_bind (ensure (\<not> n < 128) SizeTooSmall) (\<lambda>_.
    res_bind (ensure (count_ones n = 1) SizeNotPowerOfTwo) (\<lambda>_.
    res_bind (ensure (n mod NODE_SIZE = 0) NotAMultipleOfNodeSize) (\<lambda>_.
    Ok n)))"

definition unpadded :: "nat \<Rightarrow> ('e, nat) res" where
  "unpadded n = sub_u n (n div 128)"

definition from_arbitrary_size :: "bool \<Rightarrow> nat \<Rightarrow> ('e, nat) res" where
  "from_arbitrary_size overflow_checks n =
    res_bind (add_in overflow_checks u64_bound n (n div 127)) (\<lambda>padded_bytes.
    res_bind (next_power_of_two overflow_checks padded_bytes) (\<lambda>p.
    case padded_new p of Ok q \<Rightarrow> Ok q | _ \<Rightarrow> Panic))"

section \<open>Commitments\<close>

definition FIL_COMMITMENT_UNSEALED :: nat where "FIL_COMMITMENT_UNSEALED = 0xf101"
definition FIL_COMMITMENT_SEALED :: nat where "FIL_COMMITMENT_SEALED = 0xf102"
definition SHA2_256_TRUNC254_PADDED :: nat where "SHA2_256_TRUNC254_PADDED = 0x1012"
definition POSEIDON_BLS12_381_A1_FC1 :: nat where "POSEIDON_BLS12_381_A1_FC1 = 0xb401"

text \<open>A content identifier, by its codec and its multihash.\<close>

record cid =
  cid_codec :: nat
  cid_hash_code :: nat
  cid_digest :: bytes

datatype commitment_kind = CommD | CommP | CommR
datatype commitment_error = InvalidCidBytes | InvalidMultiCodec | InvalidMultiHash

fun multicodec :: "commitment_kind \<Rightarrow> nat" where
  "multicodec CommD = FIL_COMMITMENT_UNSEALED"
| "multicodec CommP = FIL_COMMITMENT_UNSEALED"
| "multicodec CommR = FIL_COMMITMENT_SEALED"

fun multihash :: "commitment_kind \<Rightarrow> nat" where
  "multihash CommD = SHA2_256_TRUNC254_PADDED"
| "multihash CommP = SHA2_256_TRUNC254_PADDED"
| "multihash CommR = POSEIDON_BLS12_381_A1_FC1"

text \<open>\<^verbatim>\<open>copy_from_slice\<close> panics when the digest does not have 32 bytes.\<close>

definition from_cid :: "commitment_kind \<Rightarrow> cid \<Rightarrow> (commitment_error, bytes) res" where
  "from_cid kind c =
    (if length (cid_digest c) \<noteq> 32 then Panic
     else
       res_bind (ensure (cid_codec c = multicodec kind) InvalidMultiCodec) (\<lambda>_.
       res_bind (ensure (cid_hash_code c = multihash kind) InvalidMultiHash) (\<lambda>_.
       Ok (cid_digest c))))"

definition from_cid_bytes ::
  "(bytes \<Rightarrow> cid option) \<Rightarrow> commitment_kind \<Rightarrow> bytes \<Rightarrow> (commitment_error, bytes) res" where
  "from_cid_bytes cid_try_from kind b =
    res_bind (ok_or InvalidCidBytes (cid_try_from b)) (\<lambda>c. from_cid kind c)"

definition commitment_cid :: "commitment_kind \<Rightarrow> bytes \<Rightarrow> cid" where
  "commitment_cid kind raw = \<lparr> cid_codec = multicodec kind, cid_hash_code = multihash kind, cid_digest = raw \<rparr>"

section \<open>Zero pieces\<close>

definition PIECE_COMMS :: "bytes list" where
  "PIECE_COMMS = map (map word_of_nat)
    [[55, 49, 187, 153, 172, 104, 159, 102, 238, 245, 151, 62, 74, 148, 218, 24,
      143, 77, 220, 174, 88, 7, 36, 252, 111, 63, 214, 13, 253, 72, 131, 51],
     [100, 42, 96, 126, 248, 134, 176, 4, 191, 44, 25, 120, 70, 58, 225, 212,
      105, 58, 192, 244, 16, 235, 45, 27, 122, 71, 254, 32, 94, 94, 117, 15],
     [87, 162, 56, 26, 40, 101, 43, 244, 127, 107, 239, 122, 202, 103, 155, 228,
      174, 222, 88, 113, 171, 92, 243, 235, 44, 8, 17, 68, 136, 203, 133, 38],
     [31, 122, 201, 89, 85, 16, 224, 158, 164, 28, 70, 11, 23, 100, 48, 187,
      50, 44, 214, 251, 65, 46, 197, 124, 177, 125, 152, 154, 67, 16, 55, 47],
     [252, 126, 146, 130, 150, 229, 22, 250, 173, 233, 134, 178, 143, 146, 212, 74,
      79, 36, 185, 53, 72, 82, 35, 55, 106, 121, 144, 39, 188, 24, 248, 51],
     [8, 196, 123, 56, 238, 19, 188, 67, 244, 27, 145, 92, 14, 237, 153, 17,
      162, 96, 134, 179, 237, 98, 64, 27, 249, 213, 139, 141, 25, 223, 246, 36],
     [178, 228, 123, 251, 17, 250, 205, 148, 31, 98, 175, 92, 117, 15, 62, 165,
      204, 77, 245, 23, 213, 196, 241, 109, 178, 180, 215, 123, 174, 193, 163, 47],
     [249, 34, 97, 96, 200, 249, 39, 191, 220, 196, 24, 205, 242, 3, 73, 49,
      70, 0, 142, 174, 251, 125, 2, 25, 77, 94, 84, 129, 137, 0, 81, 8],
     [44, 26, 150, 75, 185, 11, 89, 235, 254, 15, 109, 162, 154, 214, 90, 227,
      228, 23, 114, 74, 143, 124, 17, 116, 90, 64, 202, 193, 229, 231, 64, 17],
     [254, 227, 120, 206, 241, 100, 4, 177, 153, 237, 224, 177, 62, 17, 182, 36,
      255, 157, 120, 79, 187, 237, 135, 141, 131, 41, 126, 121, 94, 2, 79, 2],
     [142, 158, 36, 3, 250, 136, 76, 246, 35, 127, 96, 223, 37, 248, 62, 228,
      13, 202, 158, 216, 121, 235, 111, 99, 82, 209, 80, 132, 245, 173, 13, 63],
     [117, 45, 150, 147, 250, 22, 117, 36, 57, 84, 118, 227, 23, 169, 133, 128,
      240, 9, 71, 175, 183, 163, 5, 64, 214, 37, 169, 41, 28, 193, 42, 7],
     [112, 34, 246, 15, 126, 246, 173, 250, 23, 17, 122, 82, 97, 158, 48, 206,
      168, 44, 104, 7, 90, 223, 28, 102, 119, 134, 236, 80, 110, 239, 45, 25],
     [217, 152, 135, 185, 115, 87, 58, 150, 225, 19, 147, 100, 82, 54, 193, 123,
      31, 76, 112, 52, 215, 35, 199, 169, 159, 112, 155, 180, 218, 97, 22, 43],
     [208, 181, 48, 219, 176, 180, 242, 92, 93, 47, 42, 40, 223, 238, 128, 139,
      83, 65, 42, 2, 147, 31, 24, 196, 153, 245, 162, 84, 8, 107, 19, 38],
     [132, 192, 66, 27, 160, 104, 90, 1, 191, 121, 90, 35, 68, 6, 79, 228,
      36, 189, 82, 169, 210, 67, 119, 179, 148, 255, 76, 75, 69, 104, 232, 17],
     [101, 242, 158, 93, 152, 210, 70, 195, 139, 56, 140, 252, 6, 219, 31, 107,
      2, 19, 3, 197, 162, 137, 0, 11, 220, 232, 50, 169, 195, 236, 66, 28],
     [162, 36, 117, 8, 40, 88, 80, 150, 91, 126, 51, 75, 49, 39, 176, 192,
      66, 177, 208, 70, 220, 84, 64, 33, 55, 98, 124, 216, 121, 156, 225, 58],
     [218, 253, 171, 109, 169, 54, 68, 83, 194, 109, 51, 114, 107, 159, 239, 227,
      67, 190, 143, 129, 100, 158, 192, 9, 170, 211, 250, 255, 80, 97, 117, 8],
     [217, 65, 213, 224, 214, 49, 74, 153, 92, 51, 255, 189, 79, 190, 105, 17,
      141, 115, 212, 229, 253, 44, 211, 31, 15, 124, 134, 235, 221, 20, 231, 6],
     [81, 76, 67, 92, 61, 4, 211, 73, 165, 54, 95, 189, 89, 255, 199, 19,
      98, 145, 17, 120, 89, 145, 193, 163, 197, 58, 242, 32, 121, 116, 26, 47],
     [173, 6, 133, 57, 105, 211, 125, 52, 255, 8, 224, 159, 86, 147, 10, 74,
      209, 154, 137, 222, 246, 12, 191, 238, 126, 29, 51, 129, 193, 231, 28, 55],
     [57, 86, 14, 123, 19, 169, 59, 7, 162, 67, 253, 39, 32, 255, 167, 203,
      62, 29, 46, 80, 90, 179, 98, 158, 121, 244, 99, 19, 81, 44, 218, 6],
     [204, 195, 192, 18, 245, 176, 94, 129, 26, 43, 191, 221, 15, 104, 51, 184,
      66, 117, 180, 123, 242, 41, 192, 5, 42, 130, 72, 79, 60, 26, 91, 61],
     [125, 242, 155, 105, 119, 49, 153, 232, 242, 180, 11, 119, 145, 157, 4, 133,
      9, 238, 215, 104, 226, 199, 41, 123, 31, 20, 55, 3, 79, 195, 198, 44],
     [102, 206, 5, 163, 102, 117, 82, 207, 69, 192, 43, 204, 78, 131, 146, 145,
      155, 222, 172, 53, 222, 47, 245, 98, 113, 132, 142, 159, 123, 103, 81, 7],
     [216, 97, 2, 24, 66, 90, 181, 233, 91, 28, 166, 35, 157, 41, 162, 228,
      32, 215, 6, 169, 111, 55, 62, 47, 156, 154, 145, 215, 89, 209, 155, 1],
     [109, 54, 75, 30, 248, 70, 68, 26, 90, 74, 104, 134, 35, 20, 172, 192,
      164, 111, 1, 103, 23, 229, 52, 67, 232, 57, 238, 223, 131, 194, 133, 60],
     [7, 126, 95, 222, 53, 197, 10, 147, 3, 165, 80, 9, 227, 73, 138, 78,
      190, 223, 243, 156, 66, 183, 16, 183, 48, 216, 236, 122, 199, 175, 166, 62],
     [230, 64, 5, 166, 191, 227, 119, 121, 83, 184, 173, 110, 249, 63, 15, 202,
      16, 73, 178, 4, 22, 84, 242, 164, 17, 247, 112, 39, 153, 206, 206, 2],
     [37, 157, 61, 107, 31, 77, 135, 109, 17, 133, 225, 18, 58, 246, 245, 80,
      26, 240, 246, 124, 241, 91, 82, 22, 37, 91, 123, 23, 141, 18, 5, 29],
     [63, 154, 77, 65, 29, 164, 239, 27, 54, 243, 95, 240, 161, 149, 174, 57,
      42, 178, 63, 238, 121, 103, 183, 196, 27, 3, 209, 97, 63, 194, 146, 57],
     [254, 78, 243, 40, 198, 26, 163, 156, 253, 178, 72, 78, 170, 50, 161, 81,
      177, 254, 61, 253, 31, 150, 221, 140, 151, 17, 253, 134, 214, 197, 129, 19],
     [245, 93, 104, 144, 14, 45, 131, 129, 236, 203, 129, 100, 203, 153, 118, 242,
      75, 45, 224, 221, 97, 163, 27, 151, 206, 110, 178, 56, 80, 213, 232, 25],
     [170, 170, 140, 76, 180, 10, 172, 238, 30, 2, 220, 101, 66, 75, 42, 108,
      142, 153, 248, 3, 183, 47, 121, 41, 196, 16, 29, 127, 174, 107, 255, 50]]"

definition zero_piece_commitment :: "nat \<Rightarrow> ('e, bytes) res" where
  "zero_piece_commitment n =
    res_bind (sub_u (trailing_zeros n) 7) (\<lambda>level.
    if level < length PIECE_COMMS then Ok (PIECE_COMMS ! level) else Panic)"

section \<open>The data commitment of a sector\<close>

record piece_info =
  pi_commitment :: bytes
  pi_size :: nat

datatype commd_error = InvalidPieceSize | PieceSizeTooLarge | TooManyPieces

text \<open>The \<^verbatim>\<open>u64\<close> sum of the sizes.\<close>

fun sum_sizes :: "piece_info list \<Rightarrow> nat \<Rightarrow> (commd_error, nat) res" where
  "sum_sizes [] acc = Ok acc"
| "sum_sizes (p # ps) acc = res_bind (add_u u64_bound acc (pi_size p)) (sum_sizes ps)"

definition ensure_piece_sizes :: "sector_size \<Rightarrow> piece_info list \<Rightarrow> (commd_error, unit) res" where
  "ensure_piece_sizes sector_size piece_infos =
    res_bind (sum_sizes piece_infos 0) (\<lambda>size_sum.
    res_bind (ensure (\<not> size_sum > sector_size_bytes sector_size) PieceSizeTooLarge) (\<lambda>_.
    case padded_new (sector_size_bytes sector_size) of
      Ok padded_sector_size \<Rightarrow>
        res_bind (unpadded padded_sector_size) (\<lambda>unpadded_sector_size.
        ensure (\<not> length piece_infos > unpadded_sector_size div UNPADDED_MIN) TooManyPieces)
    | _ \<Rightarrow> Panic))"

text \<open>The hash of two nodes, with the two highest bits of the last byte cleared.\<close>

definition piece_hash :: "(bytes \<Rightarrow> bytes) \<Rightarrow> bytes \<Rightarrow> bytes \<Rightarrow> bytes" where
  "piece_hash sha256 a b = (let hashed = sha256 (a @ b) in hashed[31 := and (hashed ! 31) 63])"

definition padding_piece :: "nat \<Rightarrow> (commd_error, piece_info) res" where
  "padding_piece n =
    res_bind (zero_piece_commitment n) (\<lambda>c. Ok \<lparr> pi_commitment = c, pi_size = n \<rparr>)"

definition join_piece_infos ::
  "(bytes \<Rightarrow> bytes) \<Rightarrow> piece_info \<Rightarrow> piece_info \<Rightarrow> (commd_error, piece_info) res" where
  "join_piece_infos sha256 left right =
    (if pi_size left \<noteq> pi_size right then Err InvalidPieceSize
     else
       res_bind (add_u u64_bound (pi_size left) (pi_size right)) (\<lambda>n.
       Ok \<lparr> pi_commitment = piece_hash sha256 (pi_commitment left) (pi_commitment right), pi_size = n \<rparr>))"

text \<open>
  The stack of the reduction; its top is the head of the list. Each iteration
  of \<^verbatim>\<open>reduce\<close> takes two pieces from it and pushes one.
\<close>

fun reduce :: "(bytes \<Rightarrow> bytes) \<Rightarrow> piece_info list \<Rightarrow> (commd_error, piece_info list) res" where
  "reduce sha256 (last_piece # second_last_piece # pieces) =
    (if pi_size last_piece \<noteq> pi_size second_last_piece
     then Ok (last_piece # second_last_piece # pieces)
     else
       (case join_piece_infos sha256 second_last_piece last_piece of
          Ok joined \<Rightarrow> reduce sha256 (joined # pieces)
        | _ \<Rightarrow> Panic))"
| "reduce sha256 pieces = Ok pieces"

text \<open>
  The two padding loops push a zero piece of the size of the top piece and
  reduce, which at least doubles the size of the top piece. Sizes are 64-bit
  integers, so 64 iterations are enough; running out of them counts as a panic.
\<close>

fun pad_up_to ::
  "(bytes \<Rightarrow> bytes) \<Rightarrow> nat \<Rightarrow> nat \<Rightarrow> piece_info list \<Rightarrow> (commd_error, piece_info list) res" where
  "pad_up_to sha256 0 piece_size pieces = Panic"
| "pad_up_to sha256 (Suc fuel) piece_size [] = Ok []"
| "pad_up_to sha256 (Suc fuel) piece_size (last_piece # pieces) =
    (if piece_size \<le> pi_size last_piece then Ok (last_piece # pieces)
     else
       res_bind (padding_piece (pi_size last_piece)) (\<lambda>padding.
       res_bind (reduce sha256 (padding # last_piece # pieces)) (\<lambda>pieces'.
       pad_up_to sha256 fuel piece_size pieces')))"

lemma pad_up_to_code [code]:
  "pad_up_to sha256 0 n st = Panic"
  "pad_up_to sha256 (Suc fuel) n st =
    (case st of
       [] \<Rightarrow> Ok []
     | p # ps \<Rightarrow>
         if n \<le> pi_size p then Ok (p # ps)
         else res_bind (padding_piece (pi_size p)) (\<lambda>q.
              res_bind (reduce sha256 (q # p # ps)) (pad_up_to sha256 fuel n)))"
  by (simp_all split: list.split)

definition add_piece ::
  "(bytes \<Rightarrow> bytes) \<Rightarrow> piece_info \<Rightarrow> piece_info list \<Rightarrow> (commd_error, piece_info list) res" where
  "add_piece sha256 piece pieces =
    (if pieces = [] then Ok [piece]
     else
       res_bind (pad_up_to sha256 65 (pi_size piece) pieces) (\<lambda>pieces'.
       reduce sha256 (piece # pieces')))"

fun add_pieces ::
  "(bytes \<Rightarrow> bytes) \<Rightarrow> piece_info list \<Rightarrow> piece_info list \<Rightarrow> (commd_error, piece_info list) res" where
  "add_pieces sha256 [] pieces = Ok pieces"
| "add_pieces sha256 (p # ps) pieces = res_bind (add_piece sha256 p pieces) (add_pieces sha256 ps)"

fun finish_loop ::
  "(bytes \<Rightarrow> bytes) \<Rightarrow> nat \<Rightarrow> nat \<Rightarrow> piece_info list \<Rightarrow> (commd_error, piece_info) res" where
  "finish_loop sha256 0 sector_bytes pieces = Panic"
| "finish_loop sha256 (Suc fuel) sector_bytes [] = Panic"
| "finish_loop sha256 (Suc fuel) sector_bytes (last_piece # pieces) =
    (if sector_bytes \<le> pi_size last_piece \<and> pieces = [] then Ok last_piece
     else
       res_bind (padding_piece (pi_size last_piece)) (\<lambda>padding.
       res_bind (reduce sha256 (padding # last_piece # pieces)) (\<lambda>pieces'.
       finish_loop sha256 fuel sector_bytes pieces')))"

lemma finish_loop_code [code]:
  "finish_loop sha256 0 n st = Panic"
  "finish_loop sha256 (Suc fuel) n st =
    (case st of
       [] \<Rightarrow> Panic
     | p # ps \<Rightarrow>
         if n \<le> pi_size p \<and> ps = [] then Ok p
         else res_bind (padding_piece (pi_size p)) (\<lambda>q.
              res_bind (reduce sha256 (q # p # ps)) (finish_loop sha256 fuel n)))"
  by (simp_all split: list.split)

definition finish :: "(bytes \<Rightarrow> bytes) \<Rightarrow> sector_size \<Rightarrow> piece_info list \<Rightarrow> (commd_error, bytes) res" where
  "finish sha256 sector_size pieces =
    res_bind (finish_loop sha256 65 (sector_size_bytes sector_size) pieces) (\<lambda>p. Ok (pi_commitment p))"

definition compute_unsealed_sector_commitment ::
  "(bytes \<Rightarrow> bytes) \<Rightarrow> sector_size \<Rightarrow> piece_info list \<Rightarrow> (commd_error, bytes) res" where
  "compute_unsealed_sector_commitment sha256 sector_size piece_infos =
    (if piece_infos = [] then
       (case padded_new (sector_size_bytes sector_size) of
          Ok padded_sector_size \<Rightarrow> zero_piece_commitment padded_sector_size
        | _ \<Rightarrow> Panic)
     else
       res_bind (ensure_piece_sizes sector_size piece_infos) (\<lambda>_.
       res_bind (add_pieces sha256 piece_infos []) (\<lambda>pieces.
       finish sha256 sector_size pieces)))"

end
