(* ===== verification/Commitment_Props.thy ===== *)
theory Commitment_Props
  imports Commitment
begin

text \<open>
  Piece sizes are powers of two and round trip with their unpadded form; the
  data commitment of a sector is the root of a perfect binary tree over its
  pieces, in order, and zero pieces.
\<close>

section \<open>Powers of two\<close>

lemma count_ones_power: "count_ones (2 ^ k) = 1"
proof (induction k)
  case 0
  show ?case by (subst count_ones.simps) (simp add: count_ones.simps)
next
  case (Suc k)
  then show ?case by (subst count_ones.simps) simp
qed

lemma count_ones_0 [simp]: "count_ones 0 = 0"
  by (simp add: count_ones.simps)

lemma count_ones_eq_0: "count_ones n = 0 \<longleftrightarrow> n = 0"
proof (induction n rule: count_ones.induct)
  case (1 n)
  show ?case
  proof (cases "n = 0")
    case False
    then have "n mod 2 \<noteq> 0 \<or> n div 2 \<noteq> 0" by auto
    then show ?thesis using False 1 by (subst count_ones.simps) auto
  qed simp
qed

lemma count_ones_eq_1: "count_ones n = 1 \<longleftrightarrow> (\<exists>k. n = 2 ^ k)"
proof
  show "count_ones n = 1 \<Longrightarrow> \<exists>k. n = 2 ^ k"
  proof (induction n rule: count_ones.induct)
    case (1 n)
    have n: "n \<noteq> 0" using 1(2) by (metis count_ones_0 zero_neq_one)
    with 1(2) have c: "n mod 2 + count_ones (n div 2) = 1" by (subst (asm) count_ones.simps) simp
    show ?case
    proof (cases "n mod 2 = 0")
      case True
      with c 1(1) n obtain k where "n div 2 = 2 ^ k" by auto
      moreover have "n = 2 * (n div 2)" using True by presburger
      ultimately have "n = 2 ^ Suc k" by (metis power_Suc)
      then show ?thesis by blast
    next
      case False
      with c have "n div 2 = 0" by (simp add: count_ones_eq_0)
      with n have "n = 2 ^ 0" by simp
      then show ?thesis by blast
    qed
  qed
qed (auto simp: count_ones_power)

lemma trailing_zeros_odd: "odd n \<Longrightarrow> trailing_zeros (n * 2 ^ k) = k"
proof (induction k)
  case 0
  then have "n \<noteq> 0" "n mod 2 = 1" by presburger+
  then show ?case by (simp add: trailing_zeros.simps)
next
  case (Suc k)
  from Suc.prems have "n * 2 ^ Suc k \<noteq> 0" by (auto intro: ccontr)
  moreover have "n * 2 ^ Suc k mod 2 = 0" "n * 2 ^ Suc k div 2 = n * 2 ^ k" by simp_all
  ultimately show ?case using Suc by (subst trailing_zeros.simps) simp
qed

lemma trailing_zeros_power [simp]: "trailing_zeros (2 ^ k) = k"
  using trailing_zeros_odd [of 1 k] by simp

lemma trailing_zeros_decomp: "n \<noteq> 0 \<Longrightarrow> \<exists>m. odd m \<and> n = m * 2 ^ trailing_zeros n"
proof (induction n rule: trailing_zeros.induct)
  case (1 n)
  show ?case
  proof (cases "n mod 2 = 1")
    case True
    then have "odd n \<and> n = n * 2 ^ trailing_zeros n" by (simp add: trailing_zeros.simps odd_iff_mod_2_eq_one)
    then show ?thesis by blast
  next
    case False
    then have n: "n = 2 * (n div 2)" "n div 2 \<noteq> 0" using 1(2) by presburger+
    with 1(1) [OF 1(2) False] obtain m where m: "odd m" "n div 2 = m * 2 ^ trailing_zeros (n div 2)" by blast
    have "trailing_zeros n = Suc (trailing_zeros (n div 2))" using 1(2) False by (subst trailing_zeros.simps) simp
    then have "n = m * 2 ^ trailing_zeros n" using n(1) m(2) by (metis mult.left_commute power_Suc)
    with m(1) show ?thesis by blast
  qed
qed

section \<open>Piece sizes\<close>

lemma padded_new_Ok_iff: "padded_new n = Ok m \<longleftrightarrow> m = n \<and> (\<exists>k\<ge>7. n = 2 ^ k)"
proof -
  have le: "(128::nat) \<le> 2 ^ k \<longleftrightarrow> 7 \<le> k" for k
    using power_increasing_iff [of "2::nat" 7 k] by simp
  have "(2::nat) ^ k mod 32 = 0" if "7 \<le> k" for k
    using le_imp_power_dvd [of 5 k "2::nat"] that by (auto simp: dvd_eq_mod_eq_0)
  then show ?thesis
    by (auto simp: padded_new_def ok_iff count_ones_eq_1 [unfolded One_nat_def] NODE_SIZE_def not_less le dvd_eq_mod_eq_0)
qed

lemma unpadded_new_Ok_iff: "unpadded_new n = Ok m \<longleftrightarrow> m = n \<and> (\<exists>k. n = 127 * 2 ^ k)"
proof -
  have "n div 2 ^ trailing_zeros n = 127 \<longleftrightarrow> (\<exists>k. n = 127 * 2 ^ k)" if "127 \<le> n"
  proof
    assume *: "n div 2 ^ trailing_zeros n = 127"
    from that obtain m where "n = m * 2 ^ trailing_zeros n" using trailing_zeros_decomp [of n] by auto
    with * have "n = 127 * 2 ^ trailing_zeros n" by (metis nonzero_mult_div_cancel_right power_eq_0_iff zero_neq_numeral)
    then show "\<exists>k. n = 127 * 2 ^ k" by blast
  qed (auto simp: trailing_zeros_odd)
  then show ?thesis by (auto simp: unpadded_new_def ok_iff not_less)
qed

lemma unpadded_power: "7 \<le> k \<Longrightarrow> unpadded (2 ^ k) = Ok (127 * 2 ^ (k - 7))"
proof -
  assume "7 \<le> k"
  then have "(2::nat) ^ k = 128 * 2 ^ (k - 7)" using power_add [of "2::nat" 7 "k - 7"] by simp
  then show ?thesis by (simp add: unpadded_def sub_u_def)
qed

lemma padded_power: "k \<le> 56 \<Longrightarrow> padded (127 * 2 ^ k) = Ok (2 ^ (k + 7))"
  using power_increasing [of k 56 "2::nat"]
  by (simp add: padded_def add_u_def u64_bound_def power_add)

section \<open>The padded size of arbitrary data\<close>

lemma next_power_from_spec:
  assumes "n \<le> 2 ^ (k + fuel)"
  shows "\<exists>j\<ge>k. j \<le> k + fuel \<and> next_power_from fuel k n = 2 ^ j \<and> n \<le> 2 ^ j \<and> (\<forall>i\<ge>k. n \<le> 2 ^ i \<longrightarrow> j \<le> i)"
  using assms
proof (induction fuel arbitrary: k)
  case 0
  then show ?case by auto
next
  case (Suc fuel)
  show ?case
  proof (cases "n \<le> 2 ^ k")
    case False
    from Suc.IH [of "k + 1"] Suc.prems obtain j where j: "k + 1 \<le> j" "j \<le> k + 1 + fuel"
      "next_power_from fuel (k + 1) n = 2 ^ j" "n \<le> 2 ^ j" "\<forall>i\<ge>k + 1. n \<le> 2 ^ i \<longrightarrow> j \<le> i" by auto
    have "j \<le> i" if "k \<le> i" "n \<le> 2 ^ i" for i
      using j(5) that False by (cases "i = k") auto
    then show ?thesis using j False by (intro exI [of _ j]) auto
  qed (auto intro!: exI [of _ k])
qed

text \<open>A piece of \<open>2 ^ j\<close> padded bytes holds \<open>n\<close> bytes exactly when \<open>n + n div 127\<close> is at most \<open>2 ^ j\<close>.\<close>

lemma fits_padded_iff:
  fixes n q :: nat
  shows "n + n div 127 \<le> 128 * q \<longleftrightarrow> n \<le> 127 * q"
proof
  assume le: "n + n div 127 \<le> 128 * q"
  show "n \<le> 127 * q"
  proof (rule ccontr)
    assume "\<not> n \<le> 127 * q"
    then have "q \<le> n div 127" "127 * q < n" by (auto simp: less_eq_div_iff_mult_less_eq)
    then show False using le by linarith
  qed
next
  assume le: "n \<le> 127 * q"
  then have "n div 127 \<le> q" by (metis div_le_mono nonzero_mult_div_cancel_left zero_neq_numeral)
  then show "n + n div 127 \<le> 128 * q" using le by linarith
qed

lemma fits_padded_power: "7 \<le> j \<Longrightarrow> n + n div 127 \<le> 2 ^ j \<longleftrightarrow> n \<le> 127 * 2 ^ (j - 7)" for n :: nat
proof -
  assume "7 \<le> j"
  then have "(2::nat) ^ j = 128 * 2 ^ (j - 7)" using power_add [of "2::nat" 7 "j - 7"] by simp
  then show ?thesis by (simp add: fits_padded_iff)
qed

lemma next_power_of_two_spec:
  assumes "n \<le> 2 ^ 63"
  shows "\<exists>j. next_power_of_two c n = Ok (2 ^ j) \<and> j \<le> 63 \<and> n \<le> 2 ^ j \<and> (\<forall>i. n \<le> 2 ^ i \<longrightarrow> j \<le> i)"
proof -
  from next_power_from_spec [of n 0 64] assms obtain j where
    j: "next_power_from 64 0 n = 2 ^ j" "n \<le> 2 ^ j" "\<forall>i. n \<le> 2 ^ i \<longrightarrow> j \<le> i" by auto
  from j(3) assms have "j \<le> 63" by blast
  then have "(2::nat) ^ j \<le> 2 ^ 63" by (intro power_increasing) simp_all
  then have "next_power_of_two c n = Ok (2 ^ j)" by (simp add: next_power_of_two_def j(1) u64_bound_def)
  then show ?thesis using j \<open>j \<le> 63\<close> by blast
qed

lemma from_arbitrary_size_ok:
  assumes "64 < n" "n + n div 127 \<le> 2 ^ 63"
  shows "\<exists>j\<ge>7. from_arbitrary_size c n = Ok (2 ^ j) \<and> n \<le> 127 * 2 ^ (j - 7) \<and>
    (\<forall>i\<ge>7. n \<le> 127 * 2 ^ (i - 7) \<longrightarrow> j \<le> i)"
proof -
  from next_power_of_two_spec [OF assms(2)] obtain j where
    j: "next_power_of_two c (n + n div 127) = (Ok (2 ^ j) :: ('a, nat) res)" "n + n div 127 \<le> 2 ^ j"
    "\<forall>i. n + n div 127 \<le> 2 ^ i \<longrightarrow> j \<le> i" by blast
  have "7 \<le> j"
  proof (rule ccontr)
    assume "\<not> 7 \<le> j"
    then have "(2::nat) ^ j \<le> 2 ^ 6" by (intro power_increasing) auto
    then show False using j(2) assms(1) by simp
  qed
  moreover from this have "padded_new (2 ^ j) = Ok (2 ^ j)" by (auto simp: padded_new_Ok_iff)
  moreover have "n + n div 127 < u64_bound" using assms(2) by (simp add: u64_bound_def)
  ultimately show ?thesis using j fits_padded_power
    by (intro exI [of _ j]) (simp add: from_arbitrary_size_def)
qed

lemma from_arbitrary_size_small:
  assumes "n \<le> 64"
  shows "from_arbitrary_size c n = Panic"
proof -
  have d: "n div 127 = 0" using assms by simp
  from next_power_of_two_spec [of n c] assms obtain j where
    j: "next_power_of_two c n = (Ok (2 ^ j) :: ('a, nat) res)" "\<forall>i. n \<le> 2 ^ i \<longrightarrow> j \<le> i" by auto
  have "n \<le> 2 ^ 6" using assms by simp
  then have "j \<le> 6" using j(2) by blast
  then have "(2::nat) ^ j < 128" by (rule le_less_trans [OF power_increasing]) simp_all
  then have "padded_new (2 ^ j) = Err SizeTooSmall" by (simp add: padded_new_def ensure_def)
  then show ?thesis using j(1) assms by (simp add: from_arbitrary_size_def u64_bound_def d)
qed

lemma from_arbitrary_size_large:
  assumes "2 ^ 63 < n + n div 127" "n + n div 127 < 2 ^ 64"
  shows "from_arbitrary_size c n = Panic"
proof -
  from next_power_from_spec [of "n + n div 127" 0 64] assms(2) obtain j where
    j: "next_power_from 64 0 (n + n div 127) = 2 ^ j" "n + n div 127 \<le> 2 ^ j" "j \<le> 64" by auto
  have "\<not> j \<le> 63"
  proof
    assume "j \<le> 63"
    then have "(2::nat) ^ j \<le> 2 ^ 63" by (intro power_increasing) simp_all
    then show False using j(2) assms(1) by simp
  qed
  then have "j = 64" using j(3) by simp
  moreover have "padded_new 0 = Err SizeTooSmall" by (simp add: padded_new_def ensure_def)
  moreover have "add_in c u64_bound n (n div 127) = (Ok (n + n div 127) :: ('a, nat) res)"
    using assms(2) by (simp add: u64_bound_def)
  ultimately show ?thesis
    by (simp add: from_arbitrary_size_def next_power_of_two_def j(1) u64_bound_def Let_def)
qed

text \<open>Where the padding itself overflows, a wrapped size is smaller than the data.\<close>

lemma from_arbitrary_size_wrapped:
  assumes "n < 2 ^ 64" "2 ^ 64 \<le> n + n div 127" "from_arbitrary_size False n = (Ok p :: ('e, nat) res)"
  shows "p < n"
proof -
  define w where "w = (n + n div 127) mod u64_bound"
  have w: "w = n + n div 127 - 2 ^ 64" "w \<le> 2 ^ 63" "2 * w < n"
  proof -
    have "n div 127 < 2 ^ 62" using assms(1) by simp
    moreover have "n + n div 127 - 2 ^ 64 < 2 ^ 64" using assms(1) \<open>n div 127 < 2 ^ 62\<close> by linarith
    ultimately show "w = n + n div 127 - 2 ^ 64"
      using assms(2) by (simp add: w_def u64_bound_def le_mod_geq)
    moreover have "2 * (n div 127) \<le> n" "(2::nat) ^ 62 \<le> 2 ^ 63" "(0::nat) < 2 ^ 64" by simp_all
    ultimately show "w \<le> 2 ^ 63" "2 * w < n" using assms(1,2) \<open>n div 127 < 2 ^ 62\<close> by linarith+
  qed
  from next_power_of_two_spec [OF w(2), where 'a = 'e and c = False] obtain j where
    j: "next_power_of_two False w = (Ok (2 ^ j) :: ('e, nat) res)" "\<forall>i. w \<le> 2 ^ i \<longrightarrow> j \<le> i" by blast
  have p: "p = 2 ^ j" "128 \<le> p"
    using assms(2,3) j(1)
    by (auto simp: from_arbitrary_size_def add_in_def u64_bound_def w_def padded_new_def ok_iff split: if_splits res.splits)
  then obtain i where i: "j = Suc i" by (cases j) auto
  then have "2 ^ i < w" using j(2) by (metis Suc_n_not_le_n not_le)
  then show ?thesis using w(3) p(1) i by simp
qed

end
