(* ===== verification/Commitment_Tree.thy ===== *)
theory Commitment_Tree
  imports Commitment_Props
begin

text \<open>
  The reduction of pieces to a data commitment, related to the binary trees it
  hashes: what a successful reduction computes, and that it succeeds on all
  pieces that fit into the sector.
\<close>

section \<open>Trees of pieces\<close>

datatype ptree = Piece piece_info | Pad nat | Join ptree ptree

primrec tree_size :: "ptree \<Rightarrow> nat" where
  "tree_size (Piece p) = pi_size p"
| "tree_size (Pad n) = n"
| "tree_size (Join l r) = tree_size l + tree_size r"

text \<open>Both halves of every inner node have the same size.\<close>

primrec perfect :: "ptree \<Rightarrow> bool" where
  "perfect (Piece p) \<longleftrightarrow> True"
| "perfect (Pad n) \<longleftrightarrow> True"
| "perfect (Join l r) \<longleftrightarrow> perfect l \<and> perfect r \<and> tree_size l = tree_size r"

definition zero_commitment :: "nat \<Rightarrow> bytes" where
  "zero_commitment n = (case zero_piece_commitment n :: (commd_error, bytes) res of Ok c \<Rightarrow> c | _ \<Rightarrow> [])"

primrec tree_root :: "(bytes \<Rightarrow> bytes) \<Rightarrow> ptree \<Rightarrow> bytes" where
  "tree_root sha256 (Piece p) = pi_commitment p"
| "tree_root sha256 (Pad n) = zero_commitment n"
| "tree_root sha256 (Join l r) = piece_hash sha256 (tree_root sha256 l) (tree_root sha256 r)"

primrec tree_pieces :: "ptree \<Rightarrow> piece_info list" where
  "tree_pieces (Piece p) = [p]"
| "tree_pieces (Pad n) = []"
| "tree_pieces (Join l r) = tree_pieces l @ tree_pieces r"

definition stands_for :: "(bytes \<Rightarrow> bytes) \<Rightarrow> ptree \<Rightarrow> piece_info \<Rightarrow> bool" where
  "stands_for sha256 t p \<longleftrightarrow> perfect t \<and> pi_size p = tree_size t \<and> pi_commitment p = tree_root sha256 t"

definition stack_pieces :: "ptree list \<Rightarrow> piece_info list" where
  "stack_pieces ts = concat (map tree_pieces (rev ts))"

abbreviation stack_for :: "(bytes \<Rightarrow> bytes) \<Rightarrow> ptree list \<Rightarrow> piece_info list \<Rightarrow> bool" where
  "stack_for sha256 \<equiv> list_all2 (stands_for sha256)"

section \<open>What the reduction computes\<close>

lemma join_piece_infos_tree:
  assumes "join_piece_infos sha256 l r = Ok p" "stands_for sha256 t1 l" "stands_for sha256 t2 r"
  shows "stands_for sha256 (Join t1 t2) p"
  using assms by (auto simp: join_piece_infos_def stands_for_def ok_iff split: if_splits)

lemma padding_piece_tree:
  assumes "padding_piece n = Ok p"
  shows "stands_for sha256 (Pad n) p"
  using assms by (auto simp: padding_piece_def stands_for_def zero_commitment_def ok_iff)

lemma reduce_tree:
  assumes "reduce sha256 st = Ok st'" "stack_for sha256 ts st"
  shows "\<exists>ts'. stack_for sha256 ts' st' \<and> stack_pieces ts' = stack_pieces ts"
  using assms
proof (induction sha256 st arbitrary: ts rule: reduce.induct)
  case (1 sha256 a b st)
  from 1(3) obtain ta tb ts0 where ts: "ts = ta # tb # ts0" "stands_for sha256 ta a" "stands_for sha256 tb b" "stack_for sha256 ts0 st"
    by (auto simp: list_all2_Cons2)
  show ?case
  proof (cases "pi_size a = pi_size b")
    case False
    then have "st' = a # b # st" using 1(2) by simp
    then show ?thesis using 1(3) by blast
  next
    case True
    then obtain p where p: "join_piece_infos sha256 b a = Ok p" "reduce sha256 (p # st) = Ok st'"
      using 1(2) by (auto split: res.splits)
    have "stack_for sha256 (Join tb ta # ts0) (p # st)" using join_piece_infos_tree [OF p(1) ts(3,2)] ts(4) by simp
    from 1(1) [OF _ p(1) p(2) this] True obtain ts' where
      "stack_for sha256 ts' st'" "stack_pieces ts' = stack_pieces (Join tb ta # ts0)" by auto
    then show ?thesis using ts(1) by (auto simp: stack_pieces_def)
  qed
qed auto

lemma pad_step_tree:
  assumes "padding_piece (pi_size p) = Ok q" "reduce sha256 (q # p # st) = Ok st'" "stack_for sha256 ts (p # st)"
  shows "\<exists>ts'. stack_for sha256 ts' st' \<and> stack_pieces ts' = stack_pieces ts"
proof -
  have "stack_for sha256 (Pad (pi_size p) # ts) (q # p # st)" using assms(3) padding_piece_tree [OF assms(1)] by simp
  from reduce_tree [OF assms(2) this] show ?thesis by (simp add: stack_pieces_def)
qed

lemma pad_up_to_tree:
  assumes "pad_up_to sha256 fuel n st = Ok st'" "stack_for sha256 ts st"
  shows "\<exists>ts'. stack_for sha256 ts' st' \<and> stack_pieces ts' = stack_pieces ts"
  using assms
proof (induction sha256 fuel n st arbitrary: ts rule: pad_up_to.induct)
  case (3 sha256 fuel n p st)
  show ?case
  proof (cases "n \<le> pi_size p")
    case True
    then show ?thesis using "3.prems" by auto
  next
    case False
    then obtain q st1 where q: "padding_piece (pi_size p) = Ok q" "reduce sha256 (q # p # st) = Ok st1"
      "pad_up_to sha256 fuel n st1 = Ok st'" using "3.prems"(1) by (auto simp: ok_iff)
    from pad_step_tree [OF q(1,2) "3.prems"(2)] obtain ts1 where
      ts1: "stack_for sha256 ts1 st1" "stack_pieces ts1 = stack_pieces ts" by blast
    from "3.IH" [OF False q(3) ts1(1)] ts1(2) show ?thesis by simp
  qed
qed auto

lemma add_piece_tree:
  assumes "add_piece sha256 p st = Ok st'" "stack_for sha256 ts st"
  shows "\<exists>ts'. stack_for sha256 ts' st' \<and> stack_pieces ts' = stack_pieces ts @ [p]"
proof (cases "st = []")
  case True
  have "stack_for sha256 [Piece p] [p] \<and> stack_pieces [Piece p] = [p]"
    by (simp add: stands_for_def stack_pieces_def)
  moreover from True assms have "st' = [p]" "stack_pieces ts = []" by (auto simp: add_piece_def stack_pieces_def)
  ultimately show ?thesis by (metis append_Nil)
next
  case False
  then obtain st1 where st1: "pad_up_to sha256 65 (pi_size p) st = Ok st1" "reduce sha256 (p # st1) = Ok st'"
    using assms(1) by (auto simp: add_piece_def ok_iff)
  from pad_up_to_tree [OF st1(1) assms(2)] obtain ts1 where
    ts1: "stack_for sha256 ts1 st1" "stack_pieces ts1 = stack_pieces ts" by blast
  have "stack_for sha256 (Piece p # ts1) (p # st1)" using ts1(1) by (simp add: stands_for_def)
  from reduce_tree [OF st1(2) this] ts1(2) show ?thesis by (simp add: stack_pieces_def)
qed

lemma add_pieces_tree:
  assumes "add_pieces sha256 ps st = Ok st'" "stack_for sha256 ts st"
  shows "\<exists>ts'. stack_for sha256 ts' st' \<and> stack_pieces ts' = stack_pieces ts @ ps"
  using assms
proof (induction sha256 ps st arbitrary: ts rule: add_pieces.induct)
  case (2 sha256 p ps st)
  then obtain st1 where st1: "add_piece sha256 p st = Ok st1" "add_pieces sha256 ps st1 = Ok st'"
    by (auto simp: ok_iff)
  from add_piece_tree [OF st1(1) "2.prems"(2)] obtain ts1 where
    ts1: "stack_for sha256 ts1 st1" "stack_pieces ts1 = stack_pieces ts @ [p]" by blast
  from "2.IH" [OF st1(2) ts1(1)] ts1(2) show ?case by auto
qed auto

lemma finish_loop_tree:
  assumes "finish_loop sha256 fuel n st = Ok p" "stack_for sha256 ts st"
  shows "\<exists>t. stands_for sha256 t p \<and> tree_pieces t = stack_pieces ts \<and> n \<le> tree_size t"
  using assms
proof (induction sha256 fuel n st arbitrary: ts rule: finish_loop.induct)
  case (3 sha256 fuel n q st)
  show ?case
  proof (cases "n \<le> pi_size q \<and> st = []")
    case True
    then have "p = q" using "3.prems"(1) by simp
    moreover obtain t where "ts = [t]" "stands_for sha256 t q"
      using "3.prems"(2) True by (simp add: list_all2_Cons2) blast
    ultimately show ?thesis using True by (intro exI [of _ t]) (simp add: stack_pieces_def stands_for_def)
  next
    case False
    then obtain z st1 where z: "padding_piece (pi_size q) = Ok z" "reduce sha256 (z # q # st) = Ok st1"
      "finish_loop sha256 fuel n st1 = Ok p"
      using "3.prems"(1) unfolding finish_loop.simps(3) if_not_P [OF False] res_bind_Ok_iff by blast
    from pad_step_tree [OF z(1,2) "3.prems"(2)] obtain ts1 where
      ts1: "stack_for sha256 ts1 st1" "stack_pieces ts1 = stack_pieces ts" by blast
    from "3.IH" [OF False z(3) ts1(1)] ts1(2) show ?thesis by simp
  qed
qed auto

lemma compute_commitment_tree:
  assumes "compute_unsealed_sector_commitment sha256 ssize ps = Ok c" "ps \<noteq> []"
  shows "\<exists>t. perfect t \<and> tree_pieces t = ps \<and> tree_root sha256 t = c \<and> sector_size_bytes ssize \<le> tree_size t"
proof -
  obtain st p where st: "add_pieces sha256 ps [] = Ok st" "finish_loop sha256 65 (sector_size_bytes ssize) st = Ok p" "c = pi_commitment p"
    using assms(1) unfolding compute_unsealed_sector_commitment_def if_not_P [OF assms(2)] finish_def res_bind_Ok_iff
    by (metis res.inject(1))
  from add_pieces_tree [OF st(1), of "[]"] obtain ts where ts: "stack_for sha256 ts st" "stack_pieces ts = ps"
    by (auto simp: stack_pieces_def)
  from finish_loop_tree [OF st(2) ts(1)] ts(2) st(3) show ?thesis by (auto simp: stands_for_def)
qed

section \<open>The reduction succeeds\<close>

text \<open>
  The stack holds powers of two, strictly increasing from its top. While a loop
  pads, what it has added so far stays below the size of the top piece, so the
  sizes stay within the table of zero pieces.
\<close>

definition pow2 :: "nat \<Rightarrow> bool" where
  "pow2 n \<longleftrightarrow> (\<exists>k\<ge>7. n = 2 ^ k)"

lemma pow2_less: "pow2 a \<Longrightarrow> pow2 b \<Longrightarrow> a < b \<Longrightarrow> 2 * a \<le> b"
  by (auto simp: pow2_def) (metis Suc_leI numeral_2_eq_2 power_Suc power_increasing lessI less_imp_le one_le_numeral)

lemma pow2_double: "pow2 a \<Longrightarrow> pow2 (a + a)"
  by (auto simp: pow2_def) (metis le_SucI mult_2 power_Suc)

lemma pow2_pos: "pow2 a \<Longrightarrow> 0 < a"
  by (auto simp: pow2_def)

definition sizes_ok :: "nat list \<Rightarrow> bool" where
  "sizes_ok zs \<longleftrightarrow> sorted_wrt (<) zs \<and> (\<forall>z\<in>set zs. pow2 z)"

lemma padding_piece_total:
  assumes "pow2 n" "n \<le> 2 ^ 41"
  shows "\<exists>q. padding_piece n = Ok q \<and> pi_size q = n"
proof -
  from assms obtain k where k: "n = 2 ^ k" "7 \<le> k" by (auto simp: pow2_def)
  with assms(2) have "k \<le> 41" using power_le_imp_le_exp [of "2::nat" k 41] by simp
  moreover have "length PIECE_COMMS = 35" by (simp add: PIECE_COMMS_def)
  ultimately show ?thesis using k by (simp add: padding_piece_def zero_piece_commitment_def sub_u_def)
qed

text \<open>A piece that is not larger than the top of the stack is merged into it.\<close>

lemma reduce_total:
  assumes "st = p # rest" "pow2 (pi_size p)" "sizes_ok (map pi_size rest)"
    "rest = [] \<or> pi_size p \<le> pi_size (hd rest)" "sum_list (map pi_size st) < 2 ^ 64"
  shows "\<exists>st'. reduce sha256 st = Ok st' \<and> st' \<noteq> [] \<and> sizes_ok (map pi_size st') \<and>
    sum_list (map pi_size st') = sum_list (map pi_size st) \<and> pi_size p \<le> pi_size (hd st') \<and>
    (rest \<noteq> [] \<longrightarrow> pi_size (hd rest) = pi_size p \<longrightarrow> 2 * pi_size p \<le> pi_size (hd st')) \<and>
    (1 < length st' \<longrightarrow> last st' = last st)"
  using assms
proof (induction sha256 st arbitrary: p rest rule: reduce.induct)
  case (1 sha256 a b st)
  then have st: "p = a" "rest = b # st" by simp_all
  show ?case
  proof (cases "pi_size a = pi_size b")
    case False
    then have "sizes_ok (map pi_size (a # b # st))" using "1.prems"(2-4) st by (auto simp: sizes_ok_def)
    then show ?thesis using False st by simp
  next
    case True
    let ?j = "\<lparr> pi_commitment = piece_hash sha256 (pi_commitment b) (pi_commitment a), pi_size = pi_size b + pi_size a \<rparr>"
    have j: "join_piece_infos sha256 b a = Ok ?j"
      using "1.prems"(5) True by (simp add: join_piece_infos_def add_u_def u64_bound_def)
    have ok: "sizes_ok (map pi_size st)" "pow2 (pi_size ?j)" "pow2 (pi_size b)"
      using "1.prems"(2,3) st True by (auto simp: sizes_ok_def pow2_double)
    have "st = [] \<or> pi_size ?j \<le> pi_size (hd st)"
    proof (cases st)
      case (Cons c st1)
      then have "pi_size b < pi_size c" "pow2 (pi_size c)" using "1.prems"(3) st by (auto simp: sizes_ok_def)
      then have "2 * pi_size b \<le> pi_size c" using pow2_less ok(3) by blast
      then show ?thesis using True Cons by simp
    qed simp
    from "1.IH" [OF _ j refl ok(2,1) this] True "1.prems"(5)
    obtain st' where st': "reduce sha256 (?j # st) = Ok st'" "st' \<noteq> []" "sizes_ok (map pi_size st')"
      "sum_list (map pi_size st') = sum_list (map pi_size (?j # st))" "pi_size ?j \<le> pi_size (hd st')"
      "1 < length st' \<longrightarrow> last st' = last (?j # st)"
      by auto
    have "st \<noteq> []" if "1 < length st'" using st'(1) that by (cases st) auto
    then show ?thesis using st' True st j by (auto simp del: reduce.simps simp: reduce.simps(1))
  qed
qed (auto simp: sizes_ok_def)

lemma pad_step_total:
  assumes ok: "sizes_ok (map pi_size (p # rest))" and le: "pi_size p \<le> 2 ^ 41"
    and sum: "sum_list (map pi_size (p # rest)) + pi_size p < 2 ^ 64"
  shows "\<exists>q st'. padding_piece (pi_size p) = Ok q \<and> reduce sha256 (q # p # rest) = Ok st' \<and> st' \<noteq> [] \<and>
    sizes_ok (map pi_size st') \<and> sum_list (map pi_size st') = sum_list (map pi_size (p # rest)) + pi_size p \<and>
    2 * pi_size p \<le> pi_size (hd st') \<and> (1 < length st' \<longrightarrow> rest \<noteq> [] \<and> last st' = last (p # rest))"
proof -
  have p2: "pow2 (pi_size p)" using ok by (simp add: sizes_ok_def)
  from padding_piece_total [OF this le] obtain q where q: "padding_piece (pi_size p) = Ok q" "pi_size q = pi_size p" by blast
  have "pow2 (pi_size q)" "p # rest = [] \<or> pi_size q \<le> pi_size (hd (p # rest))"
    "sum_list (map pi_size (q # p # rest)) < 2 ^ 64" using q(2) p2 sum by simp_all
  from reduce_total [OF refl this(1) ok this(2,3)] obtain st' where
    st': "reduce sha256 (q # p # rest) = Ok st'" "st' \<noteq> []" "sizes_ok (map pi_size st')"
      "sum_list (map pi_size st') = sum_list (map pi_size (q # p # rest))"
      "p # rest \<noteq> [] \<longrightarrow> pi_size (hd (p # rest)) = pi_size q \<longrightarrow> 2 * pi_size q \<le> pi_size (hd st')"
      "1 < length st' \<longrightarrow> last st' = last (q # p # rest)" by blast
  moreover have "rest \<noteq> []" if "1 < length st'"
    using st'(1) that q(2) by (auto split: res.splits)
  ultimately show ?thesis using q by (intro exI [of _ q] exI [of _ st']) simp
qed

lemma pad_up_to_total:
  assumes "st \<noteq> []" "sizes_ok (map pi_size st)" "pow2 n" "n \<le> 2 ^ 40" "n \<le> 2 ^ fuel * pi_size (hd st)"
    "sum_list (map pi_size st) + (n - pi_size (hd st)) < 2 ^ 63"
  shows "\<exists>st'. pad_up_to sha256 (Suc fuel) n st = Ok st' \<and> st' \<noteq> [] \<and> sizes_ok (map pi_size st') \<and>
    n \<le> pi_size (hd st') \<and> sum_list (map pi_size st') \<le> sum_list (map pi_size st) + (n - pi_size (hd st))"
  using assms
proof (induction fuel arbitrary: st)
  case 0
  then show ?case by (cases st) auto
next
  case (Suc fuel)
  then obtain p rest where st: "st = p # rest" by (cases st) auto
  show ?case
  proof (cases "n \<le> pi_size p")
    case True
    then show ?thesis using Suc.prems st by simp
  next
    case False
    then have h: "2 * pi_size p \<le> n" using pow2_less [of "pi_size p" n] Suc.prems(2,3) st by (simp add: sizes_ok_def)
    have "pi_size p \<le> 2 ^ 41" "sum_list (map pi_size (p # rest)) + pi_size p < 2 ^ 64"
      using h Suc.prems(4,6) st by simp_all
    from pad_step_total [OF Suc.prems(2) [unfolded st] this] obtain q st1 where
      q: "padding_piece (pi_size p) = Ok q" "reduce sha256 (q # p # rest) = Ok st1" "st1 \<noteq> []"
      "sizes_ok (map pi_size st1)" "sum_list (map pi_size st1) = sum_list (map pi_size (p # rest)) + pi_size p"
      "2 * pi_size p \<le> pi_size (hd st1)" by blast
    have "n \<le> 2 ^ fuel * (2 * pi_size p)" using Suc.prems(5) st by (simp add: ac_simps)
    also have "\<dots> \<le> 2 ^ fuel * pi_size (hd st1)" by (rule mult_le_mono2 [OF q(6)])
    finally have n: "n \<le> 2 ^ fuel * pi_size (hd st1)" .
    have s: "sum_list (map pi_size st1) + (n - pi_size (hd st1)) \<le> sum_list (map pi_size st) + (n - pi_size (hd st))"
      using q(5,6) h st by simp
    from Suc.IH [OF q(3,4) Suc.prems(3,4) n] s Suc.prems(6) obtain st' where
      "pad_up_to sha256 (Suc fuel) n st1 = Ok st'" "st' \<noteq> []" "sizes_ok (map pi_size st')" "n \<le> pi_size (hd st')"
      "sum_list (map pi_size st') \<le> sum_list (map pi_size st1) + (n - pi_size (hd st1))" by auto
    then show ?thesis using False s unfolding st pad_up_to.simps(3) [of _ "Suc fuel"] by (simp add: q(1,2) del: pad_up_to.simps reduce.simps)
  qed
qed

lemma add_piece_total:
  assumes "sizes_ok (map pi_size st)" "pow2 (pi_size p)" "pi_size p \<le> 2 ^ 40"
    "sum_list (map pi_size st) + 2 * pi_size p < 2 ^ 63"
  shows "\<exists>st'. add_piece sha256 p st = Ok st' \<and> st' \<noteq> [] \<and> sizes_ok (map pi_size st') \<and>
    sum_list (map pi_size st') \<le> sum_list (map pi_size st) + 2 * pi_size p"
proof (cases "st = []")
  case True
  then show ?thesis using assms by (simp add: add_piece_def sizes_ok_def)
next
  case False
  have "0 < pi_size (hd st)" using False assms(1) by (cases st) (auto simp: sizes_ok_def pow2_pos)
  then have "pi_size p \<le> 2 ^ 64 * pi_size (hd st)" using assms(3) by simp
  moreover have "sum_list (map pi_size st) + (pi_size p - pi_size (hd st)) < 2 ^ 63" using assms(4) by simp
  ultimately obtain st1 where st1: "pad_up_to sha256 (Suc 64) (pi_size p) st = Ok st1" "st1 \<noteq> []" "sizes_ok (map pi_size st1)"
    "pi_size p \<le> pi_size (hd st1)" "sum_list (map pi_size st1) \<le> sum_list (map pi_size st) + (pi_size p - pi_size (hd st))"
    using pad_up_to_total [OF False assms(1-3), of 64 sha256] by blast
  have "sum_list (map pi_size (p # st1)) \<le> sum_list (map pi_size st) + 2 * pi_size p" using st1(5) by simp
  moreover from this have "sum_list (map pi_size (p # st1)) < 2 ^ 64" using assms(4) by simp
  ultimately show ?thesis using reduce_total [OF refl assms(2) st1(3), of sha256] st1(1,4) False
    by (auto simp: add_piece_def simp del: reduce.simps pad_up_to.simps)
qed

lemma add_pieces_total:
  assumes "sizes_ok (map pi_size st)" "\<forall>p\<in>set ps. pow2 (pi_size p) \<and> pi_size p \<le> 2 ^ 40"
    "sum_list (map pi_size st) + 2 * sum_list (map pi_size ps) < 2 ^ 63"
  shows "\<exists>st'. add_pieces sha256 ps st = Ok st' \<and> sizes_ok (map pi_size st') \<and>
    sum_list (map pi_size st') \<le> sum_list (map pi_size st) + 2 * sum_list (map pi_size ps) \<and> (ps \<noteq> [] \<or> st \<noteq> [] \<longrightarrow> st' \<noteq> [])"
  using assms
proof (induction ps arbitrary: st)
  case (Cons p ps)
  then obtain st1 where st1: "add_piece sha256 p st = Ok st1" "st1 \<noteq> []" "sizes_ok (map pi_size st1)"
    "sum_list (map pi_size st1) \<le> sum_list (map pi_size st) + 2 * pi_size p"
    using add_piece_total [of st p sha256] by auto
  with Cons.IH [of st1] Cons.prems show ?case by force
qed simp

lemma finish_loop_total:
  assumes "st \<noteq> []" "sizes_ok (map pi_size st)" "n \<le> 2 ^ 40" "n \<le> 2 ^ fuel * pi_size (hd st)"
    "1 < length st \<longrightarrow> pi_size (last st) \<le> 2 ^ fuel * pi_size (hd st) \<and> pi_size (last st) \<le> 2 ^ 40"
    "sum_list (map pi_size st) + (2 ^ 40 - pi_size (hd st)) < 2 ^ 63"
  shows "\<exists>p. finish_loop sha256 (Suc fuel) n st = Ok p"
  using assms
proof (induction fuel arbitrary: st)
  case 0
  then obtain p rest where st: "st = p # rest" by (cases st) auto
  have "rest = []"
  proof (rule ccontr)
    assume "rest \<noteq> []"
    then have "pi_size p < pi_size (last rest)" "pi_size (last rest) \<le> pi_size p"
      using "0.prems"(2,5) st by (auto simp: sizes_ok_def)
    then show False by simp
  qed
  then show ?case using "0.prems"(4) st by simp
next
  case (Suc fuel)
  then obtain p rest where st: "st = p # rest" by (cases st) auto
  show ?case
  proof (cases "n \<le> pi_size p \<and> rest = []")
    case True
    then show ?thesis using st by simp
  next
    case False
    have "pi_size p < 2 ^ 40"
    proof (cases "rest = []")
      case False
      then have "pi_size p < pi_size (last rest)" using Suc.prems(2) st by (auto simp: sizes_ok_def)
      then show ?thesis using Suc.prems(5) st False by simp
    qed (use False Suc.prems(3) in simp)
    moreover have "pow2 (2 ^ 40)" by (auto simp: pow2_def intro!: exI [of _ 40])
    ultimately have h: "2 * pi_size p \<le> 2 ^ 40"
      using pow2_less [of "pi_size p" "2 ^ 40"] Suc.prems(2) st by (simp add: sizes_ok_def)
    have "pi_size p \<le> 2 ^ 41" "sum_list (map pi_size (p # rest)) + pi_size p < 2 ^ 64"
      using h Suc.prems(6) st by simp_all
    from pad_step_total [OF Suc.prems(2) [unfolded st] this] obtain q st1 where
      q: "padding_piece (pi_size p) = Ok q" "reduce sha256 (q # p # rest) = Ok st1" "st1 \<noteq> []"
      "sizes_ok (map pi_size st1)" "sum_list (map pi_size st1) = sum_list (map pi_size (p # rest)) + pi_size p"
      "2 * pi_size p \<le> pi_size (hd st1)" "1 < length st1 \<longrightarrow> rest \<noteq> [] \<and> last st1 = last (p # rest)" by blast
    have double: "2 ^ Suc fuel * pi_size p \<le> 2 ^ fuel * pi_size (hd st1)"
      using mult_le_mono2 [OF q(6), of "2 ^ fuel"] by (simp add: ac_simps)
    have "\<exists>r. finish_loop sha256 (Suc fuel) n st1 = Ok r"
    proof (rule Suc.IH [OF q(3,4) Suc.prems(3)])
      show "n \<le> 2 ^ fuel * pi_size (hd st1)" by (rule order.trans [OF Suc.prems(4) [unfolded st list.sel] double])
      have "pi_size (last rest) \<le> 2 ^ fuel * pi_size (hd st1) \<and> pi_size (last rest) \<le> 2 ^ 40" if "rest \<noteq> []"
        using Suc.prems(5) [unfolded st] that order.trans [OF _ double, of "pi_size (last rest)"] by simp
      then show "1 < length st1 \<longrightarrow> pi_size (last st1) \<le> 2 ^ fuel * pi_size (hd st1) \<and> pi_size (last st1) \<le> 2 ^ 40"
        using q(7) by auto
      show "sum_list (map pi_size st1) + (2 ^ 40 - pi_size (hd st1)) < 2 ^ 63"
        using Suc.prems(6) q(5,6) h st by simp
    qed
    then show ?thesis using False unfolding st finish_loop.simps(3) [of _ "Suc fuel"]
      by (auto simp: q(1,2) simp del: finish_loop.simps reduce.simps)
  qed
qed

end
