(* ===== verification/Commitment_Claims.thy ===== *)
theory Commitment_Claims
  imports Commitment_Tree
begin

text \<open>The properties of piece sizes and data commitments.\<close>

section \<open>Piece sizes\<close>

text \<open>
  C28: Padded and unpadded piece sizes correspond one to one: a valid padded size
  becomes a valid unpadded size and back, and a valid unpadded size becomes a
  valid padded size and back, as long as it fits in 64 bits.
\<close>

theorem piece_size_round_trip:
  "(padded_new n = Ok p \<and> n < u64_bound \<longrightarrow>
     (\<exists>u. unpadded p = (Ok u :: ('e, nat) res) \<and> unpadded_new u = Ok u \<and> padded u = (Ok p :: ('e, nat) res))) \<and>
   (unpadded_new n = Ok u \<and> n + n div 127 < u64_bound \<longrightarrow>
     (\<exists>p. padded u = (Ok p :: ('e, nat) res) \<and> padded_new p = Ok p \<and> unpadded p = (Ok u :: ('e, nat) res)))"
proof (intro conjI impI; elim conjE)
  assume "padded_new n = Ok p" "n < u64_bound"
  then obtain k where k: "p = 2 ^ k" "7 \<le> k" "n = p" by (auto simp: padded_new_Ok_iff)
  have "k < 64" using \<open>n < u64_bound\<close> k power_less_imp_less_exp [of "2::nat" k 64] by (simp add: u64_bound_def)
  then have "padded (127 * 2 ^ (k - 7)) = (Ok p :: ('e, nat) res)" using padded_power [of "k - 7", where ?'a = 'e] k by simp
  then show "\<exists>u. unpadded p = (Ok u :: ('e, nat) res) \<and> unpadded_new u = Ok u \<and> padded u = (Ok p :: ('e, nat) res)"
    using unpadded_power [OF k(2), where ?'a = 'e] k(1) by (auto simp: unpadded_new_Ok_iff)
next
  assume "unpadded_new n = Ok u" "n + n div 127 < u64_bound"
  then obtain k where k: "u = 127 * 2 ^ k" "n = u" by (auto simp: unpadded_new_Ok_iff)
  then have "2 ^ (k + 7) < (2::nat) ^ 64" using \<open>n + n div 127 < u64_bound\<close> by (simp add: u64_bound_def power_add)
  then have "k + 7 < 64" by (rule power_less_imp_less_exp [rotated]) simp
  then have "padded u = (Ok (2 ^ (k + 7)) :: ('e, nat) res)" using padded_power [of k, where ?'a = 'e] k(1) by simp
  then show "\<exists>p. padded u = (Ok p :: ('e, nat) res) \<and> padded_new p = Ok p \<and> unpadded p = (Ok u :: ('e, nat) res)"
    using unpadded_power [of "k + 7", where ?'a = 'e] k(1) by (auto simp: padded_new_Ok_iff)
qed

theorem piece_size_round_trip_witness:
  "(\<exists>u. unpadded 2048 = (Ok u :: (unit, nat) res) \<and> unpadded_new u = Ok u \<and> padded u = (Ok 2048 :: (unit, nat) res)) \<and>
   (\<exists>p. padded 254 = (Ok p :: (unit, nat) res) \<and> padded_new p = Ok p \<and> unpadded p = (Ok 254 :: (unit, nat) res))"
proof -
  have "padded_new 2048 = Ok 2048" "unpadded_new 254 = Ok 254" by code_simp+
  with piece_size_round_trip [of 2048 2048 254, where 'e = unit] piece_size_round_trip [of 254 2048 254, where 'e = unit]
  show ?thesis by (simp add: u64_bound_def)
qed

text \<open>
  C29: The padded size computed for data of arbitrary length is the smallest
  valid piece size that holds the data after padding, for every length above 64
  bytes whose padded length is at most \<open>2 ^ 63\<close>. For 64 bytes and less, and for
  padded lengths above \<open>2 ^ 63\<close> that fit into 64 bits, the function panics in every
  build, although its documentation accepts an arbitrary size. Where the padded
  length itself does not fit, a build with overflow checks panics, and any size
  that a build without returns is smaller than the data.
\<close>

theorem from_arbitrary_size_is_smallest:
  "(64 < n \<and> n + n div 127 \<le> 2 ^ 63 \<longrightarrow>
     (\<exists>p. from_arbitrary_size c n = (Ok p :: ('e, nat) res) \<and> padded_new p = Ok p \<and>
       n \<le> p - p div 128 \<and> (\<forall>q. padded_new q = Ok q \<and> n \<le> q - q div 128 \<longrightarrow> p \<le> q))) \<and>
   (n \<le> 64 \<or> 2 ^ 63 < n + n div 127 \<and> n + n div 127 < 2 ^ 64 \<longrightarrow>
     from_arbitrary_size c n = (Panic :: ('e, nat) res)) \<and>
   (n < 2 ^ 64 \<and> 2 ^ 64 \<le> n + n div 127 \<longrightarrow>
     from_arbitrary_size True n = (Panic :: ('e, nat) res) \<and>
     (\<forall>p. from_arbitrary_size False n = (Ok p :: ('e, nat) res) \<longrightarrow> p < n))"
proof (intro conjI impI allI; (elim conjE)?)
  assume "64 < n" "n + n div 127 \<le> 2 ^ 63"
  from from_arbitrary_size_ok [OF this] obtain j where j: "7 \<le> j" "from_arbitrary_size c n = (Ok (2 ^ j) :: ('e, nat) res)"
    "n \<le> 127 * 2 ^ (j - 7)" "\<And>i. 7 \<le> i \<Longrightarrow> n \<le> 127 * 2 ^ (i - 7) \<Longrightarrow> j \<le> i" by blast
  have holds: "(2::nat) ^ k - 2 ^ k div 128 = 127 * 2 ^ (k - 7)" if "7 \<le> k" for k
    using unpadded_power [OF that] by (simp add: unpadded_def sub_u_def split: if_splits)
  have "2 ^ j \<le> q" if "padded_new q = Ok q" "n \<le> q - q div 128" for q
  proof -
    from that(1) obtain i where "7 \<le> i" "q = 2 ^ i" by (auto simp: padded_new_Ok_iff)
    then show ?thesis using j(4) [of i] that(2) holds by (simp add: power_increasing)
  qed
  then show "\<exists>p. from_arbitrary_size c n = (Ok p :: ('e, nat) res) \<and> padded_new p = Ok p \<and>
       n \<le> p - p div 128 \<and> (\<forall>q. padded_new q = Ok q \<and> n \<le> q - q div 128 \<longrightarrow> p \<le> q)"
    using j(1-3) holds by (intro exI [of _ "2 ^ j"]) (auto simp: padded_new_Ok_iff)
next
  assume "n \<le> 64 \<or> 2 ^ 63 < n + n div 127 \<and> n + n div 127 < 2 ^ 64"
  then show "from_arbitrary_size c n = (Panic :: ('e, nat) res)"
    using from_arbitrary_size_small from_arbitrary_size_large by blast
next
  assume "n < 2 ^ 64" "2 ^ 64 \<le> n + n div 127"
  then show "from_arbitrary_size True n = (Panic :: ('e, nat) res)"
    by (simp add: from_arbitrary_size_def add_in_def u64_bound_def)
qed (rule from_arbitrary_size_wrapped)

theorem from_arbitrary_size_is_smallest_witness:
  "(\<exists>p. from_arbitrary_size False 1000 = (Ok p :: (unit, nat) res) \<and> 1000 \<le> p - p div 128) \<and>
   from_arbitrary_size False 64 = (Panic :: (unit, nat) res) \<and>
   from_arbitrary_size False (2 ^ 63) = (Panic :: (unit, nat) res) \<and>
   from_arbitrary_size True (2 ^ 64 - 1) = (Panic :: (unit, nat) res)"
  using from_arbitrary_size_is_smallest [of 1000 False, where 'e = unit] from_arbitrary_size_is_smallest [of 64 False, where 'e = unit]
    from_arbitrary_size_is_smallest [of "2 ^ 63" False, where 'e = unit] from_arbitrary_size_is_smallest [of "2 ^ 64 - 1", where 'e = unit]
  by auto

text \<open>Without overflow checks, the greatest length gets a size that is less than a hundredth of it.\<close>

theorem largest_size_wraps: "from_arbitrary_size False (2 ^ 64 - 1) = (Ok (2 ^ 58) :: (unit, nat) res)"
  by code_simp

section \<open>Data commitments\<close>







definition demo_pieces :: "nat list \<Rightarrow> piece_info list" where
  "demo_pieces = map (\<lambda>n. \<lparr> pi_commitment = replicate 32 1, pi_size = n \<rparr>)"


text \<open>
  The check of the piece sizes ignores the padding that aligns a piece to
  its size: pieces of 128, 1024 and 512 bytes pass it for a sector of 2048
  bytes, and the commitment that is returned is the one of 4096 bytes.
\<close>

theorem misaligned_pieces_outgrow_sector:
  "ensure_piece_sizes S2KiB (demo_pieces [128, 1024, 512]) = Ok () \<and>
   (case res_bind (add_pieces sha256 (demo_pieces [128, 1024, 512]) []) (finish_loop sha256 65 (sector_size_bytes S2KiB)) of
      Ok p \<Rightarrow> pi_size p = 4096 \<and>
        compute_unsealed_sector_commitment sha256 S2KiB (demo_pieces [128, 1024, 512]) = Ok (pi_commitment p)
    | _ \<Rightarrow> False)"
  by code_simp

end
