(* ===== verification/Assignment.thy ===== *)
theory Assignment
  imports Deadline "HOL-Library.Product_Lexorder" "HOL-Library.Multiset"
begin

text \<open>
  The assignment of new sectors to deadlines
  (\<^verbatim>\<open>pallets/storage-provider/src/deadline/assignment.rs\<close>). The binary heap of the
  code is used through \<^verbatim>\<open>peek_mut\<close> only, which gives access to its greatest entry;
  it is the list of its entries here. The counts are 64-bit: an addition or a product that
  does not fit is a panic, as is a division by a partition size of zero.
\<close>

section \<open>Comparing deadlines\<close>

record deadline_assignment_info =
  da_index :: nat
  da_live_sectors :: nat
  da_total_sectors :: nat

text \<open>\<^verbatim>\<open>u64::div_ceil\<close>, which panics on a zero divisor as the remainder does.\<close>

definition div_ceil :: "nat \<Rightarrow> nat \<Rightarrow> ('e, nat) res" where
  "div_ceil a b = (if b = 0 then Panic else Ok (a div b + (if a mod b = 0 then 0 else 1)))"

definition partitions_after_assignment :: "nat \<Rightarrow> deadline_assignment_info \<Rightarrow> ('e, nat) res" where
  "partitions_after_assignment partition_size d =
    res_bind (add_u u64_bound (da_total_sectors d) 1) (\<lambda>total_sectors. div_ceil total_sectors partition_size)"

definition compact_partitions_after_assignment :: "nat \<Rightarrow> deadline_assignment_info \<Rightarrow> ('e, nat) res" where
  "compact_partitions_after_assignment partition_size d =
    res_bind (add_u u64_bound (da_live_sectors d) 1) (\<lambda>live_sectors. div_ceil live_sectors partition_size)"

definition is_full_now :: "nat \<Rightarrow> deadline_assignment_info \<Rightarrow> ('e, bool) res" where
  "is_full_now partition_size d =
    (if partition_size = 0 then Panic else Ok (da_total_sectors d mod partition_size = 0))"

definition max_partitions_reached :: "nat \<Rightarrow> nat \<Rightarrow> deadline_assignment_info \<Rightarrow> ('e, bool) res" where
  "max_partitions_reached partition_size max_partitions d =
    res_bind (mul_u u64_bound partition_size max_partitions) (\<lambda>limit. Ok (limit \<le> da_total_sectors d))"

datatype ordering = Less | Equal | Greater

definition cmp_of :: "'a::linorder \<Rightarrow> 'a \<Rightarrow> ordering" where
  "cmp_of a b = (if a < b then Less else if a = b then Equal else Greater)"

text \<open>\<^verbatim>\<open>Ordering::then_with\<close>: the second comparison is made only if the first finds no difference.\<close>

definition then_with :: "('e, ordering) res \<Rightarrow> ('e, ordering) res \<Rightarrow> ('e, ordering) res" where
  "then_with a b = res_bind a (\<lambda>r. if r = Equal then b else Ok r)"

definition cmp_by :: "(deadline_assignment_info \<Rightarrow> ('e, 'a::linorder) res) \<Rightarrow> deadline_assignment_info \<Rightarrow>
    deadline_assignment_info \<Rightarrow> ('e, ordering) res" where
  "cmp_by f a b = res_bind (f a) (\<lambda>x. res_bind (f b) (\<lambda>y. Ok (cmp_of x y)))"

fun ordering_reverse :: "ordering \<Rightarrow> ordering" where
  "ordering_reverse Less = Greater"
| "ordering_reverse Equal = Equal"
| "ordering_reverse Greater = Less"

definition assignment_cmp ::
  "nat \<Rightarrow> deadline_assignment_info \<Rightarrow> deadline_assignment_info \<Rightarrow> ('e, ordering) res" where
  "assignment_cmp partition_size a b =
    then_with (cmp_by (compact_partitions_after_assignment partition_size) a b)
    (then_with (cmp_by (partitions_after_assignment partition_size) a b)
    (then_with (cmp_by (is_full_now partition_size) a b)
    (then_with
      (res_bind (is_full_now partition_size a) (\<lambda>full_a.
       if full_a then Ok Equal
       else
         res_bind (is_full_now partition_size b) (\<lambda>full_b.
         if full_b then Ok Equal else Ok (ordering_reverse (cmp_of (da_total_sectors a) (da_total_sectors b))))))
    (then_with (Ok (cmp_of (da_live_sectors a) (da_live_sectors b)))
               (Ok (cmp_of (da_index a) (da_index b)))))))"

section \<open>Assigning\<close>

text \<open>The order of the heap entries is the reverse of the comparison.\<close>

definition entry_cmp ::
  "nat \<Rightarrow> deadline_assignment_info \<Rightarrow> deadline_assignment_info \<Rightarrow> ('e, ordering) res" where
  "entry_cmp partition_size a b = res_bind (assignment_cmp partition_size a b) (\<lambda>r. Ok (ordering_reverse r))"

text \<open>
  The greatest entry of the heap, found by comparing the entries. The heap of the code makes
  these comparisons when it is built and whenever its greatest entry has been changed.
\<close>

fun heap_peek :: "nat \<Rightarrow> deadline_assignment_info list \<Rightarrow> ('e, deadline_assignment_info option) res" where
  "heap_peek partition_size [] = Ok None"
| "heap_peek partition_size (e # es) =
    res_bind (heap_peek partition_size es) (\<lambda>top.
    case top of
      None \<Rightarrow> Ok (Some e)
    | Some m \<Rightarrow>
        res_bind (entry_cmp partition_size e m) (\<lambda>r. Ok (if r = Less then Some m else Some e)))"

text \<open>The heap of the deadlines that are open for assignment.\<close>

definition initial_heap :: "deadline option list \<Rightarrow> deadline_assignment_info list" where
  "initial_heap deadlines =
    List.map_filter (\<lambda>index. map_option (\<lambda>d.
        \<lparr> da_index = index, da_live_sectors = d_live_sectors d, da_total_sectors = d_total_sectors d \<rparr>) (deadlines ! index))
      [0..<length deadlines]"

definition count_sector :: "deadline_assignment_info \<Rightarrow> ('e, deadline_assignment_info) res" where
  "count_sector d =
    res_bind (add_u u64_bound (da_live_sectors d) 1) (\<lambda>live_sectors.
    res_bind (add_u u64_bound (da_total_sectors d) 1) (\<lambda>total_sectors.
    Ok (d\<lparr>da_live_sectors := live_sectors, da_total_sectors := total_sectors\<rparr>)))"

fun assign_loop ::
  "nat \<Rightarrow> nat \<Rightarrow> sector_on_chain_info list \<Rightarrow> deadline_assignment_info list \<Rightarrow> sector_on_chain_info list list
    \<Rightarrow> (general_pallet_error, sector_on_chain_info list list) res" where
  "assign_loop max_partitions partition_size [] heap out = Ok out"
| "assign_loop max_partitions partition_size (s # ss) heap out =
    res_bind (heap_peek partition_size heap) (\<lambda>top.
    res_bind (ok_or DeadlineErrorCouldNotConstructDeadlineInfo top) (\<lambda>info.
    res_bind (max_partitions_reached partition_size max_partitions info) (\<lambda>reached.
    if reached then Err DeadlineErrorMaxPartitionsReached
    else if \<not> da_index info < length out then Panic
    else
      res_bind (count_sector info) (\<lambda>counted.
      let heap' = map (\<lambda>e. if e = info then counted else e) heap in
      res_bind (heap_peek partition_size heap') (\<lambda>_.
      assign_loop max_partitions partition_size ss heap'
        (out[da_index info := out ! da_index info @ [s]]))))))"

definition assign_deadlines ::
  "nat \<Rightarrow> nat \<Rightarrow> deadline option list \<Rightarrow> sector_on_chain_info list \<Rightarrow> nat
    \<Rightarrow> (general_pallet_error, sector_on_chain_info list list) res" where
  "assign_deadlines max_partitions partition_size deadlines sectors w_post_period_deadlines =
    (let heap = initial_heap deadlines in
     res_bind (heap_peek partition_size heap) (\<lambda>_.
     if heap = [] then Panic
     else assign_loop max_partitions partition_size sectors heap (replicate w_post_period_deadlines [])))"

end
