(* ===== verification/Assignment_Claims.thy ===== *)
theory Assignment_Claims
  imports Assignment Partition_Claims "HOL-Library.Sublist"
begin

text \<open>
  The properties of the assignment of sectors to deadlines: the order in which
  deadlines are filled, and what an assignment distributes.
\<close>

section \<open>The order of the deadlines\<close>

text \<open>The criteria of the comparison, as one key.\<close>

definition ceiling_div :: "nat \<Rightarrow> nat \<Rightarrow> nat" where
  "ceiling_div a b = a div b + (if a mod b = 0 then 0 else 1)"

definition assignment_key :: "nat \<Rightarrow> deadline_assignment_info \<Rightarrow> nat \<times> nat \<times> bool \<times> int \<times> nat \<times> nat" where
  "assignment_key partition_size d =
    (ceiling_div (da_live_sectors d + 1) partition_size, ceiling_div (da_total_sectors d + 1) partition_size,
     da_total_sectors d mod partition_size = 0,
     if da_total_sectors d mod partition_size = 0 then 0 else - int (da_total_sectors d),
     da_live_sectors d, da_index d)"

lemma cmp_of_Pair: "cmp_of (a, b) (c, d) = (if cmp_of a c = Equal then cmp_of b d else cmp_of a c)"
  by (auto simp: cmp_of_def less_prod_def)

lemma cmp_of_eq [simp]: "cmp_of a b = Equal \<longleftrightarrow> a = b"
  by (simp add: cmp_of_def)

lemma cmp_of_uminus: "cmp_of (- int a) (- int b) = ordering_reverse (cmp_of a b)"
  by (auto simp: cmp_of_def)

lemma then_with_Ok:
  "then_with a b = Ok r \<Longrightarrow> \<exists>q. a = Ok q \<and> (q = Equal \<longrightarrow> b = Ok r) \<and> (q \<noteq> Equal \<longrightarrow> r = q)"
  by (auto simp: then_with_def res_bind_Ok_iff split: if_splits)

lemma cmp_by_Ok: "cmp_by f a b = Ok r \<longleftrightarrow> (\<exists>x y. f a = Ok x \<and> f b = Ok y \<and> r = cmp_of x y)"
  by (auto simp: cmp_by_def res_bind_Ok_iff)

lemma partitions_Ok:
  "compact_partitions_after_assignment n d = Ok x \<longleftrightarrow>
    n \<noteq> 0 \<and> da_live_sectors d + 1 < u64_bound \<and> x = ceiling_div (da_live_sectors d + 1) n"
  "partitions_after_assignment n d = Ok x \<longleftrightarrow>
    n \<noteq> 0 \<and> da_total_sectors d + 1 < u64_bound \<and> x = ceiling_div (da_total_sectors d + 1) n"
  by (auto simp: compact_partitions_after_assignment_def partitions_after_assignment_def div_ceil_def
      ceiling_div_def res_bind_Ok_iff add_u_def)

text \<open>A comparison that does not panic compares the keys.\<close>

lemma assignment_cmp_key:
  assumes "assignment_cmp n a b = (Ok r :: ('e, ordering) res)"
  shows "r = cmp_of (assignment_key n a) (assignment_key n b)"
proof -
  let ?c = "\<lambda>d. ceiling_div (da_live_sectors d + 1) n" and ?p = "\<lambda>d. ceiling_div (da_total_sectors d + 1) n"
  let ?f = "\<lambda>d. da_total_sectors d mod n = 0"
  define last where "last = then_with (res_bind (is_full_now n a) (\<lambda>full_a. if full_a then Ok Equal
       else res_bind (is_full_now n b) (\<lambda>full_b. if full_b then Ok Equal
         else Ok (ordering_reverse (cmp_of (da_total_sectors a) (da_total_sectors b))))))
    (then_with (Ok (cmp_of (da_live_sectors a) (da_live_sectors b))) (Ok (cmp_of (da_index a) (da_index b))) :: ('e, ordering) res)"
  define rest where "rest = then_with (cmp_by (partitions_after_assignment n) a b) (then_with (cmp_by (is_full_now n) a b) last)"
  have "then_with (cmp_by (compact_partitions_after_assignment n) a b) rest = Ok r"
    using assms by (simp add: assignment_cmp_def rest_def last_def)
  from then_with_Ok [OF this] obtain q where q: "cmp_by (compact_partitions_after_assignment n) a b = (Ok q :: ('e, ordering) res)"
    "q = Equal \<longrightarrow> rest = Ok r" "q \<noteq> Equal \<longrightarrow> r = q" by blast
  have n: "n \<noteq> 0" and first: "q = cmp_of (?c a) (?c b)" using q(1) by (auto simp: cmp_by_Ok partitions_Ok)
  have full: "is_full_now n d = (Ok (?f d) :: ('e, bool) res)" for d using n by (simp add: is_full_now_def)
  show ?thesis
  proof (cases "?c a = ?c b")
    case False
    then show ?thesis using q(3) first by (simp add: assignment_key_def cmp_of_Pair)
  next
    case eq: True
    then have "rest = Ok r" using q(2) first by simp
    from then_with_Ok [OF this [unfolded rest_def]] obtain u where
      u: "cmp_by (partitions_after_assignment n) a b = (Ok u :: ('e, ordering) res)"
      "u = Equal \<longrightarrow> then_with (cmp_by (is_full_now n) a b) last = Ok r" "u \<noteq> Equal \<longrightarrow> r = u" by blast
    have second: "u = cmp_of (?p a) (?p b)" using u(1) by (auto simp: cmp_by_Ok partitions_Ok)
    show ?thesis
      using u(2,3) second eq
      by (cases "?p a = ?p b"; cases "?f a"; cases "?f b")
        (simp_all add: assignment_key_def cmp_of_Pair then_with_def last_def cmp_by_def full cmp_of_uminus split: if_splits)
  qed
qed

text \<open>It does not panic if the partition size is positive and the counts fit.\<close>

definition counts_fit :: "deadline_assignment_info \<Rightarrow> bool" where
  "counts_fit d \<longleftrightarrow> da_live_sectors d + 1 < u64_bound \<and> da_total_sectors d + 1 < u64_bound"

lemma assignment_cmp_total:
  assumes "0 < partition_size" "counts_fit a" "counts_fit b"
  shows "\<exists>r. assignment_cmp partition_size a b = Ok r"
  using assms
  by (simp add: assignment_cmp_def then_with_def cmp_by_def compact_partitions_after_assignment_def counts_fit_def
      partitions_after_assignment_def is_full_now_def div_ceil_def add_u_def)

lemma heap_peek_min:
  "heap_peek partition_size h = (Ok (Some m) :: ('e, deadline_assignment_info option) res) \<Longrightarrow>
    m \<in> set h \<and> (\<forall>e\<in>set h. assignment_key partition_size m \<le> assignment_key partition_size e)"
proof (induction h arbitrary: m)
  case (Cons e h)
  from Cons.prems obtain top where top: "heap_peek partition_size h = (Ok top :: ('e, deadline_assignment_info option) res)" by (auto simp: res_bind_Ok_iff)
  show ?case
  proof (cases top)
    case None
    then have "h = []" using top by (cases h) (auto simp: res_bind_Ok_iff split: option.splits if_splits)
    then show ?thesis using Cons.prems by auto
  next
    case (Some k)
    have K: "k \<in> set h" "\<forall>e\<in>set h. assignment_key partition_size k \<le> assignment_key partition_size e"
      using Cons.IH top Some by auto
    from Cons.prems top Some obtain r where r: "assignment_cmp partition_size e k = (Ok r :: ('e, ordering) res)"
      and m: "m = (if ordering_reverse r = Less then k else e)"
      by (auto simp: res_bind_Ok_iff entry_cmp_def split: if_splits)
    from assignment_cmp_key [OF r] m K show ?thesis
      by (cases "assignment_key partition_size k < assignment_key partition_size e")
        (auto simp: cmp_of_def intro: order_trans)
  qed
qed simp

lemma heap_peek_total:
  assumes "0 < partition_size" "\<forall>e\<in>set h. counts_fit e"
  shows "\<exists>top. heap_peek partition_size h = (Ok top :: ('e, deadline_assignment_info option) res) \<and> (h \<noteq> [] \<longrightarrow> top \<noteq> None) \<and> set_option top \<subseteq> set h"
  using assms(2)
proof (induction h)
  case (Cons e h)
  then obtain top where top: "heap_peek partition_size h = (Ok top :: ('e, deadline_assignment_info option) res)" "set_option top \<subseteq> set h" by auto
  show ?case
  proof (cases top)
    case (Some k)
    with top Cons.prems have "counts_fit e" "counts_fit k" by auto
    from assignment_cmp_total [OF assms(1) this] obtain r where "assignment_cmp partition_size e k = (Ok r :: ('e, ordering) res)" by blast
    then show ?thesis using top Some by (auto simp: entry_cmp_def)
  qed (simp add: top)
qed simp

text \<open>
  The six nested criteria of the comparison are the lexicographic order of
  one key: fewest partitions after compaction, fewest partitions, an open
  partition before a full one, the fullest open partition, fewest live sectors,
  lowest index. So the comparison is a total order, and the top of the heap is
  the deadline with the least key.
\<close>

theorem assignment_order_is_lexicographic:
  assumes "0 < partition_size" "h \<noteq> []" "\<forall>e\<in>set h. counts_fit e"
  shows "(\<forall>a\<in>set h. \<forall>b\<in>set h. assignment_cmp partition_size a b =
      (Ok (cmp_of (assignment_key partition_size a) (assignment_key partition_size b)) :: ('e, ordering) res)) \<and>
   (\<exists>m. heap_peek partition_size h = (Ok (Some m) :: ('e, deadline_assignment_info option) res) \<and> m \<in> set h \<and>
      (\<forall>e\<in>set h. assignment_key partition_size m \<le> assignment_key partition_size e))"
proof (intro conjI ballI)
  fix a b assume "a \<in> set h" "b \<in> set h"
  with assms(3) assignment_cmp_total [OF assms(1)] obtain r where
    r: "assignment_cmp partition_size a b = (Ok r :: ('e, ordering) res)" by blast
  from r assignment_cmp_key [OF r] show "assignment_cmp partition_size a b =
      (Ok (cmp_of (assignment_key partition_size a) (assignment_key partition_size b)) :: ('e, ordering) res)" by simp
next
  from heap_peek_total [OF assms(1,3)] assms(2) obtain m where
    m: "heap_peek partition_size h = (Ok (Some m) :: ('e, deadline_assignment_info option) res)" by blast
  from m heap_peek_min [OF m]
  show "\<exists>m. heap_peek partition_size h = (Ok (Some m) :: ('e, deadline_assignment_info option) res) \<and> m \<in> set h \<and>
      (\<forall>e\<in>set h. assignment_key partition_size m \<le> assignment_key partition_size e)" by blast
qed

theorem assignment_order_is_lexicographic_witness:
  "let d = (\<lambda>i l t. \<lparr> da_index = i, da_live_sectors = l, da_total_sectors = t \<rparr>) in
   \<exists>m. heap_peek 2 [d 0 2 2, d 1 1 1, d 2 2 2] = (Ok (Some m) :: (unit, deadline_assignment_info option) res) \<and>
     (\<forall>e\<in>set [d 0 2 2, d 1 1 1, d 2 2 2]. assignment_key 2 m \<le> assignment_key 2 e)"
proof -
  define d where "d = (\<lambda>i l t. \<lparr> da_index = i, da_live_sectors = l, da_total_sectors = t \<rparr>)"
  have "\<forall>e\<in>set [d 0 2 2, d 1 1 1, d 2 2 2]. counts_fit e" by (simp add: d_def counts_fit_def u64_bound_def)
  from assignment_order_is_lexicographic [where 'e = unit, OF _ _ this, of 2] show ?thesis
    unfolding d_def [symmetric] Let_def by (metis list.distinct(1) zero_less_numeral)
qed

section \<open>What an assignment distributes\<close>

definition assigned_inv ::
  "nat \<Rightarrow> deadline option list \<Rightarrow> deadline_assignment_info list \<Rightarrow> sector_on_chain_info list list \<Rightarrow> bool" where
  "assigned_inv cap dls heap out \<longleftrightarrow>
    distinct (map da_index heap) \<and>
    (\<forall>e\<in>set heap. \<exists>d. da_index e < length dls \<and> dls ! da_index e = Some d \<and>
       (da_index e < length out \<longrightarrow> da_total_sectors e = d_total_sectors d + length (out ! da_index e) \<and>
         (out ! da_index e \<noteq> [] \<longrightarrow> da_total_sectors e \<le> cap))) \<and>
    (\<forall>i<length out. out ! i \<noteq> [] \<longrightarrow> i \<in> da_index ` set heap)"

lemma initial_heap_index: "map da_index (initial_heap dls) = filter (\<lambda>i. dls ! i \<noteq> None) [0..<length dls]"
proof -
  have "map da_index (List.map_filter (\<lambda>index. map_option (\<lambda>d.
        \<lparr> da_index = index, da_live_sectors = d_live_sectors d, da_total_sectors = d_total_sectors d \<rparr>) (dls ! index)) xs) =
      filter (\<lambda>i. dls ! i \<noteq> None) xs" for xs
    by (induction xs) (auto simp: List.map_filter_def)
  then show ?thesis by (simp add: initial_heap_def)
qed

lemma in_initial_heap:
  "e \<in> set (initial_heap dls) \<Longrightarrow>
    \<exists>d. da_index e < length dls \<and> dls ! da_index e = Some d \<and> da_total_sectors e = d_total_sectors d"
  by (auto simp: initial_heap_def List.map_filter_def)

lemma assigned_inv_initial: "assigned_inv cap dls (initial_heap dls) (replicate n [])"
  using in_initial_heap by (fastforce simp: assigned_inv_def initial_heap_index)

lemma count_sector_Ok:
  "count_sector e = Ok c \<longleftrightarrow> counts_fit e \<and> c = e\<lparr>da_live_sectors := da_live_sectors e + 1, da_total_sectors := da_total_sectors e + 1\<rparr>"
  by (auto simp: count_sector_def counts_fit_def res_bind_Ok_iff add_u_def)

lemma assigned_inv_step:
  assumes inv: "assigned_inv cap dls heap out" and e: "e \<in> set heap" "da_index e < length out" "da_total_sectors e < cap"
    and c: "c = e\<lparr>da_live_sectors := da_live_sectors e + 1, da_total_sectors := da_total_sectors e + 1\<rparr>"
  shows "assigned_inv cap dls (map (\<lambda>x. if x = e then c else x) heap) (out[da_index e := out ! da_index e @ [s]])"
proof -
  let ?h = "map (\<lambda>x. if x = e then c else x) heap"
  have idx: "map da_index ?h = map da_index heap" by (simp add: c)
  have uniq: "x = e" if "x \<in> set heap" "da_index x = da_index e" for x
    using inv e(1) that by (auto simp: assigned_inv_def distinct_map inj_on_def)
  have entry: "\<exists>d. da_index x < length dls \<and> dls ! da_index x = Some d \<and>
       (da_index x < length (out[da_index e := out ! da_index e @ [s]]) \<longrightarrow>
         da_total_sectors x = d_total_sectors d + length (out[da_index e := out ! da_index e @ [s]] ! da_index x) \<and>
         (out[da_index e := out ! da_index e @ [s]] ! da_index x \<noteq> [] \<longrightarrow> da_total_sectors x \<le> cap))"
    if "x \<in> set ?h" for x
  proof (cases "da_index x = da_index e")
    case True
    then have "x = c" using that uniq by (auto simp: c split: if_splits)
    then show ?thesis using inv e by (auto simp: assigned_inv_def c)
  next
    case False
    then have "x \<in> set heap" using that by (auto simp: c split: if_splits)
    then show ?thesis using inv False by (auto simp: assigned_inv_def)
  qed
  have "da_index ` set ?h = da_index ` set heap" using idx by (metis set_map)
  moreover have "i \<in> da_index ` set heap" if "i < length out" "out[da_index e := out ! da_index e @ [s]] ! i \<noteq> []" for i
    using inv e(1) that by (cases "i = da_index e") (auto simp: assigned_inv_def)
  moreover have "distinct (map da_index ?h)" unfolding idx using inv by (simp add: assigned_inv_def)
  ultimately show ?thesis using entry unfolding assigned_inv_def by (intro conjI ballI allI impI) (simp_all only: length_list_update)
qed

lemma mset_concat_update:
  "i < length out \<Longrightarrow> mset (concat (out[i := out ! i @ [s]])) = mset (concat out) + {#s#}"
  by (induction out arbitrary: i) (auto split: nat.splits)

lemma assign_loop_Cons_Ok:
  assumes "assign_loop mp psize (s # ss) heap out = Ok out'"
  obtains e c where "e \<in> set heap" "da_total_sectors e < psize * mp" "da_index e < length out"
    "c = e\<lparr>da_live_sectors := da_live_sectors e + 1, da_total_sectors := da_total_sectors e + 1\<rparr>"
    "assign_loop mp psize ss (map (\<lambda>x. if x = e then c else x) heap) (out[da_index e := out ! da_index e @ [s]]) = Ok out'"
proof -
  from assms obtain e c where
    e: "heap_peek psize heap = (Ok (Some e) :: (general_pallet_error, deadline_assignment_info option) res)" "da_total_sectors e < psize * mp"
    "da_index e < length out" "count_sector e = (Ok c :: (general_pallet_error, _) res)"
    "assign_loop mp psize ss (map (\<lambda>x. if x = e then c else x) heap) (out[da_index e := out ! da_index e @ [s]]) = Ok out'"
    by (auto simp: res_bind_Ok_iff ok_or_Ok_iff max_partitions_reached_def mul_u_Ok_iff not_le Let_def split: if_splits)
  show thesis using heap_peek_min [OF e(1)] e(4) by (intro that [OF _ e(2,3) _ e(5)]) (simp_all only: count_sector_Ok)
qed

lemma assign_loop_Ok:
  assumes "assign_loop mp psize ss heap out = Ok out'" "assigned_inv (psize * mp) dls heap out"
  shows "length out' = length out \<and> mset (concat out') = mset (concat out) + mset ss \<and>
    (\<forall>i<length out. \<exists>xs. out' ! i = out ! i @ xs \<and> subseq xs ss) \<and>
    (\<exists>heap'. assigned_inv (psize * mp) dls heap' out')"
  using assms
proof (induction ss arbitrary: heap out)
  case Nil
  then show ?case by auto
next
  case (Cons s ss)
  from Cons.prems(1) obtain e c where e: "e \<in> set heap" "da_total_sectors e < psize * mp" "da_index e < length out"
    "c = e\<lparr>da_live_sectors := da_live_sectors e + 1, da_total_sectors := da_total_sectors e + 1\<rparr>"
    "assign_loop mp psize ss (map (\<lambda>x. if x = e then c else x) heap) (out[da_index e := out ! da_index e @ [s]]) = Ok out'"
    by (rule assign_loop_Cons_Ok)
  note IH = Cons.IH [OF e(5) assigned_inv_step [OF Cons.prems(2) e(1,3,2,4)]]
  have "\<exists>xs. out' ! i = out ! i @ xs \<and> subseq xs (s # ss)" if "i < length out" for i
  proof (cases "i = da_index e")
    case True
    with IH e(3) obtain xs where "out' ! i = out ! i @ s # xs" "subseq xs ss" by fastforce
    then show ?thesis by (intro exI [of _ "s # xs"]) simp
  next
    case False
    with IH that obtain xs where "out' ! i = out ! i @ xs" "subseq xs ss" by fastforce
    then show ?thesis by auto
  qed
  with IH e(3) show ?case by (simp add: mset_concat_update)
qed

lemma assign_deadlines_Ok:
  assumes "assign_deadlines max_partitions partition_size deadlines sectors n = Ok out"
  obtains heap where "length out = n" "mset (concat out) = mset sectors" "\<forall>l\<in>set out. subseq l sectors"
    "assigned_inv (partition_size * max_partitions) deadlines heap out"
proof -
  have "assign_loop max_partitions partition_size sectors (initial_heap deadlines) (replicate n []) = Ok out"
    using assms by (auto simp: assign_deadlines_def Let_def res_bind_Ok_iff split: if_splits)
  from assign_loop_Ok [OF this assigned_inv_initial] obtain heap where "length out = n" "mset (concat out) = mset sectors"
    "\<forall>i<n. subseq (out ! i) sectors" "assigned_inv (partition_size * max_partitions) deadlines heap out" by auto
  then show thesis by (intro that) (auto simp: in_set_conv_nth)
qed

text \<open>
  C9: A successful assignment distributes exactly the given sectors: every one
  goes to exactly one deadline, and the sectors of a deadline are in the order in
  which they were given. Only deadlines that were offered receive any, and none
  of them ends up with more sectors than its maximum of partitions holds.
\<close>

theorem assign_deadlines_distributes:
  assumes "assign_deadlines max_partitions partition_size deadlines sectors n = Ok out"
  shows "length out = n \<and> mset (concat out) = mset sectors \<and> (\<forall>l\<in>set out. subseq l sectors) \<and>
    (\<forall>i<n. out ! i \<noteq> [] \<longrightarrow> (\<exists>d. i < length deadlines \<and> deadlines ! i = Some d \<and>
      d_total_sectors d + length (out ! i) \<le> partition_size * max_partitions))"
proof -
  obtain heap where out: "length out = n" "mset (concat out) = mset sectors" "\<forall>l\<in>set out. subseq l sectors"
    "assigned_inv (partition_size * max_partitions) deadlines heap out"
    using assms by (rule assign_deadlines_Ok)
  have "\<exists>d. i < length deadlines \<and> deadlines ! i = Some d \<and> d_total_sectors d + length (out ! i) \<le> partition_size * max_partitions"
    if "i < n" "out ! i \<noteq> []" for i
  proof -
    from that out(1,4) obtain e where "e \<in> set heap" "i = da_index e" unfolding assigned_inv_def by blast
    then show ?thesis using out that unfolding assigned_inv_def by fastforce
  qed
  then show ?thesis using out(1-3) by blast
qed

theorem assign_deadlines_distributes_witness:
  "\<exists>out. assign_deadlines 10 2 [Some deadline_new, None, Some deadline_new] [sector_at 1 100, sector_at 2 100, sector_at 3 100] 3 = Ok out \<and>
    out = [[sector_at 1 100, sector_at 2 100], [], [sector_at 3 100]] \<and>
    (\<forall>i<3. out ! i \<noteq> [] \<longrightarrow> (\<exists>d. i < 3 \<and> [Some deadline_new, None, Some deadline_new] ! i = Some d \<and>
      d_total_sectors d + length (out ! i) \<le> 20))"
proof -
  have run: "assign_deadlines 10 2 [Some deadline_new, None, Some deadline_new] [sector_at 1 100, sector_at 2 100, sector_at 3 100] 3 =
    Ok [[sector_at 1 100, sector_at 2 100], [], [sector_at 3 100]]" by code_simp
  from assign_deadlines_distributes [OF run] run show ?thesis by simp
qed

text \<open>
  The limit of partitions is checked after the choice of the deadline, and
  the choice prefers few live sectors. A deadline whose partitions are used up
  by terminated sectors is chosen before one that still has room, and the
  assignment fails: here the first deadline has no live sector but two
  partitions' worth of terminated ones, the second has room for two more
  sectors.
\<close>

theorem full_deadline_blocks_assignment:
  "let used_up = deadline_new\<lparr>d_live_sectors := 0, d_total_sectors := 4\<rparr>;
       free = deadline_new\<lparr>d_live_sectors := 2, d_total_sectors := 2\<rparr> in
   assign_deadlines 2 2 [Some used_up, Some free] [sector_at 9 100] 2 = Err DeadlineErrorMaxPartitionsReached \<and>
   assign_deadlines 2 2 [None, Some free] [sector_at 9 100] 2 = Ok [[], [sector_at 9 100]]"
  by code_simp

end
