(* ===== verification/Dispatch.thy ===== *)
theory Dispatch
  imports Primitives
begin

text \<open>
  What the pallets share with the runtime: dispatch errors, the errors of each
  pallet, transactional dispatch, and the currency. The currency is the
  balances pallet of the runtime, which is not part of the repository: its
  operations are the fields of a record, and \<open>currency_ok\<close> states what is
  documented of them.
\<close>

section \<open>Errors\<close>

datatype arithmetic_error = Underflow | Overflow | DivisionByZero

datatype market_error =
    InsufficientFreeFunds
  | NoProposalsToBePublished
  | ProposalsPublishedByIncorrectStorageProvider
  | UnexpectedValidationError
  | DuplicateDeal
  | DealPreconditionFailed
  | DealsTooLargeToFitIntoSector
  | TooManyDealsPerBlock
  | StorageProviderNotRegistered
  | CommDFailed
  | TooManyPendingDeals
  | InvalidProvider
  | StartBlockElapsed
  | SectorExpiresBeforeDeal
  | InvalidDealState
  | DealNotPending
  | DealNotFound
  | InvalidCaller
  | DealIsNotActive
  | WrongClientSignatureOnProposal
  | DealEndBeforeStart
  | DealStartExpired
  | DealNotPublished
  | DealDurationOutOfBounds
  | InvalidPieceCid

datatype storage_provider_error =
    StorageProviderExists
  | ConversionError
  | StorageProviderNotFound
  | InvalidSector
  | InvalidPartition
  | InvalidProofType
  | InvalidProof
  | NotEnoughFunds
  | SectorNumberAlreadyUsed
  | ExpirationBeforeActivation
  | ExpirationTooSoon
  | ExpirationTooLong
  | MaxSectorLifetimeExceeded
  | InvalidCid
  | ProveCommitAfterDeadline
  | PoStProofInvalid
  | InvalidDeadlineSubmission
  | CouldNotVerifySectorForPreCommit
  | InvalidUnsealedCidForSector
  | FaultDeclarationTooLate
  | FaultRecoveryTooLate
  | SlashingFailed
  | CouldNotTerminateDeals
  | CannotTerminateImmutableDeadline
  | TooManyReplicas
  | MissingAuthorVRF
  | GeneralPalletError general_pallet_error

datatype faucet_error = FaucetUsedRecently

datatype dispatch_error =
    Other string
  | Corruption
  | Arithmetic arithmetic_error
  | Token string
  | MarketModule market_error
  | StorageProviderModule storage_provider_error
  | FaucetModule faucet_error
  | ProofsModule string

text \<open>
  An extrinsic runs in a storage layer: when it fails, nothing that it wrote is
  kept.
\<close>

definition transactional :: "('s, 'e, 'a) stM \<Rightarrow> ('s, 'e, 'a) stM" where
  "transactional m s = (case m s of (Ok a, t) \<Rightarrow> (Ok a, t) | (Err e, t) \<Rightarrow> (Err e, s) | (Panic, t) \<Rightarrow> (Panic, s))"

lemma transactional_Ok_iff [ok_iff]: "transactional m s = (Ok a, t) \<longleftrightarrow> m s = (Ok a, t)"
  by (auto simp: transactional_def split: prod.splits res.splits)

lemma transactional_Err: "transactional m s = (Err e, t) \<Longrightarrow> t = s"
  by (auto simp: transactional_def split: prod.splits res.splits)

section \<open>The currency\<close>

type_synonym account = nat

datatype existence_requirement = KeepAlive | AllowDeath

record 'c currency =
  cu_free_balance :: "account \<Rightarrow> 'c \<Rightarrow> balance"
  cu_total_balance :: "account \<Rightarrow> 'c \<Rightarrow> balance"
  cu_transfer :: "account \<Rightarrow> account \<Rightarrow> balance \<Rightarrow> existence_requirement \<Rightarrow> 'c \<Rightarrow> (dispatch_error, 'c) res"
  cu_burn :: "balance \<Rightarrow> 'c \<Rightarrow> balance \<times> 'c"
  cu_settle :: "account \<Rightarrow> balance \<Rightarrow> existence_requirement \<Rightarrow> 'c \<Rightarrow> bool \<times> 'c"
  cu_reserve :: "account \<Rightarrow> balance \<Rightarrow> 'c \<Rightarrow> (dispatch_error, 'c) res"
  cu_slash_reserved :: "account \<Rightarrow> balance \<Rightarrow> 'c \<Rightarrow> balance \<times> balance \<times> 'c"
  cu_issue :: "balance \<Rightarrow> 'c \<Rightarrow> balance \<times> 'c"
  cu_resolve_creating :: "account \<Rightarrow> balance \<Rightarrow> 'c \<Rightarrow> 'c"

text \<open>
  The documented behaviour of the balances pallet for an account \<open>m\<close>, with
  existential deposit \<open>ed\<close>:
  \<^item> balances are 128-bit numbers;
  \<^item> a successful transfer moves exactly the amount between two different
    accounts, except that a sender left with less than the existential deposit
    is reaped and loses the rest, which \<open>KeepAlive\<close> excludes;
  \<^item> burning lowers the issuance and no balance, and yields the amount when some
    account holds that much;
  \<^item> settling with \<open>KeepAlive\<close> succeeds when the existential deposit remains, and
    takes exactly the amount from the account; when it fails, balances are as
    before.
\<close>

definition currency_ok :: "'c currency \<Rightarrow> account \<Rightarrow> balance \<Rightarrow> bool" where
  "currency_ok cu m ed \<longleftrightarrow>
    (\<forall>c. cu_free_balance cu m c < u128_bound) \<and>
    (\<forall>who a c c'. who \<noteq> m \<longrightarrow> cu_transfer cu who m a KeepAlive c = Ok c' \<longrightarrow>
       cu_free_balance cu m c' = cu_free_balance cu m c + a) \<and>
    (\<forall>who a c c'. who \<noteq> m \<longrightarrow> cu_transfer cu m who a AllowDeath c = Ok c' \<longrightarrow> a \<le> cu_free_balance cu m c \<and>
       cu_free_balance cu m c' =
         (if cu_free_balance cu m c - a < ed then 0 else cu_free_balance cu m c - a)) \<and>
    (\<forall>a c i c'. a \<le> cu_free_balance cu m c \<longrightarrow> cu_burn cu a c = (i, c') \<longrightarrow>
       i = a \<and> cu_free_balance cu m c' = cu_free_balance cu m c) \<and>
    (\<forall>a c r c'. cu_settle cu m a KeepAlive c = (r, c') \<longrightarrow>
       (a + ed \<le> cu_free_balance cu m c \<longrightarrow> r) \<and>
       (r \<longrightarrow> a \<le> cu_free_balance cu m c \<and> cu_free_balance cu m c' = cu_free_balance cu m c - a) \<and>
       (\<not> r \<longrightarrow> cu_free_balance cu m c' = cu_free_balance cu m c))"

end
