(* ===== verification/Market.thy ===== *)
theory Market
  imports Dispatch Commitment
begin

text \<open>
  The market pallet (\<^verbatim>\<open>pallets/market/src/lib.rs\<close>): the escrow balances of clients
  and providers, storage deals from publication to settlement, termination or
  expiry, and the functions it offers to the storage-provider pallet. Code that
  is not part of the repository (currency, signatures, encoding and hashing,
  CID parsing, SHA-256) is in the fields of the configuration, as is the build:
  whether plain arithmetic is checked for overflow and \<^verbatim>\<open>debug_assert!\<close> is compiled.
\<close>

section \<open>Data\<close>

record balance_entry =
  be_free :: balance
  be_locked :: balance

record active_deal_state =
  ad_sector_number :: sector_number
  ad_sector_start_block :: block
  ad_last_updated_block :: "block option"
  ad_slash_block :: "block option"

definition active_deal_state_new :: "sector_number \<Rightarrow> block \<Rightarrow> active_deal_state" where
  "active_deal_state_new sector_number sector_start_block =
    \<lparr> ad_sector_number = sector_number, ad_sector_start_block = sector_start_block,
      ad_last_updated_block = None, ad_slash_block = None \<rparr>"

datatype deal_state = Published | Active active_deal_state

record deal_proposal =
  dp_piece_cid :: bytes
  dp_piece_size :: nat
  dp_client :: account
  dp_provider :: account
  dp_label :: bytes
  dp_start_block :: block
  dp_end_block :: block
  dp_storage_price_per_block :: balance
  dp_provider_collateral :: balance
  dp_state :: deal_state

definition deal_duration :: "bool \<Rightarrow> deal_proposal \<Rightarrow> ('e, block) res" where
  "deal_duration overflow_checks p = sub_in overflow_checks u64_bound (dp_end_block p) (dp_start_block p)"

text \<open>Balances are 128-bit and block numbers 64-bit, so the conversions to \<^verbatim>\<open>u128\<close> succeed.\<close>

definition total_storage_fee :: "bool \<Rightarrow> deal_proposal \<Rightarrow> ('e, balance option) res" where
  "total_storage_fee overflow_checks p =
    res_bind (deal_duration overflow_checks p) (\<lambda>duration.
    res_bind (mul_in overflow_checks u128_bound (dp_storage_price_per_block p) duration) (\<lambda>fee. Ok (Some fee)))"

definition piece_commitment :: "(bytes \<Rightarrow> cid option) \<Rightarrow> deal_proposal \<Rightarrow> (commitment_error, bytes) res" where
  "piece_commitment cid_try_from p = from_cid_bytes cid_try_from CommP (dp_piece_cid p)"

record client_deal_proposal =
  cdp_proposal :: deal_proposal
  cdp_client_signature :: bytes

datatype deal_settlement_error =
    SlashedDeal
  | FutureLastUpdate
  | SettlementDealNotFound
  | EarlySettlement
  | ExpiredDeal
  | DealNotActive

record published_deal =
  pd_client :: account
  pd_deal_id :: deal_id

record settled_deal_data =
  sdd_deal_id :: deal_id
  sdd_client :: account
  sdd_provider :: account
  sdd_amount :: balance

datatype market_event =
    BalanceAdded account balance
  | BalanceWithdrawn account balance
  | DealActivated deal_id account account
  | DealsSettled "settled_deal_data list" "(deal_id \<times> deal_settlement_error) list"
  | DealSlashed deal_id balance account account
  | DealTerminated deal_id account account
  | DealsPublished account "published_deal list"

record active_deal =
  acd_client :: account
  acd_piece_cid :: cid
  acd_piece_size :: nat

record active_sector =
  acs_active_deals :: "active_deal list"
  acs_unsealed_cid :: "cid option"

record 'c market_config =
  mc_currency :: "'c currency"
  mc_account_id :: account
  mc_max_deals :: nat
  mc_min_deal_duration :: block
  mc_max_deal_duration :: block
  mc_max_deals_per_block :: nat
  mc_is_registered :: "account \<Rightarrow> bool"
  mc_verify :: "bytes \<Rightarrow> bytes \<Rightarrow> account \<Rightarrow> bool"
  mc_encode :: "deal_proposal \<Rightarrow> bytes"
  mc_hash :: "bytes \<Rightarrow> bytes"
  mc_cid_try_from :: "bytes \<Rightarrow> cid option"
  mc_sha256 :: "bytes \<Rightarrow> bytes"
  mc_overflow_checks :: bool
  mc_debug_assertions :: bool

record 'c market_state =
  ms_balances :: "(account, balance_entry) fmap"
  ms_next_deal_id :: deal_id
  ms_proposals :: "(deal_id, deal_proposal) fmap"
  ms_pending :: "bytes fset"
  ms_deals_for_block :: "(block, deal_id fset) fmap"
  ms_sector_deals :: "(account \<times> sector_number, deal_id list) fmap"
  ms_events :: "market_event list"
  ms_currency :: 'c

type_synonym ('c, 'a) marketM = "('c market_state, dispatch_error, 'a) stM"

section \<open>Storage access\<close>

definition balance_of :: "'c market_state \<Rightarrow> account \<Rightarrow> balance_entry" where
  "balance_of s who =
    (case fmlookup (ms_balances s) who of None \<Rightarrow> \<lparr> be_free = 0, be_locked = 0 \<rparr> | Some b \<Rightarrow> b)"

text \<open>\<^verbatim>\<open>BalanceTable::try_mutate\<close>: the entry is written back only on success.\<close>

definition try_mutate_balance ::
  "account \<Rightarrow> (balance_entry \<Rightarrow> ('c, balance_entry) marketM) \<Rightarrow> ('c, unit) marketM" where
  "try_mutate_balance who f =
    bindM (getM (\<lambda>s. balance_of s who)) (\<lambda>b.
    bindM (f b) (\<lambda>b'.
    modifyM (\<lambda>s. s\<lparr>ms_balances := fmupd who b' (ms_balances s)\<rparr>)))"

definition deposit_event :: "market_event \<Rightarrow> ('c, unit) marketM" where
  "deposit_event e = modifyM (\<lambda>s. s\<lparr>ms_events := ms_events s @ [e]\<rparr>)"

text \<open>Running an operation of the currency.\<close>

definition currencyM :: "('c \<Rightarrow> (dispatch_error, 'c) res) \<Rightarrow> ('c, unit) marketM" where
  "currencyM f =
    bindM (getM (\<lambda>s. f (ms_currency s))) (\<lambda>r.
    bindM (liftM r) (\<lambda>c.
    modifyM (\<lambda>s. s\<lparr>ms_currency := c\<rparr>)))"

text \<open>\<^verbatim>\<open>debug_assert!\<close>, in a build with or without debug assertions.\<close>

definition debug_assert :: "bool \<Rightarrow> bool \<Rightarrow> ('e, unit) res" where
  "debug_assert debug_assertions b = (if debug_assertions \<and> \<not> b then Panic else Ok ())"

definition merr :: "market_error \<Rightarrow> dispatch_error" where
  "merr = MarketModule"

section \<open>Moving funds\<close>

definition sub_locked :: "balance \<Rightarrow> balance_entry \<Rightarrow> ('c, balance_entry) marketM" where
  "sub_locked amount b =
    bindM (liftM (ok_or (Arithmetic Underflow) (checked_sub (be_locked b) amount))) (\<lambda>locked.
    retM (b\<lparr>be_locked := locked\<rparr>))"

definition add_free :: "balance \<Rightarrow> balance_entry \<Rightarrow> ('c, balance_entry) marketM" where
  "add_free amount b =
    bindM (liftM (ok_or (Arithmetic Overflow) (checked_add u128_bound (be_free b) amount))) (\<lambda>free.
    retM (b\<lparr>be_free := free\<rparr>))"

definition sub_free :: "balance \<Rightarrow> balance_entry \<Rightarrow> ('c, balance_entry) marketM" where
  "sub_free amount b =
    bindM (liftM (ok_or (Arithmetic Underflow) (checked_sub (be_free b) amount))) (\<lambda>free.
    retM (b\<lparr>be_free := free\<rparr>))"

definition add_locked :: "balance \<Rightarrow> balance_entry \<Rightarrow> ('c, balance_entry) marketM" where
  "add_locked amount b =
    bindM (liftM (ok_or (Arithmetic Overflow) (checked_add u128_bound (be_locked b) amount))) (\<lambda>locked.
    retM (b\<lparr>be_locked := locked\<rparr>))"

definition perform_storage_payment :: "account \<Rightarrow> account \<Rightarrow> balance \<Rightarrow> ('c, unit) marketM" where
  "perform_storage_payment client provider amount =
    bindM (try_mutate_balance client (sub_locked amount)) (\<lambda>_.
    try_mutate_balance provider (add_free amount))"

definition unlock_funds :: "account \<Rightarrow> balance \<Rightarrow> ('c, unit) marketM" where
  "unlock_funds who amount =
    try_mutate_balance who (\<lambda>b. bindM (sub_locked amount b) (add_free amount))"

definition lock_funds :: "account \<Rightarrow> balance \<Rightarrow> ('c, unit) marketM" where
  "lock_funds who amount =
    try_mutate_balance who (\<lambda>b. bindM (sub_free amount b) (add_locked amount))"

definition market_slash_and_burn :: "'c market_config \<Rightarrow> account \<Rightarrow> balance \<Rightarrow> ('c, unit) marketM" where
  "market_slash_and_burn cfg who amount =
    bindM (try_mutate_balance who (sub_locked amount)) (\<lambda>_.
    bindM (getM (\<lambda>s. cu_burn (mc_currency cfg) amount (ms_currency s))) (\<lambda>(imbalance, c).
    bindM (modifyM (\<lambda>s. s\<lparr>ms_currency := c\<rparr>)) (\<lambda>_.
    bindM (getM (\<lambda>s. cu_settle (mc_currency cfg) (mc_account_id cfg) imbalance KeepAlive (ms_currency s))) (\<lambda>(settled, c).
    bindM (modifyM (\<lambda>s. s\<lparr>ms_currency := c\<rparr>)) (\<lambda>_.
    if settled then retM () else errM Corruption)))))"

section \<open>Deposits and withdrawals\<close>

definition add_balance_body :: "'c market_config \<Rightarrow> account \<Rightarrow> balance \<Rightarrow> ('c, unit) marketM" where
  "add_balance_body cfg caller amount =
    bindM (try_mutate_balance caller (\<lambda>b.
      bindM (add_free amount b) (\<lambda>b'.
      bindM (currencyM (cu_transfer (mc_currency cfg) caller (mc_account_id cfg) amount KeepAlive)) (\<lambda>_.
      retM b')))) (\<lambda>_.
    deposit_event (BalanceAdded caller amount))"

definition add_balance :: "'c market_config \<Rightarrow> account \<Rightarrow> balance \<Rightarrow> ('c, unit) marketM" where
  "add_balance cfg caller amount = transactional (add_balance_body cfg caller amount)"

definition withdraw_balance_body :: "'c market_config \<Rightarrow> account \<Rightarrow> balance \<Rightarrow> ('c, unit) marketM" where
  "withdraw_balance_body cfg caller amount =
    bindM (try_mutate_balance caller (\<lambda>b.
      bindM (ensureM (\<lambda>_. amount \<le> be_free b) (merr InsufficientFreeFunds)) (\<lambda>_.
      bindM (sub_free amount b) (\<lambda>b'.
      bindM (currencyM (cu_transfer (mc_currency cfg) (mc_account_id cfg) caller amount AllowDeath)) (\<lambda>_.
      retM b'))))) (\<lambda>_.
    deposit_event (BalanceWithdrawn caller amount))"

definition withdraw_balance :: "'c market_config \<Rightarrow> account \<Rightarrow> balance \<Rightarrow> ('c, unit) marketM" where
  "withdraw_balance cfg caller amount = transactional (withdraw_balance_body cfg caller amount)"

section \<open>Settlement\<close>

type_synonym settlement = "settled_deal_data list \<times> (deal_id \<times> deal_settlement_error) list"

text \<open>The settlement of an active deal: payment, then removal or update of the proposal.\<close>

definition settle_active_deal ::
  "'c market_config \<Rightarrow> block \<Rightarrow> deal_id \<Rightarrow> deal_proposal \<Rightarrow> active_deal_state \<Rightarrow> settlement
    \<Rightarrow> ('c, settlement) marketM" where
  "settle_active_deal cfg current_block deal_id p active acc =
    (let last_settled_block = (case ad_last_updated_block active of None \<Rightarrow> dp_start_block p | Some b \<Rightarrow> b) in
     if last_settled_block > dp_end_block p then errM Corruption
     else
       let complete_deal = (dp_end_block p \<le> current_block);
           block_to_settle = (if complete_deal then dp_end_block p else current_block) in
       bindM (liftM (sub_in (mc_overflow_checks cfg) u64_bound block_to_settle last_settled_block)) (\<lambda>duration.
       bindM (liftM (mul_in (mc_overflow_checks cfg) u128_bound duration (dp_storage_price_per_block p))) (\<lambda>amount.
       bindM (perform_storage_payment (dp_client p) (dp_provider p) amount) (\<lambda>_.
       bindM (if complete_deal
         then bindM (unlock_funds (dp_provider p) (dp_provider_collateral p)) (\<lambda>_.
              modifyM (\<lambda>s. s\<lparr>ms_proposals := fmdrop deal_id (ms_proposals s)\<rparr>))
         else modifyM (\<lambda>s. s\<lparr>ms_proposals := fmupd deal_id
                (p\<lparr>dp_state := Active (active\<lparr>ad_last_updated_block := Some current_block\<rparr>)\<rparr>) (ms_proposals s)\<rparr>)) (\<lambda>_.
       retM (fst acc @ [\<lparr> sdd_deal_id = deal_id, sdd_client = dp_client p, sdd_provider = dp_provider p,
         sdd_amount = amount \<rparr>], snd acc))))))"

definition settle_deal :: "'c market_config \<Rightarrow> block \<Rightarrow> deal_id \<Rightarrow> settlement \<Rightarrow> ('c, settlement) marketM" where
  "settle_deal cfg current_block deal_id acc =
    bindM (getM (\<lambda>s. fmlookup (ms_proposals s) deal_id)) (\<lambda>found.
    case found of
      None \<Rightarrow> retM (fst acc, snd acc @ [(deal_id, SettlementDealNotFound)])
    | Some p \<Rightarrow>
        if dp_start_block p > current_block then retM (fst acc, snd acc @ [(deal_id, EarlySettlement)])
        else
          (case dp_state p of
             Published \<Rightarrow> retM (fst acc, snd acc @ [(deal_id, DealNotActive)])
           | Active active \<Rightarrow>
               if (case ad_last_updated_block active of None \<Rightarrow> False | Some b \<Rightarrow> b > current_block)
               then retM (fst acc, snd acc @ [(deal_id, FutureLastUpdate)])
               else settle_active_deal cfg current_block deal_id p active acc))"

definition settle_deal_payments_body :: "'c market_config \<Rightarrow> block \<Rightarrow> deal_id list \<Rightarrow> ('c, unit) marketM" where
  "settle_deal_payments_body cfg current_block deal_ids =
    bindM (foldM (settle_deal cfg current_block) deal_ids ([], [])) (\<lambda>(successful, unsuccessful).
    deposit_event (DealsSettled successful unsuccessful))"

definition settle_deal_payments :: "'c market_config \<Rightarrow> block \<Rightarrow> deal_id list \<Rightarrow> ('c, unit) marketM" where
  "settle_deal_payments cfg current_block deal_ids = transactional (settle_deal_payments_body cfg current_block deal_ids)"

section \<open>Publication\<close>

definition hash_proposal :: "'c market_config \<Rightarrow> deal_proposal \<Rightarrow> bytes" where
  "hash_proposal cfg p = mc_hash cfg (mc_encode cfg p)"

definition bytes_of_string :: "string \<Rightarrow> bytes" where
  "bytes_of_string = map (\<lambda>c. word_of_nat (of_char c))"

definition validate_signature :: "'c market_config \<Rightarrow> bytes \<Rightarrow> bytes \<Rightarrow> account \<Rightarrow> (market_error, unit) res" where
  "validate_signature cfg data signature signer =
    (if mc_verify cfg data signature signer then Ok ()
     else
       let wrapped = bytes_of_string ''<Bytes>'' @ data @ bytes_of_string ''</Bytes>'' in
       ensure (mc_verify cfg wrapped signature signer) WrongClientSignatureOnProposal)"

definition sanity_check ::
  "'c market_config \<Rightarrow> client_deal_proposal \<Rightarrow> account \<Rightarrow> block \<Rightarrow> (market_error, unit) res" where
  "sanity_check cfg deal provider current_block =
    (let p = cdp_proposal deal in
     res_bind (validate_signature cfg (mc_encode cfg p) (cdp_client_signature deal) (dp_client p)) (\<lambda>_.
     res_bind (map_err (\<lambda>_. InvalidPieceCid) (piece_commitment (mc_cid_try_from cfg) p)) (\<lambda>_.
     res_bind (ensure (dp_provider p = provider) ProposalsPublishedByIncorrectStorageProvider) (\<lambda>_.
     res_bind (ensure (dp_start_block p < dp_end_block p) DealEndBeforeStart) (\<lambda>_.
     res_bind (ensure (current_block \<le> dp_start_block p) DealStartExpired) (\<lambda>_.
     res_bind (ensure (dp_state p = Published) DealNotPublished) (\<lambda>_.
     res_bind (deal_duration (mc_overflow_checks cfg) p) (\<lambda>duration.
     res_bind (ensure (mc_min_deal_duration cfg \<le> duration) DealDurationOutOfBounds) (\<lambda>_.
     ensure (duration \<le> mc_max_deal_duration cfg) DealDurationOutOfBounds)))))))))"

text \<open>
  The state of the validation loop: lockups per client, the lockup of the
  provider, the hashes of the message, and the valid deals so far.
\<close>

record validation =
  va_client_lockup :: "(account, balance) fmap"
  va_provider_lockup :: balance
  va_message_proposals :: "bytes fset"
  va_valid_deals :: "deal_proposal list"

definition validate_deal ::
  "'c market_config \<Rightarrow> account \<Rightarrow> block \<Rightarrow> client_deal_proposal \<Rightarrow> validation \<Rightarrow> ('c, validation) marketM" where
  "validate_deal cfg provider current_block deal va =
    (let p = cdp_proposal deal in
     bindM (liftM (map_err merr (sanity_check cfg deal provider current_block))) (\<lambda>_.
     bindM (liftM (res_bind (total_storage_fee (mc_overflow_checks cfg) p) expect)) (\<lambda>client_fees.
     let lockup_so_far = (case fmlookup (va_client_lockup va) (dp_client p) of None \<Rightarrow> 0 | Some l \<Rightarrow> l) in
     bindM (liftM (ok_or (Arithmetic Overflow) (checked_add u128_bound lockup_so_far client_fees))) (\<lambda>client_lockup.
     bindM (ensureM (\<lambda>s. \<not> client_lockup > be_free (balance_of s (dp_client p))) (merr InsufficientFreeFunds)) (\<lambda>_.
     bindM (liftM (ok_or (Arithmetic Overflow)
       (checked_add u128_bound (va_provider_lockup va) (dp_provider_collateral p)))) (\<lambda>provider_lockup.
     bindM (ensureM (\<lambda>s. \<not> provider_lockup > be_free (balance_of s (dp_provider p))) (merr InsufficientFreeFunds)) (\<lambda>_.
     let h = hash_proposal cfg p in
     bindM (ensureM (\<lambda>s. \<not> (h |\<in>| ms_pending s \<or> h |\<in>| va_message_proposals va)) (merr DuplicateDeal)) (\<lambda>_.
     bindM (zoomM ms_pending (\<lambda>P s. s\<lparr>ms_pending := P\<rparr>) (insert_setM (mc_max_deals cfg) (merr TooManyPendingDeals) h)) (\<lambda>_.
     bindM (liftM (ok_or (Other ''Unable to insert hash. More deals than T::MaxDeals'')
       (try_insert_set (mc_max_deals cfg) h (va_message_proposals va)))) (\<lambda>message_proposals.
     bindM (liftM (ok_or (Other ''Unable to update client lockup. More clients than T::MaxDeals'')
       (try_insert_map (mc_max_deals cfg) (dp_client p) client_lockup (va_client_lockup va)))) (\<lambda>total_client_lockup.
     retM \<lparr> va_client_lockup = total_client_lockup, va_provider_lockup = provider_lockup,
            va_message_proposals = message_proposals, va_valid_deals = va_valid_deals va @ [p] \<rparr>)))))))))))"

definition validate_deals ::
  "'c market_config \<Rightarrow> account \<Rightarrow> client_deal_proposal list \<Rightarrow> block \<Rightarrow> ('c, deal_proposal list \<times> balance) marketM" where
  "validate_deals cfg caller deals current_block =
    bindM (ensureM (\<lambda>_. length deals > 0) (merr NoProposalsToBePublished)) (\<lambda>_.
    let provider = dp_provider (cdp_proposal (hd deals)) in
    bindM (ensureM (\<lambda>_. caller = provider) (merr ProposalsPublishedByIncorrectStorageProvider)) (\<lambda>_.
    bindM (foldM (validate_deal cfg provider current_block) deals
      \<lparr> va_client_lockup = fmempty, va_provider_lockup = 0, va_message_proposals = {||}, va_valid_deals = [] \<rparr>) (\<lambda>va.
    retM (va_valid_deals va, va_provider_lockup va))))"

definition generate_deal_id :: "('c, deal_id) marketM" where
  "generate_deal_id =
    bindM (getM ms_next_deal_id) (\<lambda>ret.
    bindM (liftM (expect (checked_add u64_bound ret 1))) (\<lambda>next_id.
    bindM (modifyM (\<lambda>s. s\<lparr>ms_next_deal_id := next_id\<rparr>)) (\<lambda>_.
    retM ret)))"

definition publish_deal :: "'c market_config \<Rightarrow> deal_proposal \<Rightarrow> published_deal list \<Rightarrow> ('c, published_deal list) marketM" where
  "publish_deal cfg deal published =
    bindM (liftM (res_bind (total_storage_fee (mc_overflow_checks cfg) deal) (ok_or (merr UnexpectedValidationError)))) (\<lambda>client_fee.
    bindM (lock_funds (dp_client deal) client_fee) (\<lambda>_.
    bindM generate_deal_id (\<lambda>deal_id.
    bindM (getM (\<lambda>s. case fmlookup (ms_deals_for_block s) (dp_start_block deal) of None \<Rightarrow> {||} | Some D \<Rightarrow> D)) (\<lambda>deals_for_block.
    bindM (liftM (ok_or (merr TooManyDealsPerBlock)
      (try_insert_set (mc_max_deals_per_block cfg) deal_id deals_for_block))) (\<lambda>deals_for_block'.
    bindM (modifyM (\<lambda>s. s\<lparr>ms_deals_for_block := fmupd (dp_start_block deal) deals_for_block' (ms_deals_for_block s)\<rparr>)) (\<lambda>_.
    bindM (modifyM (\<lambda>s. s\<lparr>ms_proposals := fmupd deal_id deal (ms_proposals s)\<rparr>)) (\<lambda>_.
    retM (published @ [\<lparr> pd_client = dp_client deal, pd_deal_id = deal_id \<rparr>]))))))))"

definition publish_storage_deals_body ::
  "'c market_config \<Rightarrow> block \<Rightarrow> account \<Rightarrow> client_deal_proposal list \<Rightarrow> ('c, unit) marketM" where
  "publish_storage_deals_body cfg current_block provider deals =
    bindM (ensureM (\<lambda>_. mc_is_registered cfg provider) (merr StorageProviderNotRegistered)) (\<lambda>_.
    bindM (validate_deals cfg provider deals current_block) (\<lambda>(valid_deals, total_provider_lockup).
    bindM (foldM (publish_deal cfg) valid_deals []) (\<lambda>published_deals.
    bindM (lock_funds provider total_provider_lockup) (\<lambda>_.
    deposit_event (DealsPublished provider published_deals)))))"

definition publish_storage_deals ::
  "'c market_config \<Rightarrow> block \<Rightarrow> account \<Rightarrow> client_deal_proposal list \<Rightarrow> ('c, unit) marketM" where
  "publish_storage_deals cfg current_block provider deals =
    transactional (publish_storage_deals_body cfg current_block provider deals)"

section \<open>Verification and activation\<close>

definition deal_piece :: "'c market_config \<Rightarrow> deal_proposal \<Rightarrow> (market_error, piece_info) res" where
  "deal_piece cfg p =
    res_bind (map_err (\<lambda>_. CommDFailed) (piece_commitment (mc_cid_try_from cfg) p)) (\<lambda>commitment.
    res_bind (map_err (\<lambda>_. CommDFailed) (padded_new (dp_piece_size p))) (\<lambda>size.
    Ok \<lparr> pi_commitment = commitment, pi_size = size \<rparr>))"

fun deal_pieces :: "'c market_config \<Rightarrow> deal_proposal list \<Rightarrow> (market_error, piece_info list) res" where
  "deal_pieces cfg [] = Ok []"
| "deal_pieces cfg (p # ps) =
    res_bind (deal_piece cfg p) (\<lambda>x. res_bind (deal_pieces cfg ps) (\<lambda>xs. Ok (x # xs)))"

definition compute_commd ::
  "'c market_config \<Rightarrow> deal_proposal list \<Rightarrow> registered_seal_proof \<Rightarrow> (dispatch_error, cid) res" where
  "compute_commd cfg proposals sector_type =
    res_bind (map_err merr (deal_pieces cfg proposals)) (\<lambda>pieces.
    res_bind (map_err (\<lambda>_. merr CommDFailed)
      (compute_unsealed_sector_commitment (mc_sha256 cfg) (seal_proof_sector_size sector_type) pieces)) (\<lambda>comm_d.
    Ok (commitment_cid CommD comm_d)))"

definition validate_deal_can_activate ::
  "'c market_config \<Rightarrow> 'c market_state \<Rightarrow> deal_proposal \<Rightarrow> account \<Rightarrow> block \<Rightarrow> block \<Rightarrow> (market_error, unit) res" where
  "validate_deal_can_activate cfg s deal provider sector_expiry sector_activation =
    res_bind (ensure (provider = dp_provider deal) InvalidProvider) (\<lambda>_.
    res_bind (ensure (dp_state deal = Published) InvalidDealState) (\<lambda>_.
    res_bind (ensure (sector_activation \<le> dp_start_block deal) StartBlockElapsed) (\<lambda>_.
    res_bind (ensure (dp_end_block deal \<le> sector_expiry) SectorExpiresBeforeDeal) (\<lambda>_.
    ensure (hash_proposal cfg deal |\<in>| ms_pending s) DealNotPending))))"

text \<open>The deals are checked one by one; their sizes are added with 64-bit arithmetic.\<close>

fun deals_space ::
  "'c market_config \<Rightarrow> 'c market_state \<Rightarrow> account \<Rightarrow> block \<Rightarrow> block \<Rightarrow> (deal_id \<times> deal_proposal) list \<Rightarrow> nat
    \<Rightarrow> (dispatch_error, nat) res" where
  "deals_space cfg s provider sector_expiry sector_activation [] total_deal_space = Ok total_deal_space"
| "deals_space cfg s provider sector_expiry sector_activation ((deal_id, deal) # deals) total_deal_space =
    res_bind (map_err merr (validate_deal_can_activate cfg s deal provider sector_expiry sector_activation)) (\<lambda>_.
    res_bind (add_in (mc_overflow_checks cfg) u64_bound total_deal_space (dp_piece_size deal)) (\<lambda>total_deal_space'.
    deals_space cfg s provider sector_expiry sector_activation deals total_deal_space'))"

definition validate_deals_for_sector ::
  "'c market_config \<Rightarrow> 'c market_state \<Rightarrow> (deal_id \<times> deal_proposal) list \<Rightarrow> account \<Rightarrow> block \<Rightarrow> block \<Rightarrow> sector_size
    \<Rightarrow> (dispatch_error, unit) res" where
  "validate_deals_for_sector cfg s deals provider sector_expiry sector_activation ssize =
    res_bind (deals_space cfg s provider sector_expiry sector_activation deals 0) (\<lambda>total_deal_space.
    ensure (total_deal_space \<le> sector_size_bytes ssize) (merr DealsTooLargeToFitIntoSector))"

fun lookup_deals ::
  "'c market_state \<Rightarrow> deal_id list \<Rightarrow> deal_id fset \<Rightarrow> (deal_id \<times> deal_proposal) list
    \<Rightarrow> (dispatch_error, (deal_id \<times> deal_proposal) list) res" where
  "lookup_deals s [] unique_deals proposals = Ok proposals"
| "lookup_deals s (deal_id # deal_ids) unique_deals proposals =
    res_bind (ensure (deal_id |\<notin>| unique_deals) (merr DuplicateDeal)) (\<lambda>_.
    res_bind (ok_or (merr DealPreconditionFailed) (try_insert_set MAX_SECTORS_PER_CALL deal_id unique_deals)) (\<lambda>unique_deals'.
    res_bind (ok_or (merr DealNotFound) (fmlookup (ms_proposals s) deal_id)) (\<lambda>proposal.
    res_bind (ensure (length proposals < MAX_SECTORS_PER_CALL) (merr DealPreconditionFailed)) (\<lambda>_.
    lookup_deals s deal_ids unique_deals' (proposals @ [(deal_id, proposal)])))))"

definition proposals_for_deals ::
  "'c market_state \<Rightarrow> deal_id list \<Rightarrow> (dispatch_error, (deal_id \<times> deal_proposal) list) res" where
  "proposals_for_deals s deal_ids = lookup_deals s deal_ids {||} []"

fun verify_sectors ::
  "'c market_config \<Rightarrow> 'c market_state \<Rightarrow> block \<Rightarrow> account \<Rightarrow> sector_deal list \<Rightarrow> (dispatch_error, cid option list) res" where
  "verify_sectors cfg s curr_block provider [] = Ok []"
| "verify_sectors cfg s curr_block provider (sector # sectors) =
    res_bind (proposals_for_deals s (sd_deal_ids sector)) (\<lambda>proposals.
    res_bind (validate_deals_for_sector cfg s proposals provider (sd_sector_expiry sector) curr_block
      (seal_proof_sector_size (sd_sector_type sector))) (\<lambda>_.
    res_bind (if proposals = [] then Ok None
              else res_bind (compute_commd cfg (map snd proposals) (sd_sector_type sector)) (\<lambda>c. Ok (Some c))) (\<lambda>commd.
    res_bind (verify_sectors cfg s curr_block provider sectors) (\<lambda>rest.
    Ok (commd # rest)))))"

definition verify_deals_for_activation ::
  "'c market_config \<Rightarrow> block \<Rightarrow> account \<Rightarrow> sector_deal list \<Rightarrow> ('c, cid option list) marketM" where
  "verify_deals_for_activation cfg curr_block storage_provider sector_deals =
    bindM (getM (\<lambda>s. verify_sectors cfg s curr_block storage_provider sector_deals)) liftM"

text \<open>The activation of one deal of a sector.\<close>

definition activate_deal ::
  "'c market_config \<Rightarrow> block \<Rightarrow> sector_number \<Rightarrow> deal_id \<times> deal_proposal
    \<Rightarrow> bytes fset \<times> active_deal list \<times> deal_id list
    \<Rightarrow> ('c, bytes fset \<times> active_deal list \<times> deal_id list) marketM" where
  "activate_deal cfg curr_block sector_number = (\<lambda>(deal_id, proposal) (pending, activated, ids).
    bindM (liftM (map_err (\<lambda>_. merr DealPreconditionFailed) (piece_commitment (mc_cid_try_from cfg) proposal))) (\<lambda>commitment.
    bindM (ensureM (\<lambda>_. length activated < MAX_DEALS_PER_SECTOR) (merr DealPreconditionFailed)) (\<lambda>_.
    bindM (ensureM (\<lambda>_. length ids < MAX_DEALS_PER_SECTOR) (merr DealPreconditionFailed)) (\<lambda>_.
    bindM (deposit_event (DealActivated deal_id (dp_client proposal) (dp_provider proposal))) (\<lambda>_.
    bindM (modifyM (\<lambda>s. s\<lparr>ms_proposals := fmupd deal_id
      (proposal\<lparr>dp_state := Active (active_deal_state_new sector_number curr_block)\<rparr>) (ms_proposals s)\<rparr>)) (\<lambda>_.
    retM (pending |-| {|hash_proposal cfg proposal|},
          activated @ [\<lparr> acd_client = dp_client proposal, acd_piece_cid = commitment_cid CommP commitment,
            acd_piece_size = dp_piece_size proposal \<rparr>],
          ids @ [deal_id])))))))"

text \<open>
  One sector: a sector whose deals are not found or not valid is skipped. The
  validation reads the stored set of pending proposals, which is written once
  at the end.
\<close>

definition activate_sector_deals ::
  "'c market_config \<Rightarrow> block \<Rightarrow> account \<Rightarrow> bool \<Rightarrow> sector_deal \<Rightarrow> bytes fset \<times> active_sector list
    \<Rightarrow> ('c, bytes fset \<times> active_sector list) marketM" where
  "activate_sector_deals cfg curr_block provider compute_cid sector = (\<lambda>(pending, activations).
    bindM (getM (\<lambda>s. proposals_for_deals s (sd_deal_ids sector))) (\<lambda>r.
    bindM (attemptM (liftM r)) (\<lambda>found.
    case found of
      None \<Rightarrow> retM (pending, activations)
    | Some proposals \<Rightarrow>
        bindM (getM (\<lambda>s. validate_deals_for_sector cfg s proposals provider (sd_sector_expiry sector) curr_block
          (seal_proof_sector_size (sd_sector_type sector)))) (\<lambda>r.
        bindM (attemptM (liftM r)) (\<lambda>valid.
        if valid = None then retM (pending, activations)
        else
          bindM (liftM (if compute_cid \<and> proposals \<noteq> []
                 then res_bind (compute_commd cfg (map snd proposals) (sd_sector_type sector)) (\<lambda>c. Ok (Some c))
                 else Ok None)) (\<lambda>data_commitment.
          bindM (foldM (activate_deal cfg curr_block (sd_sector_number sector)) proposals (pending, [], [])) (\<lambda>(pending', activated, ids).
          bindM (modifyM (\<lambda>s. s\<lparr>ms_sector_deals := fmupd (provider, sd_sector_number sector) ids (ms_sector_deals s)\<rparr>)) (\<lambda>_.
          bindM (ensureM (\<lambda>_. length activations < MAX_SECTORS_PER_CALL) (merr DealPreconditionFailed)) (\<lambda>_.
          retM (pending', activations @ [\<lparr> acs_active_deals = activated, acs_unsealed_cid = data_commitment \<rparr>]))))))))))"

definition activate_deals ::
  "'c market_config \<Rightarrow> block \<Rightarrow> account \<Rightarrow> sector_deal list \<Rightarrow> bool \<Rightarrow> ('c, active_sector list) marketM" where
  "activate_deals cfg curr_block storage_provider sector_deals compute_cid =
    bindM (getM ms_pending) (\<lambda>pending.
    bindM (foldM (activate_sector_deals cfg curr_block storage_provider compute_cid) sector_deals (pending, [])) (\<lambda>(pending', activations).
    bindM (modifyM (\<lambda>s. s\<lparr>ms_pending := pending'\<rparr>)) (\<lambda>_.
    retM activations)))"

section \<open>Termination\<close>

definition calculate_start_block :: "block \<Rightarrow> block option \<Rightarrow> block" where
  "calculate_start_block start_block last_updated_block =
    (case last_updated_block of Some b \<Rightarrow> max start_block b | None \<Rightarrow> start_block)"

definition calculate_end_block :: "block \<Rightarrow> block \<Rightarrow> block" where
  "calculate_end_block current_block end_block = min current_block end_block"

definition calculate_elapsed_blocks :: "bool \<Rightarrow> block \<Rightarrow> block \<Rightarrow> ('e, block) res" where
  "calculate_elapsed_blocks overflow_checks start_block end_block =
    res_bind (sub_in overflow_checks u64_bound end_block start_block) (\<lambda>n. Ok (max n 0))"

definition calculate_storage_price :: "bool \<Rightarrow> block \<Rightarrow> balance \<Rightarrow> ('e, balance) res" where
  "calculate_storage_price overflow_checks n_blocks price_per_block = mul_in overflow_checks u128_bound price_per_block n_blocks"

text \<open>
  Terminating one deal: a finished deal is left alone. What is due is paid to
  the provider, the collateral is burned and the rest of the fee goes back to
  the client.
\<close>

definition terminate_deal :: "'c market_config \<Rightarrow> block \<Rightarrow> account \<Rightarrow> deal_id \<Rightarrow> ('c, unit) marketM" where
  "terminate_deal cfg current_block storage_provider deal_id =
    bindM (getM (\<lambda>s. fmlookup (ms_proposals s) deal_id)) (\<lambda>found.
    bindM (liftM (ok_or (merr DealNotFound) found)) (\<lambda>p.
    bindM (ensureM (\<lambda>_. storage_provider = dp_provider p) (merr InvalidCaller)) (\<lambda>_.
    if dp_end_block p \<le> current_block then retM ()
    else
      (case dp_state p of
         Published \<Rightarrow> errM (merr DealIsNotActive)
       | Active active \<Rightarrow>
           bindM (if ad_last_updated_block active = None
             then modifyM (\<lambda>s. s\<lparr>ms_pending := ms_pending s |-| {|hash_proposal cfg p|}\<rparr>) else retM ()) (\<lambda>_.
           let payment_start_block = calculate_start_block (dp_start_block p) (ad_last_updated_block active);
               payment_end_block = calculate_end_block current_block (dp_end_block p) in
           bindM (liftM (calculate_elapsed_blocks (mc_overflow_checks cfg) payment_start_block payment_end_block)) (\<lambda>n_blocks_elapsed.
           bindM (liftM (calculate_storage_price (mc_overflow_checks cfg) n_blocks_elapsed (dp_storage_price_per_block p))) (\<lambda>total_payment.
           bindM (perform_storage_payment (dp_client p) (dp_provider p) total_payment) (\<lambda>_.
           bindM (market_slash_and_burn cfg (dp_provider p) (dp_provider_collateral p)) (\<lambda>_.
           bindM (liftM (res_bind (sub_in (mc_overflow_checks cfg) u64_bound (dp_end_block p) payment_end_block)
             (\<lambda>n. calculate_storage_price (mc_overflow_checks cfg) n (dp_storage_price_per_block p)))) (\<lambda>remaining_client_collateral.
           bindM (unlock_funds (dp_client p) remaining_client_collateral) (\<lambda>_.
           bindM (modifyM (\<lambda>s. s\<lparr>ms_proposals := fmdrop deal_id (ms_proposals s)\<rparr>)) (\<lambda>_.
           deposit_event (DealTerminated deal_id (dp_client p) (dp_provider p))))))))))))))"

definition terminate_sector :: "'c market_config \<Rightarrow> block \<Rightarrow> account \<Rightarrow> sector_number \<Rightarrow> ('c, unit) marketM" where
  "terminate_sector cfg current_block storage_provider sector_id =
    bindM (getM (\<lambda>s. fmlookup (ms_sector_deals s) (storage_provider, sector_id))) (\<lambda>found.
    bindM (modifyM (\<lambda>s. s\<lparr>ms_sector_deals := fmdrop (storage_provider, sector_id) (ms_sector_deals s)\<rparr>)) (\<lambda>_.
    case found of
      None \<Rightarrow> retM ()
    | Some deal_ids \<Rightarrow> forM deal_ids (terminate_deal cfg current_block storage_provider)))"

definition on_sectors_terminate ::
  "'c market_config \<Rightarrow> block \<Rightarrow> account \<Rightarrow> sector_number list \<Rightarrow> ('c, unit) marketM" where
  "on_sectors_terminate cfg current_block storage_provider sectors =
    forM sectors (terminate_sector cfg current_block storage_provider)"

section \<open>Deals that were not activated\<close>

text \<open>
  One deal of the block: the result is the set of pending proposals, which the
  hook writes back at the end. Errors are logged and the deal is left.
\<close>

definition finalize_deal ::
  "'c market_config \<Rightarrow> block \<Rightarrow> deal_id \<Rightarrow> bytes fset \<Rightarrow> ('c, bytes fset) marketM" where
  "finalize_deal cfg current_block deal_id pending =
    bindM (getM (\<lambda>s. fmlookup (ms_proposals s) deal_id)) (\<lambda>found.
    case found of
      None \<Rightarrow> retM pending
    | Some p \<Rightarrow>
        (case dp_state p of
           Active _ \<Rightarrow> retM pending
         | Published \<Rightarrow>
             bindM (liftM (debug_assert (mc_debug_assertions cfg) (dp_start_block p = current_block))) (\<lambda>_.
             bindM (liftM (total_storage_fee (mc_overflow_checks cfg) p)) (\<lambda>fee.
             case fee of
               None \<Rightarrow> retM pending
             | Some client_fee \<Rightarrow>
                 bindM (attemptM (unlock_funds (dp_client p) client_fee)) (\<lambda>unlocked.
                 if unlocked = None then retM pending
                 else
                   bindM (attemptM (market_slash_and_burn cfg (dp_provider p) (dp_provider_collateral p))) (\<lambda>slashed.
                   if slashed = None then retM pending
                   else
                     bindM (deposit_event (DealSlashed deal_id (dp_provider_collateral p) (dp_client p) (dp_provider p))) (\<lambda>_.
                     bindM (modifyM (\<lambda>s. s\<lparr>ms_proposals := fmdrop deal_id (ms_proposals s)\<rparr>)) (\<lambda>_.
                     retM (pending |-| {|hash_proposal cfg p|})))))))))"

definition market_on_finalize :: "'c market_config \<Rightarrow> block \<Rightarrow> ('c, unit) marketM" where
  "market_on_finalize cfg current_block =
    bindM (getM (\<lambda>s. case fmlookup (ms_deals_for_block s) current_block of None \<Rightarrow> {||} | Some D \<Rightarrow> D)) (\<lambda>deal_ids.
    if deal_ids = {||} then retM ()
    else
      bindM (getM ms_pending) (\<lambda>pending.
      bindM (foldM (finalize_deal cfg current_block) (sorted_list_of_fset deal_ids) pending) (\<lambda>pending'.
      bindM (modifyM (\<lambda>s. s\<lparr>ms_pending := pending'\<rparr>)) (\<lambda>_.
      modifyM (\<lambda>s. s\<lparr>ms_deals_for_block := fmdrop current_block (ms_deals_for_block s)\<rparr>)))))"

end
