(* ===== verification/Market_Props.thy ===== *)
theory Market_Props
  imports Market
begin

text \<open>
  The books of the market: what each movement of funds does to the balances, and
  the invariant that ties the market account, the balance table and the
  proposals together.
\<close>

section \<open>The balance table\<close>

abbreviation free_of :: "'c market_state \<Rightarrow> account \<Rightarrow> balance" where
  "free_of s a \<equiv> be_free (balance_of s a)"

abbreviation locked_of :: "'c market_state \<Rightarrow> account \<Rightarrow> balance" where
  "locked_of s a \<equiv> be_locked (balance_of s a)"

text \<open>All that the market owes.\<close>

definition funds :: "'c market_state \<Rightarrow> balance" where
  "funds s = count_over (\<lambda>b. be_free b + be_locked b) (ms_balances s)"

definition put_balance :: "account \<Rightarrow> balance_entry \<Rightarrow> 'c market_state \<Rightarrow> 'c market_state" where
  "put_balance w b s = s\<lparr>ms_balances := fmupd w b (ms_balances s)\<rparr>"

lemma put_balance_simps [simp]:
  "balance_of (put_balance w b s) x = (if x = w then b else balance_of s x)"
  "ms_next_deal_id (put_balance w b s) = ms_next_deal_id s"
  "ms_proposals (put_balance w b s) = ms_proposals s"
  "ms_pending (put_balance w b s) = ms_pending s"
  "ms_deals_for_block (put_balance w b s) = ms_deals_for_block s"
  "ms_sector_deals (put_balance w b s) = ms_sector_deals s"
  "ms_events (put_balance w b s) = ms_events s"
  "ms_currency (put_balance w b s) = ms_currency s"
  by (simp_all add: put_balance_def balance_of_def)

lemma funds_put_balance:
  "funds (put_balance w b s) + (free_of s w + locked_of s w) = funds s + (be_free b + be_locked b)"
proof (cases "fmlookup (ms_balances s) w")
  case None
  then show ?thesis
    using count_over_fmupd_new [OF None, of "\<lambda>b. be_free b + be_locked b" b]
    by (simp add: funds_def put_balance_def balance_of_def)
next
  case (Some b0)
  then show ?thesis
    using count_over_fmupd [OF Some, of "\<lambda>b. be_free b + be_locked b" b]
    by (simp add: funds_def put_balance_def balance_of_def)
qed

lemma balance_le_funds: "free_of s w + locked_of s w \<le> funds s"
  using count_over_ge [of "ms_balances s" w _ "\<lambda>b. be_free b + be_locked b"]
  by (auto simp: funds_def balance_of_def split: option.splits)

lemma try_mutate_balance_Ok_iff [ok_iff]:
  "try_mutate_balance w f s = (Ok u, t) \<longleftrightarrow>
   (\<exists>b s'. f (balance_of s w) s = (Ok b, s') \<and> t = put_balance w b s')"
  by (auto simp: try_mutate_balance_def put_balance_def ok_iff)

lemma deposit_event_Ok_iff [ok_iff]:
  "deposit_event e s = (Ok u, t) \<longleftrightarrow> t = s\<lparr>ms_events := ms_events s @ [e]\<rparr>"
  by (auto simp: deposit_event_def ok_iff)

lemma currencyM_Ok_iff [ok_iff]:
  "currencyM f s = (Ok u, t) \<longleftrightarrow> (\<exists>c. f (ms_currency s) = Ok c \<and> t = s\<lparr>ms_currency := c\<rparr>)"
  by (auto simp: currencyM_def ok_iff)

lemma balance_of_frame [simp]:
  "balance_of (s\<lparr>ms_events := e\<rparr>) x = balance_of s x"
  "balance_of (s\<lparr>ms_currency := c\<rparr>) x = balance_of s x"
  "balance_of (s\<lparr>ms_proposals := P\<rparr>) x = balance_of s x"
  "balance_of (s\<lparr>ms_pending := H\<rparr>) x = balance_of s x"
  "balance_of (s\<lparr>ms_deals_for_block := D\<rparr>) x = balance_of s x"
  "balance_of (s\<lparr>ms_sector_deals := S\<rparr>) x = balance_of s x"
  "balance_of (s\<lparr>ms_next_deal_id := n\<rparr>) x = balance_of s x"
  by (simp_all add: balance_of_def)

lemma funds_frame [simp]:
  "funds (s\<lparr>ms_events := e\<rparr>) = funds s"
  "funds (s\<lparr>ms_currency := c\<rparr>) = funds s"
  "funds (s\<lparr>ms_proposals := P\<rparr>) = funds s"
  "funds (s\<lparr>ms_pending := H\<rparr>) = funds s"
  "funds (s\<lparr>ms_deals_for_block := D\<rparr>) = funds s"
  "funds (s\<lparr>ms_sector_deals := S\<rparr>) = funds s"
  "funds (s\<lparr>ms_next_deal_id := n\<rparr>) = funds s"
  by (simp_all add: funds_def)

lemma entry_ops_Ok_iff [ok_iff]:
  "sub_locked a b s = (Ok b', t) \<longleftrightarrow> a \<le> be_locked b \<and> b' = b\<lparr>be_locked := be_locked b - a\<rparr> \<and> t = s"
  "sub_free a b s = (Ok b', t) \<longleftrightarrow> a \<le> be_free b \<and> b' = b\<lparr>be_free := be_free b - a\<rparr> \<and> t = s"
  "add_free a b s = (Ok b', t) \<longleftrightarrow> be_free b + a < u128_bound \<and> b' = b\<lparr>be_free := be_free b + a\<rparr> \<and> t = s"
  "add_locked a b s = (Ok b', t) \<longleftrightarrow> be_locked b + a < u128_bound \<and> b' = b\<lparr>be_locked := be_locked b + a\<rparr> \<and> t = s"
  by (auto simp: sub_locked_def sub_free_def add_free_def add_locked_def ok_iff)

section \<open>Movements of funds\<close>

text \<open>Two states that differ in the balance table only.\<close>

definition same_but_balances :: "'c market_state \<Rightarrow> 'c market_state \<Rightarrow> bool" where
  "same_but_balances s t \<longleftrightarrow>
    ms_next_deal_id t = ms_next_deal_id s \<and> ms_proposals t = ms_proposals s \<and>
    ms_pending t = ms_pending s \<and> ms_deals_for_block t = ms_deals_for_block s \<and>
    ms_sector_deals t = ms_sector_deals s \<and> ms_events t = ms_events s \<and> ms_currency t = ms_currency s"

lemma same_but_balances_put [simp]:
  "same_but_balances s (put_balance w b t) \<longleftrightarrow> same_but_balances s t"
  "same_but_balances s s"
  by (auto simp: same_but_balances_def)

lemma lock_funds_Ok:
  assumes "lock_funds w a s = (Ok u, t)"
  shows "same_but_balances s t" "funds t = funds s" "a \<le> free_of s w"
    "locked_of t x = locked_of s x + (if x = w then a else 0)"
    "free_of t x = free_of s x - (if x = w then a else 0)"
proof -
  obtain b where b: "a \<le> free_of s w" "t = put_balance w b s"
      "be_free b = free_of s w - a" "be_locked b = locked_of s w + a"
    using assms by (auto simp: lock_funds_def ok_iff)
  then show "same_but_balances s t" "funds t = funds s" "a \<le> free_of s w"
    "locked_of t x = locked_of s x + (if x = w then a else 0)"
    "free_of t x = free_of s x - (if x = w then a else 0)"
    using funds_put_balance [of w b s] by auto
qed

lemma unlock_funds_Ok:
  assumes "unlock_funds w a s = (Ok u, t)"
  shows "same_but_balances s t" "funds t = funds s" "a \<le> locked_of s w"
    "locked_of t x = locked_of s x - (if x = w then a else 0)"
    "free_of t x = free_of s x + (if x = w then a else 0)"
proof -
  obtain b where b: "a \<le> locked_of s w" "t = put_balance w b s"
      "be_free b = free_of s w + a" "be_locked b = locked_of s w - a"
    using assms by (auto simp: unlock_funds_def ok_iff)
  then show "same_but_balances s t" "funds t = funds s" "a \<le> locked_of s w"
    "locked_of t x = locked_of s x - (if x = w then a else 0)"
    "free_of t x = free_of s x + (if x = w then a else 0)"
    using funds_put_balance [of w b s] by auto
qed

lemma perform_storage_payment_Ok:
  assumes "perform_storage_payment c p a s = (Ok u, t)"
  shows "same_but_balances s t" "funds t = funds s" "a \<le> locked_of s c"
    "locked_of t x = locked_of s x - (if x = c then a else 0)"
    "free_of t x = free_of s x + (if x = p then a else 0)"
proof -
  obtain b b' where b: "a \<le> locked_of s c" "t = put_balance p b' (put_balance c b s)"
      "be_free b = free_of s c" "be_locked b = locked_of s c - a"
      "b' = (balance_of (put_balance c b s) p)\<lparr>be_free := free_of (put_balance c b s) p + a\<rparr>"
    using assms by (auto simp: perform_storage_payment_def ok_iff)
  then show "same_but_balances s t" "funds t = funds s" "a \<le> locked_of s c"
    "locked_of t x = locked_of s x - (if x = c then a else 0)"
    "free_of t x = free_of s x + (if x = p then a else 0)"
    using funds_put_balance [of c b s] funds_put_balance [of p b' "put_balance c b s"] by auto
qed

text \<open>They succeed when the funds are there, as no balance exceeds the issuance.\<close>

lemma unlock_funds_total:
  assumes "a \<le> locked_of s w" "funds s < u128_bound"
  obtains t where "unlock_funds w a s = (Ok (), t)"
proof -
  have "free_of s w + a < u128_bound" using assms balance_le_funds [of s w] by simp
  then have "\<exists>t. unlock_funds w a s = (Ok (), t)" using assms(1) by (auto simp: unlock_funds_def ok_iff)
  then show ?thesis using that by blast
qed

lemma perform_storage_payment_total:
  assumes "a \<le> locked_of s c" "funds s < u128_bound"
  obtains t where "perform_storage_payment c p a s = (Ok (), t)"
proof -
  define b where "b = (balance_of s c)\<lparr>be_locked := locked_of s c - a\<rparr>"
  have "funds (put_balance c b s) + a = funds s"
    using funds_put_balance [of c b s] assms(1) by (simp add: b_def)
  then have "free_of (put_balance c b s) p + a < u128_bound"
    using balance_le_funds [of "put_balance c b s" p] assms(2) by linarith
  then have "\<exists>t. perform_storage_payment c p a s = (Ok (), t)"
    using assms(1) by (auto simp: perform_storage_payment_def ok_iff b_def)
  then show ?thesis using that by blast
qed

section \<open>The invariant\<close>

text \<open>The block up to which a deal has been paid.\<close>

definition settled_until :: "deal_proposal \<Rightarrow> block" where
  "settled_until p =
    (case dp_state p of
       Published \<Rightarrow> dp_start_block p
     | Active active \<Rightarrow>
         (case ad_last_updated_block active of None \<Rightarrow> dp_start_block p | Some b \<Rightarrow> b))"

text \<open>What an account has locked for a deal: the unpaid fee, and the collateral.\<close>

definition unpaid_fee :: "deal_proposal \<Rightarrow> balance" where
  "unpaid_fee p = dp_storage_price_per_block p * (dp_end_block p - settled_until p)"

definition escrow :: "account \<Rightarrow> deal_proposal \<Rightarrow> balance" where
  "escrow a p = (if dp_client p = a then unpaid_fee p else 0)
    + (if dp_provider p = a then dp_provider_collateral p else 0)"

definition deal_ok :: "deal_proposal \<Rightarrow> bool" where
  "deal_ok p \<longleftrightarrow>
    dp_start_block p < dp_end_block p \<and>
    dp_start_block p \<le> settled_until p \<and> settled_until p \<le> dp_end_block p \<and>
    dp_storage_price_per_block p * (dp_end_block p - dp_start_block p) < u128_bound"

text \<open>
  The market account holds what the market owes and an endowment; what an
  account has locked is what its deals require; deals are well formed and their
  identifiers were handed out; and the published deals are exactly the ones that
  wait in the queue of their start block.
\<close>

definition solvent :: "'c market_config \<Rightarrow> balance \<Rightarrow> 'c market_state \<Rightarrow> bool" where
  "solvent cfg E s \<longleftrightarrow> cu_free_balance (mc_currency cfg) (mc_account_id cfg) (ms_currency s) = funds s + E"

definition escrowed :: "'c market_state \<Rightarrow> bool" where
  "escrowed s \<longleftrightarrow> (\<forall>a. locked_of s a = count_over (escrow a) (ms_proposals s))"

definition deals_ok :: "'c market_state \<Rightarrow> bool" where
  "deals_ok s \<longleftrightarrow>
    (\<forall>i p. fmlookup (ms_proposals s) i = Some p \<longrightarrow> deal_ok p \<and> i < ms_next_deal_id s)"

definition queued :: "'c market_state \<Rightarrow> bool" where
  "queued s \<longleftrightarrow>
    (\<forall>i p. fmlookup (ms_proposals s) i = Some p \<longrightarrow> dp_state p = Published \<longrightarrow>
       (\<exists>D. fmlookup (ms_deals_for_block s) (dp_start_block p) = Some D \<and> i |\<in>| D)) \<and>
    (\<forall>b D i. fmlookup (ms_deals_for_block s) b = Some D \<longrightarrow> i |\<in>| D \<longrightarrow>
       i < ms_next_deal_id s \<and>
       (\<forall>p. fmlookup (ms_proposals s) i = Some p \<longrightarrow> dp_start_block p = b))"

definition market_inv :: "'c market_config \<Rightarrow> balance \<Rightarrow> 'c market_state \<Rightarrow> bool" where
  "market_inv cfg E s \<longleftrightarrow> solvent cfg E s \<and> escrowed s \<and> deals_ok s \<and> queued s"

text \<open>The currency of the configuration, with an endowment that keeps the account alive.\<close>

definition market_env :: "'c market_config \<Rightarrow> balance \<Rightarrow> bool" where
  "market_env cfg E \<longleftrightarrow> (\<exists>ed \<le> E. currency_ok (mc_currency cfg) (mc_account_id cfg) ed)"

lemma funds_bounded: "market_env cfg E \<Longrightarrow> solvent cfg E s \<Longrightarrow> funds s < u128_bound"
  unfolding market_env_def currency_ok_def solvent_def by (metis add_lessD1)

lemma escrowedD:
  assumes "escrowed s" "fmlookup (ms_proposals s) i = Some p"
  shows "escrow a p \<le> locked_of s a"
  using assms count_over_ge [OF assms(2), of "escrow a"] by (simp add: escrowed_def)

lemma escrowed_drop:
  assumes "escrowed s" "fmlookup (ms_proposals s) i = Some p"
    "ms_proposals t = fmdrop i (ms_proposals s)" "\<And>a. locked_of t a + escrow a p = locked_of s a"
  shows "escrowed t"
  unfolding escrowed_def
proof
  fix a
  have "locked_of t a + escrow a p = count_over (escrow a) (ms_proposals t) + escrow a p"
    using assms(1,3,4) count_over_fmdrop [OF assms(2), of "escrow a"] by (simp add: escrowed_def)
  then show "locked_of t a = count_over (escrow a) (ms_proposals t)" by simp
qed

lemma escrowed_update:
  assumes "escrowed s" "fmlookup (ms_proposals s) i = Some p"
    "ms_proposals t = fmupd i q (ms_proposals s)" "\<And>a. locked_of t a + escrow a p = locked_of s a + escrow a q"
  shows "escrowed t"
  unfolding escrowed_def
proof
  fix a
  have "locked_of t a + escrow a p = count_over (escrow a) (ms_proposals t) + escrow a p"
    using assms(1,3,4) count_over_fmupd [OF assms(2), of "escrow a" q] by (simp add: escrowed_def)
  then show "locked_of t a = count_over (escrow a) (ms_proposals t)" by simp
qed

lemma deals_ok_drop: "deals_ok s \<Longrightarrow> ms_proposals t = fmdrop i (ms_proposals s) \<Longrightarrow>
    ms_next_deal_id t = ms_next_deal_id s \<Longrightarrow> deals_ok t"
  by (auto simp: deals_ok_def split: if_splits)

lemma deals_ok_update: "deals_ok s \<Longrightarrow> ms_proposals t = fmupd i q (ms_proposals s) \<Longrightarrow>
    ms_next_deal_id t = ms_next_deal_id s \<Longrightarrow> deal_ok q \<Longrightarrow> i < ms_next_deal_id s \<Longrightarrow> deals_ok t"
  by (auto simp: deals_ok_def)

lemma queued_drop: "queued s \<Longrightarrow> ms_proposals t = fmdrop i (ms_proposals s) \<Longrightarrow>
    ms_next_deal_id t = ms_next_deal_id s \<Longrightarrow> ms_deals_for_block t = ms_deals_for_block s \<Longrightarrow> queued t"
  by (auto simp: queued_def split: if_splits)

lemma queued_update: "queued s \<Longrightarrow> fmlookup (ms_proposals s) i = Some p \<Longrightarrow>
    ms_proposals t = fmupd i q (ms_proposals s) \<Longrightarrow> dp_state q \<noteq> Published \<Longrightarrow>
    dp_start_block q = dp_start_block p \<Longrightarrow>
    ms_next_deal_id t = ms_next_deal_id s \<Longrightarrow> ms_deals_for_block t = ms_deals_for_block s \<Longrightarrow> queued t"
  by (auto simp: queued_def split: if_splits)

lemma deal_okD:
  assumes "deal_ok p"
  shows "unpaid_fee p < u128_bound" "dp_start_block p \<le> settled_until p"
    "settled_until p \<le> dp_end_block p" "dp_start_block p < dp_end_block p"
    "settled_until p \<le> b \<Longrightarrow> b \<le> dp_end_block p \<Longrightarrow>
      (b - settled_until p) * dp_storage_price_per_block p < u128_bound"
    "settled_until p \<le> b \<Longrightarrow> dp_storage_price_per_block p * (dp_end_block p - b) < u128_bound"
proof -
  have ok: "dp_storage_price_per_block p * (dp_end_block p - dp_start_block p) < u128_bound"
      "dp_start_block p \<le> settled_until p" "settled_until p \<le> dp_end_block p" "dp_start_block p < dp_end_block p"
    using assms by (auto simp: deal_ok_def)
  have le: "n \<le> dp_end_block p - dp_start_block p \<Longrightarrow> dp_storage_price_per_block p * n < u128_bound" for n
    using ok(1) by (meson le_less_trans mult_le_mono2)
  show "unpaid_fee p < u128_bound" unfolding unpaid_fee_def using ok by (intro le) simp
  show "(b - settled_until p) * dp_storage_price_per_block p < u128_bound"
    if "settled_until p \<le> b" "b \<le> dp_end_block p"
    using le [of "b - settled_until p"] that ok by (simp add: mult.commute)
  show "dp_storage_price_per_block p * (dp_end_block p - b) < u128_bound" if "settled_until p \<le> b"
    using that ok by (intro le) simp
qed (use assms in \<open>auto simp: deal_ok_def\<close>)

text \<open>The unpaid fee splits at every block between the last settlement and the end.\<close>

lemma unpaid_fee_split:
  assumes "settled_until p \<le> b" "b \<le> dp_end_block p"
  shows "unpaid_fee p = (b - settled_until p) * dp_storage_price_per_block p
    + dp_storage_price_per_block p * (dp_end_block p - b)"
proof -
  have "dp_end_block p - settled_until p = (b - settled_until p) + (dp_end_block p - b)" using assms by simp
  then show ?thesis by (simp add: unpaid_fee_def algebra_simps)
qed

section \<open>Slashing\<close>

lemma market_slash_and_burn_total:
  assumes "market_env cfg E" "solvent cfg E s" "a \<le> locked_of s w"
  obtains t where "market_slash_and_burn cfg w a s = (Ok (), t)" "solvent cfg E t"
    "funds t + a = funds s" "same_but_balances s (t\<lparr>ms_currency := ms_currency s\<rparr>)"
    "\<forall>x. free_of t x = free_of s x"
    "\<forall>x. locked_of t x = locked_of s x - (if x = w then a else 0)"
proof -
  obtain ed where ed: "ed \<le> E" "currency_ok (mc_currency cfg) (mc_account_id cfg) ed"
    using assms(1) by (auto simp: market_env_def)
  let ?m = "mc_account_id cfg" and ?cu = "mc_currency cfg"
  let ?bal = "\<lambda>c. cu_free_balance ?cu ?m c"
  have bal: "?bal (ms_currency s) = funds s + E" using assms(2) by (simp add: solvent_def)
  have "a \<le> funds s" using assms(3) balance_le_funds [of s w] by simp
  then have le: "a \<le> ?bal (ms_currency s)" "a + ed \<le> ?bal (ms_currency s)" using bal ed(1) by simp_all
  obtain i c1 where burn: "cu_burn ?cu a (ms_currency s) = (i, c1)" by fastforce
  then have c1: "i = a" "?bal c1 = ?bal (ms_currency s)" using ed(2) le(1) unfolding currency_ok_def by blast+
  obtain r c2 where settle: "cu_settle ?cu ?m a KeepAlive c1 = (r, c2)" by fastforce
  then have r: "r" using ed(2) le(2) c1(2) unfolding currency_ok_def by metis
  then have c2: "?bal c2 = ?bal c1 - a" using ed(2) settle unfolding currency_ok_def by blast
  define b where "b = (balance_of s w)\<lparr>be_locked := locked_of s w - a\<rparr>"
  define t where "t = (put_balance w b s)\<lparr>ms_currency := c2\<rparr>"
  have f: "funds t + a = funds s"
    using funds_put_balance [of w b s] assms(3) by (simp add: t_def b_def)
  have run: "market_slash_and_burn cfg w a s = (Ok (), t)"
    using assms(3) burn settle c1(1) r
    by (simp add: market_slash_and_burn_def ok_iff b_def t_def) blast
  show ?thesis
  proof (rule that [OF run])
    show "solvent cfg E t" using f c2 c1 bal by (simp add: solvent_def t_def)
  qed (use f in \<open>auto simp: t_def b_def same_but_balances_def\<close>)
qed

end
