(* ===== verification/Market_Inv.thy ===== *)
theory Market_Inv
  imports Market_Props
begin

text \<open>
  Every operation of the market keeps its invariant, and the operations on the
  deals of the market succeed in a state that satisfies it.
\<close>

lemma market_inv_frame:
  assumes "market_inv cfg E s" "funds t = funds s" "\<And>a. locked_of t a = locked_of s a"
    "ms_proposals t = ms_proposals s" "ms_next_deal_id t = ms_next_deal_id s"
    "ms_deals_for_block t = ms_deals_for_block s" "ms_currency t = ms_currency s"
  shows "market_inv cfg E t"
  using assms by (simp add: market_inv_def solvent_def escrowed_def deals_ok_def queued_def)

lemma market_invD:
  assumes "market_inv cfg E s"
  shows "solvent cfg E s" "escrowed s" "deals_ok s" "queued s"
  using assms by (auto simp: market_inv_def)

lemma stored_deal_ok:
  "market_inv cfg E s \<Longrightarrow> fmlookup (ms_proposals s) i = Some p \<Longrightarrow> deal_ok p \<and> i < ms_next_deal_id s"
  by (auto simp: market_inv_def deals_ok_def)

text \<open>Removing a deal whose escrow has been released, and updating one that has been paid.\<close>

lemma market_inv_drop:
  assumes "market_inv cfg E s" "fmlookup (ms_proposals s) i = Some p" "solvent cfg E t"
    "ms_proposals t = fmdrop i (ms_proposals s)" "\<And>a. locked_of t a + escrow a p = locked_of s a"
    "ms_next_deal_id t = ms_next_deal_id s" "ms_deals_for_block t = ms_deals_for_block s"
  shows "market_inv cfg E t"
  unfolding market_inv_def
  using assms(3) escrowed_drop [OF market_invD(2) [OF assms(1)] assms(2,4,5)]
    deals_ok_drop [OF market_invD(3) [OF assms(1)] assms(4,6)]
    queued_drop [OF market_invD(4) [OF assms(1)] assms(4,6,7)] by simp

lemma market_inv_update:
  assumes "market_inv cfg E s" "fmlookup (ms_proposals s) i = Some p" "solvent cfg E t"
    "ms_proposals t = fmupd i q (ms_proposals s)" "\<And>a. locked_of t a + escrow a p = locked_of s a + escrow a q"
    "ms_next_deal_id t = ms_next_deal_id s" "ms_deals_for_block t = ms_deals_for_block s"
    "deal_ok q" "dp_state q \<noteq> Published" "dp_start_block q = dp_start_block p"
  shows "market_inv cfg E t"
  unfolding market_inv_def
  using assms(3) escrowed_update [OF market_invD(2) [OF assms(1)] assms(2,4,5)]
    deals_ok_update [OF market_invD(3) [OF assms(1)] assms(4,6,8)] stored_deal_ok [OF assms(1,2)]
    queued_update [OF market_invD(4) [OF assms(1)] assms(2,4,9,10,6,7)] by simp

section \<open>Deposits and withdrawals\<close>

lemma add_balance_effect:
  assumes "market_env cfg E" "market_inv cfg E s" "caller \<noteq> mc_account_id cfg"
    "add_balance cfg caller amount s = (Ok u, t)"
  shows "market_inv cfg E t" "free_of t x = free_of s x + (if x = caller then amount else 0)"
    "locked_of t x = locked_of s x"
proof -
  let ?m = "mc_account_id cfg" and ?cu = "mc_currency cfg"
  obtain ed where ed: "currency_ok ?cu ?m ed" using assms(1) by (auto simp: market_env_def)
  define b where "b = (balance_of s caller)\<lparr>be_free := free_of s caller + amount\<rparr>"
  obtain c where c: "cu_transfer ?cu caller ?m amount KeepAlive (ms_currency s) = Ok c"
      "t = (put_balance caller b (s\<lparr>ms_currency := c\<rparr>))
        \<lparr>ms_events := ms_events s @ [BalanceAdded caller amount]\<rparr>"
    using assms(4) by (auto simp: add_balance_def add_balance_body_def ok_iff b_def)
  have "cu_free_balance ?cu ?m c = cu_free_balance ?cu ?m (ms_currency s) + amount"
    using ed c(1) assms(3) unfolding currency_ok_def by blast
  moreover have "funds t = funds s + amount"
    using funds_put_balance [of caller b "s\<lparr>ms_currency := c\<rparr>"] c(2) by (simp add: b_def)
  ultimately show "market_inv cfg E t"
    using assms(2) c(2)
    by (simp add: market_inv_def solvent_def escrowed_def deals_ok_def queued_def b_def)
  show "free_of t x = free_of s x + (if x = caller then amount else 0)" "locked_of t x = locked_of s x"
    using c(2) by (simp_all add: b_def)
qed

lemma withdraw_balance_effect:
  assumes "market_env cfg E" "market_inv cfg E s" "caller \<noteq> mc_account_id cfg"
    "withdraw_balance cfg caller amount s = (Ok u, t)"
  shows "market_inv cfg E t" "amount \<le> free_of s caller"
    "free_of t x = free_of s x - (if x = caller then amount else 0)"
    "locked_of t x = locked_of s x"
proof -
  let ?m = "mc_account_id cfg" and ?cu = "mc_currency cfg"
  obtain ed where ed: "ed \<le> E" "currency_ok ?cu ?m ed" using assms(1) by (auto simp: market_env_def)
  define b where "b = (balance_of s caller)\<lparr>be_free := free_of s caller - amount\<rparr>"
  obtain c where c: "cu_transfer ?cu ?m caller amount AllowDeath (ms_currency s) = Ok c"
      "amount \<le> free_of s caller"
      "t = (put_balance caller b (s\<lparr>ms_currency := c\<rparr>))
        \<lparr>ms_events := ms_events s @ [BalanceWithdrawn caller amount]\<rparr>"
    using assms(4) by (auto simp: withdraw_balance_def withdraw_balance_body_def ok_iff b_def)
  have f: "funds t + amount = funds s"
    using funds_put_balance [of caller b "s\<lparr>ms_currency := c\<rparr>"] c(2,3) by (simp add: b_def)
  have bal: "cu_free_balance ?cu ?m (ms_currency s) = funds t + amount + E"
    using market_invD(1) [OF assms(2)] f by (simp add: solvent_def)
  then have "\<not> cu_free_balance ?cu ?m (ms_currency s) - amount < ed" using ed(1) by simp
  then have "cu_free_balance ?cu ?m c = cu_free_balance ?cu ?m (ms_currency s) - amount"
    using ed(2) c(1) assms(3) unfolding currency_ok_def by metis
  then have "solvent cfg E t" using bal c(3) by (simp add: solvent_def)
  then show "market_inv cfg E t"
    using assms(2) c(3) by (simp add: market_inv_def escrowed_def deals_ok_def queued_def b_def)
  show "amount \<le> free_of s caller" by (rule c(2))
  show "free_of t x = free_of s x - (if x = caller then amount else 0)" "locked_of t x = locked_of s x"
    using c(3) by (simp_all add: b_def)
qed

section \<open>Settlement\<close>

lemma settled_until_Active:
  "dp_state p = Active active \<Longrightarrow>
   settled_until p = (case ad_last_updated_block active of None \<Rightarrow> dp_start_block p | Some b \<Rightarrow> b)"
  by (simp add: settled_until_def)

lemma pay_provider:
  assumes "market_env cfg E" "market_inv cfg E s" "fmlookup (ms_proposals s) i = Some p"
    "settled_until p \<le> b" "b \<le> dp_end_block p" "amount = (b - settled_until p) * dp_storage_price_per_block p"
  obtains t where "perform_storage_payment (dp_client p) (dp_provider p) amount s = (Ok (), t)"
    "same_but_balances s t" "funds t = funds s"
    "\<forall>x. locked_of t x + (if x = dp_client p then amount else 0) = locked_of s x"
    "\<forall>x. free_of t x = free_of s x + (if x = dp_provider p then amount else 0)"
proof -
  have "amount \<le> unpaid_fee p" using unpaid_fee_split [OF assms(4,5)] assms(6) by simp
  then have le: "amount \<le> locked_of s (dp_client p)"
    using escrowedD [OF market_invD(2) [OF assms(2)] assms(3), of "dp_client p"] by (simp add: escrow_def)
  obtain t where run: "perform_storage_payment (dp_client p) (dp_provider p) amount s = (Ok (), t)"
    by (rule perform_storage_payment_total [OF le funds_bounded [OF assms(1) market_invD(1) [OF assms(2)]]])
  show ?thesis
    by (rule that [OF run])
      (use perform_storage_payment_Ok [OF run] le in \<open>auto split: if_splits\<close>)
qed

text \<open>An unfinished deal is paid up to the current block.\<close>

lemma settle_active_deal_partial:
  assumes "market_env cfg E" "market_inv cfg E s" "fmlookup (ms_proposals s) i = Some p"
    "dp_state p = Active active" "settled_until p \<le> now" "now < dp_end_block p"
    "amount = (now - settled_until p) * dp_storage_price_per_block p"
    "q = p\<lparr>dp_state := Active (active\<lparr>ad_last_updated_block := Some now\<rparr>)\<rparr>"
  obtains t where
    "settle_active_deal cfg now i p active acc s =
      (Ok (fst acc @ [\<lparr> sdd_deal_id = i, sdd_client = dp_client p, sdd_provider = dp_provider p,
         sdd_amount = amount \<rparr>], snd acc), t)"
    "market_inv cfg E t" "ms_proposals t = fmupd i q (ms_proposals s)"
    "\<forall>x. locked_of t x + (if x = dp_client p then amount else 0) = locked_of s x"
    "\<forall>x. free_of t x = free_of s x + (if x = dp_provider p then amount else 0)"
    "ms_events t = ms_events s" "ms_sector_deals t = ms_sector_deals s"
proof -
  note ok = deal_okD [OF conjunct1 [OF stored_deal_ok [OF assms(2,3)]]]
  have now: "now \<le> dp_end_block p" using assms(6) by simp
  obtain t where t: "perform_storage_payment (dp_client p) (dp_provider p) amount s = (Ok (), t)"
    "same_but_balances s t" "funds t = funds s"
    "\<forall>x. locked_of t x + (if x = dp_client p then amount else 0) = locked_of s x"
    "\<forall>x. free_of t x = free_of s x + (if x = dp_provider p then amount else 0)"
    by (rule pay_provider [OF assms(1-3,5) now assms(7)])
  define t' where "t' = t\<lparr>ms_proposals := fmupd i q (ms_proposals t)\<rparr>"
  have u: "settled_until q = now" by (simp add: assms(8) settled_until_def)
  have split: "unpaid_fee p = amount + unpaid_fee q"
    unfolding unpaid_fee_split [OF assms(5) now] unpaid_fee_def [of q] u assms(7) by (simp add: assms(8))
  have amount: "amount < u128_bound" using ok(5) [OF assms(5) now] assms(7) by simp
  have run: "settle_active_deal cfg now i p active acc s =
      (Ok (fst acc @ [\<lparr> sdd_deal_id = i, sdd_client = dp_client p, sdd_provider = dp_provider p,
         sdd_amount = amount \<rparr>], snd acc), t')"
    using assms(4-8) ok amount t(1)
    by (auto simp: settle_active_deal_def Let_def settled_until_Active ok_iff t'_def)
  show ?thesis
  proof (rule that [OF run])
    show "market_inv cfg E t'"
    proof (rule market_inv_update [OF assms(2,3)])
      show "solvent cfg E t'"
        using market_invD(1) [OF assms(2)] t(2,3) by (simp add: solvent_def t'_def same_but_balances_def)
      show "locked_of t' a + escrow a p = locked_of s a + escrow a q" for a
        using t(4) [rule_format, of a] split by (simp add: escrow_def t'_def assms(8) split: if_splits)
      show "deal_ok q" using ok assms(5,6) stored_deal_ok [OF assms(2,3)] u by (simp add: deal_ok_def assms(8))
    qed (use t(2) in \<open>simp_all add: t'_def same_but_balances_def assms(8)\<close>)
  qed (use t in \<open>simp_all add: t'_def same_but_balances_def\<close>)
qed

text \<open>A deal whose end has come is paid in full, its collateral is returned, and it is removed.\<close>

lemma settle_active_deal_complete:
  assumes "market_env cfg E" "market_inv cfg E s" "fmlookup (ms_proposals s) i = Some p"
    "dp_state p = Active active" "dp_end_block p \<le> now"
  obtains t where
    "settle_active_deal cfg now i p active acc s =
      (Ok (fst acc @ [\<lparr> sdd_deal_id = i, sdd_client = dp_client p, sdd_provider = dp_provider p,
         sdd_amount = unpaid_fee p \<rparr>], snd acc), t)"
    "market_inv cfg E t" "ms_proposals t = fmdrop i (ms_proposals s)"
    "\<forall>x. locked_of t x + escrow x p = locked_of s x"
    "\<forall>x. free_of t x = free_of s x + (if x = dp_provider p then unpaid_fee p + dp_provider_collateral p else 0)"
    "ms_events t = ms_events s" "ms_sector_deals t = ms_sector_deals s"
proof -
  note ok = deal_okD [OF conjunct1 [OF stored_deal_ok [OF assms(2,3)]]]
  note bound = funds_bounded [OF assms(1) market_invD(1) [OF assms(2)]]
  have fee: "unpaid_fee p = (dp_end_block p - settled_until p) * dp_storage_price_per_block p"
    by (simp add: unpaid_fee_def)
  obtain t where t: "perform_storage_payment (dp_client p) (dp_provider p) (unpaid_fee p) s = (Ok (), t)"
    "same_but_balances s t" "funds t = funds s"
    "\<forall>x. locked_of t x + (if x = dp_client p then unpaid_fee p else 0) = locked_of s x"
    "\<forall>x. free_of t x = free_of s x + (if x = dp_provider p then unpaid_fee p else 0)"
    by (rule pay_provider [OF assms(1-3) ok(3) order_refl fee])
  have esc: "escrow x p \<le> locked_of s x" for x by (rule escrowedD [OF market_invD(2) [OF assms(2)] assms(3)])
  have coll: "dp_provider_collateral p \<le> locked_of t (dp_provider p)"
    using esc [of "dp_provider p"] t(4) [rule_format, of "dp_provider p"] by (auto simp: escrow_def split: if_splits)
  obtain t1 where t1: "unlock_funds (dp_provider p) (dp_provider_collateral p) t = (Ok (), t1)"
    using unlock_funds_total [OF coll] bound t(3) by metis
  note t1' = unlock_funds_Ok [OF t1]
  define t' where "t' = t1\<lparr>ms_proposals := fmdrop i (ms_proposals t1)\<rparr>"
  have run: "settle_active_deal cfg now i p active acc s =
      (Ok (fst acc @ [\<lparr> sdd_deal_id = i, sdd_client = dp_client p, sdd_provider = dp_provider p,
         sdd_amount = unpaid_fee p \<rparr>], snd acc), t')"
    using assms(4,5) ok(1,2,3) fee t(1) t1
    by (auto simp: settle_active_deal_def Let_def settled_until_Active ok_iff t'_def)
  have locked: "locked_of t' x + escrow x p = locked_of s x" for x
    using t(4) [rule_format, of x] t1'(4) [of x] coll by (auto simp: t'_def escrow_def split: if_splits)
  show ?thesis
  proof (rule that [OF run])
    show "market_inv cfg E t'"
      using market_invD(1) [OF assms(2)] t(2,3) t1'(1,2)
      by (intro market_inv_drop [OF assms(2,3) _ _ locked])
        (simp_all add: t'_def same_but_balances_def solvent_def)
  qed (use t locked t1' in \<open>auto simp: t'_def same_but_balances_def\<close>)
qed

text \<open>
  Settling any deal, in any state that satisfies the invariant, succeeds: it is
  either reported as unsuccessful or settled.
\<close>

lemma settle_deal_total:
  assumes "market_env cfg E" "market_inv cfg E s"
  obtains acc' t where "settle_deal cfg now i acc s = (Ok acc', t)" "market_inv cfg E t"
proof (cases "\<exists>p active. fmlookup (ms_proposals s) i = Some p \<and> dp_state p = Active active \<and>
    dp_start_block p \<le> now \<and> settled_until p \<le> now")
  case True
  then obtain p active where p: "fmlookup (ms_proposals s) i = Some p" "dp_state p = Active active"
    "dp_start_block p \<le> now" "settled_until p \<le> now" by blast
  have eq: "settle_deal cfg now i acc s = settle_active_deal cfg now i p active acc s"
    using p by (auto simp: settle_deal_def bindM_def getM_def settled_until_Active split: option.splits)
  show ?thesis
  proof (cases "dp_end_block p \<le> now")
    case True
    from settle_active_deal_complete [OF assms p(1,2) True, of acc]
    show ?thesis using that eq by metis
  next
    case False
    then have "now < dp_end_block p" by simp
    from settle_active_deal_partial [OF assms p(1,2,4) this refl refl, of acc]
    show ?thesis using that eq by metis
  qed
next
  case False
  then have "\<exists>acc'. settle_deal cfg now i acc s = (Ok acc', s)"
    by (auto simp: settle_deal_def bindM_def getM_def retM_def settled_until_Active not_le
        split: option.splits deal_state.splits)
  then show ?thesis using that assms(2) by blast
qed

lemma settle_deal_payments_total:
  assumes "market_env cfg E" "market_inv cfg E s"
  obtains t where "settle_deal_payments cfg now deal_ids s = (Ok (), t)" "market_inv cfg E t"
proof -
  have "\<exists>acc t. foldM (settle_deal cfg now) deal_ids ([], []) s = (Ok acc, t) \<and> market_inv cfg E t"
    by (rule foldM_total [of "\<lambda>_. market_inv cfg E"]) (use assms settle_deal_total in blast)+
  then obtain succ unsucc t where t: "foldM (settle_deal cfg now) deal_ids ([], []) s = (Ok (succ, unsucc), t)"
    "market_inv cfg E t" by fastforce
  have "settle_deal_payments cfg now deal_ids s = (Ok (), t\<lparr>ms_events := ms_events t @ [DealsSettled succ unsucc]\<rparr>)"
    using t(1) by (auto simp: settle_deal_payments_def settle_deal_payments_body_def ok_iff)
  then show ?thesis by (rule that) (rule market_inv_frame [OF t(2)]; simp)
qed

section \<open>Termination\<close>

lemma calculate_start_block_settled:
  assumes "deal_ok p" "dp_state p = Active active"
  shows "calculate_start_block (dp_start_block p) (ad_last_updated_block active) = settled_until p"
  using assms by (auto simp: calculate_start_block_def deal_ok_def settled_until_Active max_def split: option.splits)

text \<open>
  A deal that has started and not ended: the provider is paid up to the current
  block, its collateral is burned, the client has the rest of the fee back, and
  the deal is gone.
\<close>

lemma terminate_deal_total:
  assumes "market_env cfg E" "market_inv cfg E s" "fmlookup (ms_proposals s) i = Some p"
    "dp_state p = Active active" "settled_until p \<le> now" "now < dp_end_block p"
    "due = (now - settled_until p) * dp_storage_price_per_block p"
    "rest = dp_storage_price_per_block p * (dp_end_block p - now)"
  obtains t where "terminate_deal cfg now (dp_provider p) i s = (Ok (), t)"
    "market_inv cfg E t" "ms_proposals t = fmdrop i (ms_proposals s)"
    "funds t + dp_provider_collateral p = funds s"
    "\<forall>x. locked_of t x + escrow x p = locked_of s x"
    "\<forall>x. free_of t x = free_of s x + (if x = dp_provider p then due else 0) + (if x = dp_client p then rest else 0)"
    "ms_sector_deals t = ms_sector_deals s"
proof -
  define s0 where "s0 = (if ad_last_updated_block active = None
    then s\<lparr>ms_pending := ms_pending s |-| {|hash_proposal cfg p|}\<rparr> else s)"
  have s0: "funds s0 = funds s" "\<And>x. balance_of s0 x = balance_of s x" "ms_proposals s0 = ms_proposals s"
    "ms_next_deal_id s0 = ms_next_deal_id s" "ms_deals_for_block s0 = ms_deals_for_block s"
    "ms_currency s0 = ms_currency s" "ms_sector_deals s0 = ms_sector_deals s" by (simp_all add: s0_def)
  have inv0: "market_inv cfg E s0" using s0 by (intro market_inv_frame [OF assms(2)]) simp_all
  have look0: "fmlookup (ms_proposals s0) i = Some p" using assms(3) s0 by simp
  note okp = conjunct1 [OF stored_deal_ok [OF assms(2,3)]]
  note ok = deal_okD [OF okp]
  have now: "now \<le> dp_end_block p" using assms(6) by simp
  have fee: "unpaid_fee p = due + rest" using unpaid_fee_split [OF assms(5) now] assms(7,8) by simp
  have bounds: "dp_storage_price_per_block p * (now - settled_until p) < u128_bound" "rest < u128_bound"
    using ok(5) [OF assms(5) now] ok(6) [OF assms(5)] assms(8) by (simp_all add: mult.commute)
  obtain t where t: "perform_storage_payment (dp_client p) (dp_provider p) due s0 = (Ok (), t)"
    "same_but_balances s0 t" "funds t = funds s0"
    "\<forall>x. locked_of t x + (if x = dp_client p then due else 0) = locked_of s0 x"
    "\<forall>x. free_of t x = free_of s0 x + (if x = dp_provider p then due else 0)"
    by (rule pay_provider [OF assms(1) inv0 look0 assms(5) now assms(7)])
  have esc: "escrow x p \<le> locked_of s0 x" for x by (rule escrowedD [OF market_invD(2) [OF inv0] look0])
  have sol: "solvent cfg E t" using market_invD(1) [OF inv0] t(2,3) by (simp add: solvent_def same_but_balances_def)
  have coll: "dp_provider_collateral p \<le> locked_of t (dp_provider p)"
    using esc [of "dp_provider p"] t(4) [rule_format, of "dp_provider p"] fee
    by (auto simp: escrow_def split: if_splits)
  obtain t1 where t1: "market_slash_and_burn cfg (dp_provider p) (dp_provider_collateral p) t = (Ok (), t1)"
    "solvent cfg E t1" "funds t1 + dp_provider_collateral p = funds t"
    "same_but_balances t (t1\<lparr>ms_currency := ms_currency t\<rparr>)" "\<forall>x. free_of t1 x = free_of t x"
    "\<forall>x. locked_of t1 x = locked_of t x - (if x = dp_provider p then dp_provider_collateral p else 0)"
    by (rule market_slash_and_burn_total [OF assms(1) sol coll])
  have rest: "rest \<le> locked_of t1 (dp_client p)"
    using esc [of "dp_client p"] t(4) [rule_format, of "dp_client p"] t1(6) fee
    by (auto simp: escrow_def split: if_splits)
  obtain t2 where t2: "unlock_funds (dp_client p) rest t1 = (Ok (), t2)"
    using unlock_funds_total [OF rest funds_bounded [OF assms(1) t1(2)]] by blast
  note t2' = unlock_funds_Ok [OF t2]
  define t' where "t' = t2\<lparr>ms_proposals := fmdrop i (ms_proposals t2),
    ms_events := ms_events t2 @ [DealTerminated i (dp_client p) (dp_provider p)]\<rparr>"
  have run: "terminate_deal cfg now (dp_provider p) i s = (Ok (), t')"
    using assms(3-8) t(1) t1(1) t2 now bounds calculate_start_block_settled [OF okp assms(4)]
    by (cases "ad_last_updated_block active")
      (auto simp: terminate_deal_def Let_def ok_iff
        calculate_end_block_def calculate_elapsed_blocks_def calculate_storage_price_def min_absorb1
        s0_def t'_def mult.commute)
  have locked: "locked_of t' x + escrow x p = locked_of s x" for x
    using esc [of x] t(4) [rule_format, of x] t1(6) t2'(4) [of x] fee s0(2)
    by (auto simp: t'_def escrow_def split: if_splits)
  show ?thesis
  proof (rule that [OF run])
    show "market_inv cfg E t'"
      using t1(2,4) t(2) t2'(1,2) s0
      by (intro market_inv_drop [OF assms(2,3) _ _ locked])
        (simp_all add: t'_def same_but_balances_def solvent_def)
    show "\<forall>x. free_of t' x = free_of s x + (if x = dp_provider p then due else 0) + (if x = dp_client p then rest else 0)"
      using t(5) t1(5) t2'(5) s0(2) by (simp add: t'_def)
    show "ms_proposals t' = fmdrop i (ms_proposals s)" "funds t' + dp_provider_collateral p = funds s"
      "ms_sector_deals t' = ms_sector_deals s"
      using t(2,3) t1(3,4) t2'(1,2) s0 by (simp_all add: t'_def same_but_balances_def)
  qed (use locked in blast)
qed

text \<open>
  The errors of a termination are found before anything is written, so the
  deals before the one that fails are terminated and the others untouched. The
  blocks since the last settlement are counted without a check. In a build
  without overflow checks they wrap for an active deal that has not started, so
  there the deals must have started.
\<close>

definition has_started :: "block \<Rightarrow> 'c market_state \<Rightarrow> deal_id \<Rightarrow> bool" where
  "has_started now s i \<longleftrightarrow>
    (\<forall>p. fmlookup (ms_proposals s) i = Some p \<longrightarrow> dp_state p \<noteq> Published \<longrightarrow> settled_until p \<le> now)"

definition only_drops :: "'c market_state \<Rightarrow> 'c market_state \<Rightarrow> bool" where
  "only_drops s t \<longleftrightarrow>
    (\<forall>i p. fmlookup (ms_proposals t) i = Some p \<longrightarrow> fmlookup (ms_proposals s) i = Some p) \<and>
    (\<forall>k ids. fmlookup (ms_sector_deals t) k = Some ids \<longrightarrow> fmlookup (ms_sector_deals s) k = Some ids)"

lemma only_drops_trans: "only_drops s t \<Longrightarrow> only_drops t u \<Longrightarrow> only_drops s u"
  by (simp add: only_drops_def)

lemma only_drops_started: "only_drops s t \<Longrightarrow> has_started now s i \<Longrightarrow> has_started now t i"
  by (simp add: only_drops_def has_started_def)

lemma terminate_deal_inv:
  assumes "market_env cfg E" "market_inv cfg E s" "terminate_deal cfg now sp i s = (r, t)" "r \<noteq> Panic"
    "mc_overflow_checks cfg \<or> has_started now s i"
  shows "market_inv cfg E t \<and> only_drops s t"
proof (cases "\<exists>p active. fmlookup (ms_proposals s) i = Some p \<and> sp = dp_provider p \<and>
    \<not> dp_end_block p \<le> now \<and> dp_state p = Active active")
  case True
  then obtain p active where p: "fmlookup (ms_proposals s) i = Some p" "sp = dp_provider p"
    "\<not> dp_end_block p \<le> now" "dp_state p = Active active" by blast
  note okp = conjunct1 [OF stored_deal_ok [OF assms(2) p(1)]]
  note start = calculate_start_block_settled [OF okp p(4)]
  have now: "settled_until p \<le> now"
  proof (rule ccontr)
    assume late: "\<not> ?thesis"
    with assms(5) p have "mc_overflow_checks cfg" by (auto simp: has_started_def)
    with late p start have "fst (terminate_deal cfg now sp i s) = Panic"
      by (auto simp: terminate_deal_def monad_defs ensureM_def calculate_elapsed_blocks_def calculate_end_block_def
          in_checked_build sub_u_def Let_def)
    then show False using assms(3,4) by simp
  qed
  from p(3) have lt: "now < dp_end_block p" by simp
  obtain t' where "terminate_deal cfg now (dp_provider p) i s = (Ok (), t')" "market_inv cfg E t'"
    "ms_proposals t' = fmdrop i (ms_proposals s)" "ms_sector_deals t' = ms_sector_deals s"
    by (rule terminate_deal_total [OF assms(1,2) p(1,4) now lt refl refl])
  then show ?thesis using assms(3) p(2) by (simp add: only_drops_def split: if_splits)
next
  case False
  then have "snd (terminate_deal cfg now sp i s) = s"
    by (cases "fmlookup (ms_proposals s) i") (auto simp: terminate_deal_def monad_defs split: deal_state.splits)
  then show ?thesis using assms(2,3) by (simp add: only_drops_def)
qed

lemma terminate_deals_inv:
  assumes "market_env cfg E" "market_inv cfg E s" "forM ids (terminate_deal cfg now sp) s = (r, t)" "r \<noteq> Panic"
    "mc_overflow_checks cfg \<or> (\<forall>i\<in>set ids. has_started now s i)"
  shows "market_inv cfg E t \<and> only_drops s t"
  using assms(3,4)
proof (rule forM_invariant_returns [where I = "\<lambda>t. market_inv cfg E t \<and> only_drops s t"])
  show "market_inv cfg E s \<and> only_drops s s" using assms(2) by (simp add: only_drops_def)
  fix i u r v
  assume i: "i \<in> set ids" and u: "market_inv cfg E u \<and> only_drops s u"
    and run: "terminate_deal cfg now sp i u = (r, v)" "r \<noteq> Panic"
  have "mc_overflow_checks cfg \<or> has_started now u i" using assms(5) i u only_drops_started by blast
  from terminate_deal_inv [OF assms(1) conjunct1 [OF u] run this] u
  show "market_inv cfg E v \<and> only_drops s v" using only_drops_trans by blast
qed

definition sectors_started :: "block \<Rightarrow> account \<Rightarrow> sector_number list \<Rightarrow> 'c market_state \<Rightarrow> bool" where
  "sectors_started now sp sectors s \<longleftrightarrow>
    (\<forall>n\<in>set sectors. \<forall>ids. fmlookup (ms_sector_deals s) (sp, n) = Some ids \<longrightarrow> (\<forall>i\<in>set ids. has_started now s i))"

lemma sectors_started_drop:
  assumes "sectors_started now sp sectors s" "only_drops s t" "n \<in> set sectors"
  shows "sectors_started now sp [n] t"
proof -
  have "has_started now t i" if "fmlookup (ms_sector_deals t) (sp, n) = Some ids" "i \<in> set ids" for i ids
    using assms that only_drops_started [OF assms(2)] by (simp add: sectors_started_def only_drops_def)
  then show ?thesis by (simp add: sectors_started_def)
qed

lemma terminate_sector_inv:
  assumes "market_env cfg E" "market_inv cfg E s" "terminate_sector cfg now sp n s = (r, t)" "r \<noteq> Panic"
    "mc_overflow_checks cfg \<or> sectors_started now sp [n] s"
  shows "market_inv cfg E t \<and> only_drops s t"
proof -
  define s0 where "s0 = s\<lparr>ms_sector_deals := fmdrop (sp, n) (ms_sector_deals s)\<rparr>"
  have inv0: "market_inv cfg E s0" by (rule market_inv_frame [OF assms(2)]) (simp_all add: s0_def)
  have drop0: "only_drops s s0" by (simp add: only_drops_def s0_def)
  show ?thesis
  proof (cases "fmlookup (ms_sector_deals s) (sp, n)")
    case None
    then show ?thesis using assms(3) inv0 drop0 by (auto simp: terminate_sector_def monad_defs s0_def)
  next
    case (Some ids)
    then have run: "forM ids (terminate_deal cfg now sp) s0 = (r, t)"
      using assms(3) by (auto simp: terminate_sector_def monad_defs s0_def)
    have "mc_overflow_checks cfg \<or> (\<forall>i\<in>set ids. has_started now s0 i)"
      using assms(5) Some only_drops_started [OF drop0] by (auto simp: sectors_started_def)
    from terminate_deals_inv [OF assms(1) inv0 run assms(4) this] show ?thesis using only_drops_trans [OF drop0] by blast
  qed
qed

lemma on_sectors_terminate_inv:
  assumes "market_env cfg E" "market_inv cfg E s" "on_sectors_terminate cfg now sp sectors s = (r, t)" "r \<noteq> Panic"
    "mc_overflow_checks cfg \<or> sectors_started now sp sectors s"
  shows "market_inv cfg E t"
proof -
  have "market_inv cfg E t \<and> only_drops s t"
    using assms(3,4) unfolding on_sectors_terminate_def
  proof (rule forM_invariant_returns [where I = "\<lambda>t. market_inv cfg E t \<and> only_drops s t"])
    show "market_inv cfg E s \<and> only_drops s s" using assms(2) by (simp add: only_drops_def)
    fix n u r v
    assume n: "n \<in> set sectors" and u: "market_inv cfg E u \<and> only_drops s u"
      and run: "terminate_sector cfg now sp n u = (r, v)" "r \<noteq> Panic"
    have "mc_overflow_checks cfg \<or> sectors_started now sp [n] u"
      using assms(5) n u sectors_started_drop by blast
    from terminate_sector_inv [OF assms(1) conjunct1 [OF u] run this] u
    show "market_inv cfg E v \<and> only_drops s v" using only_drops_trans by blast
  qed
  then show ?thesis ..
qed

section \<open>Deals that were not activated in time\<close>

text \<open>
  A published deal whose start block is over: the client has the whole fee back,
  the collateral is burned and the deal is removed.
\<close>

lemma finalize_published:
  assumes "market_env cfg E" "market_inv cfg E s" "fmlookup (ms_proposals s) i = Some p"
    "dp_state p = Published" "dp_start_block p = now"
  obtains t where "finalize_deal cfg now i pending s = (Ok (pending |-| {|hash_proposal cfg p|}), t)"
    "market_inv cfg E t" "ms_proposals t = fmdrop i (ms_proposals s)"
    "ms_deals_for_block t = ms_deals_for_block s"
    "funds t + dp_provider_collateral p = funds s"
    "\<forall>x. locked_of t x + escrow x p = locked_of s x"
    "\<forall>x. free_of t x = free_of s x + (if x = dp_client p then unpaid_fee p else 0)"
proof -
  note ok = deal_okD [OF conjunct1 [OF stored_deal_ok [OF assms(2,3)]]]
  have u: "settled_until p = dp_start_block p" using assms(4) by (simp add: settled_until_def)
  have fee: "total_storage_fee c p = (Ok (Some (unpaid_fee p)) :: (dispatch_error, balance option) res)" for c
    using ok(1,4) u by (simp add: total_storage_fee_def deal_duration_def ok_iff unpaid_fee_def)
  have esc: "escrow x p \<le> locked_of s x" for x by (rule escrowedD [OF market_invD(2) [OF assms(2)] assms(3)])
  have client: "unpaid_fee p \<le> locked_of s (dp_client p)"
    using esc [of "dp_client p"] by (simp add: escrow_def)
  obtain t where t: "unlock_funds (dp_client p) (unpaid_fee p) s = (Ok (), t)"
    by (rule unlock_funds_total [OF client funds_bounded [OF assms(1) market_invD(1) [OF assms(2)]]])
  note t' = unlock_funds_Ok [OF t]
  have sol: "solvent cfg E t"
    using market_invD(1) [OF assms(2)] t'(1,2) by (simp add: solvent_def same_but_balances_def)
  have coll: "dp_provider_collateral p \<le> locked_of t (dp_provider p)"
    using esc [of "dp_provider p"] t'(4) [of "dp_provider p"] by (auto simp: escrow_def split: if_splits)
  obtain t1 where t1: "market_slash_and_burn cfg (dp_provider p) (dp_provider_collateral p) t = (Ok (), t1)"
    "solvent cfg E t1" "funds t1 + dp_provider_collateral p = funds t"
    "same_but_balances t (t1\<lparr>ms_currency := ms_currency t\<rparr>)" "\<forall>x. free_of t1 x = free_of t x"
    "\<forall>x. locked_of t1 x = locked_of t x - (if x = dp_provider p then dp_provider_collateral p else 0)"
    by (rule market_slash_and_burn_total [OF assms(1) sol coll])
  define t2 where "t2 = t1\<lparr>ms_events := ms_events t1 @
      [DealSlashed i (dp_provider_collateral p) (dp_client p) (dp_provider p)],
    ms_proposals := fmdrop i (ms_proposals t1)\<rparr>"
  have run: "finalize_deal cfg now i pending s = (Ok (pending |-| {|hash_proposal cfg p|}), t2)"
    using assms(3-5) fee t t1(1)
    by (simp add: finalize_deal_def bindM_def getM_def liftM_def debug_assert_def attemptM_def
        deposit_event_def modifyM_def retM_def t2_def)
  have locked: "locked_of t2 x + escrow x p = locked_of s x" for x
    using esc [of x] t'(4) [of x] t1(6) by (auto simp: t2_def escrow_def split: if_splits)
  show ?thesis
  proof (rule that [OF run])
    show "market_inv cfg E t2"
      using t1(2,4) t'(1,2)
      by (intro market_inv_drop [OF assms(2,3) _ _ locked])
        (simp_all add: t2_def same_but_balances_def solvent_def)
    show "ms_proposals t2 = fmdrop i (ms_proposals s)" "ms_deals_for_block t2 = ms_deals_for_block s"
      "funds t2 + dp_provider_collateral p = funds s"
      using t'(1,2) t1(3,4) by (simp_all add: t2_def same_but_balances_def)
    show "\<forall>x. free_of t2 x = free_of s x + (if x = dp_client p then unpaid_fee p else 0)"
      using t1(5) t'(5) by (simp add: t2_def)
  qed (use locked in blast)
qed

definition unpublished :: "'c market_state \<Rightarrow> deal_id \<Rightarrow> bool" where
  "unpublished s i \<longleftrightarrow> (\<forall>p. fmlookup (ms_proposals s) i = Some p \<longrightarrow> dp_state p \<noteq> Published)"

text \<open>What a deal that was not activated returns to an account, and what it costs the provider.\<close>

definition refund :: "'c market_state \<Rightarrow> account \<Rightarrow> deal_id \<Rightarrow> balance" where
  "refund s x i =
    (case fmlookup (ms_proposals s) i of
       Some p \<Rightarrow> if dp_state p = Published \<and> dp_client p = x then unpaid_fee p else 0
     | None \<Rightarrow> 0)"

definition penalty :: "'c market_state \<Rightarrow> deal_id \<Rightarrow> balance" where
  "penalty s i =
    (case fmlookup (ms_proposals s) i of
       Some p \<Rightarrow> if dp_state p = Published then dp_provider_collateral p else 0
     | None \<Rightarrow> 0)"

lemma finalize_deal_total:
  assumes "market_env cfg E" "market_inv cfg E s" "fmlookup (ms_deals_for_block s) now = Some D" "i |\<in>| D"
  obtains pending' t where "finalize_deal cfg now i pending s = (Ok pending', t)" "market_inv cfg E t"
    "ms_deals_for_block t = ms_deals_for_block s" "unpublished t i"
    "\<forall>j. j \<noteq> i \<longrightarrow> fmlookup (ms_proposals t) j = fmlookup (ms_proposals s) j"
    "\<forall>x. free_of t x = free_of s x + refund s x i" "funds t + penalty s i = funds s"
proof (cases "unpublished s i")
  case True
  then have run: "finalize_deal cfg now i pending s = (Ok pending, s)"
    by (auto simp: unpublished_def finalize_deal_def bindM_def getM_def retM_def split: option.splits deal_state.splits)
  show ?thesis
    by (rule that [OF run assms(2)])
      (use True in \<open>auto simp: unpublished_def refund_def penalty_def split: option.splits\<close>)
next
  case False
  then obtain p where p: "fmlookup (ms_proposals s) i = Some p" "dp_state p = Published"
    by (auto simp: unpublished_def)
  then have start: "dp_start_block p = now"
    using market_invD(4) [OF assms(2)] assms(3,4) by (auto simp: queued_def)
  obtain t where t: "finalize_deal cfg now i pending s = (Ok (pending |-| {|hash_proposal cfg p|}), t)"
    "market_inv cfg E t" "ms_proposals t = fmdrop i (ms_proposals s)" "ms_deals_for_block t = ms_deals_for_block s"
    "funds t + dp_provider_collateral p = funds s"
    "\<forall>x. free_of t x = free_of s x + (if x = dp_client p then unpaid_fee p else 0)"
    by (rule finalize_published [OF assms(1,2) p start])
  show ?thesis
    by (rule that [OF t(1,2,4)])
      (use t(3,5,6) p in \<open>auto simp: unpublished_def refund_def penalty_def\<close>)
qed

lemma finalize_loop:
  assumes "market_env cfg E" "market_inv cfg E s" "fmlookup (ms_deals_for_block s) now = Some D"
    "set is \<subseteq> fset D" "distinct is"
  shows "\<exists>pending' t. foldM (finalize_deal cfg now) is pending s = (Ok pending', t) \<and> market_inv cfg E t \<and>
    ms_deals_for_block t = ms_deals_for_block s \<and> (\<forall>i\<in>set is. unpublished t i) \<and>
    (\<forall>j. j \<notin> set is \<longrightarrow> fmlookup (ms_proposals t) j = fmlookup (ms_proposals s) j) \<and>
    (\<forall>x. free_of t x = free_of s x + (\<Sum>i\<in>set is. refund s x i)) \<and>
    funds t + (\<Sum>i\<in>set is. penalty s i) = funds s"
  using assms(2-5)
proof (induction "is" arbitrary: pending s)
  case Nil
  then show ?case by (auto simp: retM_def)
next
  case (Cons i js)
  have i: "i |\<in>| D" and js: "set js \<subseteq> fset D" "distinct js" "i \<notin> set js" using Cons.prems(3,4) by simp_all
  obtain pending1 s1 where s1: "finalize_deal cfg now i pending s = (Ok pending1, s1)" "market_inv cfg E s1"
    "ms_deals_for_block s1 = ms_deals_for_block s" "unpublished s1 i"
    "\<forall>j. j \<noteq> i \<longrightarrow> fmlookup (ms_proposals s1) j = fmlookup (ms_proposals s) j"
    "\<forall>x. free_of s1 x = free_of s x + refund s x i" "funds s1 + penalty s i = funds s"
    by (rule finalize_deal_total [OF assms(1) Cons.prems(1,2) i])
  have "fmlookup (ms_deals_for_block s1) now = Some D" using s1(3) Cons.prems(2) by simp
  from Cons.IH [OF s1(2) this js(1,2), of pending1] obtain pending' t where
    t: "foldM (finalize_deal cfg now) js pending1 s1 = (Ok pending', t)" "market_inv cfg E t"
    "ms_deals_for_block t = ms_deals_for_block s1" "\<forall>i\<in>set js. unpublished t i"
    "\<forall>j. j \<notin> set js \<longrightarrow> fmlookup (ms_proposals t) j = fmlookup (ms_proposals s1) j"
    "\<forall>x. free_of t x = free_of s1 x + (\<Sum>i\<in>set js. refund s1 x i)"
    "funds t + (\<Sum>i\<in>set js. penalty s1 i) = funds s1" by blast
  have same: "fmlookup (ms_proposals s1) j = fmlookup (ms_proposals s) j" if "j \<in> set js" for j
    using s1(5) js(3) that by metis
  have sums: "(\<Sum>i\<in>set js. refund s1 x i) = (\<Sum>i\<in>set js. refund s x i)"
    "(\<Sum>i\<in>set js. penalty s1 i) = (\<Sum>i\<in>set js. penalty s i)" for x
    using same by (auto simp: refund_def penalty_def intro!: sum.cong)
  have "unpublished t i" using s1(4) t(5) js(3) by (auto simp: unpublished_def)
  moreover have "foldM (finalize_deal cfg now) (i # js) pending s = (Ok pending', t)"
    using s1(1) t(1) by (simp add: bindM_def)
  ultimately show ?case using s1(3,5-7) t(2-7) js(3) by (auto simp: sums)
qed

text \<open>
  At the end of a block no published deal that should have started in it is
  left, and the hook has not failed.
\<close>

lemma market_on_finalize_total:
  assumes "market_env cfg E" "market_inv cfg E s"
    "D = (case fmlookup (ms_deals_for_block s) now of None \<Rightarrow> {||} | Some D \<Rightarrow> D)"
  obtains t where "market_on_finalize cfg now s = (Ok (), t)" "market_inv cfg E t"
    "\<forall>i p. fmlookup (ms_proposals t) i = Some p \<longrightarrow> dp_state p = Published \<longrightarrow> dp_start_block p \<noteq> now"
    "\<forall>x. free_of t x = free_of s x + (\<Sum>i\<in>fset D. refund s x i)"
    "funds t + (\<Sum>i\<in>fset D. penalty s i) = funds s"
proof (cases "D = {||}")
  case True
  then have run: "market_on_finalize cfg now s = (Ok (), s)"
    using assms(3) by (simp add: market_on_finalize_def bindM_def getM_def retM_def)
  have "dp_start_block p \<noteq> now"
    if "fmlookup (ms_proposals s) i = Some p" "dp_state p = Published" for i p
    using that market_invD(4) [OF assms(2)] True assms(3) by (force simp: queued_def)
  then show ?thesis using that [OF run assms(2)] True by simp
next
  case False
  then have D: "fmlookup (ms_deals_for_block s) now = Some D" using assms(3) by (auto split: option.splits)
  have sub: "set (sorted_list_of_fset D) \<subseteq> fset D" by simp
  from finalize_loop [OF assms(1,2) D sub distinct_sorted_list_of_fset, of "ms_pending s"] obtain pending t where
    t: "foldM (finalize_deal cfg now) (sorted_list_of_fset D) (ms_pending s) s = (Ok pending, t)" "market_inv cfg E t"
    "ms_deals_for_block t = ms_deals_for_block s" "\<forall>i\<in>set (sorted_list_of_fset D). unpublished t i"
    "\<forall>x. free_of t x = free_of s x + (\<Sum>i\<in>set (sorted_list_of_fset D). refund s x i)"
    "funds t + (\<Sum>i\<in>set (sorted_list_of_fset D). penalty s i) = funds s" by blast
  define t' where "t' = t\<lparr>ms_pending := pending, ms_deals_for_block := fmdrop now (ms_deals_for_block t)\<rparr>"
  have run: "market_on_finalize cfg now s = (Ok (), t')"
    using False t(1) assms(3) by (simp add: market_on_finalize_def bindM_def getM_def modifyM_def t'_def)
  have gone: "dp_start_block p \<noteq> now"
    if "fmlookup (ms_proposals t) i = Some p" "dp_state p = Published" for i p
  proof
    assume "dp_start_block p = now"
    then have "i |\<in>| D" using market_invD(4) [OF t(2)] that D t(3) by (fastforce simp: queued_def)
    then show False using t(4) that by (auto simp: unpublished_def)
  qed
  have "queued t'"
    using market_invD(4) [OF t(2)] gone by (fastforce simp: queued_def t'_def)
  then have inv: "market_inv cfg E t'"
    using t(2) by (simp add: market_inv_def t'_def solvent_def escrowed_def deals_ok_def)
  show ?thesis by (rule that [OF run inv]) (use gone t(5,6) in \<open>auto simp: t'_def\<close>)
qed

end
