(* ===== verification/Market_Deals.thy ===== *)
theory Market_Deals
  imports Market_Inv
begin

text \<open>
  Publication and activation of deals keep the invariant of the market, and what
  a successful publication stores.
\<close>

section \<open>Activation\<close>

lemma lookup_deals_Ok:
  assumes "lookup_deals s ids U acc = Ok ps" "\<forall>(i, p)\<in>set acc. fmlookup (ms_proposals s) i = Some p"
    "set (map fst acc) = fset U" "distinct (map fst acc)" "length acc \<le> MAX_SECTORS_PER_CALL"
  shows "(\<forall>(i, p)\<in>set ps. fmlookup (ms_proposals s) i = Some p) \<and> map fst ps = map fst acc @ ids \<and>
    distinct (map fst ps) \<and> length ps \<le> MAX_SECTORS_PER_CALL"
  using assms
proof (induction ids arbitrary: U acc)
  case (Cons i ids)
  then obtain p where p: "i |\<notin>| U" "fmlookup (ms_proposals s) i = Some p" "length acc < MAX_SECTORS_PER_CALL"
    "lookup_deals s ids (finsert i U) (acc @ [(i, p)]) = Ok ps" by (auto simp: ok_iff)
  then show ?case using Cons.IH [OF p(4)] Cons.prems by auto
qed auto

lemma proposals_for_deals_Ok:
  assumes "proposals_for_deals s ids = Ok ps"
  shows "\<forall>(i, p)\<in>set ps. fmlookup (ms_proposals s) i = Some p" "map fst ps = ids" "distinct ids"
    "length ids \<le> MAX_SECTORS_PER_CALL"
  using lookup_deals_Ok [OF assms [unfolded proposals_for_deals_def]] by (auto dest: arg_cong [where f = length])

lemma deals_space_Ok:
  assumes "deals_space cfg s provider expiry activation ps n = Ok m"
  shows "(\<forall>(i, p)\<in>set ps. validate_deal_can_activate cfg s p provider expiry activation = Ok ()) \<and>
    (mc_overflow_checks cfg \<longrightarrow> m = n + sum_list (map (dp_piece_size \<circ> snd) ps))"
  using assms
proof (induction ps arbitrary: n)
  case (Cons x ps)
  obtain i p where x: "x = (i, p)" by fastforce
  from Cons.prems obtain n' where n': "validate_deal_can_activate cfg s p provider expiry activation = Ok ()"
    "add_in (mc_overflow_checks cfg) u64_bound n (dp_piece_size p) = (Ok n' :: (dispatch_error, nat) res)"
    "deals_space cfg s provider expiry activation ps n' = Ok m" by (auto simp: x ok_iff)
  from Cons.IH [OF n'(3)] n'(1,2) show ?case by (auto simp: x add_in_def split: if_splits)
qed simp

lemma validate_deals_for_sector_Ok:
  assumes "validate_deals_for_sector cfg s ps provider expiry activation ssize = Ok u"
  shows "\<forall>(i, p)\<in>set ps. dp_provider p = provider \<and> dp_state p = Published \<and>
      activation \<le> dp_start_block p \<and> dp_end_block p \<le> expiry \<and> hash_proposal cfg p |\<in>| ms_pending s"
    "mc_overflow_checks cfg \<Longrightarrow> sum_list (map (dp_piece_size \<circ> snd) ps) \<le> sector_size_bytes ssize"
  using assms by (auto simp: validate_deals_for_sector_def validate_deal_can_activate_def ok_iff dest!: deals_space_Ok)

text \<open>The stored deal has the terms of the given one.\<close>

definition stored_terms :: "'c market_state \<Rightarrow> deal_id \<Rightarrow> deal_proposal \<Rightarrow> bool" where
  "stored_terms s i p \<longleftrightarrow>
    (\<exists>p0. fmlookup (ms_proposals s) i = Some p0 \<and> (\<forall>a. escrow a p0 = escrow a p) \<and>
          dp_start_block p0 = dp_start_block p)"

lemma activate_deal_keeps:
  assumes "market_inv cfg E s" "stored_terms s i p" "dp_state p = Published" "deal_ok p"
    "activate_deal cfg now n (i, p) acc s = (Ok acc', t)"
  shows "market_inv cfg E t" "stored_terms s j q \<Longrightarrow> stored_terms t j q"
proof -
  define q0 where "q0 = p\<lparr>dp_state := Active (active_deal_state_new n now)\<rparr>"
  obtain e where t: "t = s\<lparr>ms_events := e, ms_proposals := fmupd i q0 (ms_proposals s)\<rparr>"
    using assms(5) by (cases acc) (auto simp: activate_deal_def ok_iff q0_def)
  have u: "settled_until q0 = dp_start_block p" "settled_until p = dp_start_block p"
    using assms(3) by (simp_all add: q0_def settled_until_def active_deal_state_new_def)
  then have esc: "escrow a q0 = escrow a p" for a by (simp add: escrow_def unpaid_fee_def q0_def)
  obtain p0 where p0: "fmlookup (ms_proposals s) i = Some p0" "\<forall>a. escrow a p0 = escrow a p"
      "dp_start_block p0 = dp_start_block p"
    using assms(2) by (auto simp: stored_terms_def)
  show "market_inv cfg E t"
    by (rule market_inv_update [OF assms(1) p0(1), where q = q0])
      (use market_invD(1) [OF assms(1)] t esc p0 assms(4) u in \<open>simp_all add: solvent_def deal_ok_def q0_def\<close>)
  show "stored_terms s j q \<Longrightarrow> stored_terms t j q"
    using t esc p0 by (auto simp: stored_terms_def q0_def)
qed

lemma activate_sector_deals_inv:
  assumes "market_inv cfg E s" "activate_sector_deals cfg now provider compute_cid sector acc s = (Ok acc', t)"
  shows "market_inv cfg E t"
proof -
  obtain pending acts where acc: "acc = (pending, acts)" by fastforce
  show ?thesis
  proof (cases "\<exists>ps. proposals_for_deals s (sd_deal_ids sector) = Ok ps \<and>
      validate_deals_for_sector cfg s ps provider (sd_sector_expiry sector) now
        (seal_proof_sector_size (sd_sector_type sector)) = Ok ()")
    case False
    then have "t = s" using assms(2) acc
      by (auto simp: activate_sector_deals_def bindM_def getM_def attemptM_def liftM_def retM_def
          split: res.splits if_splits)
    then show ?thesis using assms(1) by simp
  next
    case True
    then obtain ps where ps: "proposals_for_deals s (sd_deal_ids sector) = Ok ps"
      "validate_deals_for_sector cfg s ps provider (sd_sector_expiry sector) now
        (seal_proof_sector_size (sd_sector_type sector)) = Ok ()" by blast
    obtain acc1 t1 S where t1:
      "foldM (activate_deal cfg now (sd_sector_number sector)) ps (pending, [], []) s = (Ok acc1, t1)"
      "t = t1\<lparr>ms_sector_deals := S\<rparr>"
      using assms(2) acc ps
      by (auto simp: activate_sector_deals_def ok_iff attemptM_def liftM_def split: res.splits if_splits)
    let ?I = "\<lambda>_ s. market_inv cfg E s \<and> (\<forall>(i, p)\<in>set ps. stored_terms s i p)"
    have pub: "\<forall>(i, p)\<in>set ps. dp_state p = Published \<and> deal_ok p"
      using validate_deals_for_sector_Ok(1) [OF ps(2)] proposals_for_deals_Ok(1) [OF ps(1)]
        stored_deal_ok [OF assms(1)] by fastforce
    have "?I acc1 t1"
    proof (rule foldM_invariant [OF t1(1), where I = ?I])
      show "?I (pending, [], []) s"
        using assms(1) proposals_for_deals_Ok(1) [OF ps(1)] by (auto simp: stored_terms_def)
    next
      fix x a s b t
      assume x: "x \<in> set ps" and I: "?I a s"
        and run: "activate_deal cfg now (sd_sector_number sector) x a s = (Ok b, t)"
      obtain i p where xp: "x = (i, p)" by fastforce
      have p: "stored_terms s i p" "dp_state p = Published" "deal_ok p" using I pub x xp by auto
      note keeps = activate_deal_keeps [OF conjunct1 [OF I] p run [unfolded xp]]
      show "?I b t" using keeps(1) conjunct2 [OF I] keeps(2) by blast
    qed
    then have inv1: "market_inv cfg E t1" ..
    show ?thesis unfolding t1(2) by (rule market_inv_frame [OF inv1]) simp_all
  qed
qed

lemma activate_deals_inv:
  assumes "market_inv cfg E s" "activate_deals cfg now provider sectors compute_cid s = (Ok acts, t)"
  shows "market_inv cfg E t"
proof -
  obtain acc t1 P where t1: "foldM (activate_sector_deals cfg now provider compute_cid) sectors (ms_pending s, []) s = (Ok acc, t1)"
    "t = t1\<lparr>ms_pending := P\<rparr>" using assms(2) by (auto simp: activate_deals_def ok_iff)
  have "market_inv cfg E t1"
    by (rule foldM_invariant [OF t1(1), where I = "\<lambda>_. market_inv cfg E"])
      (use assms(1) activate_sector_deals_inv in blast)+
  then show ?thesis unfolding t1(2) by (rule market_inv_frame) simp_all
qed

section \<open>Publication\<close>

text \<open>What the validation guarantees of a deal.\<close>

definition publishable :: "account \<Rightarrow> deal_proposal \<Rightarrow> bool" where
  "publishable provider p \<longleftrightarrow> dp_provider p = provider \<and> dp_state p = Published \<and> deal_ok p"

abbreviation collaterals :: "deal_proposal list \<Rightarrow> balance" where
  "collaterals ps \<equiv> sum_list (map dp_provider_collateral ps)"

text \<open>
  The fee is a plain product. A build with overflow checks publishes no deal
  whose fee does not fit, a build without locks the wrapped fee.
\<close>

definition fee_fits :: "deal_proposal \<Rightarrow> bool" where
  "fee_fits p \<longleftrightarrow> dp_storage_price_per_block p * (dp_end_block p - dp_start_block p) < u128_bound"

lemma validate_deal_Ok:
  assumes "validate_deal cfg provider now d va s = (Ok va', t)"
  shows "mc_overflow_checks cfg \<or> fee_fits (cdp_proposal d) \<Longrightarrow> publishable provider (cdp_proposal d)"
    "va_valid_deals va' = va_valid_deals va @ [cdp_proposal d]"
    "va_provider_lockup va' = va_provider_lockup va + dp_provider_collateral (cdp_proposal d)"
    "\<exists>P. t = s\<lparr>ms_pending := P\<rparr>"
    "hash_proposal cfg (cdp_proposal d) |\<notin>| ms_pending s"
    "now \<le> dp_start_block (cdp_proposal d)"
  using assms
  by (auto simp: validate_deal_def Let_def ok_iff sanity_check_def total_storage_fee_def deal_duration_def
      publishable_def deal_ok_def settled_until_def fee_fits_def in_checked_build)

lemma validate_deals_Ok:
  assumes "market_inv cfg E s" "validate_deals cfg caller ds now s = (Ok (valid, lockup), t)"
    "mc_overflow_checks cfg \<or> (\<forall>p\<in>set (map cdp_proposal ds). fee_fits p)"
  shows "market_inv cfg E t" "\<forall>p\<in>set valid. publishable caller p" "lockup = collaterals valid"
    "valid = map cdp_proposal ds" "\<exists>P. t = s\<lparr>ms_pending := P\<rparr>"
    "\<forall>p\<in>set valid. now \<le> dp_start_block p"
proof -
  define va0 where "va0 = \<lparr> va_client_lockup = fmempty, va_provider_lockup = 0, va_message_proposals = {||}, va_valid_deals = [] \<rparr>"
  obtain va where va: "foldM (validate_deal cfg caller now) ds va0 s = (Ok va, t)"
    "valid = va_valid_deals va" "lockup = va_provider_lockup va"
    using assms(2) by (auto simp: validate_deals_def Let_def ok_iff va0_def)
  have "va_valid_deals va = va_valid_deals va0 @ map cdp_proposal ds"
    using va(1) by (induction ds arbitrary: va0 s) (auto simp: ok_iff dest!: validate_deal_Ok(2))
  then show "valid = map cdp_proposal ds" using va(2) by (simp add: va0_def)
  let ?I = "\<lambda>va t. (\<exists>P. t = s\<lparr>ms_pending := P\<rparr>) \<and> (\<forall>p\<in>set (va_valid_deals va). publishable caller p) \<and>
    (\<forall>p\<in>set (va_valid_deals va). now \<le> dp_start_block p) \<and>
    va_provider_lockup va = collaterals (va_valid_deals va)"
  have I: "?I va t"
  proof (rule foldM_invariant [OF va(1), where I = ?I])
    show "?I va0 s" by (auto simp: va0_def intro: exI [of _ "ms_pending s"])
  next
    fix x a s1 b t1
    assume "x \<in> set ds" "?I a s1" "validate_deal cfg caller now x a s1 = (Ok b, t1)"
    then show "?I b t1" using validate_deal_Ok [of cfg caller now x a s1 b t1] assms(3) by auto
  qed
  then show "\<forall>p\<in>set valid. publishable caller p" "lockup = collaterals valid" "\<exists>P. t = s\<lparr>ms_pending := P\<rparr>"
    "\<forall>p\<in>set valid. now \<le> dp_start_block p"
    using va by auto
  then show "market_inv cfg E t" using market_inv_frame [OF assms(1), of t] by auto
qed

text \<open>
  While the deals are stored, the collaterals of the provider are not locked yet.
\<close>

definition publishing :: "'c market_config \<Rightarrow> balance \<Rightarrow> account \<Rightarrow> balance \<Rightarrow> 'c market_state \<Rightarrow> bool" where
  "publishing cfg E provider c s \<longleftrightarrow> solvent cfg E s \<and> deals_ok s \<and> queued s \<and>
    (\<forall>a. locked_of s a + (if a = provider then c else 0) = count_over (escrow a) (ms_proposals s))"

lemma publishing_0: "publishing cfg E provider 0 s \<longleftrightarrow> market_inv cfg E s"
  by (auto simp: publishing_def market_inv_def escrowed_def)

lemma publish_deal_Ok:
  assumes "publish_deal cfg p pub s = (Ok pub', t)" "deal_ok p" "dp_state p = Published"
  shows "pub' = pub @ [\<lparr> pd_client = dp_client p, pd_deal_id = ms_next_deal_id s \<rparr>]"
    "ms_next_deal_id t = ms_next_deal_id s + 1" "ms_next_deal_id t < u64_bound"
    "ms_proposals t = fmupd (ms_next_deal_id s) p (ms_proposals s)"
    "ms_pending t = ms_pending s" "funds t = funds s" "ms_currency t = ms_currency s"
    "locked_of t x = locked_of s x + (if x = dp_client p then unpaid_fee p else 0)"
    "free_of t x + (if x = dp_client p then unpaid_fee p else 0) = free_of s x"
    "\<exists>D. ms_deals_for_block t = fmupd (dp_start_block p) (finsert (ms_next_deal_id s) D) (ms_deals_for_block s) \<and>
      (case fmlookup (ms_deals_for_block s) (dp_start_block p) of None \<Rightarrow> D = {||} | Some D' \<Rightarrow> D' = D)"
proof -
  have u: "settled_until p = dp_start_block p" using assms(3) by (simp add: settled_until_def)
  have fee: "total_storage_fee c p = (Ok (Some (unpaid_fee p)) :: (dispatch_error, balance option) res)" for c
    using deal_okD [OF assms(2)] u by (simp add: total_storage_fee_def deal_duration_def ok_iff unpaid_fee_def)
  obtain s1 where s1: "lock_funds (dp_client p) (unpaid_fee p) s = (Ok (), s1)"
    and t: "pub' = pub @ [\<lparr> pd_client = dp_client p, pd_deal_id = ms_next_deal_id s1 \<rparr>]"
      "ms_next_deal_id s1 + 1 < u64_bound"
      "t = s1\<lparr>ms_next_deal_id := ms_next_deal_id s1 + 1,
        ms_deals_for_block := fmupd (dp_start_block p) (finsert (ms_next_deal_id s1)
          (case fmlookup (ms_deals_for_block s1) (dp_start_block p) of None \<Rightarrow> {||} | Some D \<Rightarrow> D)) (ms_deals_for_block s1),
        ms_proposals := fmupd (ms_next_deal_id s1) p (ms_proposals s1)\<rparr>"
    using assms(1) by (auto simp: publish_deal_def generate_deal_id_def fee ok_iff)
  note s1' = lock_funds_Ok [OF s1]
  then show "pub' = pub @ [\<lparr> pd_client = dp_client p, pd_deal_id = ms_next_deal_id s \<rparr>]"
    "ms_next_deal_id t = ms_next_deal_id s + 1" "ms_next_deal_id t < u64_bound"
    "ms_proposals t = fmupd (ms_next_deal_id s) p (ms_proposals s)"
    "ms_pending t = ms_pending s" "funds t = funds s" "ms_currency t = ms_currency s"
    "locked_of t x = locked_of s x + (if x = dp_client p then unpaid_fee p else 0)"
    "free_of t x + (if x = dp_client p then unpaid_fee p else 0) = free_of s x"
    using t s1'(1-3) s1'(4,5) [of x] by (auto simp: same_but_balances_def)
  show "\<exists>D. ms_deals_for_block t = fmupd (dp_start_block p) (finsert (ms_next_deal_id s) D) (ms_deals_for_block s) \<and>
      (case fmlookup (ms_deals_for_block s) (dp_start_block p) of None \<Rightarrow> D = {||} | Some D' \<Rightarrow> D' = D)"
    using t(3) s1'(1) by (auto simp: same_but_balances_def split: option.splits)
qed

lemma queued_publish:
  assumes "queued s" "fmlookup (ms_proposals s) n = None" "ms_proposals t = fmupd n p (ms_proposals s)"
    "ms_next_deal_id t = ms_next_deal_id s + 1" 
    "ms_deals_for_block t = fmupd (dp_start_block p) (finsert n D) (ms_deals_for_block s)"
    "case fmlookup (ms_deals_for_block s) (dp_start_block p) of None \<Rightarrow> D = {||} | Some D' \<Rightarrow> D' = D"
    "n = ms_next_deal_id s"
  shows "queued t"
  unfolding queued_def
proof (intro conjI allI impI)
  fix i q
  assume q: "fmlookup (ms_proposals t) i = Some q" "dp_state q = Published"
  show "\<exists>D. fmlookup (ms_deals_for_block t) (dp_start_block q) = Some D \<and> i |\<in>| D"
  proof (cases "i = n")
    case True
    then show ?thesis using q(1) assms(3,5) by simp
  next
    case False
    then have "fmlookup (ms_proposals s) i = Some q" using q(1) assms(3) by simp
    then obtain D0 where "fmlookup (ms_deals_for_block s) (dp_start_block q) = Some D0" "i |\<in>| D0"
      using q(2) assms(1) unfolding queued_def by blast
    then show ?thesis using assms(5,6) by auto
  qed
next
  fix b D0 i
  assume D0: "fmlookup (ms_deals_for_block t) b = Some D0" "i |\<in>| D0"
  have old: "j < ms_next_deal_id s \<and> (\<forall>q. fmlookup (ms_proposals s) j = Some q \<longrightarrow> dp_start_block q = b)"
    if "fmlookup (ms_deals_for_block s) b = Some D1" "j |\<in>| D1" for D1 j
    using assms(1) that unfolding queued_def by blast
  have i: "i = n \<and> b = dp_start_block p \<or> (\<exists>D1. fmlookup (ms_deals_for_block s) b = Some D1 \<and> i |\<in>| D1)"
    using D0 assms(5,6) by (auto split: if_splits option.splits)
  then show "i < ms_next_deal_id t" using old assms(4,7) by fastforce
  fix q
  assume "fmlookup (ms_proposals t) i = Some q"
  then show "dp_start_block q = b" using i old assms(3,7) by (fastforce split: if_splits)
qed

lemma publish_deal_publishing:
  assumes "publish_deal cfg p pub s = (Ok pub', t)" "publishable provider p" "publishing cfg E provider c s"
  shows "publishing cfg E provider (c + dp_provider_collateral p) t"
proof -
  have p: "dp_provider p = provider" "dp_state p = Published" "deal_ok p"
    using assms(2) by (auto simp: publishable_def)
  note ok = publish_deal_Ok [OF assms(1) p(3,2)]
  have fresh: "fmlookup (ms_proposals s) (ms_next_deal_id s) = None"
    using assms(3) by (cases "fmlookup (ms_proposals s) (ms_next_deal_id s)") (auto simp: publishing_def deals_ok_def)
  obtain D where D: "ms_deals_for_block t =
      fmupd (dp_start_block p) (finsert (ms_next_deal_id s) D) (ms_deals_for_block s)"
    "case fmlookup (ms_deals_for_block s) (dp_start_block p) of None \<Rightarrow> D = {||} | Some D' \<Rightarrow> D' = D"
    using ok(10) by blast
  have before: "locked_of s a + (if a = provider then c else 0) = count_over (escrow a) (ms_proposals s)" for a
    using assms(3) by (simp add: publishing_def)
  have "queued t" using assms(3) queued_publish [OF _ fresh ok(4,2) D refl] by (simp add: publishing_def)
  moreover have "deals_ok t" using assms(3) ok(2,4) p(3) by (auto simp: publishing_def deals_ok_def intro: less_SucI)
  moreover have "solvent cfg E t" using assms(3) ok(6,7) by (simp add: publishing_def solvent_def)
  moreover have "locked_of t a + (if a = provider then c + dp_provider_collateral p else 0) =
      count_over (escrow a) (ms_proposals t)" for a
    using before [of a] count_over_fmupd_new [OF fresh, of "escrow a" p] ok(4) ok(8) [of a] p(1)
    by (auto simp: escrow_def split: if_splits)
  ultimately show ?thesis by (simp add: publishing_def)
qed

text \<open>The deals get consecutive new identifiers.\<close>

lemma publish_loop:
  assumes "foldM (publish_deal cfg) ps pub s = (Ok pub', t)" "\<forall>p\<in>set ps. publishable provider p"
    "publishing cfg E provider c s"
  shows "publishing cfg E provider (c + collaterals ps) t"
    "ms_next_deal_id t = ms_next_deal_id s + length ps" "ms_pending t = ms_pending s"
    "map pd_deal_id pub' = map pd_deal_id pub @ [ms_next_deal_id s..<ms_next_deal_id s + length ps]"
    "\<forall>i. fmlookup (ms_proposals t) i =
      (if ms_next_deal_id s \<le> i \<and> i < ms_next_deal_id s + length ps then Some (ps ! (i - ms_next_deal_id s))
       else fmlookup (ms_proposals s) i)"
    "\<forall>x. locked_of t x = locked_of s x + sum_list (map unpaid_fee (filter (\<lambda>p. dp_client p = x) ps))"
  using assms
proof (atomize (full), induction ps arbitrary: pub s c)
  case Nil
  then show ?case by (auto simp: ok_iff)
next
  case (Cons p ps)
  from Cons.prems(1) obtain pub1 s1 where s1: "publish_deal cfg p pub s = (Ok pub1, s1)"
    "foldM (publish_deal cfg) ps pub1 s1 = (Ok pub', t)" by (auto simp: ok_iff)
  have p: "publishable provider p" "deal_ok p" "dp_state p = Published" "\<forall>p\<in>set ps. publishable provider p"
    using Cons.prems(2) by (auto simp: publishable_def)
  note ok = publish_deal_Ok [OF s1(1) p(2,3)]
  note IH = Cons.IH [OF s1(2) p(4) publish_deal_publishing [OF s1(1) p(1) Cons.prems(3)]]
  have "[ms_next_deal_id s..<ms_next_deal_id s + length (p # ps)] =
      ms_next_deal_id s # [Suc (ms_next_deal_id s)..<Suc (ms_next_deal_id s) + length ps]"
    by (simp add: upt_rec)
  then show ?case using IH ok(1,2,4,5,8)
    by (auto simp: add.assoc nth_Cons' le_less Suc_le_eq split: if_splits)
qed

lemma publish_storage_deals_Ok:
  assumes "market_inv cfg E s" "publish_storage_deals cfg now provider ds s = (Ok u, t)"
    "ps = map cdp_proposal ds" "n = ms_next_deal_id s"
    "mc_overflow_checks cfg \<or> (\<forall>p\<in>set ps. fee_fits p)"
  shows "market_inv cfg E t" "mc_is_registered cfg provider" "ds \<noteq> []"
    "\<forall>p\<in>set ps. publishable provider p" "\<forall>p\<in>set ps. now \<le> dp_start_block p"
    "ms_next_deal_id t = n + length ps"
    "fmlookup (ms_proposals t) i = (if n \<le> i \<and> i < n + length ps then Some (ps ! (i - n))
       else fmlookup (ms_proposals s) i)"
    "locked_of t x = locked_of s x + sum_list (map unpaid_fee (filter (\<lambda>p. dp_client p = x) ps))
      + (if x = provider then collaterals ps else 0)"
proof -
  obtain valid lockup s1 s2 s3 pub where run: "mc_is_registered cfg provider" "ds \<noteq> []"
    "validate_deals cfg provider ds now s = (Ok (valid, lockup), s1)"
    "foldM (publish_deal cfg) valid [] s1 = (Ok pub, s2)" "lock_funds provider lockup s2 = (Ok (), s3)"
    "t = s3\<lparr>ms_events := ms_events s3 @ [DealsPublished provider pub]\<rparr>"
    using assms(2)
    by (auto simp: publish_storage_deals_def publish_storage_deals_body_def ok_iff validate_deals_def Let_def)
  note v = validate_deals_Ok [OF assms(1) run(3) assms(5) [unfolded assms(3)]]
  have ps: "valid = ps" using v(4) assms(3) by simp
  have s1: "ms_next_deal_id s1 = n" "ms_proposals s1 = ms_proposals s" "\<And>x. locked_of s1 x = locked_of s x"
    using v(5) assms(4) by auto
  note l = publish_loop [OF run(4) v(2) iffD2 [OF publishing_0 v(1)]]
  note k = lock_funds_Ok [OF run(5)]
  have locked2: "locked_of s2 a + (if a = provider then lockup else 0) = count_over (escrow a) (ms_proposals s2)" for a
    using l(1) unfolding publishing_def v(3) by (metis add_0)
  have locked3: "locked_of s3 a = count_over (escrow a) (ms_proposals s3)" for a
    using locked2 [of a] k(1) k(4) [of a] by (simp add: same_but_balances_def)
  have "market_inv cfg E s3"
    using l(1) k(1,2) locked3
    by (simp add: market_inv_def publishing_def solvent_def deals_ok_def queued_def escrowed_def same_but_balances_def)
  then show "market_inv cfg E t" unfolding run(6) by (rule market_inv_frame) simp_all
  show "mc_is_registered cfg provider" "ds \<noteq> []" by (rule run)+
  show "\<forall>p\<in>set ps. publishable provider p" "\<forall>p\<in>set ps. now \<le> dp_start_block p" using v(2,6) ps by simp_all
  show "ms_next_deal_id t = n + length ps" using l(2) k(1) run(6) ps s1 by (simp add: same_but_balances_def)
  show "fmlookup (ms_proposals t) i = (if n \<le> i \<and> i < n + length ps then Some (ps ! (i - n))
       else fmlookup (ms_proposals s) i)"
    using l(5) k(1) run(6) ps s1 by (simp add: same_but_balances_def)
  show "locked_of t x = locked_of s x + sum_list (map unpaid_fee (filter (\<lambda>p. dp_client p = x) ps))
      + (if x = provider then collaterals ps else 0)"
    using l(6) k(4) [of x] run(6) v(3) ps s1 by simp
qed

section \<open>Reachable states\<close>

definition market_genesis :: "'c \<Rightarrow> 'c market_state" where
  "market_genesis c = \<lparr> ms_balances = fmempty, ms_next_deal_id = 0, ms_proposals = fmempty, ms_pending = {||},
    ms_deals_for_block = fmempty, ms_sector_deals = fmempty, ms_events = [], ms_currency = c \<rparr>"

text \<open>
  The transactions of the market, the calls of the storage-provider pallet, and
  the hook at the end of a block. The account of the market signs nothing. A
  transaction that fails is rolled back. The hooks are not transactions: the hook
  of the storage-provider pallet logs an error of \<^verbatim>\<open>on_sectors_terminate\<close> and goes on
  with what the call has written, and the hook of the market runs whatever it
  returns. In a build without overflow checks, a publication is a step if the fees
  of its deals fit into 128 bits, and a termination if the deals of the sectors
  have started.
\<close>

inductive market_step :: "'c market_config \<Rightarrow> 'c market_state \<Rightarrow> 'c market_state \<Rightarrow> bool" for cfg where
  step_add: "caller \<noteq> mc_account_id cfg \<Longrightarrow> add_balance cfg caller amount s = (Ok u, t) \<Longrightarrow> market_step cfg s t"
| step_withdraw: "caller \<noteq> mc_account_id cfg \<Longrightarrow> withdraw_balance cfg caller amount s = (Ok u, t) \<Longrightarrow> market_step cfg s t"
| step_settle: "settle_deal_payments cfg now deal_ids s = (Ok u, t) \<Longrightarrow> market_step cfg s t"
| step_publish: "publish_storage_deals cfg now provider deals s = (Ok u, t) \<Longrightarrow>
    mc_overflow_checks cfg \<or> (\<forall>p\<in>set (map cdp_proposal deals). fee_fits p) \<Longrightarrow> market_step cfg s t"
| step_activate: "activate_deals cfg now provider sectors compute_cid s = (Ok acts, t) \<Longrightarrow> market_step cfg s t"
| step_terminate: "on_sectors_terminate cfg now provider numbers s = (r, t) \<Longrightarrow> r \<noteq> Panic \<Longrightarrow>
    mc_overflow_checks cfg \<or> sectors_started now provider numbers s \<Longrightarrow> market_step cfg s t"
| step_finalize: "market_on_finalize cfg now s = (r, t) \<Longrightarrow> market_step cfg s t"

inductive market_reachable :: "'c market_config \<Rightarrow> 'c \<Rightarrow> 'c market_state \<Rightarrow> bool" for cfg c where
  reach_genesis: "market_reachable cfg c (market_genesis c)"
| reach_step: "market_reachable cfg c s \<Longrightarrow> market_step cfg s t \<Longrightarrow> market_reachable cfg c t"

lemma market_genesis_inv:
  "cu_free_balance (mc_currency cfg) (mc_account_id cfg) c = E \<Longrightarrow> market_inv cfg E (market_genesis c)"
  by (simp add: market_inv_def market_genesis_def solvent_def funds_def escrowed_def balance_of_def deals_ok_def queued_def)

lemma market_step_inv:
  assumes "market_env cfg E" "market_inv cfg E s" "market_step cfg s t"
  shows "market_inv cfg E t"
  using assms(3)
proof cases
  case (step_settle now deal_ids u)
  obtain t' where "settle_deal_payments cfg now deal_ids s = (Ok (), t')" "market_inv cfg E t'"
    by (rule settle_deal_payments_total [OF assms(1,2)])
  then show ?thesis using step_settle by simp
next
  case (step_finalize now r)
  obtain t' where "market_on_finalize cfg now s = (Ok (), t')" "market_inv cfg E t'"
    by (rule market_on_finalize_total [OF assms(1,2) refl])
  then show ?thesis using step_finalize by simp
next
  case (step_add caller amount u)
  then show ?thesis by (rule add_balance_effect(1) [OF assms(1,2)])
next
  case (step_withdraw caller amount u)
  then show ?thesis by (rule withdraw_balance_effect(1) [OF assms(1,2)])
next
  case (step_publish now provider deals u)
  then show ?thesis by (intro publish_storage_deals_Ok(1) [OF assms(2) _ refl refl])
next
  case (step_activate now provider sectors compute_cid acts)
  then show ?thesis by (rule activate_deals_inv [OF assms(2)])
next
  case (step_terminate now provider numbers r)
  then show ?thesis by (intro on_sectors_terminate_inv [OF assms(1,2)])
qed

lemma market_reachable_inv:
  assumes "market_env cfg E" "cu_free_balance (mc_currency cfg) (mc_account_id cfg) c = E" "market_reachable cfg c s"
  shows "market_inv cfg E s"
  using assms(3) by induction (use market_genesis_inv [OF assms(2)] market_step_inv [OF assms(1)] in blast)+

end
