(* ===== verification/Ledger.thy ===== *)
theory Ledger
  imports Dispatch
begin

text \<open>
  A concrete currency with the behaviour that the pallets rely on: one balance
  per account, read as a 128-bit number, and an existential deposit.
\<close>

definition ledger_balance :: "account \<Rightarrow> (account \<Rightarrow> nat) \<Rightarrow> balance" where
  "ledger_balance a c = min (c a) (u128_bound - 1)"

definition ledger_withdraw :: "balance \<Rightarrow> account \<Rightarrow> balance \<Rightarrow> existence_requirement \<Rightarrow> (account \<Rightarrow> nat)
    \<Rightarrow> (account \<Rightarrow> nat) option" where
  "ledger_withdraw ed a n er c =
    (let b = ledger_balance a c in
     if b < n then None
     else if b - n < ed then (if er = KeepAlive then None else Some (c(a := 0)))
     else Some (c(a := b - n)))"

definition ledger_transfer :: "balance \<Rightarrow> account \<Rightarrow> account \<Rightarrow> balance \<Rightarrow> existence_requirement \<Rightarrow> (account \<Rightarrow> nat)
    \<Rightarrow> (dispatch_error, account \<Rightarrow> nat) res" where
  "ledger_transfer ed a b n er c =
    (case ledger_withdraw ed a n er c of
       None \<Rightarrow> Err (Token ''FundsUnavailable'')
     | Some c' \<Rightarrow>
         if ledger_balance b c' + n < u128_bound then Ok (c'(b := ledger_balance b c' + n))
         else Err (Arithmetic Overflow))"

definition ledger_settle :: "balance \<Rightarrow> account \<Rightarrow> balance \<Rightarrow> existence_requirement \<Rightarrow> (account \<Rightarrow> nat)
    \<Rightarrow> bool \<times> (account \<Rightarrow> nat)" where
  "ledger_settle ed a n er c =
    (case ledger_withdraw ed a n er c of None \<Rightarrow> (False, c) | Some c' \<Rightarrow> (True, c'))"

definition ledger_reserve :: "balance \<Rightarrow> account \<Rightarrow> balance \<Rightarrow> (account \<Rightarrow> nat)
    \<Rightarrow> (dispatch_error, account \<Rightarrow> nat) res" where
  "ledger_reserve ed a n c =
    (case ledger_withdraw ed a n KeepAlive c of None \<Rightarrow> Err (Token ''FundsUnavailable'') | Some c' \<Rightarrow> Ok c')"

definition ledger :: "balance \<Rightarrow> (account \<Rightarrow> nat) currency" where
  "ledger ed =
    \<lparr> cu_free_balance = ledger_balance, cu_total_balance = ledger_balance,
      cu_transfer = ledger_transfer ed, cu_burn = (\<lambda>n c. (n, c)), cu_settle = ledger_settle ed,
      cu_reserve = ledger_reserve ed, cu_slash_reserved = (\<lambda>a n c. (n, 0, c)), cu_issue = (\<lambda>n c. (n, c)),
      cu_resolve_creating = (\<lambda>a n c. c(a := min (c a + n) (u128_bound - 1))) \<rparr>"

lemma u128_bound_pos [simp]: "0 < u128_bound" "u128_bound - Suc 0 < u128_bound"
  by (simp_all add: u128_bound_def)

lemma ledger_balance_simps [simp]:
  "ledger_balance a c < u128_bound"
  "n < u128_bound \<Longrightarrow> ledger_balance a (c(b := n)) = (if a = b then n else ledger_balance a c)"
  by (auto simp: ledger_balance_def u128_bound_def)

lemma ledger_withdraw_Some_iff:
  "ledger_withdraw ed a n er c = Some c' \<longleftrightarrow>
    n \<le> ledger_balance a c \<and>
    (if ledger_balance a c - n < ed then er = AllowDeath \<and> c' = c(a := 0) else c' = c(a := ledger_balance a c - n))"
  by (cases er) (auto simp: ledger_withdraw_def Let_def)

lemma ledger_ok: "currency_ok (ledger ed) m ed"
proof -
  have less: "ledger_balance a c - n < u128_bound" for a c n
    using ledger_balance_simps(1) [of a c] by (rule le_less_trans [OF diff_le_self])
  show ?thesis
    unfolding currency_ok_def ledger_def
    by (auto simp: ledger_transfer_def ledger_settle_def ledger_withdraw_Some_iff less
        split: option.splits if_splits) (auto simp: ledger_withdraw_def Let_def split: if_splits)
qed

end
