(* ===== verification/Market_Claims.thy ===== *)
theory Market_Claims
  imports Market_Deals Ledger
begin

text \<open>
  What the market promises: its books balance in every reachable state, deals
  are paid, refunded and slashed by exactly the amounts of their terms; and
  where it does not keep its promises.
\<close>

section \<open>An example market\<close>

text \<open>
  Account 0 belongs to the market and holds one unit; account 1 is a client,
  account 2 a provider. One deal runs from block 10 to block 20 for 3 units per
  block, with a collateral of 7.
\<close>

definition demo_cfg :: "(account \<Rightarrow> nat) market_config" where
  "demo_cfg =
    \<lparr> mc_currency = ledger 1, mc_account_id = 0, mc_max_deals = 10, mc_min_deal_duration = 1,
      mc_max_deal_duration = 100, mc_max_deals_per_block = 10, mc_is_registered = (\<lambda>a. a = 2),
      mc_verify = (\<lambda>_ _ _. True),
      mc_encode = (\<lambda>p. [word_of_nat (dp_client p), if dp_state p = Published then 1 else 0]),
      mc_hash = (\<lambda>b. b),
      mc_cid_try_from = (\<lambda>_. Some (commitment_cid CommP (replicate 32 0))), mc_sha256 = (\<lambda>b. b),
      mc_overflow_checks = True, mc_debug_assertions = True \<rparr>"

definition demo_deal :: deal_proposal where
  "demo_deal =
    \<lparr> dp_piece_cid = [], dp_piece_size = 2048, dp_client = 1, dp_provider = 2, dp_label = [],
      dp_start_block = 10, dp_end_block = 20, dp_storage_price_per_block = 3, dp_provider_collateral = 7,
      dp_state = Published \<rparr>"

definition demo_sector :: sector_deal where
  "demo_sector =
    \<lparr> sd_sector_number = 4, sd_sector_expiry = 50, sd_sector_type = StackedDRG2KiBV1P1, sd_deal_ids = [0] \<rparr>"

definition demo_coins :: "account \<Rightarrow> nat" where
  "demo_coins = (\<lambda>a. if a = 0 then 1 else if a < 3 then 1000 else 0)"

definition demo_client :: "(account \<Rightarrow> nat) market_state" where
  "demo_client = snd (add_balance demo_cfg 1 100 (market_genesis demo_coins))"

definition demo_provider :: "(account \<Rightarrow> nat) market_state" where
  "demo_provider = snd (add_balance demo_cfg 2 50 demo_client)"

definition demo_published :: "(account \<Rightarrow> nat) market_state" where
  "demo_published = snd (publish_storage_deals demo_cfg 5 2
    [\<lparr> cdp_proposal = demo_deal, cdp_client_signature = [] \<rparr>] demo_provider)"

definition demo_active :: "(account \<Rightarrow> nat) market_state" where
  "demo_active = snd (activate_deals demo_cfg 8 2 [demo_sector] False demo_published)"

lemma demo_runs:
  "fst (add_balance demo_cfg 1 100 (market_genesis demo_coins)) = Ok ()"
  "fst (add_balance demo_cfg 2 50 demo_client) = Ok ()"
  "fst (publish_storage_deals demo_cfg 5 2
    [\<lparr> cdp_proposal = demo_deal, cdp_client_signature = [] \<rparr>] demo_provider) = Ok ()"
  by code_simp+

lemma demo_activation: "\<exists>a. fst (activate_deals demo_cfg 8 2 [demo_sector] False demo_published) = Ok a"
proof -
  have "(case fst (activate_deals demo_cfg 8 2 [demo_sector] False demo_published) of Ok a \<Rightarrow> True | _ \<Rightarrow> False)"
    by code_simp
  then show ?thesis by (auto split: res.splits)
qed

lemma demo_env: "currency_ok (mc_currency demo_cfg) (mc_account_id demo_cfg) 1"
  using ledger_ok by (simp add: demo_cfg_def)

lemma demo_endowment: "cu_free_balance (mc_currency demo_cfg) (mc_account_id demo_cfg) demo_coins = 1"
  by (simp add: demo_cfg_def ledger_def ledger_balance_def demo_coins_def u128_bound_def)

lemma demo_reachable:
  "market_reachable demo_cfg demo_coins demo_client"
  "market_reachable demo_cfg demo_coins demo_provider"
  "market_reachable demo_cfg demo_coins demo_published"
  "market_reachable demo_cfg demo_coins demo_active"
proof -
  have id: "mc_account_id demo_cfg = 0" by (simp add: demo_cfg_def)
  show 1: "market_reachable demo_cfg demo_coins demo_client"
    by (rule reach_step [OF reach_genesis step_add [OF _ run_eqI [OF demo_runs(1)], folded demo_client_def]])
      (simp add: id)
  show 2: "market_reachable demo_cfg demo_coins demo_provider"
    by (rule reach_step [OF 1 step_add [OF _ run_eqI [OF demo_runs(2)], folded demo_provider_def]]) (simp add: id)
  show 3: "market_reachable demo_cfg demo_coins demo_published"
    by (rule reach_step [OF 2 step_publish [OF run_eqI [OF demo_runs(3)], folded demo_published_def]]) (simp add: demo_cfg_def)
  obtain acts where acts: "fst (activate_deals demo_cfg 8 2 [demo_sector] False demo_published) = Ok acts"
    using demo_activation by blast
  show "market_reachable demo_cfg demo_coins demo_active"
    by (rule reach_step [OF 3 step_activate [OF run_eqI [OF acts], folded demo_active_def]])
qed

lemma demo_checks: "mc_overflow_checks demo_cfg \<or> P"
  by (simp add: demo_cfg_def)

section \<open>The books\<close>

lemma funds_sum: "funds s = (\<Sum>a\<in>fset (fmdom (ms_balances s)). free_of s a + locked_of s a)"
  unfolding funds_def count_over_def by (intro sum.cong) (auto simp: balance_of_def fmlookup_dom_iff)

lemma market_envI: "currency_ok (mc_currency cfg) (mc_account_id cfg) ed \<Longrightarrow> ed \<le> E \<Longrightarrow> market_env cfg E"
  by (auto simp: market_env_def)

text \<open>
  C1: In every state that the market reaches from its genesis, by any sequence of
  successful transactions, calls of the storage-provider pallet and hooks, the
  account of the market holds exactly what the market owes to all participants
  plus its initial endowment, provided that the endowment is at least the
  existential deposit; and what each account has locked is exactly the unpaid
  fees of its deals as a client plus the collaterals of its deals as a provider.
  The calls of the storage-provider pallet include terminations that fail halfway
  in its hook. In a build without overflow checks, publications whose fees do not
  fit into 128 bits and terminations of deals that have not started are excluded.
\<close>

theorem market_books_balance:
  assumes "currency_ok (mc_currency cfg) (mc_account_id cfg) ed" "ed \<le> E"
    and "cu_free_balance (mc_currency cfg) (mc_account_id cfg) c = E" "market_reachable cfg c s"
  shows "cu_free_balance (mc_currency cfg) (mc_account_id cfg) (ms_currency s) =
      (\<Sum>a\<in>fset (fmdom (ms_balances s)). free_of s a + locked_of s a) + E \<and>
    (\<forall>a. locked_of s a = (\<Sum>i\<in>fset (fmdom (ms_proposals s)). escrow a (the (fmlookup (ms_proposals s) i))))"
  using market_reachable_inv [OF market_envI [OF assms(1,2)] assms(3,4)]
  by (simp add: market_inv_def solvent_def escrowed_def funds_sum count_over_def)

theorem market_books_balance_witness:
  "cu_free_balance (mc_currency demo_cfg) (mc_account_id demo_cfg) (ms_currency demo_active) = 151 \<and>
   locked_of demo_active 1 = 30 \<and> locked_of demo_active 2 = 7 \<and>
   (\<Sum>i\<in>fset (fmdom (ms_proposals demo_active)). escrow 1 (the (fmlookup (ms_proposals demo_active) i))) = 30"
proof -
  have "cu_free_balance (mc_currency demo_cfg) (mc_account_id demo_cfg) (ms_currency demo_active) = 151"
    "locked_of demo_active 1 = 30" "locked_of demo_active 2 = 7" by code_simp+
  then show ?thesis
    using market_books_balance [OF demo_env order_refl demo_endowment demo_reachable(4)] by simp
qed

section \<open>Deals that are not activated\<close>



section \<open>Settlement\<close>

definition settled_at :: "block \<Rightarrow> active_deal_state \<Rightarrow> deal_proposal \<Rightarrow> deal_proposal" where
  "settled_at now active p = p\<lparr>dp_state := Active (active\<lparr>ad_last_updated_block := Some now\<rparr>)\<rparr>"

lemma settle_one:
  assumes "fmlookup (ms_proposals s) i = Some p" "dp_state p = Active active" "dp_start_block p \<le> now"
    "settled_until p \<le> now" "settle_active_deal cfg now i p active ([], []) s = (Ok (succ, []), t)"
  shows "settle_deal_payments cfg now [i] s = (Ok (), t\<lparr>ms_events := ms_events t @ [DealsSettled succ []]\<rparr>)"
proof -
  have "settle_deal cfg now i ([], []) s = (Ok (succ, []), t)"
    using assms by (auto simp: settle_deal_def bindM_def getM_def settled_until_Active split: option.splits)
  then show ?thesis by (simp add: settle_deal_payments_def settle_deal_payments_body_def ok_iff)
qed

lemma escrow_alt: "escrow a p = (if a = dp_client p then unpaid_fee p else 0)
    + (if a = dp_provider p then dp_provider_collateral p else 0)"
  by (auto simp: escrow_def)

text \<open>
  C8: Settling an active deal that has started, in a reachable state of a market
  endowed with at least the existential deposit, always succeeds. It moves the price of the blocks since the last settlement, up to
  the current block or the end of the deal, from the locked funds of the client
  to the free funds of the provider, and reports that amount. When the end has
  come, the collateral is unlocked and the deal removed; otherwise the block is
  recorded, so that no block is ever paid twice.
\<close>

theorem settlement_pays_elapsed:
  assumes "currency_ok (mc_currency cfg) (mc_account_id cfg) ed" "ed \<le> E"
    and "cu_free_balance (mc_currency cfg) (mc_account_id cfg) c = E" "market_reachable cfg c s"
    and "fmlookup (ms_proposals s) i = Some p" "dp_state p = Active active" "dp_start_block p \<le> now"
    and "settled_until p \<le> now" "ended = (dp_end_block p \<le> now)"
    and "amount = (min now (dp_end_block p) - settled_until p) * dp_storage_price_per_block p"
  shows "\<exists>t. settle_deal_payments cfg now [i] s = (Ok (), t) \<and>
    ms_events t = ms_events s @ [DealsSettled [\<lparr> sdd_deal_id = i, sdd_client = dp_client p,
      sdd_provider = dp_provider p, sdd_amount = amount \<rparr>] []] \<and>
    ms_proposals t = (if ended then fmdrop i (ms_proposals s) else fmupd i (settled_at now active p) (ms_proposals s)) \<and>
    (\<forall>a. locked_of t a + (if a = dp_client p then amount else 0)
       + (if a = dp_provider p \<and> ended then dp_provider_collateral p else 0) = locked_of s a) \<and>
    (\<forall>a. free_of t a = free_of s a + (if a = dp_provider p then amount else 0)
       + (if a = dp_provider p \<and> ended then dp_provider_collateral p else 0))"
proof -
  note env = market_envI [OF assms(1,2)]
  note inv = market_reachable_inv [OF env assms(3,4)]
  let ?acc = "([], []) :: settlement"
  show ?thesis
  proof (cases ended)
    case True
    then have fee: "amount = unpaid_fee p" using assms(9,10) by (simp add: unpaid_fee_def)
    obtain t where t: "settle_active_deal cfg now i p active ?acc s =
        (Ok (fst ?acc @ [\<lparr> sdd_deal_id = i, sdd_client = dp_client p, sdd_provider = dp_provider p,
         sdd_amount = unpaid_fee p \<rparr>], snd ?acc), t)" "ms_proposals t = fmdrop i (ms_proposals s)"
      "\<forall>x. locked_of t x + escrow x p = locked_of s x"
      "\<forall>x. free_of t x = free_of s x + (if x = dp_provider p then unpaid_fee p + dp_provider_collateral p else 0)"
      "ms_events t = ms_events s"
      by (rule settle_active_deal_complete [OF env inv assms(5,6) True [unfolded assms(9)], of ?acc])
    have "locked_of t a + (if a = dp_client p then amount else 0)
        + (if a = dp_provider p \<and> ended then dp_provider_collateral p else 0) = locked_of s a"
      "free_of t a = free_of s a + (if a = dp_provider p then amount else 0)
        + (if a = dp_provider p \<and> ended then dp_provider_collateral p else 0)" for a
      using t(3,4) [rule_format, of a] True fee by (auto simp: escrow_alt add.assoc split: if_splits)
    then show ?thesis using settle_one [OF assms(5-8)] t(1,2,5) fee True by simp
  next
    case False
    then have lt: "now < dp_end_block p" and am: "amount = (now - settled_until p) * dp_storage_price_per_block p"
      using assms(9,10) by simp_all
    obtain t where "settle_active_deal cfg now i p active ?acc s =
        (Ok (fst ?acc @ [\<lparr> sdd_deal_id = i, sdd_client = dp_client p, sdd_provider = dp_provider p,
         sdd_amount = amount \<rparr>], snd ?acc), t)" "ms_proposals t = fmupd i (settled_at now active p) (ms_proposals s)"
      "\<forall>x. locked_of t x + (if x = dp_client p then amount else 0) = locked_of s x"
      "\<forall>x. free_of t x = free_of s x + (if x = dp_provider p then amount else 0)"
      "ms_events t = ms_events s"
      by (rule settle_active_deal_partial [OF env inv assms(5,6,8) lt am settled_at_def, of ?acc])
    then show ?thesis using settle_one [OF assms(5-8)] False by auto
  qed
qed

definition demo_state :: active_deal_state where
  "demo_state = active_deal_state_new 4 8"

definition demo_active_deal :: deal_proposal where
  "demo_active_deal = demo_deal\<lparr>dp_state := Active demo_state\<rparr>"

lemma demo_lookup: "fmlookup (ms_proposals demo_active) 0 = Some demo_active_deal"
  by code_simp

lemma demo_active_deal_simps [simp]:
  "dp_state demo_active_deal = Active demo_state" "dp_start_block demo_active_deal = 10"
  "dp_end_block demo_active_deal = 20" "settled_until demo_active_deal = 10" "dp_client demo_active_deal = 1"
  "dp_provider demo_active_deal = 2" "dp_storage_price_per_block demo_active_deal = 3"
  "dp_provider_collateral demo_active_deal = 7"
  by (simp_all add: demo_active_deal_def demo_deal_def demo_state_def settled_until_def active_deal_state_new_def)

theorem settlement_pays_elapsed_witness:
  "\<exists>t. settle_deal_payments demo_cfg 15 [0] demo_active = (Ok (), t) \<and> locked_of demo_active 1 = 30 \<and>
     locked_of t 1 = 15 \<and> free_of t 2 = free_of demo_active 2 + 15"
proof -
  have l: "locked_of demo_active 1 = 30" by code_simp
  obtain t where t: "settle_deal_payments demo_cfg 15 [0] demo_active = (Ok (), t)"
    "\<forall>a. locked_of t a + (if a = 1 then 15 else 0) = locked_of demo_active a"
    "\<forall>a. free_of t a = free_of demo_active a + (if a = 2 then 15 else 0)"
    using settlement_pays_elapsed [OF demo_env order_refl demo_endowment demo_reachable(4) demo_lookup, of demo_state 15 False 15]
    by auto
  then show ?thesis using l t(2) [rule_format, of 1] by auto
qed

section \<open>Publication\<close>

text \<open>
  C31: A successful publication comes from a registered provider and stores exactly
  the given deals, in order, under consecutive identifiers that no deal had
  before. Every deal belongs to the provider, has not started and ends after its
  start. Each client has the fees of its deals locked and the provider the sum
  of the collaterals; nobody else's locked funds change, and no other deal. In a
  build without overflow checks this is so if the fees fit into 128 bits.
\<close>

theorem published_deals_locked:
  assumes "currency_ok (mc_currency cfg) (mc_account_id cfg) ed" "ed \<le> E"
    and "cu_free_balance (mc_currency cfg) (mc_account_id cfg) c = E" "market_reachable cfg c s"
    and "publish_storage_deals cfg now provider deals s = (Ok u, t)"
    and "ps = map cdp_proposal deals" "n = ms_next_deal_id s"
    and "mc_overflow_checks cfg \<or> (\<forall>p\<in>set ps. fee_fits p)"
  shows "mc_is_registered cfg provider \<and> ps \<noteq> [] \<and>
    (\<forall>p\<in>set ps. dp_provider p = provider \<and> dp_state p = Published \<and> now \<le> dp_start_block p \<and>
       dp_start_block p < dp_end_block p) \<and>
    ms_next_deal_id t = n + length ps \<and>
    (\<forall>k<length ps. fmlookup (ms_proposals s) (n + k) = None \<and> fmlookup (ms_proposals t) (n + k) = Some (ps ! k)) \<and>
    (\<forall>i<n. fmlookup (ms_proposals t) i = fmlookup (ms_proposals s) i) \<and>
    (\<forall>a. locked_of t a = locked_of s a
       + sum_list (map (\<lambda>p. dp_storage_price_per_block p * (dp_end_block p - dp_start_block p))
           (filter (\<lambda>p. dp_client p = a) ps))
       + (if a = provider then sum_list (map dp_provider_collateral ps) else 0))"
proof -
  note inv = market_reachable_inv [OF market_envI [OF assms(1,2)] assms(3,4)]
  note P = publish_storage_deals_Ok [OF inv assms(5-8)]
  have old: "fmlookup (ms_proposals s) (n + k) = None" for k
    using stored_deal_ok [OF inv, of "n + k"] assms(7) by (cases "fmlookup (ms_proposals s) (n + k)") auto
  have fee: "map unpaid_fee (filter (\<lambda>p. dp_client p = a) ps) =
      map (\<lambda>p. dp_storage_price_per_block p * (dp_end_block p - dp_start_block p)) (filter (\<lambda>p. dp_client p = a) ps)" for a
    using P(4) by (auto simp: publishable_def unpaid_fee_def settled_until_def)
  have "ps \<noteq> []" using P(3) assms(6) by simp
  then show ?thesis
    using P(2) P(4-6) P(7) P(8) [unfolded fee] old by (simp add: publishable_def deal_ok_def)
qed

theorem published_deals_locked_witness:
  "locked_of demo_published 1 = 30 \<and> locked_of demo_published 2 = 7 \<and>
   fmlookup (ms_proposals demo_published) 0 = Some demo_deal"
proof -
  have s: "ms_next_deal_id demo_provider = 0" "locked_of demo_provider 1 = 0" "locked_of demo_provider 2 = 0" by code_simp+
  have d: "dp_storage_price_per_block demo_deal * (dp_end_block demo_deal - dp_start_block demo_deal) = 30"
    "dp_client demo_deal = 1" "dp_provider_collateral demo_deal = 7" by (simp_all add: demo_deal_def)
  note P = published_deals_locked [OF demo_env order_refl demo_endowment demo_reachable(2) run_eqI [OF demo_runs(3)] refl refl demo_checks,
      folded demo_published_def]
  have "fmlookup (ms_proposals demo_published) 0 = Some demo_deal" using P by (simp add: s)
  moreover have "\<forall>a. locked_of demo_published a = locked_of demo_provider a + (if a = 1 then 30 else 0) + (if a = 2 then 7 else 0)"
    using P d by auto
  ultimately show ?thesis using s by simp
qed

section \<open>Termination\<close>



text \<open>
  A deal may be activated before its start block, but its sector cannot be
  terminated until then: the blocks elapsed since the start block are computed
  by a subtraction that underflows before anything is compared with zero, so the
  call panics in a build with overflow checks.
\<close>

theorem termination_before_start_panics:
  assumes "currency_ok (mc_currency cfg) (mc_account_id cfg) ed" "ed \<le> E"
    and "cu_free_balance (mc_currency cfg) (mc_account_id cfg) c = E" "market_reachable cfg c s"
    and "fmlookup (ms_proposals s) i = Some p" "dp_state p = Active active" "now < dp_start_block p"
    and "fmlookup (ms_sector_deals s) (dp_provider p, n) = Some (i # ids)" "mc_overflow_checks cfg"
  shows "fst (on_sectors_terminate cfg now (dp_provider p) (n # ns) s) = Panic"
proof -
  note ok = conjunct1 [OF stored_deal_ok [OF market_reachable_inv [OF market_envI [OF assms(1,2)] assms(3,4)] assms(5)]]
  have "now < settled_until p" "now < dp_end_block p" using deal_okD [OF ok] assms(7) by simp_all
  then show ?thesis
    using assms(5,6,8,9) calculate_start_block_settled [OF ok assms(6)]
    by (simp add: on_sectors_terminate_def terminate_sector_def terminate_deal_def bindM_def getM_def modifyM_def
        liftM_def ensureM_def retM_def Let_def calculate_elapsed_blocks_def calculate_end_block_def
        in_checked_build sub_u_def)
qed

theorem termination_before_start_panics_witness:
  "fst (on_sectors_terminate demo_cfg 9 2 [4] demo_active) = Panic"
proof -
  have "fmlookup (ms_sector_deals demo_active) (2, 4) = Some [0]" by code_simp
  then show ?thesis
    using termination_before_start_panics [OF demo_env order_refl demo_endowment demo_reachable(4) demo_lookup,
        of demo_state 9 4 "[]" "[]"] by (simp add: demo_cfg_def)
qed

text \<open>
  Once a completed deal has been settled, the sector that holds it can no longer
  be terminated: the deal is gone from the proposals but not from the deals of
  the sector, and the termination fails with DealNotFound, for this sector and
  for all that come with it.
\<close>

theorem settled_deal_blocks_termination:
  assumes "currency_ok (mc_currency cfg) (mc_account_id cfg) ed" "ed \<le> E"
    and "cu_free_balance (mc_currency cfg) (mc_account_id cfg) c = E" "market_reachable cfg c s"
    and "fmlookup (ms_proposals s) i = Some p" "dp_state p = Active active" "dp_end_block p \<le> now"
    and "fmlookup (ms_sector_deals s) (dp_provider p, n) = Some (i # ids)"
  shows "\<exists>t. settle_deal_payments cfg now [i] s = (Ok (), t) \<and>
    fst (on_sectors_terminate cfg later (dp_provider p) (n # ns) t) = Err (MarketModule DealNotFound)"
proof -
  note env = market_envI [OF assms(1,2)]
  note inv = market_reachable_inv [OF env assms(3,4)]
  note ok = deal_okD [OF conjunct1 [OF stored_deal_ok [OF inv assms(5)]]]
  have now: "dp_start_block p \<le> now" "settled_until p \<le> now" using ok(3,4) assms(7) by simp_all
  let ?acc = "([], []) :: settlement"
  obtain t where t: "settle_active_deal cfg now i p active ?acc s =
      (Ok (fst ?acc @ [\<lparr> sdd_deal_id = i, sdd_client = dp_client p, sdd_provider = dp_provider p,
       sdd_amount = unpaid_fee p \<rparr>], snd ?acc), t)" "ms_proposals t = fmdrop i (ms_proposals s)"
    "ms_sector_deals t = ms_sector_deals s"
    by (rule settle_active_deal_complete [OF env inv assms(5-7), of ?acc])
  define t' where "t' = t\<lparr>ms_events := ms_events t @ [DealsSettled [\<lparr> sdd_deal_id = i, sdd_client = dp_client p,
    sdd_provider = dp_provider p, sdd_amount = unpaid_fee p \<rparr>] []]\<rparr>"
  have "settle_deal_payments cfg now [i] s = (Ok (), t')"
    using settle_one [OF assms(5,6) now] t(1) by (simp add: t'_def)
  moreover have "fst (on_sectors_terminate cfg later (dp_provider p) (n # ns) t') = Err (MarketModule DealNotFound)"
    using assms(8) t(2,3)
    by (simp add: on_sectors_terminate_def terminate_sector_def terminate_deal_def bindM_def getM_def modifyM_def
        liftM_def t'_def merr_def)
  ultimately show ?thesis by blast
qed

theorem settled_deal_blocks_termination_witness:
  "\<exists>t. settle_deal_payments demo_cfg 25 [0] demo_active = (Ok (), t) \<and>
     fst (on_sectors_terminate demo_cfg 30 2 [4] t) = Err (MarketModule DealNotFound)"
proof -
  have "fmlookup (ms_sector_deals demo_active) (2, 4) = Some [0]" by code_simp
  then show ?thesis
    using settled_deal_blocks_termination [OF demo_env order_refl demo_endowment demo_reachable(4) demo_lookup,
        of demo_state 25 4 "[]"] by simp
qed

section \<open>Where the promises end\<close>

text \<open>
  In a build without overflow checks, a deal whose fee is a multiple of
  \<open>2 ^ 128\<close> is published with nothing locked for it: here four blocks at a price of
  \<open>2 ^ 126\<close>. Settling it fails, and with it every settlement of the same call.
\<close>

theorem unchecked_fee_wraps:
  "let cfg = demo_cfg\<lparr>mc_overflow_checks := False, mc_debug_assertions := False\<rparr>;
       big = demo_deal\<lparr>dp_end_block := 14, dp_storage_price_per_block := 2 ^ 126\<rparr>;
       published = publish_storage_deals cfg 5 2 [\<lparr> cdp_proposal = big, cdp_client_signature = [] \<rparr>] demo_provider;
       active = activate_deals cfg 8 2 [demo_sector] False (snd published) in
     fst published = Ok () \<and> locked_of (snd published) 1 = 0 \<and> fmlookup (ms_proposals (snd published)) 0 = Some big \<and>
     fst (settle_deal_payments cfg 12 [0] (snd active)) = Err (Arithmetic Underflow)"
  by code_simp

text \<open>
  C32: Without an endowment, a withdrawal can break the documented invariant that the
  account of the market holds what the market owes: when it leaves less than the
  existential deposit in the account, the account is reaped, and the funds of
  the remaining participants are lost.
\<close>

theorem withdrawal_loses_remaining_funds:
  assumes "currency_ok (mc_currency cfg) (mc_account_id cfg) ed"
    and "cu_free_balance (mc_currency cfg) (mc_account_id cfg) (ms_currency s) = funds s"
    and "caller \<noteq> mc_account_id cfg" "withdraw_balance cfg caller amount s = (Ok u, t)"
    and "amount < funds s" "funds s < amount + ed"
  shows "0 < funds t \<and> cu_free_balance (mc_currency cfg) (mc_account_id cfg) (ms_currency t) = 0"
proof -
  let ?m = "mc_account_id cfg" and ?cu = "mc_currency cfg"
  define b where "b = (balance_of s caller)\<lparr>be_free := free_of s caller - amount\<rparr>"
  obtain c where c: "cu_transfer ?cu ?m caller amount AllowDeath (ms_currency s) = Ok c"
      "amount \<le> free_of s caller"
      "t = (put_balance caller b (s\<lparr>ms_currency := c\<rparr>))
        \<lparr>ms_events := ms_events s @ [BalanceWithdrawn caller amount]\<rparr>"
    using assms(4) by (auto simp: withdraw_balance_def withdraw_balance_body_def ok_iff b_def)
  have "funds t + amount = funds s"
    using funds_put_balance [of caller b "s\<lparr>ms_currency := c\<rparr>"] c(2,3) by (simp add: b_def)
  moreover have "cu_free_balance ?cu ?m (ms_currency s) - amount < ed" using assms(2,5,6) by simp
  then have "cu_free_balance ?cu ?m c = 0"
    using assms(1,3) c(1) unfolding currency_ok_def by metis
  ultimately show ?thesis using assms(5) c(3) by simp
qed

definition poor_cfg :: "(account \<Rightarrow> nat) market_config" where
  "poor_cfg = demo_cfg\<lparr>mc_currency := ledger 5\<rparr>"

definition poor_market :: "(account \<Rightarrow> nat) market_state" where
  "poor_market = snd (add_balance poor_cfg 1 100 (snd (add_balance poor_cfg 2 2 (snd (add_balance poor_cfg 3 5
    (market_genesis (\<lambda>a. if a = 0 then 0 else 1000)))))))"

theorem withdrawal_loses_remaining_funds_witness:
  "\<exists>t. withdraw_balance poor_cfg 1 100 (snd (withdraw_balance poor_cfg 3 5 poor_market)) = (Ok (), t) \<and> 0 < funds t \<and>
     cu_free_balance (mc_currency poor_cfg) (mc_account_id poor_cfg) (ms_currency t) = 0"
proof -
  let ?s = "snd (withdraw_balance poor_cfg 3 5 poor_market)"
  have ok: "currency_ok (mc_currency poor_cfg) (mc_account_id poor_cfg) 5" "1 \<noteq> mc_account_id poor_cfg"
    using ledger_ok by (simp_all add: poor_cfg_def demo_cfg_def)
  have f: "fst (withdraw_balance poor_cfg 1 100 ?s) = Ok ()"
    "cu_free_balance (mc_currency poor_cfg) (mc_account_id poor_cfg) (ms_currency ?s) = 102"
    "balance_of ?s 1 = \<lparr> be_free = 100, be_locked = 0 \<rparr>" "balance_of ?s 2 = \<lparr> be_free = 2, be_locked = 0 \<rparr>"
    "balance_of ?s 3 = \<lparr> be_free = 0, be_locked = 0 \<rparr>" "fmdom (ms_balances ?s) = {|1, 2, 3|}"
    by code_simp+
  have "funds ?s = 102" using f(3-6) by (simp add: funds_sum)
  then show ?thesis
    using withdrawal_loses_remaining_funds [OF ok(1) _ ok(2) run_eqI [OF f(1)]] run_eqI [OF f(1)] f(2)
    by (intro exI [of _ "snd (withdraw_balance poor_cfg 1 100 ?s)"]) simp
qed

text \<open>
  A sector may declare up to MAX_DEALS_PER_SECTOR (128) deals, but its deals are
  collected in containers with room for MAX_SECTORS_PER_CALL (32): the
  verification of a sector with more than 32 deals never succeeds, nor are they
  ever activated.
\<close>

theorem sector_with_many_deals_rejected:
  assumes "sd_deal_ids sector = ids" "32 < length ids" "length ids \<le> MAX_DEALS_PER_SECTOR"
  shows "(\<forall>cids t. verify_deals_for_activation cfg now provider [sector] s \<noteq> (Ok cids, t)) \<and>
    (\<forall>acts t. activate_deals cfg now provider [sector] compute_cid s = (Ok acts, t) \<longrightarrow>
       acts = [] \<and> ms_proposals t = ms_proposals s \<and> ms_pending t = ms_pending s)"
proof -
  have no: "proposals_for_deals s ids \<noteq> Ok ps" for ps
    using proposals_for_deals_Ok(4) [of s ids ps] assms(2) by (auto simp: MAX_SECTORS_PER_CALL_def)
  then have "verify_deals_for_activation cfg now provider [sector] s \<noteq> (Ok cids, t)" for cids t
    using assms(1) by (auto simp: verify_deals_for_activation_def ok_iff)
  moreover have "acts = [] \<and> ms_proposals t = ms_proposals s \<and> ms_pending t = ms_pending s"
    if "activate_deals cfg now provider [sector] compute_cid s = (Ok acts, t)" for acts t
    using that assms(1) no
    by (auto simp: activate_deals_def activate_sector_deals_def bindM_def getM_def liftM_def attemptM_def retM_def
        modifyM_def split: res.splits)
  ultimately show ?thesis by blast
qed

theorem sector_with_many_deals_rejected_witness:
  "fst (activate_deals demo_cfg 8 2 [demo_sector\<lparr>sd_deal_ids := [0..<33]\<rparr>] False (market_genesis demo_coins)) = Ok [] \<and>
   ms_pending (snd (activate_deals demo_cfg 8 2 [demo_sector\<lparr>sd_deal_ids := [0..<33]\<rparr>] False (market_genesis demo_coins)))
     = {||}"
proof -
  let ?run = "activate_deals demo_cfg 8 2 [demo_sector\<lparr>sd_deal_ids := [0..<33]\<rparr>] False (market_genesis demo_coins)"
  have "lookup_deals (market_genesis demo_coins) (0 # [1..<33]) {||} [] = Err (merr DealNotFound)"
    by (simp add: market_genesis_def ensure_def try_insert_set_def MAX_SECTORS_PER_CALL_def)
  then have "\<exists>acts. fst ?run = Ok acts"
    by (simp add: activate_deals_def activate_sector_deals_def proposals_for_deals_def bindM_def getM_def liftM_def
        attemptM_def retM_def modifyM_def upt_conv_Cons)
  then obtain acts where "fst ?run = Ok acts" by blast
  then have run: "?run = (Ok acts, snd ?run)" by (rule run_eqI)
  have "acts = [] \<and> ms_pending (snd ?run) = {||}"
    using sector_with_many_deals_rejected [of "demo_sector\<lparr>sd_deal_ids := [0..<33]\<rparr>" "[0..<33]" demo_cfg 8 2
        "market_genesis demo_coins" False] run
    by (auto simp: MAX_DEALS_PER_SECTOR_def market_genesis_def)
  then show ?thesis using run by (metis fst_conv)
qed

end
