(* ===== verification/StorageProvider.thy ===== *)
theory StorageProvider
  imports Assignment Dispatch
begin

text \<open>
  The state of one storage provider
  (\<^verbatim>\<open>pallets/storage-provider/src/storage_provider.rs\<close>, \<^verbatim>\<open>proofs.rs\<close>).
\<close>

section \<open>State\<close>

record storage_provider_info =
  spi_peer_id :: bytes
  spi_window_post_proof_type :: registered_post_proof
  spi_sector_size :: sector_size
  spi_window_post_partition_sectors :: nat

definition storage_provider_info_new :: "bytes \<Rightarrow> registered_post_proof \<Rightarrow> storage_provider_info" where
  "storage_provider_info_new peer_id proof_type =
    \<lparr> spi_peer_id = peer_id, spi_window_post_proof_type = proof_type,
      spi_sector_size = post_sector_size proof_type,
      spi_window_post_partition_sectors = window_post_partitions_sector proof_type \<rparr>"

record storage_provider_state =
  sp_info :: storage_provider_info
  sp_sectors :: sector_table
  sp_pre_commit_deposits :: balance
  sp_pre_committed_sectors :: "(sector_number, sector_pre_commit_on_chain_info) fmap"
  sp_proving_period_start :: block
  sp_current_deadline :: nat
  sp_deadlines :: deadlines
  sp_early_terminations :: "nat fset"

type_synonym 'a spM = "(storage_provider_state, general_pallet_error, 'a) stM"

definition sp_state_new :: "storage_provider_info \<Rightarrow> block \<Rightarrow> nat \<Rightarrow> nat \<Rightarrow> storage_provider_state" where
  "sp_state_new info period_start deadline_idx w_post_period_deadlines =
    \<lparr> sp_info = info, sp_sectors = fmempty, sp_pre_commit_deposits = 0, sp_pre_committed_sectors = fmempty,
      sp_proving_period_start = period_start, sp_current_deadline = deadline_idx,
      sp_deadlines = deadlines_new w_post_period_deadlines, sp_early_terminations = {||} \<rparr>"

text \<open>The constants of the pallet configuration that fix the schedule of the deadlines.\<close>

record wpost_config =
  wp_period_deadlines :: nat
  wp_proving_period :: block
  wp_challenge_window :: block
  wp_challenge_lookback :: block
  wp_fault_declaration_cutoff :: block

definition deadline_info_of :: "wpost_config \<Rightarrow> block \<Rightarrow> block \<Rightarrow> nat \<Rightarrow> deadline_info gres" where
  "deadline_info_of cfg block_number period_start idx =
    deadline_info_new block_number period_start idx (wp_period_deadlines cfg) (wp_proving_period cfg)
      (wp_challenge_window cfg) (wp_challenge_lookback cfg) (wp_fault_declaration_cutoff cfg)"

definition is_mutable_at :: "wpost_config \<Rightarrow> block \<Rightarrow> nat \<Rightarrow> block \<Rightarrow> bool gres" where
  "is_mutable_at cfg period_start idx current_block =
    deadline_is_mutable period_start idx current_block (wp_period_deadlines cfg) (wp_proving_period cfg)
      (wp_challenge_window cfg) (wp_challenge_lookback cfg) (wp_fault_declaration_cutoff cfg)"

section \<open>The current deadline\<close>

definition sp_deadline_info :: "wpost_config \<Rightarrow> block \<Rightarrow> storage_provider_state \<Rightarrow> deadline_info gres" where
  "sp_deadline_info cfg current_block sp =
    deadline_info_of cfg current_block (sp_proving_period_start sp) (sp_current_deadline sp)"

definition deadlinesM :: "'a deadlinesM \<Rightarrow> 'a spM" where
  "deadlinesM = zoomM sp_deadlines (\<lambda>ds sp. sp\<lparr>sp_deadlines := ds\<rparr>)"

definition advance_deadline :: "wpost_config \<Rightarrow> block \<Rightarrow> unit spM" where
  "advance_deadline cfg current_block =
    bindM (getM (sp_deadline_info cfg current_block)) (\<lambda>r.
    bindM (liftM r) (\<lambda>dl_info.
    if \<not> period_started dl_info then retM ()
    else
      bindM (getM (\<lambda>sp. res_bind (add_u u64_bound (sp_current_deadline sp) 1) (\<lambda>n.
        if wp_period_deadlines cfg = 0 then Panic else Ok (n mod wp_period_deadlines cfg)))) (\<lambda>r.
      bindM (liftM r) (\<lambda>new_deadline.
      bindM (modifyM (\<lambda>sp. sp\<lparr>sp_current_deadline := new_deadline\<rparr>)) (\<lambda>_.
      bindM (if new_deadline = 0
        then bindM (getM (\<lambda>sp. add_u u64_bound (sp_proving_period_start sp) (wp_proving_period cfg))) (\<lambda>r.
             bindM (liftM r) (\<lambda>start.
             modifyM (\<lambda>sp. sp\<lparr>sp_proving_period_start := start\<rparr>)))
        else retM ()) (\<lambda>_.
      bindM (deadlinesM (load_deadline_mut (di_idx dl_info) (deadline_pop_expired_sectors (di_last dl_info)))) (\<lambda>expired.
      if early_sectors expired \<noteq> {||}
      then modifyM (\<lambda>sp. sp\<lparr>sp_early_terminations := finsert (di_idx dl_info) (sp_early_terminations sp)\<rparr>)
      else retM ())))))))"

section \<open>Pre-committed and active sectors\<close>

definition add_pre_commit_deposit :: "balance \<Rightarrow> (storage_provider_state, arithmetic_error, unit) stM" where
  "add_pre_commit_deposit amount =
    bindM (getM (\<lambda>sp. checked_add u128_bound (sp_pre_commit_deposits sp) amount)) (\<lambda>r.
    bindM (liftM (ok_or Overflow r)) (\<lambda>total.
    modifyM (\<lambda>sp. sp\<lparr>sp_pre_commit_deposits := total\<rparr>)))"

definition put_pre_committed_sector :: "sector_pre_commit_on_chain_info \<Rightarrow> unit spM" where
  "put_pre_committed_sector precommit =
    zoomM sp_pre_committed_sectors (\<lambda>m sp. sp\<lparr>sp_pre_committed_sectors := m\<rparr>)
      (insert_mapM MAX_SECTORS StorageProviderErrorMaxPreCommittedSectorExceeded
        (pc_sector_number (poc_info precommit)) precommit)"

definition get_pre_committed_sector ::
  "sector_number \<Rightarrow> storage_provider_state \<Rightarrow> sector_pre_commit_on_chain_info gres" where
  "get_pre_committed_sector n sp =
    ok_or StorageProviderErrorSectorNotFound (fmlookup (sp_pre_committed_sectors sp) n)"

definition remove_pre_committed_sector :: "sector_number \<Rightarrow> unit spM" where
  "remove_pre_committed_sector n =
    bindM (ensureM (\<lambda>sp. fmlookup (sp_pre_committed_sectors sp) n \<noteq> None) StorageProviderErrorSectorNotFound) (\<lambda>_.
    modifyM (\<lambda>sp. sp\<lparr>sp_pre_committed_sectors := fmdrop n (sp_pre_committed_sectors sp)\<rparr>))"

definition activate_sector :: "sector_number \<Rightarrow> sector_on_chain_info \<Rightarrow> unit spM" where
  "activate_sector n info =
    zoomM sp_sectors (\<lambda>m sp. sp\<lparr>sp_sectors := m\<rparr>)
      (insert_mapM MAX_SECTORS StorageProviderErrorSectorNumberInUse n info)"

section \<open>Assigning sectors to deadlines\<close>

text \<open>
  The deadlines that may be changed: all of them before the first proving
  period, the mutable ones afterwards. The second argument is the index of the
  first deadline of the list, the third the vector built so far.
\<close>

fun open_deadlines ::
  "wpost_config \<Rightarrow> block \<Rightarrow> block \<Rightarrow> nat \<Rightarrow> deadline list \<Rightarrow> deadline option list
    \<Rightarrow> deadline option list gres" where
  "open_deadlines cfg period_start current_block idx [] vec = Ok vec"
| "open_deadlines cfg period_start current_block idx (d # ds) vec =
    res_bind (if current_block < period_start then Ok True
              else is_mutable_at cfg period_start idx current_block) (\<lambda>changeable.
    if changeable then
      (if idx < length vec
       then open_deadlines cfg period_start current_block (idx + 1) ds (vec[idx := Some d])
       else Panic)
    else open_deadlines cfg period_start current_block (idx + 1) ds vec)"

definition add_to_deadline ::
  "nat \<Rightarrow> deadline option list \<Rightarrow> nat \<Rightarrow> sector_on_chain_info list \<Rightarrow> unit spM" where
  "add_to_deadline partition_size vec idx sectors =
    (if sectors = [] then retM ()
     else
       bindM (liftM (if idx < length vec then Ok (vec ! idx) else Panic)) (\<lambda>entry.
       bindM (liftM (ok_or DeadlineErrorCouldNotAssignSectorsToDeadlines entry)) (\<lambda>d.
       bindM (liftM (on_local (deadline_add_sectors partition_size sectors) d)) (\<lambda>(_, d').
       bindM (getM (\<lambda>sp. idx < length (sp_deadlines sp))) (\<lambda>in_range.
       if in_range then modifyM (\<lambda>sp. sp\<lparr>sp_deadlines := (sp_deadlines sp)[idx := d']\<rparr>)
       else liftM Panic)))))"

definition assign_sectors_to_deadlines ::
  "wpost_config \<Rightarrow> block \<Rightarrow> sector_on_chain_info list \<Rightarrow> nat \<Rightarrow> nat \<Rightarrow> unit spM" where
  "assign_sectors_to_deadlines cfg current_block sectors partition_size max_partitions_per_deadline =
    (let sorted = sort_key si_sector_number sectors in
     bindM (getM (\<lambda>sp. open_deadlines cfg (sp_proving_period_start sp) current_block 0 (sp_deadlines sp)
       (replicate (wp_period_deadlines cfg) None))) (\<lambda>r.
     bindM (liftM r) (\<lambda>vec.
     bindM (liftM (assign_deadlines max_partitions_per_deadline partition_size vec sorted
       (wp_period_deadlines cfg))) (\<lambda>deadline_to_sectors.
     forM (zip [0..<length deadline_to_sectors] deadline_to_sectors) (\<lambda>(idx, deadline_sectors).
       add_to_deadline partition_size vec idx deadline_sectors)))))"

section \<open>Early terminations\<close>

fun pop_early_deadlines ::
  "nat \<Rightarrow> nat \<Rightarrow> nat list \<Rightarrow> nat list \<Rightarrow> termination_result \<Rightarrow> (nat list \<times> termination_result) spM" where
  "pop_early_deadlines max_partitions max_sectors [] to_unset result = retM (to_unset, result)"
| "pop_early_deadlines max_partitions max_sectors (idx # rest) to_unset result =
    bindM (liftM (res_bind (sub_u max_partitions (tr_partitions_processed result)) (\<lambda>p.
                  res_bind (sub_u max_sectors (tr_sectors_processed result)) (\<lambda>s. Ok (p, s))))) (\<lambda>(p, s).
    bindM (deadlinesM (load_deadline_mut idx (deadline_pop_early_terminations p s))) (\<lambda>(deadline_result, more).
    bindM (liftM (tr_add_assign result deadline_result)) (\<lambda>result'.
    let to_unset' = (if more then to_unset else to_unset @ [idx]) in
    if \<not> tr_below_limit max_partitions max_sectors result' then retM (to_unset', result')
    else pop_early_deadlines max_partitions max_sectors rest to_unset' result')))"

definition sp_pop_early_terminations :: "nat \<Rightarrow> nat \<Rightarrow> termination_result spM" where
  "sp_pop_early_terminations max_partitions max_sectors =
    bindM (getM sp_early_terminations) (\<lambda>early.
    if early = {||} then retM tr_new
    else
      bindM (pop_early_deadlines max_partitions max_sectors (sorted_list_of_fset early) [] tr_new) (\<lambda>(to_unset, result).
      bindM (modifyM (\<lambda>sp. sp\<lparr>sp_early_terminations :=
        fold (\<lambda>n S. S |-| {|n|}) to_unset (sp_early_terminations sp)\<rparr>)) (\<lambda>_.
      retM result)))"

section \<open>The first proving period\<close>

text \<open>
  The offset is the first eight bytes, in big-endian order, of a hash of the
  encoded account and block number; \<open>blake2_64\<close> and the encoding are library
  code.
\<close>

definition u64_from_be_bytes :: "bytes \<Rightarrow> nat" where
  "u64_from_be_bytes bs = foldl (\<lambda>acc b. acc * 256 + unat b) 0 bs"

definition assign_proving_period_offset ::
  "(bytes \<Rightarrow> bytes) \<Rightarrow> bytes \<Rightarrow> bytes \<Rightarrow> block \<Rightarrow> ('e, block) res" where
  "assign_proving_period_offset blake2_64 encoded_addr encoded_block wpost_proving_period =
    (if wpost_proving_period = 0 then Panic
     else Ok (u64_from_be_bytes (blake2_64 (encoded_addr @ encoded_block)) mod wpost_proving_period))"

definition calculate_first_proving_period_start :: "block \<Rightarrow> block \<Rightarrow> block \<Rightarrow> ('e, block) res" where
  "calculate_first_proving_period_start current_block offset wpost_proving_period =
    res_bind (div_u current_block wpost_proving_period) (\<lambda>global_proving_index.
    res_bind (add_u u64_bound global_proving_index 1) (\<lambda>next_index.
    res_bind (mul_u u64_bound next_index wpost_proving_period) (\<lambda>global_proving_start.
    add_u u64_bound global_proving_start offset)))"

end
