(* ===== verification/Randomness.thy ===== *)
theory Randomness
  imports Dispatch
begin

text \<open>
  Randomness for the proofs (\<^verbatim>\<open>primitives/src/randomness.rs\<close>, \<^verbatim>\<open>primitives/src/proofs.rs\<close>)
  and the pallet that keeps a history of it (\<^verbatim>\<open>pallets/randomness/src/lib.rs\<close>). The
  BLAKE2 hash, the hash of the runtime and the randomness of the block author
  are parameters.
\<close>

unbundle bit_operations_syntax

section \<open>Domain separation\<close>

datatype domain_separation_tag = SealRandomness | InteractiveSealChallengeSeed | WindowedPoStChallengeSeed

text \<open>The eight bytes of a 64-bit number, most significant first.\<close>

definition to_be_bytes :: "nat \<Rightarrow> bytes" where
  "to_be_bytes n = map (\<lambda>i. word_of_nat (n div 256 ^ i)) (rev [0..<8])"

fun tag_value :: "domain_separation_tag \<Rightarrow> nat" where
  "tag_value SealRandomness = 1"
| "tag_value InteractiveSealChallengeSeed = 2"
| "tag_value WindowedPoStChallengeSeed = 3"

definition as_bytes :: "domain_separation_tag \<Rightarrow> bytes" where
  "as_bytes pers = to_be_bytes (tag_value pers)"

text \<open>The last byte of a hash is masked to give an element of the scalar field.\<close>

definition mask_last :: "bytes \<Rightarrow> bytes" where
  "mask_last hashed = hashed[31 := (hashed ! 31) AND 0x3f]"

definition draw_randomness ::
  "(bytes \<Rightarrow> bytes) \<Rightarrow> bytes \<Rightarrow> domain_separation_tag \<Rightarrow> nat \<Rightarrow> bytes \<Rightarrow> bytes" where
  "draw_randomness blake2_256 rbase pers block_number entropy =
    mask_last (blake2_256 (as_bytes pers @ rbase @ to_be_bytes block_number @ entropy))"

definition derive_prover_id :: "(bytes \<Rightarrow> bytes) \<Rightarrow> bytes \<Rightarrow> bytes" where
  "derive_prover_id blake2_256 encoded = mask_last (blake2_256 encoded)"

section \<open>The history\<close>

definition HISTORY_SIZE :: nat where "HISTORY_SIZE = 256"

record randomness_state =
  rs_author_vrf :: bytes
  rs_author_vrf_history :: "(block, bytes) fmap"

definition set_author_vrf :: "bytes option \<Rightarrow> block \<Rightarrow> (randomness_state, 'e, unit) stM" where
  "set_author_vrf get_author_vrf current_block =
    (case get_author_vrf of
       None \<Rightarrow> retM ()
     | Some author_vrf \<Rightarrow>
         bindM (modifyM (\<lambda>s. s\<lparr>rs_author_vrf := author_vrf\<rparr>)) (\<lambda>_.
         bindM (getM (\<lambda>s. fcard (fmdom (rs_author_vrf_history s)) = HISTORY_SIZE)) (\<lambda>full.
         bindM (if full
           then bindM (liftM (sub_u current_block HISTORY_SIZE)) (\<lambda>oldest.
                modifyM (\<lambda>s. s\<lparr>rs_author_vrf_history := fmdrop oldest (rs_author_vrf_history s)\<rparr>))
           else retM ()) (\<lambda>_.
         modifyM (\<lambda>s. s\<lparr>rs_author_vrf_history := fmupd current_block author_vrf (rs_author_vrf_history s)\<rparr>)))))"

definition random :: "(bytes \<Rightarrow> bytes) \<Rightarrow> bytes \<Rightarrow> block \<Rightarrow> randomness_state \<Rightarrow> bytes \<times> block" where
  "random hashing subject current_block s = (hashing (rs_author_vrf s @ subject), current_block)"

definition author_vrf_history :: "block \<Rightarrow> randomness_state \<Rightarrow> bytes option" where
  "author_vrf_history block_number s = fmlookup (rs_author_vrf_history s) block_number"

section \<open>Blocks without gaps, and with\<close>

text \<open>Every block brings its randomness, or none when the leader election fell back.\<close>

fun run_blocks :: "bytes option list \<Rightarrow> block \<Rightarrow> (randomness_state, 'e, unit) stM" where
  "run_blocks [] current_block = retM ()"
| "run_blocks (v # vs) current_block =
    bindM (set_author_vrf v current_block) (\<lambda>_. run_blocks vs (current_block + 1))"

lemma set_author_vrf_Some:
  assumes "fmdom (rs_author_vrf_history s) = H" "fcard H = HISTORY_SIZE \<longrightarrow> HISTORY_SIZE \<le> n"
  shows "set_author_vrf (Some v) n s =
    (Ok (), s\<lparr>rs_author_vrf := v, rs_author_vrf_history := fmupd n v
      (if fcard H = HISTORY_SIZE then fmdrop (n - HISTORY_SIZE) (rs_author_vrf_history s) else rs_author_vrf_history s)\<rparr>)"
  using assms by (auto simp: set_author_vrf_def monad_defs sub_u_def)

end
