(* ===== verification/StorageProviderPallet.thy ===== *)
theory StorageProviderPallet
  imports StorageProvider Market Randomness
begin

text \<open>
  The storage-provider pallet (\<^verbatim>\<open>pallets/storage-provider/src/lib.rs\<close>, \<^verbatim>\<open>fault.rs\<close>, and
  the parameters of its calls): registration, commitment, proving, faults and
  termination of sectors, and the hook at the end of a block. It calls the
  market, whose state is part of its own; the currency is the one of the market.
  Proof verification, the history of the randomness, encodings and hashes are in
  the configuration, and so is the order in which a storage map lists its keys.
\<close>

section \<open>Data\<close>

record prove_commit_sector =
  pcs_sector_number :: sector_number
  pcs_proof :: bytes

record prove_commit_result =
  pcr_sector_number :: sector_number
  pcr_partition_number :: partition_number
  pcr_deadline_idx :: nat

record post_proof =
  pp_post_proof :: registered_post_proof
  pp_proof_bytes :: bytes

record submit_windowed_post_params =
  swp_deadline :: nat
  swp_partitions :: "partition_number list"
  swp_proof :: post_proof

text \<open>Declarations of faults, recoveries and terminations have the same fields.\<close>

record sector_declaration =
  dec_deadline :: nat
  dec_partition :: partition_number
  dec_sectors :: "sector_number fset"

datatype sp_event =
    StorageProviderRegistered account storage_provider_info block
  | SectorsPreCommitted block account "sector_pre_commit_info list"
  | SectorsProven account "prove_commit_result list"
  | SectorsSlashed account "sector_number list"
  | ValidPoStSubmitted account
  | FaultsDeclared account "sector_declaration list"
  | FaultsRecovered account "sector_declaration list"
  | PartitionsFaulty account "(partition_number, sector_number fset) fmap"
  | SectorsTerminated account "sector_declaration list"

record 'c sp_config =
  cf_market :: "'c market_config"
  cf_wpost :: wpost_config
  cf_min_sector_expiration :: block
  cf_max_sector_expiration :: block
  cf_sector_maximum_lifetime :: block
  cf_max_prove_commit_duration :: block
  cf_max_partitions_per_deadline :: nat
  cf_fault_max_age :: block
  cf_pre_commit_challenge_delay :: block
  cf_addressed_partitions_max :: nat
  cf_addressed_sectors_max :: nat
  cf_author_vrf_history :: "block \<Rightarrow> bytes option"
  cf_blake2_256 :: "bytes \<Rightarrow> bytes"
  cf_blake2_64 :: "bytes \<Rightarrow> bytes"
  cf_encode_account :: "account \<Rightarrow> bytes"
  cf_encode_block :: "block \<Rightarrow> bytes"
  cf_verify_porep :: "bytes \<Rightarrow> registered_seal_proof \<Rightarrow> bytes \<Rightarrow> bytes \<Rightarrow> sector_number \<Rightarrow> bytes \<Rightarrow> bytes \<Rightarrow> bytes
    \<Rightarrow> (dispatch_error, unit) res"
  cf_verify_post :: "registered_post_proof \<Rightarrow> bytes \<Rightarrow> (sector_number, bytes) fmap \<Rightarrow> bytes
    \<Rightarrow> (dispatch_error, unit) res"
  cf_iter_keys :: "account fset \<Rightarrow> account list"

record 'c sp_pallet =
  sps_providers :: "(account, storage_provider_state) fmap"
  sps_events :: "sp_event list"
  sps_market :: "'c market_state"

type_synonym ('c, 'a) palletM = "('c sp_pallet, dispatch_error, 'a) stM"

definition sperr :: "storage_provider_error \<Rightarrow> dispatch_error" where
  "sperr = StorageProviderModule"

definition gperr :: "general_pallet_error \<Rightarrow> dispatch_error" where
  "gperr e = sperr (GeneralPalletError e)"

definition sp_deposit_event :: "sp_event \<Rightarrow> ('c, unit) palletM" where
  "sp_deposit_event e = modifyM (\<lambda>s. s\<lparr>sps_events := sps_events s @ [e]\<rparr>)"

text \<open>Calls into the market pallet and into the currency.\<close>

definition marketM :: "('c, 'a) marketM \<Rightarrow> ('c, 'a) palletM" where
  "marketM = zoomM sps_market (\<lambda>m s. s\<lparr>sps_market := m\<rparr>)"

definition get_provider :: "account \<Rightarrow> ('c, storage_provider_state) palletM" where
  "get_provider owner =
    bindM (getM (\<lambda>s. fmlookup (sps_providers s) owner)) (\<lambda>r. liftM (ok_or (sperr StorageProviderNotFound) r))"

definition set_provider :: "account \<Rightarrow> storage_provider_state \<Rightarrow> ('c, unit) palletM" where
  "set_provider owner sp = modifyM (\<lambda>s. s\<lparr>sps_providers := fmupd owner sp (sps_providers s)\<rparr>)"

definition is_registered_storage_provider :: "'c sp_pallet \<Rightarrow> account \<Rightarrow> bool" where
  "is_registered_storage_provider s a \<longleftrightarrow> a |\<in>| fmdom (sps_providers s)"

text \<open>A method on a local copy of the state of a provider.\<close>

definition localM :: "'a spM \<Rightarrow> storage_provider_state \<Rightarrow> ('c, 'a \<times> storage_provider_state) palletM" where
  "localM f sp = liftM (map_err gperr (on_local f sp))"

section \<open>Registration\<close>

definition register_storage_provider_body ::
  "'c sp_config \<Rightarrow> block \<Rightarrow> account \<Rightarrow> bytes \<Rightarrow> registered_post_proof \<Rightarrow> ('c, unit) palletM" where
  "register_storage_provider_body cfg current_block owner peer_id proof_type =
    bindM (ensureM (\<lambda>s. owner |\<notin>| fmdom (sps_providers s)) (sperr StorageProviderExists)) (\<lambda>_.
    bindM (liftM (assign_proving_period_offset (cf_blake2_64 cfg) (cf_encode_account cfg owner)
      (cf_encode_block cfg current_block) (wp_proving_period (cf_wpost cfg)))) (\<lambda>offset.
    bindM (liftM (calculate_first_proving_period_start current_block offset (wp_proving_period (cf_wpost cfg)))) (\<lambda>start.
    let info = storage_provider_info_new peer_id proof_type;
        state = sp_state_new info start 0 (wp_period_deadlines (cf_wpost cfg)) in
    bindM (set_provider owner state) (\<lambda>_.
    sp_deposit_event (StorageProviderRegistered owner info start)))))"

definition register_storage_provider ::
  "'c sp_config \<Rightarrow> block \<Rightarrow> account \<Rightarrow> bytes \<Rightarrow> registered_post_proof \<Rightarrow> ('c, unit) palletM" where
  "register_storage_provider cfg current_block owner peer_id proof_type =
    transactional (register_storage_provider_body cfg current_block owner peer_id proof_type)"

section \<open>Pre-commitment\<close>

definition calculate_pre_commit_deposit :: balance where
  "calculate_pre_commit_deposit = 1"

definition validate_expiration ::
  "'c sp_config \<Rightarrow> block \<Rightarrow> block \<Rightarrow> block \<Rightarrow> (storage_provider_error, unit) res" where
  "validate_expiration cfg curr_block activation expiration =
    res_bind (ensure (activation \<le> expiration) ExpirationBeforeActivation) (\<lambda>_.
    res_bind (sub_u expiration activation) (\<lambda>lifetime.
    res_bind (ensure (cf_min_sector_expiration cfg \<le> lifetime) ExpirationTooSoon) (\<lambda>_.
    res_bind (add_u u64_bound curr_block (cf_max_sector_expiration cfg)) (\<lambda>latest.
    res_bind (ensure (expiration < latest) ExpirationTooLong) (\<lambda>_.
    ensure (lifetime < cf_sector_maximum_lifetime cfg) MaxSectorLifetimeExceeded)))))"

definition validate_sector_for_pre_commit ::
  "storage_provider_state \<Rightarrow> sector_pre_commit_info \<Rightarrow> (storage_provider_error, unit) res" where
  "validate_sector_for_pre_commit sp sector =
    res_bind (ensure (spi_window_post_proof_type (sp_info sp) = registered_window_post_proof (pc_seal_proof sector))
      InvalidProofType) (\<lambda>_.
    ensure (fmlookup (sp_pre_committed_sectors sp) (pc_sector_number sector) = None \<and>
            fmlookup (sp_sectors sp) (pc_sector_number sector) = None) SectorNumberAlreadyUsed)"

text \<open>The computed commitments against the declared ones, for the sectors with deals.\<close>

fun check_commds :: "cid option list \<Rightarrow> cid list \<Rightarrow> nat list \<Rightarrow> (storage_provider_error, unit) res" where
  "check_commds calculated [] amounts = Ok ()"
| "check_commds calculated (unsealed_cid # cids) [] = Panic"
| "check_commds calculated (unsealed_cid # cids) (amount # amounts) =
    res_bind (if amount > 0
      then (case calculated of
              [] \<Rightarrow> Panic
            | commd # _ \<Rightarrow>
                res_bind (ok_or CouldNotVerifySectorForPreCommit commd) (\<lambda>calculated_commd.
                ensure (calculated_commd = unsealed_cid) InvalidUnsealedCidForSector))
      else Ok ()) (\<lambda>_.
    check_commds (tl calculated) cids amounts)"

definition check_commd_for_pre_commit ::
  "cid option list \<Rightarrow> nat \<Rightarrow> cid list \<Rightarrow> nat list \<Rightarrow> (storage_provider_error, unit) res" where
  "check_commd_for_pre_commit calculated sector_amount unsealed_cids deal_amounts =
    res_bind (ensure (length calculated = sector_amount) CouldNotVerifySectorForPreCommit) (\<lambda>_.
    check_commds calculated unsealed_cids deal_amounts)"

text \<open>The loop over the sectors of the call: what it checks, and the record that it makes of a sector.\<close>

definition pre_commit_sector ::
  "'c sp_config \<Rightarrow> block \<Rightarrow> storage_provider_state \<Rightarrow> sector_pre_commit_info
    \<Rightarrow> (storage_provider_error, sector_pre_commit_on_chain_info \<times> cid) res" where
  "pre_commit_sector cfg current_block sp sector =
    res_bind (validate_sector_for_pre_commit sp sector) (\<lambda>_.
    res_bind (add_u u64_bound current_block (cf_max_prove_commit_duration cfg)) (\<lambda>activation.
    res_bind (validate_expiration cfg current_block activation (pc_expiration sector)) (\<lambda>_.
    res_bind (map_err (\<lambda>_. InvalidCid)
      (from_cid_bytes (mc_cid_try_from (cf_market cfg)) CommD (pc_unsealed_cid sector))) (\<lambda>commd.
    res_bind (map_err (\<lambda>_. InvalidCid)
      (from_cid_bytes (mc_cid_try_from (cf_market cfg)) CommR (pc_sealed_cid sector))) (\<lambda>_.
    Ok (\<lparr> poc_info = sector, poc_pre_commit_deposit = calculate_pre_commit_deposit, poc_pre_commit_block_number = current_block \<rparr>,
        commitment_cid CommD commd))))))"

fun pre_commit_loop ::
  "'c sp_config \<Rightarrow> block \<Rightarrow> storage_provider_state \<Rightarrow> sector_pre_commit_info list
    \<Rightarrow> (storage_provider_error, (sector_pre_commit_on_chain_info \<times> cid) list) res" where
  "pre_commit_loop cfg current_block sp [] = Ok []"
| "pre_commit_loop cfg current_block sp (sector # sectors) =
    res_bind (pre_commit_sector cfg current_block sp sector) (\<lambda>x.
    res_bind (pre_commit_loop cfg current_block sp sectors) (\<lambda>xs. Ok (x # xs)))"

fun total_deposits :: "sector_pre_commit_on_chain_info list \<Rightarrow> balance \<Rightarrow> ('e, balance) res" where
  "total_deposits [] total_deposit = Ok total_deposit"
| "total_deposits (s # ss) total_deposit =
    res_bind (expect (checked_add u128_bound total_deposit (poc_pre_commit_deposit s))) (total_deposits ss)"

definition pre_commit_sectors_body ::
  "'c sp_config \<Rightarrow> block \<Rightarrow> account \<Rightarrow> sector_pre_commit_info list \<Rightarrow> ('c, unit) palletM" where
  "pre_commit_sectors_body cfg current_block owner sectors =
    bindM (get_provider owner) (\<lambda>sp.
    bindM (liftM (map_err sperr (pre_commit_loop cfg current_block sp sectors))) (\<lambda>checked.
    let on_chain_sectors = map fst checked in
    bindM (liftM (total_deposits on_chain_sectors 0)) (\<lambda>total_deposit.
    bindM (marketM (verify_deals_for_activation (cf_market cfg) current_block owner
      (map pre_commit_to_sector_deal on_chain_sectors))) (\<lambda>calculated.
    bindM (liftM (map_err sperr (check_commd_for_pre_commit calculated (length sectors) (map snd checked)
      (map (\<lambda>s. length (pc_deal_ids (poc_info s))) on_chain_sectors)))) (\<lambda>_.
    bindM (ensureM (\<lambda>s. total_deposit \<le>
      cu_total_balance (mc_currency (cf_market cfg)) owner (ms_currency (sps_market s))) (sperr NotEnoughFunds)) (\<lambda>_.
    bindM (marketM (currencyM (cu_reserve (mc_currency (cf_market cfg)) owner total_deposit))) (\<lambda>_.
    bindM (get_provider owner) (\<lambda>sp.
    bindM (liftM (map_err Arithmetic (on_local (add_pre_commit_deposit total_deposit) sp))) (\<lambda>(_, sp).
    bindM (localM (forM on_chain_sectors put_pre_committed_sector) sp) (\<lambda>(_, sp).
    bindM (set_provider owner sp) (\<lambda>_.
    sp_deposit_event (SectorsPreCommitted current_block owner sectors))))))))))))"

definition pre_commit_sectors ::
  "'c sp_config \<Rightarrow> block \<Rightarrow> account \<Rightarrow> sector_pre_commit_info list \<Rightarrow> ('c, unit) palletM" where
  "pre_commit_sectors cfg current_block owner sectors =
    transactional (pre_commit_sectors_body cfg current_block owner sectors)"

section \<open>Proving\<close>

definition get_randomness ::
  "'c sp_config \<Rightarrow> domain_separation_tag \<Rightarrow> block \<Rightarrow> bytes \<Rightarrow> (dispatch_error, bytes) res" where
  "get_randomness cfg personalization block_number entropy =
    res_bind (ok_or (sperr MissingAuthorVRF) (cf_author_vrf_history cfg block_number)) (\<lambda>randomness.
    if length randomness = 32
    then Ok (draw_randomness (cf_blake2_256 cfg) randomness personalization block_number entropy)
    else Panic)"

definition validate_seal_proof ::
  "'c sp_config \<Rightarrow> block \<Rightarrow> account \<Rightarrow> sector_pre_commit_on_chain_info \<Rightarrow> bytes \<Rightarrow> (dispatch_error, unit) res" where
  "validate_seal_proof cfg current_block owner precommit proof =
    (let info = poc_info precommit in
     res_bind (ensure (length proof \<le> seal_proof_size (pc_seal_proof info)) (sperr InvalidProof)) (\<lambda>_.
     res_bind (add_u u64_bound (poc_pre_commit_block_number precommit) (cf_pre_commit_challenge_delay cfg)) (\<lambda>interactive_block_number.
     res_bind (ensure (interactive_block_number \<le> current_block) (sperr InvalidProof)) (\<lambda>_.
     res_bind (map_err (\<lambda>_. sperr InvalidCid)
       (from_cid_bytes (mc_cid_try_from (cf_market cfg)) CommD (pc_unsealed_cid info))) (\<lambda>commd.
     res_bind (map_err (\<lambda>_. sperr InvalidCid)
       (from_cid_bytes (mc_cid_try_from (cf_market cfg)) CommR (pc_sealed_cid info))) (\<lambda>commr.
     let entropy = cf_encode_account cfg owner in
     res_bind (get_randomness cfg SealRandomness (pc_seal_randomness_height info) entropy) (\<lambda>randomness.
     res_bind (get_randomness cfg InteractiveSealChallengeSeed interactive_block_number entropy) (\<lambda>interactive_randomness.
     cf_verify_porep cfg (derive_prover_id (cf_blake2_256 cfg) (cf_encode_account cfg owner)) (pc_seal_proof info)
       commr commd (pc_sector_number info) randomness interactive_randomness proof))))))))"

text \<open>One sector of a proof of commitment, and the loop over them.\<close>

definition prove_sector ::
  "'c sp_config \<Rightarrow> block \<Rightarrow> account \<Rightarrow> storage_provider_state \<Rightarrow> prove_commit_sector
    \<Rightarrow> (dispatch_error, sector_pre_commit_on_chain_info) res" where
  "prove_sector cfg current_block owner sp sector =
    res_bind (map_err gperr (get_pre_committed_sector (pcs_sector_number sector) sp)) (\<lambda>precommit.
    res_bind (add_u u64_bound (poc_pre_commit_block_number precommit) (cf_max_prove_commit_duration cfg)) (\<lambda>prove_commit_due.
    res_bind (ensure (current_block < prove_commit_due) (sperr ProveCommitAfterDeadline)) (\<lambda>_.
    res_bind (validate_seal_proof cfg current_block owner precommit (pcs_proof sector)) (\<lambda>_.
    Ok precommit))))"

fun prove_loop ::
  "'c sp_config \<Rightarrow> block \<Rightarrow> account \<Rightarrow> storage_provider_state \<Rightarrow> prove_commit_sector list
    \<Rightarrow> (dispatch_error, sector_pre_commit_on_chain_info list) res" where
  "prove_loop cfg current_block owner sp [] = Ok []"
| "prove_loop cfg current_block owner sp (sector # sectors) =
    res_bind (prove_sector cfg current_block owner sp sector) (\<lambda>x.
    res_bind (prove_loop cfg current_block owner sp sectors) (\<lambda>xs. Ok (x # xs)))"

definition activate_proven :: "sector_number \<times> sector_on_chain_info \<Rightarrow> unit spM" where
  "activate_proven = (\<lambda>(n, info). bindM (activate_sector n info) (\<lambda>_. remove_pre_committed_sector n))"

text \<open>Where a sector was placed: the deadlines in order, the partitions of each in reverse.\<close>

fun find_sector :: "sector_number \<Rightarrow> nat \<Rightarrow> deadline list \<Rightarrow> (nat \<times> partition_number) option" where
  "find_sector n idx [] = None"
| "find_sector n idx (d # ds) =
    (case find (\<lambda>(pn, p). n |\<in>| p_sectors p) (rev (sorted_list_of_fmap (d_partitions d))) of
       Some (pn, p) \<Rightarrow> Some (idx, pn)
     | None \<Rightarrow> find_sector n (idx + 1) ds)"

fun prove_results :: "deadline list \<Rightarrow> sector_number list \<Rightarrow> ('e, prove_commit_result list) res" where
  "prove_results ds [] = Ok []"
| "prove_results ds (n # ns) =
    res_bind (expect (find_sector n 0 ds)) (\<lambda>(idx, pn).
    res_bind (prove_results ds ns) (\<lambda>rs.
    Ok (\<lparr> pcr_sector_number = n, pcr_partition_number = pn, pcr_deadline_idx = idx \<rparr> # rs)))"

definition prove_commit_sectors_body ::
  "'c sp_config \<Rightarrow> block \<Rightarrow> account \<Rightarrow> prove_commit_sector list \<Rightarrow> ('c, unit) palletM" where
  "prove_commit_sectors_body cfg current_block owner sectors =
    bindM (get_provider owner) (\<lambda>sp.
    bindM (liftM (prove_loop cfg current_block owner sp sectors)) (\<lambda>precommits.
    let sector_deals = map pre_commit_to_sector_deal precommits;
        sector_numbers = map pcs_sector_number sectors;
        new_sectors = map (\<lambda>p. from_pre_commit (poc_info p) current_block) precommits in
    bindM (marketM (activate_deals (cf_market cfg) current_block owner sector_deals (length sector_deals > 0))) (\<lambda>_.
    bindM (localM (forM (zip sector_numbers new_sectors) activate_proven) sp) (\<lambda>(_, sp).
    bindM (localM (assign_sectors_to_deadlines (cf_wpost cfg) current_block new_sectors
      (spi_window_post_partition_sectors (sp_info sp)) (cf_max_partitions_per_deadline cfg)) sp) (\<lambda>(_, sp).
    bindM (liftM (prove_results (sp_deadlines sp) sector_numbers)) (\<lambda>sectors_proven.
    bindM (set_provider owner sp) (\<lambda>_.
    sp_deposit_event (SectorsProven owner sectors_proven))))))))"

definition prove_commit_sectors ::
  "'c sp_config \<Rightarrow> block \<Rightarrow> account \<Rightarrow> prove_commit_sector list \<Rightarrow> ('c, unit) palletM" where
  "prove_commit_sectors cfg current_block owner sectors =
    transactional (prove_commit_sectors_body cfg current_block owner sectors)"

definition validate_deadline ::
  "deadline_info \<Rightarrow> submit_windowed_post_params \<Rightarrow> (storage_provider_error, unit) res" where
  "validate_deadline current_deadline post_params =
    res_bind (ensure (is_open current_deadline) InvalidDeadlineSubmission) (\<lambda>_.
    ensure (swp_deadline post_params = di_idx current_deadline) InvalidDeadlineSubmission)"

text \<open>The replicas of the proven partitions: a sector that the provider does not have is a panic.\<close>

definition add_replica ::
  "'c sp_config \<Rightarrow> storage_provider_state \<Rightarrow> sector_number \<Rightarrow> (sector_number, bytes) fmap
    \<Rightarrow> (storage_provider_error, (sector_number, bytes) fmap) res" where
  "add_replica cfg sp n replicas =
    res_bind (expect (fmlookup (sp_sectors sp) n)) (\<lambda>info.
    case from_cid_bytes (mc_cid_try_from (cf_market cfg)) CommR (si_sealed_cid info) of
      Ok comm_r \<Rightarrow> ok_or TooManyReplicas (try_insert_map MAX_SECTORS_PER_PROOF n comm_r replicas)
    | _ \<Rightarrow> Panic)"

fun add_replicas ::
  "'c sp_config \<Rightarrow> storage_provider_state \<Rightarrow> sector_number list \<Rightarrow> (sector_number, bytes) fmap
    \<Rightarrow> (storage_provider_error, (sector_number, bytes) fmap) res" where
  "add_replicas cfg sp [] replicas = Ok replicas"
| "add_replicas cfg sp (n # ns) replicas = res_bind (add_replica cfg sp n replicas) (add_replicas cfg sp ns)"

fun collect_replicas ::
  "'c sp_config \<Rightarrow> storage_provider_state \<Rightarrow> deadline \<Rightarrow> partition_number list \<Rightarrow> (sector_number, bytes) fmap
    \<Rightarrow> (storage_provider_error, (sector_number, bytes) fmap) res" where
  "collect_replicas cfg sp d [] replicas = Ok replicas"
| "collect_replicas cfg sp d (pn # pns) replicas =
    res_bind (ok_or InvalidPartition (fmlookup (d_partitions d) pn)) (\<lambda>p.
    res_bind (add_replicas cfg sp (sorted_list_of_fset (p_sectors p)) replicas) (collect_replicas cfg sp d pns))"

definition submit_windowed_post_body ::
  "'c sp_config \<Rightarrow> block \<Rightarrow> account \<Rightarrow> submit_windowed_post_params \<Rightarrow> ('c, unit) palletM" where
  "submit_windowed_post_body cfg current_block owner post =
    bindM (get_provider owner) (\<lambda>sp.
    bindM (liftM (ensure (pp_post_proof (swp_proof post) = spi_window_post_proof_type (sp_info sp)) (sperr InvalidProofType))) (\<lambda>_.
    bindM (liftM (ensure (length (pp_proof_bytes (swp_proof post)) \<le> MAX_POST_PROOF_BYTES) (sperr PoStProofInvalid))) (\<lambda>_.
    bindM (liftM (ensure (sp_proving_period_start sp \<le> current_block) (sperr InvalidDeadlineSubmission))) (\<lambda>_.
    bindM (liftM (map_err gperr (sp_deadline_info (cf_wpost cfg) current_block sp))) (\<lambda>current_deadline.
    bindM (liftM (map_err sperr (validate_deadline current_deadline post))) (\<lambda>_.
    bindM (localM (deadlinesM (deadlines_record_proven (swp_deadline post) (sp_sectors sp) (swp_partitions post))) sp) (\<lambda>(_, sp).
    bindM (liftM (if swp_partitions post = [] then Ok fmempty
      else if swp_deadline post < length (sp_deadlines sp)
      then map_err sperr (collect_replicas cfg sp (sp_deadlines sp ! swp_deadline post) (swp_partitions post) fmempty)
      else Panic)) (\<lambda>replicas.
    bindM (liftM (get_randomness cfg WindowedPoStChallengeSeed (di_challenge current_deadline)
      (cf_encode_account cfg owner))) (\<lambda>randomness.
    bindM (liftM (cf_verify_post cfg (pp_post_proof (swp_proof post)) randomness replicas
      (pp_proof_bytes (swp_proof post)))) (\<lambda>_.
    bindM (set_provider owner sp) (\<lambda>_.
    sp_deposit_event (ValidPoStSubmitted owner))))))))))))"

definition submit_windowed_post ::
  "'c sp_config \<Rightarrow> block \<Rightarrow> account \<Rightarrow> submit_windowed_post_params \<Rightarrow> ('c, unit) palletM" where
  "submit_windowed_post cfg current_block owner post =
    transactional (submit_windowed_post_body cfg current_block owner post)"

section \<open>Faults and recoveries\<close>

text \<open>The declarations of a call, by deadline and partition; empty ones are refused.\<close>

fun collect_declarations ::
  "sector_declaration list \<Rightarrow> deadline_sector_map \<Rightarrow> (general_pallet_error, deadline_sector_map) res" where
  "collect_declarations [] m = Ok m"
| "collect_declarations (term # terms) m =
    res_bind (ensure (dec_sectors term \<noteq> {||}) DeadlineErrorCouldNotAddSectors) (\<lambda>_.
    res_bind (on_local (deadline_sector_map_try_insert (dec_deadline term) (dec_partition term) (dec_sectors term)) m) (\<lambda>(_, m').
    collect_declarations terms m'))"

definition target_deadline :: "'c sp_config \<Rightarrow> block \<Rightarrow> storage_provider_state \<Rightarrow> nat \<Rightarrow> deadline_info gres" where
  "target_deadline cfg current_block sp idx =
    res_bind (deadline_info_of (cf_wpost cfg) current_block (sp_proving_period_start sp) idx) next_not_elapsed"

definition declare_faults_deadline ::
  "'c sp_config \<Rightarrow> block \<Rightarrow> nat \<times> partition_map \<Rightarrow> (storage_provider_state, dispatch_error, unit) stM" where
  "declare_faults_deadline cfg current_block = (\<lambda>(idx, partition_map).
    bindM (ensureM (\<lambda>sp. idx < length (sp_deadlines sp)) (gperr DeadlineErrorDeadlineIndexOutOfRange)) (\<lambda>_.
    bindM (getM (\<lambda>sp. target_deadline cfg current_block sp idx)) (\<lambda>r.
    bindM (liftM (map_err gperr r)) (\<lambda>target_dl.
    bindM (ensureM (\<lambda>_. \<not> fault_cutoff_passed target_dl) (sperr FaultDeclarationTooLate)) (\<lambda>_.
    bindM (liftM (add_u u64_bound (di_last target_dl) (cf_fault_max_age cfg))) (\<lambda>fault_expiration_block.
    bindM (getM sp_sectors) (\<lambda>sectors.
    map_errM gperr (deadlinesM (load_deadline_mut idx
      (deadline_record_faults sectors partition_map fault_expiration_block))))))))))"

definition declare_faults_body ::
  "'c sp_config \<Rightarrow> block \<Rightarrow> account \<Rightarrow> sector_declaration list \<Rightarrow> ('c, unit) palletM" where
  "declare_faults_body cfg current_block owner faults =
    bindM (get_provider owner) (\<lambda>sp.
    bindM (liftM (map_err gperr (collect_declarations faults deadline_sector_map_new))) (\<lambda>to_process.
    bindM (liftM (on_local (forM (sorted_list_of_fmap to_process) (declare_faults_deadline cfg current_block)) sp)) (\<lambda>(_, sp).
    bindM (set_provider owner sp) (\<lambda>_.
    sp_deposit_event (FaultsDeclared owner faults)))))"

definition declare_faults ::
  "'c sp_config \<Rightarrow> block \<Rightarrow> account \<Rightarrow> sector_declaration list \<Rightarrow> ('c, unit) palletM" where
  "declare_faults cfg current_block owner faults = transactional (declare_faults_body cfg current_block owner faults)"

definition declare_recoveries_deadline ::
  "'c sp_config \<Rightarrow> block \<Rightarrow> nat \<times> partition_map \<Rightarrow> (storage_provider_state, dispatch_error, unit) stM" where
  "declare_recoveries_deadline cfg current_block = (\<lambda>(idx, partition_map).
    bindM (ensureM (\<lambda>sp. idx < length (sp_deadlines sp)) (gperr DeadlineErrorDeadlineIndexOutOfRange)) (\<lambda>_.
    bindM (getM (\<lambda>sp. target_deadline cfg current_block sp idx)) (\<lambda>r.
    bindM (liftM (map_err gperr r)) (\<lambda>target_dl.
    bindM (ensureM (\<lambda>_. \<not> fault_cutoff_passed target_dl) (sperr FaultRecoveryTooLate)) (\<lambda>_.
    bindM (getM sp_sectors) (\<lambda>sectors.
    map_errM gperr (deadlinesM (load_deadline_mut idx
      (deadline_declare_faults_recovered sectors partition_map)))))))))"

definition declare_faults_recovered_body ::
  "'c sp_config \<Rightarrow> block \<Rightarrow> account \<Rightarrow> sector_declaration list \<Rightarrow> ('c, unit) palletM" where
  "declare_faults_recovered_body cfg current_block owner recoveries =
    bindM (get_provider owner) (\<lambda>sp.
    bindM (liftM (map_err gperr (collect_declarations recoveries deadline_sector_map_new))) (\<lambda>to_process.
    bindM (liftM (on_local (forM (sorted_list_of_fmap to_process) (declare_recoveries_deadline cfg current_block)) sp)) (\<lambda>(_, sp).
    bindM (set_provider owner sp) (\<lambda>_.
    sp_deposit_event (FaultsRecovered owner recoveries)))))"

definition declare_faults_recovered ::
  "'c sp_config \<Rightarrow> block \<Rightarrow> account \<Rightarrow> sector_declaration list \<Rightarrow> ('c, unit) palletM" where
  "declare_faults_recovered cfg current_block owner recoveries =
    transactional (declare_faults_recovered_body cfg current_block owner recoveries)"

section \<open>Termination\<close>

text \<open>
  The sectors whose termination was recorded at an earlier block; those of the
  current block are dropped with the state that is stored.
\<close>

definition terminated_before :: "block \<Rightarrow> termination_result \<Rightarrow> sector_number list" where
  "terminated_before current_block result =
    concat (map (\<lambda>(expiry, numbers). if expiry < current_block then sorted_list_of_fset numbers else [])
      (sorted_list_of_fmap (tr_sectors result)))"

definition process_early_terminations :: "'c sp_config \<Rightarrow> block \<Rightarrow> account \<Rightarrow> ('c, unit) palletM" where
  "process_early_terminations cfg current_block owner =
    bindM (get_provider owner) (\<lambda>state.
    bindM (localM (sp_pop_early_terminations (cf_addressed_partitions_max cfg) (cf_addressed_sectors_max cfg)) state) (\<lambda>(result, state).
    if tr_is_empty result then retM ()
    else
      let sectors_with_data = terminated_before current_block result in
      bindM (liftM (if length sectors_with_data \<le> MAX_DEALS_PER_SECTOR then Ok () else Panic)) (\<lambda>_.
      bindM (map_errM (\<lambda>_. sperr CouldNotTerminateDeals)
        (marketM (on_sectors_terminate (cf_market cfg) current_block owner sectors_with_data))) (\<lambda>_.
      set_provider owner state))))"

fun collect_terminations ::
  "sector_declaration list \<Rightarrow> deadline_sector_map \<Rightarrow> (general_pallet_error, deadline_sector_map) res" where
  "collect_terminations [] m = Ok m"
| "collect_terminations (term # terms) m =
    res_bind (on_local (deadline_sector_map_try_insert (dec_deadline term) (dec_partition term) (dec_sectors term)) m) (\<lambda>(_, m').
    collect_terminations terms m')"

definition terminate_deadline ::
  "'c sp_config \<Rightarrow> block \<Rightarrow> sector_on_chain_info list \<Rightarrow> nat \<times> partition_map
    \<Rightarrow> (storage_provider_state, dispatch_error, unit) stM" where
  "terminate_deadline cfg current_block sectors = (\<lambda>(idx, partition_sectors).
    bindM (getM (\<lambda>sp. is_mutable_at (cf_wpost cfg) (sp_proving_period_start sp) idx current_block)) (\<lambda>r.
    bindM (liftM (map_err gperr r)) (\<lambda>changeable.
    bindM (ensureM (\<lambda>_. changeable) (sperr CannotTerminateImmutableDeadline)) (\<lambda>_.
    bindM (map_errM gperr (deadlinesM (load_deadline_mut idx
      (deadline_terminate_sectors current_block sectors partition_sectors)))) (\<lambda>_.
    modifyM (\<lambda>sp. sp\<lparr>sp_early_terminations := finsert idx (sp_early_terminations sp)\<rparr>))))))"

definition terminate_sectors_body ::
  "'c sp_config \<Rightarrow> block \<Rightarrow> account \<Rightarrow> sector_declaration list \<Rightarrow> ('c, unit) palletM" where
  "terminate_sectors_body cfg current_block owner terminations =
    bindM (get_provider owner) (\<lambda>sp.
    bindM (liftM (map_err gperr (collect_terminations terminations deadline_sector_map_new))) (\<lambda>to_process.
    let sectors = map snd (sorted_list_of_fmap (sp_sectors sp)) in
    bindM (liftM (on_local (forM (sorted_list_of_fmap to_process) (terminate_deadline cfg current_block sectors)) sp)) (\<lambda>(_, sp).
    bindM (set_provider owner sp) (\<lambda>_.
    bindM (process_early_terminations cfg current_block owner) (\<lambda>_.
    sp_deposit_event (SectorsTerminated owner terminations))))))"

definition terminate_sectors ::
  "'c sp_config \<Rightarrow> block \<Rightarrow> account \<Rightarrow> sector_declaration list \<Rightarrow> ('c, unit) palletM" where
  "terminate_sectors cfg current_block owner terminations =
    transactional (terminate_sectors_body cfg current_block owner terminations)"

section \<open>Expired pre-commitments\<close>

definition sp_slash_and_burn :: "'c sp_config \<Rightarrow> account \<Rightarrow> balance \<Rightarrow> ('c, unit) palletM" where
  "sp_slash_and_burn cfg who slash_amount =
    (let cu = mc_currency (cf_market cfg);
         put = (\<lambda>c. modifyM (\<lambda>s. s\<lparr>sps_market := (sps_market s)\<lparr>ms_currency := c\<rparr>\<rparr>)) in
     bindM (getM (\<lambda>s. cu_slash_reserved cu who slash_amount (ms_currency (sps_market s)))) (\<lambda>(imbalance, balance, c).
     bindM (put c) (\<lambda>_.
     bindM (ensureM (\<lambda>_. balance = 0) (sperr SlashingFailed)) (\<lambda>_.
     bindM (getM (\<lambda>s. cu_burn cu imbalance (ms_currency (sps_market s)))) (\<lambda>(burned, c).
     bindM (put c) (\<lambda>_.
     bindM (getM (\<lambda>s. cu_settle cu who burned KeepAlive (ms_currency (sps_market s)))) (\<lambda>(settled, c).
     bindM (put c) (\<lambda>_.
     if settled then retM () else errM (sperr SlashingFailed)))))))))"

definition detect_expired ::
  "block \<Rightarrow> sector_number \<times> sector_pre_commit_on_chain_info \<Rightarrow> sector_number list \<times> balance \<Rightarrow> sector_number list \<times> balance" where
  "detect_expired curr_block = (\<lambda>(n, sector) (expired_sectors, to_be_slashed).
    if pc_expiration (poc_info sector) \<le> curr_block \<and> length expired_sectors < MAX_SECTORS
    then (expired_sectors @ [n],
          case checked_add u128_bound to_be_slashed (poc_pre_commit_deposit sector) of
            None \<Rightarrow> to_be_slashed | Some result \<Rightarrow> result)
    else (expired_sectors, to_be_slashed))"

definition detect_expired_precommit_sectors ::
  "block \<Rightarrow> storage_provider_state \<Rightarrow> sector_number list \<times> balance" where
  "detect_expired_precommit_sectors curr_block state =
    fold (detect_expired curr_block) (sorted_list_of_fmap (sp_pre_committed_sectors state)) ([], 0)"

definition remove_expired ::
  "sector_number \<Rightarrow> sector_number list \<times> storage_provider_state \<Rightarrow> sector_number list \<times> storage_provider_state" where
  "remove_expired n = (\<lambda>(removed, state).
    case remove_pre_committed_sector n state of
      (Ok _, state') \<Rightarrow> (removed @ [n], state')
    | (_, state') \<Rightarrow> (removed, state'))"

text \<open>One provider whose pre-commitments have expired; errors are logged.\<close>

definition slash_expired ::
  "'c sp_config \<Rightarrow> account \<Rightarrow> storage_provider_state \<Rightarrow> sector_number list \<Rightarrow> balance \<Rightarrow> ('c, unit) palletM" where
  "slash_expired cfg who state expired slash_amount =
    (case fold remove_expired expired ([], state) of (removed_sectors, state) \<Rightarrow>
     case checked_sub (sp_pre_commit_deposits state) slash_amount of
       None \<Rightarrow> retM ()
     | Some slashed_deposits \<Rightarrow>
         bindM (attemptM (sp_slash_and_burn cfg who slash_amount)) (\<lambda>slashed.
         if slashed = None then retM ()
         else
           bindM (set_provider who (state\<lparr>sp_pre_commit_deposits := slashed_deposits\<rparr>)) (\<lambda>_.
           sp_deposit_event (SectorsSlashed who removed_sectors))))"

text \<open>The loop returns at the first provider that has nothing expired.\<close>

fun check_precommits :: "'c sp_config \<Rightarrow> block \<Rightarrow> account list \<Rightarrow> ('c, unit) palletM" where
  "check_precommits cfg current_block [] = retM ()"
| "check_precommits cfg current_block (who # providers) =
    bindM (getM (\<lambda>s. fmlookup (sps_providers s) who)) (\<lambda>found.
    case found of
      None \<Rightarrow> check_precommits cfg current_block providers
    | Some state \<Rightarrow>
        (case detect_expired_precommit_sectors current_block state of (expired, slash_amount) \<Rightarrow>
         if expired = [] then retM ()
         else
           bindM (slash_expired cfg who state expired slash_amount) (\<lambda>_.
           check_precommits cfg current_block providers)))"

definition check_precommited_sectors :: "'c sp_config \<Rightarrow> block \<Rightarrow> ('c, unit) palletM" where
  "check_precommited_sectors cfg current_block =
    bindM (getM (\<lambda>s. cf_iter_keys cfg (fmdom (sps_providers s)))) (check_precommits cfg current_block)"

section \<open>Missed deadlines\<close>

definition put_partition :: "nat \<Rightarrow> partition_number \<Rightarrow> partition \<Rightarrow> storage_provider_state \<Rightarrow> storage_provider_state" where
  "put_partition idx n p sp =
    sp\<lparr>sp_deadlines := (sp_deadlines sp)[idx :=
      (sp_deadlines sp ! idx)\<lparr>d_partitions := fmupd n p (d_partitions (sp_deadlines sp ! idx))\<rparr>]\<rparr>"

text \<open>
  One partition of the elapsed deadline, in a local copy of the state of the
  provider. What a failing \<^verbatim>\<open>record_faults\<close> changed in the partition stays.
\<close>

definition check_partition ::
  "'c sp_config \<Rightarrow> block \<Rightarrow> account \<Rightarrow> deadline_info \<Rightarrow> partition_number \<times> partition
    \<Rightarrow> storage_provider_state \<times> (partition_number, sector_number fset) fmap
    \<Rightarrow> ('c, storage_provider_state \<times> (partition_number, sector_number fset) fmap) palletM" where
  "check_partition cfg current_block who current_deadline = (\<lambda>(n, p) (sp, faulty).
    if p_sectors p = {||} \<or> n |\<in>| d_partitions_posted (sp_deadlines sp ! di_idx current_deadline) then retM (sp, faulty)
    else
      bindM (liftM (add_u u64_bound (di_last current_deadline) (cf_fault_max_age cfg))) (\<lambda>fault_expiration_block.
      case record_faults (sp_sectors sp) (p_sectors p) fault_expiration_block p of (r, p') \<Rightarrow>
        let sp' = put_partition (di_idx current_deadline) n p' sp in
        (case r of
           Panic \<Rightarrow> liftM Panic
         | Err _ \<Rightarrow> retM (sp', faulty)
         | Ok found_faults \<Rightarrow>
             bindM (attemptM (process_early_terminations cfg current_block who)) (\<lambda>processed.
             if processed = None then retM (sp', faulty)
             else if found_faults = {||} then retM (sp', faulty)
             else
               bindM (liftM (expect (try_from_set MAX_SECTORS found_faults))) (\<lambda>found_faults.
               retM (sp', fmupd n found_faults faulty))))))"

definition check_elapsed_deadline ::
  "'c sp_config \<Rightarrow> block \<Rightarrow> account \<Rightarrow> deadline_info \<Rightarrow> storage_provider_state \<Rightarrow> ('c, unit) palletM" where
  "check_elapsed_deadline cfg current_block who current_deadline state =
    (let idx = di_idx current_deadline in
     if \<not> idx < length (sp_deadlines state) then retM ()
     else
       bindM (foldM (check_partition cfg current_block who current_deadline)
         (sorted_list_of_fmap (d_partitions (sp_deadlines state ! idx))) (state, fmempty)) (\<lambda>(state, faulty_partitions).
       bindM (if faulty_partitions \<noteq> fmempty
         then bindM (liftM (expect (try_from_map MAX_PARTITIONS_PER_DEADLINE faulty_partitions))) (\<lambda>faulty_partitions.
              sp_deposit_event (PartitionsFaulty who faulty_partitions))
         else retM ()) (\<lambda>_.
       let state = state\<lparr>sp_deadlines := (sp_deadlines state)[idx :=
         (sp_deadlines state ! idx)\<lparr>d_partitions_posted := {||}\<rparr>]\<rparr> in
       bindM (liftM (case on_local (advance_deadline (cf_wpost cfg) current_block) state of
         Ok (_, state) \<Rightarrow> Ok state | _ \<Rightarrow> Panic)) (\<lambda>state.
       set_provider who state))))"

definition check_provider :: "'c sp_config \<Rightarrow> block \<Rightarrow> account \<Rightarrow> ('c, unit) palletM" where
  "check_provider cfg current_block who =
    bindM (getM (\<lambda>s. fmlookup (sps_providers s) who)) (\<lambda>found.
    case found of
      None \<Rightarrow> retM ()
    | Some state \<Rightarrow>
        if current_block < sp_proving_period_start state then retM ()
        else
          (case sp_deadline_info (cf_wpost cfg) current_block state of
             Panic \<Rightarrow> liftM Panic
           | Err _ \<Rightarrow> retM ()
           | Ok current_deadline \<Rightarrow>
               if \<not> period_started current_deadline then retM ()
               else if \<not> has_elapsed current_deadline then retM ()
               else check_elapsed_deadline cfg current_block who current_deadline state))"

definition check_deadlines :: "'c sp_config \<Rightarrow> block \<Rightarrow> ('c, unit) palletM" where
  "check_deadlines cfg current_block =
    bindM (getM (\<lambda>s. cf_iter_keys cfg (fmdom (sps_providers s)))) (\<lambda>providers.
    forM providers (check_provider cfg current_block))"

definition sp_on_finalize :: "'c sp_config \<Rightarrow> block \<Rightarrow> ('c, unit) palletM" where
  "sp_on_finalize cfg current_block =
    bindM (check_precommited_sectors cfg current_block) (\<lambda>_. check_deadlines cfg current_block)"

section \<open>Queries\<close>

record external_deadline_info =
  edi_deadline_index :: nat
  edi_open :: bool
  edi_challenge_block :: block
  edi_start :: block

text \<open>\<^verbatim>\<open>Result::ok\<close>.\<close>

fun res_ok :: "('e, 'a) res \<Rightarrow> ('f, 'a option) res" where
  "res_ok (Ok a) = Ok (Some a)"
| "res_ok (Err e) = Ok None"
| "res_ok Panic = Panic"

definition external_deadline :: "deadline_info \<Rightarrow> external_deadline_info" where
  "external_deadline d =
    \<lparr> edi_deadline_index = di_idx d, edi_open = is_open d, edi_challenge_block = di_challenge d,
      edi_start = di_open_at d \<rparr>"

definition current_deadline ::
  "'c sp_config \<Rightarrow> block \<Rightarrow> account \<Rightarrow> 'c sp_pallet \<Rightarrow> ('e, external_deadline_info option) res" where
  "current_deadline cfg current_block who s =
    (case fmlookup (sps_providers s) who of
       None \<Rightarrow> Ok None
     | Some sp \<Rightarrow>
         res_bind (res_ok (sp_deadline_info (cf_wpost cfg) current_block sp)) (\<lambda>d.
         Ok (map_option external_deadline d)))"

definition next_deadline_info ::
  "'c sp_config \<Rightarrow> block \<Rightarrow> account \<Rightarrow> nat \<Rightarrow> 'c sp_pallet \<Rightarrow> ('e, external_deadline_info option) res" where
  "next_deadline_info cfg current_block who deadline_index s =
    (case fmlookup (sps_providers s) who of
       None \<Rightarrow> Ok None
     | Some sp \<Rightarrow>
         res_bind (res_ok (res_bind (deadline_info_of (cf_wpost cfg) current_block (sp_proving_period_start sp)
           deadline_index) next_not_opened)) (\<lambda>d.
         Ok (map_option external_deadline d)))"

fun partition_states ::
  "(partition_number \<times> partition) list \<Rightarrow> (partition_number, sector_number fset) fmap
    \<Rightarrow> (general_pallet_error, (partition_number, sector_number fset) fmap option) res" where
  "partition_states [] partitions = Ok (Some partitions)"
| "partition_states ((n, p) # ps) partitions =
    res_bind (live_sectors p) (\<lambda>sectors.
    case try_insert_map MAX_PARTITIONS_PER_DEADLINE n sectors partitions of
      None \<Rightarrow> Ok None
    | Some partitions \<Rightarrow> partition_states ps partitions)"

definition deadline_state ::
  "account \<Rightarrow> nat \<Rightarrow> 'c sp_pallet \<Rightarrow> (general_pallet_error, (partition_number, sector_number fset) fmap option) res" where
  "deadline_state who deadline_index s =
    (case fmlookup (sps_providers s) who of
       None \<Rightarrow> Ok None
     | Some sp \<Rightarrow>
         if length (sp_deadlines sp) \<le> deadline_index then Ok None
         else partition_states (sorted_list_of_fmap (d_partitions (sp_deadlines sp ! deadline_index))) fmempty)"

end
