(* ===== verification/StorageProvider_Props.thy ===== *)
theory StorageProvider_Props
  imports StorageProviderPallet Deadline_Props
begin

text \<open>
  Early terminations followed from the partitions to the pallet: the blocks at
  which they are recorded, and the ones that are reported.
\<close>

section \<open>The blocks of the recorded terminations\<close>

definition recorded_in :: "block set \<Rightarrow> partition \<Rightarrow> bool" where
  "recorded_in B p \<longleftrightarrow> fset (fmdom (p_early_terminations p)) \<subseteq> B"

definition deadline_recorded_in :: "block set \<Rightarrow> deadline \<Rightarrow> bool" where
  "deadline_recorded_in B d \<longleftrightarrow> (\<forall>n p. fmlookup (d_partitions d) n = Some p \<longrightarrow> recorded_in B p)"

definition provider_recorded_in :: "block set \<Rightarrow> storage_provider_state \<Rightarrow> bool" where
  "provider_recorded_in B sp \<longleftrightarrow> (\<forall>d\<in>set (sp_deadlines sp). deadline_recorded_in B d)"

definition reported_in :: "block set \<Rightarrow> termination_result \<Rightarrow> bool" where
  "reported_in B r \<longleftrightarrow> fset (fmdom (tr_sectors r)) \<subseteq> B"

lemma load_deadline_mut_Ok_iff [ok_iff]:
  "load_deadline_mut idx f ds = (Ok a, ds') \<longleftrightarrow>
   idx < length ds \<and> (\<exists>d. f (ds ! idx) = (Ok a, d) \<and> ds' = ds[idx := d])"
  by (auto simp: load_deadline_mut_def split: prod.splits)

lemma deadlinesM_Ok_iff [ok_iff]:
  "deadlinesM f sp = (Ok a, sp') \<longleftrightarrow> (\<exists>ds. f (sp_deadlines sp) = (Ok a, ds) \<and> sp' = sp\<lparr>sp_deadlines := ds\<rparr>)"
  by (auto simp: deadlinesM_def ok_iff)

lemma provider_recorded_update:
  "provider_recorded_in B sp \<Longrightarrow> deadline_recorded_in B d \<Longrightarrow>
   provider_recorded_in B (sp\<lparr>sp_deadlines := (sp_deadlines sp)[idx := d]\<rparr>)"
  by (auto simp: provider_recorded_in_def dest!: subsetD [OF set_update_subset_insert])

lemma deadline_recorded_partition:
  "deadline_recorded_in B d \<Longrightarrow> recorded_in B p \<Longrightarrow>
   deadline_recorded_in B (d\<lparr>d_partitions := fmupd n p (d_partitions d)\<rparr>)"
  by (auto simp: deadline_recorded_in_def)

lemma deadline_recorded_frame [simp]:
  "deadline_recorded_in B (d\<lparr>d_early_terminations := E\<rparr>) = deadline_recorded_in B d"
  "deadline_recorded_in B (d\<lparr>d_live_sectors := l\<rparr>) = deadline_recorded_in B d"
  by (simp_all add: deadline_recorded_in_def)

section \<open>Recording\<close>

lemma deadline_terminate_partition_recorded:
  assumes "deadline_terminate_partition b sectors n numbers d = (Ok (), d')" "deadline_recorded_in B d" "b \<in> B"
  shows "deadline_recorded_in B d'"
proof -
  obtain p p' D where p: "fmlookup (d_partitions d) n = Some p"
    "partition_terminate_sectors b sectors numbers p = (Ok D, p')"
    and d': "d' = d\<lparr>d_partitions := fmupd n p' (d_partitions d), d_early_terminations := d_early_terminations d',
      d_live_sectors := d_live_sectors d'\<rparr>"
    using assms(1) by (auto simp: deadline_terminate_partition_def ok_iff)
  from p(2) have "p_early_terminations p' =
      fmupd b (on_time_sectors D |\<union>| early_sectors D) (p_early_terminations p)"
    by (rule partition_terminate_sectors_Ok) simp
  then have "recorded_in B p'" using assms(2,3) p(1) by (auto simp: recorded_in_def deadline_recorded_in_def)
  then have "deadline_recorded_in B (d\<lparr>d_partitions := fmupd n p' (d_partitions d)\<rparr>)"
    by (rule deadline_recorded_partition [OF assms(2)])
  then show ?thesis by (subst d') simp
qed

lemma deadline_terminate_sectors_recorded:
  assumes "deadline_terminate_sectors b sectors pm d = (Ok (), d')" "deadline_recorded_in B d" "b \<in> B"
  shows "deadline_recorded_in B d'"
  using assms(1,2) unfolding deadline_terminate_sectors_def
  by (rule forM_invariant) (use deadline_terminate_partition_recorded assms(3) in auto)

lemma terminate_deadline_recorded:
  assumes "terminate_deadline cfg now sectors x sp = (Ok (), sp')" "provider_recorded_in {now} sp"
  shows "provider_recorded_in {now} sp'"
proof -
  obtain idx d' where d': "idx < length (sp_deadlines sp)"
    "deadline_terminate_sectors now sectors (snd x) (sp_deadlines sp ! idx) = (Ok (), d')"
    "sp_deadlines sp' = (sp_deadlines sp)[idx := d']"
    using assms(1) by (cases x) (auto simp: terminate_deadline_def ok_iff)
  have "deadline_recorded_in {now} (sp_deadlines sp ! idx)"
    using assms(2) d'(1) by (auto simp: provider_recorded_in_def)
  from deadline_terminate_sectors_recorded [OF d'(2) this] have "deadline_recorded_in {now} d'" by simp
  from provider_recorded_update [OF assms(2) this, of idx] show ?thesis
    using d'(3) by (simp add: provider_recorded_in_def)
qed

section \<open>Reporting\<close>

lemma tr_merge_dom: "fmdom (tr_merge_entry (b, S) m) = finsert b (fmdom m)"
  by (auto simp: tr_merge_entry_def split: option.splits)

lemma tr_merge_all_dom: "fmdom (fold tr_merge_entry L m) = fmdom m |\<union>| fset_of_list (map fst L)"
  by (induction L arbitrary: m) (auto simp: tr_merge_dom)

lemma tr_add_assign_reported:
  assumes "tr_add_assign r r' = Ok r''" "reported_in B r" "reported_in B r'"
  shows "reported_in B r''"
proof -
  have "tr_sectors r'' = fold tr_merge_entry (sorted_list_of_fmap (tr_sectors r')) (tr_sectors r)"
    using assms(1) by (auto simp: tr_add_assign_def ok_iff)
  then show ?thesis
    using assms(2,3) by (auto simp: reported_in_def tr_merge_all_dom fset_of_list_elem)
qed

lemma pop_early_loop_step:
  assumes "pop_early_loop n ((b, S) # L) (P, R, r) = Ok res"
  obtains (stop) P' R' r' where "res = (P', R', r')" "\<forall>T c. R' = Some (T, c) \<longrightarrow> c = b \<or> R = Some (T, c)"
      "fmdom (tr_sectors r') = finsert b (fmdom (tr_sectors r))"
    | (continue) P' R' r' where "pop_early_loop n L (P', R', r') = Ok res"
      "\<forall>T c. R' = Some (T, c) \<longrightarrow> c = b \<or> R = Some (T, c)"
      "fmdom (tr_sectors r') = finsert b (fmdom (tr_sectors r))"
proof -
  obtain P' R' r' where *: "res = (P', R', r') \<or> pop_early_loop n L (P', R', r') = Ok res"
    "\<forall>T c. R' = Some (T, c) \<longrightarrow> c = b \<or> R = Some (T, c)"
    "fmdom (tr_sectors r') = finsert b (fmdom (tr_sectors r))"
    using assms by (simp add: res_bind_Ok_iff Let_def split: if_splits) fastforce+
  then show thesis using stop [OF _ *(2,3)] continue [OF _ *(2,3)] by blast
qed

lemma pop_early_loop_reported:
  assumes "pop_early_loop n L (P0, R0, r0) = Ok (P, R, r)" "fst ` set L \<subseteq> B" "reported_in B r0"
    "\<forall>T b. R0 = Some (T, b) \<longrightarrow> b \<in> B"
  shows "reported_in B r \<and> (\<forall>T b. R = Some (T, b) \<longrightarrow> b \<in> B)"
  using assms
proof (induction L arbitrary: P0 R0 r0)
  case Nil
  then show ?case by simp
next
  case (Cons e L)
  obtain b S where e: "e = (b, S)" by fastforce
  then have b: "b \<in> B" "fst ` set L \<subseteq> B" using Cons.prems(2) by auto
  from Cons.prems(1) [unfolded e] show ?case
  proof (cases rule: pop_early_loop_step)
    case (stop P' R' r')
    then show ?thesis using b Cons.prems(3,4) by (auto simp: reported_in_def)
  next
    case (continue P' R' r')
    have "reported_in B r'" "\<forall>T c. R' = Some (T, c) \<longrightarrow> c \<in> B"
      using continue(2,3) b Cons.prems(3,4) by (auto simp: reported_in_def)
    from Cons.IH [OF continue(1) b(2) this] show ?thesis .
  qed
qed

lemma partition_pop_reported:
  assumes "partition_pop_early_terminations n p = (Ok (r, left), p')" "recorded_in B p"
  shows "reported_in B r" "recorded_in B p'"
proof -
  obtain P R m where run: "pop_early_loop n (sorted_list_of_fmap (p_early_terminations p))
      ([], None, tr_new\<lparr>tr_partitions_processed := 1\<rparr>) = Ok (P, R, r)"
    "put_remaining R (p_early_terminations p) = Ok m"
    "p' = p\<lparr>p_early_terminations := fmfilter (\<lambda>b. b \<notin> set P) m\<rparr>"
    using assms(1) by (auto simp: partition_pop_early_terminations_def ok_iff Let_def)
  have B: "fst ` set (sorted_list_of_fmap (p_early_terminations p)) \<subseteq> B"
    using assms(2) by (auto simp: recorded_in_def in_set_sorted_list_of_fmap dest!: subsetD intro: fmdomI)
  from pop_early_loop_reported [OF run(1) B] have r: "reported_in B r" "\<forall>T b. R = Some (T, b) \<longrightarrow> b \<in> B"
    by (auto simp: reported_in_def tr_new_def)
  then show "reported_in B r" by simp
  have "fset (fmdom m) \<subseteq> B"
    using run(2) r(2) assms(2) by (auto simp: put_remaining_def recorded_in_def ok_iff split: option.splits)
  then show "recorded_in B p'" using run(3) by (auto simp: recorded_in_def)
qed

lemma pop_early_partitions_reported:
  assumes "pop_early_partitions mp ms ns finished r d = (Ok (finished', r'), d')"
    "deadline_recorded_in B d" "reported_in B r"
  shows "deadline_recorded_in B d' \<and> reported_in B r'"
  using assms
proof (induction ns arbitrary: finished r d)
  case Nil
  then show ?case by (auto simp: ok_iff)
next
  case (Cons n ns)
  show ?case
  proof (cases "fmlookup (d_partitions d) n")
    case None
    then show ?thesis using Cons by (auto simp: ok_iff)
  next
    case (Some p)
    obtain pr left p' r1 where run: "partition_pop_early_terminations (ms - tr_sectors_processed r) p = (Ok (pr, left), p')"
      "tr_add_assign r pr = Ok r1"
      and rest: "(let d1 = d\<lparr>d_partitions := fmupd n p' (d_partitions d)\<rparr>; fin1 = (if left then finished else finished @ [n]) in
        if \<not> tr_below_limit mp ms r1 then retM (fin1, r1) d1
        else pop_early_partitions mp ms ns fin1 r1 d1) = (Ok (finished', r'), d')"
      using Cons.prems(1) Some unfolding pop_early_partitions.simps
      by (auto simp: bindM_Ok_iff getM_Ok_iff liftM_Ok_iff modifyM_Ok_iff sub_u_Ok_iff on_local_Ok_iff expect_Ok_iff
          try_insert_map_Some_iff Let_def if_distribR)
    have p: "recorded_in B p" using Cons.prems(2) Some by (auto simp: deadline_recorded_in_def)
    note pop = partition_pop_reported [OF run(1) p]
    have d1: "deadline_recorded_in B (d\<lparr>d_partitions := fmupd n p' (d_partitions d)\<rparr>)"
      by (rule deadline_recorded_partition [OF Cons.prems(2) pop(2)])
    have r1: "reported_in B r1" by (rule tr_add_assign_reported [OF run(2) Cons.prems(3) pop(1)])
    from rest show ?thesis using Cons.IH [OF _ d1 r1] d1 r1 by (auto simp: Let_def retM_def split: if_splits)
  qed
qed

lemma deadline_pop_reported:
  assumes "deadline_pop_early_terminations mp ms d = (Ok (r, left), d')" "deadline_recorded_in B d"
  shows "reported_in B r" "deadline_recorded_in B d'"
proof -
  obtain finished d1 where d1: "pop_early_partitions mp ms (sorted_list_of_fset (d_early_terminations d)) [] tr_new d = (Ok (finished, r), d1)"
    "d' = d1\<lparr>d_early_terminations := d_early_terminations d'\<rparr>"
    using assms(1) by (auto simp: deadline_pop_early_terminations_def ok_iff)
  have "reported_in B tr_new" by (simp add: reported_in_def tr_new_def)
  note * = pop_early_partitions_reported [OF d1(1) assms(2) this]
  then show "reported_in B r" by simp
  show "deadline_recorded_in B d'" by (subst d1(2)) (use * in simp)
qed

lemma pop_early_deadlines_reported:
  assumes "pop_early_deadlines mp ms idxs to_unset r sp = (Ok (to_unset', r'), sp')"
    "provider_recorded_in B sp" "reported_in B r"
  shows "reported_in B r'"
  using assms
proof (induction idxs arbitrary: to_unset r sp)
  case Nil
  then show ?case by (auto simp: ok_iff)
next
  case (Cons i idxs)
  obtain p s dr left d' r1 where run: "i < length (sp_deadlines sp)"
    "deadline_pop_early_terminations p s (sp_deadlines sp ! i) = (Ok (dr, left), d')" "tr_add_assign r dr = Ok r1"
    and rest: "(let sp1 = sp\<lparr>sp_deadlines := (sp_deadlines sp)[i := d']\<rparr>; tu = (if left then to_unset else to_unset @ [i]) in
      if \<not> tr_below_limit mp ms r1 then retM (tu, r1) sp1
      else pop_early_deadlines mp ms idxs tu r1 sp1) = (Ok (to_unset', r'), sp')"
    using Cons.prems(1) unfolding pop_early_deadlines.simps
    by (auto simp: bindM_Ok_iff liftM_Ok_iff res_bind_Ok_iff sub_u_Ok_iff deadlinesM_Ok_iff load_deadline_mut_Ok_iff Let_def if_distribR)
  have "deadline_recorded_in B (sp_deadlines sp ! i)" using Cons.prems(2) run(1) by (auto simp: provider_recorded_in_def)
  note pop = deadline_pop_reported [OF run(2) this]
  have r1: "reported_in B r1" by (rule tr_add_assign_reported [OF run(3) Cons.prems(3) pop(1)])
  from rest show ?case
    using Cons.IH [OF _ provider_recorded_update [OF Cons.prems(2) pop(2)] r1] r1
    by (auto simp: Let_def retM_def split: if_splits)
qed

lemma sp_pop_reported:
  assumes "sp_pop_early_terminations mp ms sp = (Ok r, sp')" "provider_recorded_in B sp"
  shows "reported_in B r"
proof -
  have new: "reported_in B tr_new" by (simp add: reported_in_def tr_new_def)
  show ?thesis
  proof (cases "sp_early_terminations sp = {||}")
    case True
    then show ?thesis using assms(1) new by (auto simp: sp_pop_early_terminations_def ok_iff)
  next
    case False
    then obtain tu sp1 where "pop_early_deadlines mp ms (sorted_list_of_fset (sp_early_terminations sp)) [] tr_new sp = (Ok (tu, r), sp1)"
      using assms(1) by (auto simp: sp_pop_early_terminations_def ok_iff)
    then show ?thesis by (rule pop_early_deadlines_reported [OF _ assms(2) new])
  qed
qed

end
