(* ===== verification/StorageProvider_Frame.thy ===== *)
theory StorageProvider_Frame
  imports StorageProvider_Props Deadline_Add Assignment_Claims
begin

text \<open>
  Which sectors are in which partition: only the assignment of newly proven
  sectors changes it. Every other operation of partitions, deadlines and
  providers leaves it as it is, also when it fails half-way.
\<close>

section \<open>Partitions\<close>

lemmas partition_ops =
  record_faults_def add_faults_def remove_recoveries_def queueM_def partition_declare_faults_recovered_def
  recover_all_declared_recoveries_def partition_pop_expired_sectors_def record_early_terminations_def

lemma keeps_sectors_quiet [frame]:
  "keeps p_sectors (record_faults sectors numbers b)"
  "keeps p_sectors (partition_declare_faults_recovered numbers)"
  "keeps p_sectors (recover_all_declared_recoveries tbl)"
  "keeps p_sectors (modifyM activate_unproven)"
  "keeps p_sectors (partition_pop_expired_sectors b)"
  unfolding partition_ops by (intro frame; simp add: activate_unproven_def)+

lemma keeps_sectors_pop_early [frame]: "keeps p_sectors (partition_pop_early_terminations n)"
  unfolding partition_pop_early_terminations_def by (intro frame) simp

text \<open>Replacing the state by one that was computed from it.\<close>

lemma keeps_replace:
  assumes "\<And>s s'. g s = Ok s' \<Longrightarrow> v s' = v s" "\<And>u. keeps v (f u)"
  shows "keeps v (bindM (getM g) (\<lambda>r. bindM (liftM r) (\<lambda>s'. bindM (modifyM (\<lambda>_. s')) f)))"
  unfolding keeps_def
proof
  fix s
  show "v (snd (bindM (getM g) (\<lambda>r. bindM (liftM r) (\<lambda>s'. bindM (modifyM (\<lambda>_. s')) f)) s)) = v s"
    using assms by (cases "g s") (auto simp: monad_defs keeps_def)
qed

lemma keeps_sectors_terminate [frame]: "keeps p_sectors (partition_terminate_sectors b infos numbers)"
  unfolding partition_terminate_sectors_def queueM_def record_early_terminations_def
  by (intro keeps_replace frame; auto simp: ok_iff)

section \<open>Deadlines\<close>

definition layout :: "deadline \<Rightarrow> partition_number \<Rightarrow> sector_number fset option" where
  "layout d n = map_option p_sectors (fmlookup (d_partitions d) n)"

lemma layout_frame [simp]:
  "layout (d\<lparr>d_expirations_blocks := e\<rparr>) = layout d" "layout (d\<lparr>d_partitions_posted := S\<rparr>) = layout d"
  "layout (d\<lparr>d_early_terminations := S\<rparr>) = layout d" "layout (d\<lparr>d_live_sectors := k\<rparr>) = layout d"
  by (simp_all add: layout_def fun_eq_iff)

lemma layout_update:
  "fmlookup (d_partitions d) n = Some p \<Longrightarrow> p_sectors p' = p_sectors p \<Longrightarrow>
   layout (d\<lparr>d_partitions := fmupd n p' (d_partitions d)\<rparr>) = layout d"
  by (auto simp: layout_def fun_eq_iff)

lemma keeps_layout_at_partition [frame]: "keeps p_sectors f \<Longrightarrow> keeps layout (at_partition n f)"
  by (auto simp: keeps_def at_partition_def layout_update split: option.split prod.split)
    (metis layout_update snd_conv)

lemma keeps_layout_quiet [frame]:
  "keeps layout (deadline_record_proven tbl ns)"
  "keeps layout (deadline_record_faults tbl pm b)"
  "keeps layout (deadline_declare_faults_recovered tbl pm)"
  "keeps layout (deadline_terminate_sectors b infos pm)"
  unfolding deadline_record_proven_def record_proven_partition_def deadline_record_faults_def update_expiration_block_def
    deadline_declare_faults_recovered_def deadline_terminate_sectors_def deadline_terminate_partition_def
  by (intro frame; simp split: option.split)+

lemma keeps_layout_pop_expired_loop [frame]: "keeps layout (pop_expired_loop b ns E S T)"
  by (induction ns arbitrary: E S T) (simp_all, (intro frame; simp)+)

lemma keeps_layout_pop_expired [frame]: "keeps layout (deadline_pop_expired_sectors b)"
  unfolding deadline_pop_expired_sectors_def pop_expired_partitions_def by (intro frame) simp_all

lemma keeps_layout_pop_early_partitions [frame]: "keeps layout (pop_early_partitions mp ms ns finished r)"
proof (induction ns arbitrary: finished r)
  case Nil
  show ?case by (simp add: frame)
next
  case (Cons n ns)
  have "layout (snd (pop_early_partitions mp ms (n # ns) finished r d)) = layout d" for d
  proof (cases "fmlookup (d_partitions d) n")
    case None
    then show ?thesis using Cons by (simp add: monad_defs keeps_def)
  next
    case (Some p)
    obtain x p' where run: "partition_pop_early_terminations (ms - tr_sectors_processed r) p = (x, p')" by fastforce
    have d': "layout (d\<lparr>d_partitions := fmupd n p' (d_partitions d)\<rparr>) = layout d"
      by (rule layout_update [OF Some]) (rule keepsD [OF keeps_sectors_pop_early run])
    show ?thesis
      using Cons.IH Some run d'
      by (cases x) (auto simp: monad_defs keeps_def sub_u_def try_insert_map_def Let_def split: res.split prod.split)
  qed
  then show ?case by (simp add: keeps_def)
qed

lemma keeps_layout_pop_early [frame]: "keeps layout (deadline_pop_early_terminations mp ms)"
  unfolding deadline_pop_early_terminations_def by (intro frame) simp

section \<open>Providers\<close>

text \<open>The sectors of a provider, committed and active, and where they are proven.\<close>

definition sector_book ::
  "storage_provider_state \<Rightarrow> (partition_number \<Rightarrow> sector_number fset option) list \<times> sector_table \<times>
    (sector_number, sector_pre_commit_on_chain_info) fmap \<times> balance" where
  "sector_book sp = (map layout (sp_deadlines sp), sp_sectors sp, sp_pre_committed_sectors sp, sp_pre_commit_deposits sp)"

lemma sector_book_frame [simp]:
  "sector_book (sp\<lparr>sp_early_terminations := E\<rparr>) = sector_book sp"
  "sector_book (sp\<lparr>sp_current_deadline := k\<rparr>) = sector_book sp"
  "sector_book (sp\<lparr>sp_proving_period_start := b\<rparr>) = sector_book sp"
  by (simp_all add: sector_book_def)

lemma keeps_load_deadline [frame]: "keeps layout f \<Longrightarrow> keeps (map layout) (load_deadline_mut idx f)"
  by (auto simp: keeps_def load_deadline_mut_def map_update list_update_same_conv split: prod.split)
    (metis list_update_id map_update nth_map snd_conv)

lemma keeps_deadlinesM [frame]: "keeps (map layout) f \<Longrightarrow> keeps sector_book (deadlinesM f)"
  by (auto simp: keeps_def deadlinesM_def zoomM_def sector_book_def split: prod.split) (metis snd_conv)

lemma keeps_book_quiet [frame]:
  "keeps sector_book (terminate_deadline cfg now infos x)"
  "keeps sector_book (declare_faults_deadline cfg now x)"
  "keeps sector_book (declare_recoveries_deadline cfg now x)"
  "keeps sector_book (deadlinesM (deadlines_record_proven idx tbl ns))"
  "keeps sector_book (advance_deadline wp now)"
  unfolding terminate_deadline_def declare_faults_deadline_def declare_recoveries_deadline_def
    deadlines_record_proven_def advance_deadline_def
  by (intro frame; simp)+

lemma keeps_book_pop_early_deadlines [frame]: "keeps sector_book (pop_early_deadlines mp ms idxs tu r)"
  by (induction idxs arbitrary: tu r) (simp_all, (intro frame; simp)+)

lemma keeps_book_pop_early [frame]: "keeps sector_book (sp_pop_early_terminations mp ms)"
  unfolding sp_pop_early_terminations_def by (intro frame) simp

end
