(* ===== verification/StorageProvider_Inv.thy ===== *)
theory StorageProvider_Inv
  imports StorageProvider_Frame
begin

text \<open>
  The books of a provider: every active sector is in exactly one partition of
  its deadlines, no sector is both committed and active, and the recorded
  deposits cover the sectors that are committed.
\<close>

section \<open>Counting the homes of a sector\<close>

definition homes_in :: "sector_number \<Rightarrow> partitions \<Rightarrow> nat" where
  "homes_in s m = count_over (\<lambda>p. of_bool (s |\<in>| p_sectors p)) m"

definition homes :: "sector_number \<Rightarrow> deadline list \<Rightarrow> nat" where
  "homes s ds = (\<Sum>d\<leftarrow>ds. homes_in s (d_partitions d))"

lemma homes_in_layout:
  assumes "layout d' = layout d"
  shows "homes_in s (d_partitions d') = homes_in s (d_partitions d)"
proof -
  have l: "map_option p_sectors (fmlookup (d_partitions d') n) = map_option p_sectors (fmlookup (d_partitions d) n)" for n
    using fun_cong [OF assms, of n] by (simp add: layout_def)
  then have "fmlookup (d_partitions d') n = None \<longleftrightarrow> fmlookup (d_partitions d) n = None" for n
    by (metis map_option_is_None)
  then have dom: "fmdom (d_partitions d') = fmdom (d_partitions d)"
    by (intro fset_eqI) (metis fmdom_notD fmdom_notI)
  show ?thesis unfolding homes_in_def count_over_def dom
  proof (rule sum.cong [OF refl])
    fix n assume "n \<in> fset (fmdom (d_partitions d))"
    then have "n |\<in>| fmdom (d_partitions d')" "n |\<in>| fmdom (d_partitions d)" using dom by auto
    then show "of_bool (s |\<in>| p_sectors (the (fmlookup (d_partitions d') n))) =
        of_bool (s |\<in>| p_sectors (the (fmlookup (d_partitions d) n)))"
      using l [of n] by (auto simp: fmlookup_dom_iff)
  qed
qed

lemma homes_layout:
  assumes "map layout ds' = map layout ds"
  shows "homes s ds' = homes s ds"
proof -
  have len: "length ds' = length ds" using assms by (metis length_map)
  have "homes_in s (d_partitions (ds' ! i)) = homes_in s (d_partitions (ds ! i))" if "i < length ds" for i
    using assms len that by (metis homes_in_layout nth_map)
  then show ?thesis unfolding homes_def using len by (intro arg_cong [of _ _ sum_list] nth_equalityI) auto
qed

lemma homes_update:
  assumes "i < length ds" "homes_in s (d_partitions d') = homes_in s (d_partitions (ds ! i)) + k"
  shows "homes s (ds[i := d']) = homes s ds + k"
proof -
  have "map (\<lambda>d. homes_in s (d_partitions d)) (ds[i := d']) =
      (map (\<lambda>d. homes_in s (d_partitions d)) ds)[i := homes_in s (d_partitions (ds ! i)) + k]"
    using assms(2) by (simp add: map_update)
  moreover have "homes_in s (d_partitions (ds ! i)) \<le> sum_list (map (\<lambda>d. homes_in s (d_partitions d)) ds)"
    using assms(1) by (metis elem_le_sum_list length_map nth_map)
  ultimately show ?thesis using assms(1) by (simp add: homes_def sum_list_update)
qed

section \<open>Placing sectors\<close>

text \<open>Partitions are kept, and keep their sectors.\<close>

definition partitions_grow :: "partitions \<Rightarrow> partitions \<Rightarrow> bool" where
  "partitions_grow m m' \<longleftrightarrow>
    (\<forall>n p. fmlookup m n = Some p \<longrightarrow> (\<exists>p'. fmlookup m' n = Some p' \<and> p_sectors p |\<subseteq>| p_sectors p'))"

lemma partitions_grow_refl [simp]: "partitions_grow m m"
  by (auto simp: partitions_grow_def)

lemma partitions_grow_trans: "partitions_grow m m' \<Longrightarrow> partitions_grow m' m'' \<Longrightarrow> partitions_grow m m''"
  unfolding partitions_grow_def by (meson order_trans)

lemma homes_in_fmupd:
  assumes "of_bool (s |\<in>| p_sectors p') = of_bool (s |\<in>| p_sectors (entry_or_new m n)) + k"
  shows "homes_in s (fmupd n p' m) = homes_in s m + k"
proof (cases "fmlookup m n")
  case None
  then have "of_bool (s |\<in>| p_sectors p') = k" using assms by (simp add: entry_or_new_def)
  then show ?thesis using count_over_fmupd_new [OF None] by (simp add: homes_in_def)
next
  case (Some p)
  then have "of_bool (s |\<in>| p_sectors p') = of_bool (s |\<in>| p_sectors p) + k" using assms by (simp add: entry_or_new_def)
  then show ?thesis using count_over_fmupd [OF Some, of "\<lambda>p. of_bool (s |\<in>| p_sectors p)" p'] by (simp add: homes_in_def)
qed

lemma partitions_grow_fmupd:
  "p_sectors (entry_or_new m n) |\<subseteq>| p_sectors p' \<Longrightarrow> partitions_grow m (fmupd n p' m)"
  by (auto simp: partitions_grow_def entry_or_new_def)

abbreviation times_in :: "sector_on_chain_info list \<Rightarrow> sector_number \<Rightarrow> nat" where
  "times_in infos s \<equiv> count_list (map si_sector_number infos) s"

lemma count_list_distinct: "distinct xs \<Longrightarrow> count_list xs x = of_bool (x \<in> set xs)"
  by (induction xs) auto

lemma place_in_partition:
  assumes "partition_add_sectors infos (entry_or_new m n) = (Ok u, p')"
  shows "partitions_grow m (fmupd n p' m)" "homes_in s (fmupd n p' m) = homes_in s m + times_in infos s"
proof -
  let ?p = "entry_or_new m n"
  obtain q where d: "distinct (map si_sector_number infos)" "si_sector_number ` set infos \<inter> fset (p_sectors ?p) = {}"
    and p': "p_sectors p' = p_sectors ?p |\<union>| numbers_of infos"
    using assms by (rule partition_add_sectors_Ok) simp
  show "partitions_grow m (fmupd n p' m)" by (rule partitions_grow_fmupd) (simp add: p')
  have "times_in infos s = of_bool (s |\<in>| numbers_of infos)"
    using count_list_distinct [OF d(1), of s] by (simp add: fset_of_list.rep_eq)
  moreover have "s |\<notin>| numbers_of infos \<or> s |\<notin>| p_sectors ?p" using d(2) fset_numbers_of [of infos] by auto
  ultimately show "homes_in s (fmupd n p' m) = homes_in s m + times_in infos s"
    using p' by (intro homes_in_fmupd) auto
qed

lemma fmupd_twice [simp]: "fmupd k a (fmupd k b m) = fmupd k a m"
  by (intro fmap_ext) simp

lemma fill_partitions_places:
  assumes "fill_partitions fuel psize idx infos m us = Ok (m', us')"
  shows "partitions_grow m m' \<and> homes_in s m' = homes_in s m + times_in infos s"
  using assms
proof (induction fuel arbitrary: idx infos m us)
  case (Suc fuel)
  let ?p = "entry_or_new m idx"
  show ?case
  proof (cases "psize \<le> fcard (p_sectors ?p)")
    case True
    have "homes_in s (fmupd idx ?p m) = homes_in s m" using homes_in_fmupd [of s ?p m idx 0] by simp
    moreover have "partitions_grow m (fmupd idx ?p m)" by (rule partitions_grow_fmupd) simp
    ultimately show ?thesis
      using Suc.IH [OF Suc.prems [unfolded fill_partitions_full [OF True]]] partitions_grow_trans by auto
  next
    case False
    define k where "k = min (psize - fcard (p_sectors ?p)) (length infos)"
    have room: "fcard (p_sectors ?p) < psize" using False by simp
    obtain u p' where add: "partition_add_sectors (take k infos) ?p = (Ok u, p')"
      and rest: "drop k infos = [] \<and> m' = fmupd idx p' m \<or>
        (\<exists>us. fill_partitions fuel psize idx (drop k infos) (fmupd idx p' m) us = Ok (m', us'))"
      using Suc.prems [unfolded fill_partitions_room [OF room k_def]] by (auto simp: ok_iff split: if_splits)
    note place = place_in_partition [OF add]
    have split: "times_in infos s = times_in (take k infos) s + times_in (drop k infos) s"
      by (metis append_take_drop_id count_list_append map_append)
    from rest show ?thesis
    proof
      assume "drop k infos = [] \<and> m' = fmupd idx p' m"
      then show ?thesis using place split by simp
    next
      assume "\<exists>us. fill_partitions fuel psize idx (drop k infos) (fmupd idx p' m) us = Ok (m', us')"
      then obtain us1 where "fill_partitions fuel psize idx (drop k infos) (fmupd idx p' m) us1 = Ok (m', us')" by blast
      from Suc.IH [OF this] show ?thesis using place split partitions_grow_trans by auto
    qed
  qed
qed simp

lemma deadline_add_sectors_places:
  assumes "deadline_add_sectors psize infos d = (Ok u, d')"
  shows "partitions_grow (d_partitions d) (d_partitions d')"
    "homes_in s (d_partitions d') = homes_in s (d_partitions d) + times_in infos s"
proof -
  have "partitions_grow (d_partitions d) (d_partitions d') \<and>
      homes_in s (d_partitions d') = homes_in s (d_partitions d) + times_in infos s"
  proof (cases "infos = []")
    case True
    then have "d' = d" using assms by (simp add: deadline_add_sectors_def ok_iff)
    then show ?thesis using True by simp
  next
    case False
    obtain us where "fill_partitions (add_sectors_fuel infos (d_partitions d)) psize
        (fcard (fmdom (d_partitions d)) - 1) infos (d_partitions d) [] = Ok (d_partitions d', us)"
      using assms False by (rule deadline_add_sectors_Ok)
    then show ?thesis by (rule fill_partitions_places)
  qed
  then show "partitions_grow (d_partitions d) (d_partitions d')"
    "homes_in s (d_partitions d') = homes_in s (d_partitions d) + times_in infos s" by auto
qed

section \<open>Assigning the sectors of a provider\<close>

definition deadlines_grow :: "deadline list \<Rightarrow> deadline list \<Rightarrow> bool" where
  "deadlines_grow ds ds' \<longleftrightarrow> length ds' = length ds \<and>
    (\<forall>i<length ds. partitions_grow (d_partitions (ds ! i)) (d_partitions (ds' ! i)))"

lemma deadlines_grow_refl [simp]: "deadlines_grow ds ds"
  by (simp add: deadlines_grow_def)

lemma deadlines_grow_trans: "deadlines_grow a b \<Longrightarrow> deadlines_grow b c \<Longrightarrow> deadlines_grow a c"
  by (auto simp: deadlines_grow_def intro: partitions_grow_trans)

lemma deadlines_grow_update:
  "partitions_grow (d_partitions (ds ! i)) (d_partitions d') \<Longrightarrow> deadlines_grow ds (ds[i := d'])"
  unfolding deadlines_grow_def by (auto simp: nth_list_update_eq) (metis nth_list_update nth_list_update_neq partitions_grow_refl)

lemma partitions_grow_layout:
  assumes "layout d' = layout d"
  shows "partitions_grow (d_partitions d) (d_partitions d')"
proof -
  have "map_option p_sectors (fmlookup (d_partitions d') n) = map_option p_sectors (fmlookup (d_partitions d) n)" for n
    using fun_cong [OF assms, of n] by (simp add: layout_def)
  then show ?thesis unfolding partitions_grow_def by (metis order_refl map_option_eq_Some option.sel)
qed

lemma deadlines_grow_layout:
  assumes "map layout ds' = map layout ds"
  shows "deadlines_grow ds ds'"
proof -
  have "length ds' = length ds" using assms by (metis length_map)
  moreover from this have "layout (ds' ! i) = layout (ds ! i)" if "i < length ds" for i
    using assms that by (metis nth_map)
  ultimately show ?thesis by (simp add: deadlines_grow_def partitions_grow_layout)
qed

text \<open>The deadlines that are offered are the ones of the provider.\<close>

lemma open_deadlines_entries:
  assumes "open_deadlines cfg start now idx ds vec = Ok vec'" "\<forall>i d. i < length vec \<and> vec ! i = Some d \<longrightarrow> i < idx \<and> P i d"
    "\<forall>i<length ds. P (idx + i) (ds ! i)"
  shows "length vec' = length vec \<and> (\<forall>i d. i < length vec' \<and> vec' ! i = Some d \<longrightarrow> i < idx + length ds \<and> P i d)"
  using assms
proof (induction ds arbitrary: idx vec)
  case Nil
  then show ?case by auto
next
  case (Cons d ds)
  obtain v where v: "open_deadlines cfg start now (idx + 1) ds v = Ok vec'" "v = vec \<or> v = vec[idx := Some d]"
    using Cons.prems(1) by (auto simp: ok_iff split: if_splits)
  have "\<forall>i e. i < length v \<and> v ! i = Some e \<longrightarrow> i < idx + 1 \<and> P i e"
  proof (intro allI impI)
    fix i e assume "i < length v \<and> v ! i = Some e"
    then show "i < idx + 1 \<and> P i e"
      using v(2) Cons.prems(2) [rule_format, of i e] Cons.prems(3) [rule_format, of 0] by (cases "i = idx") auto
  qed
  moreover have "\<forall>i<length ds. P (idx + 1 + i) (ds ! i)" using Cons.prems(3) by auto
  ultimately show ?case using Cons.IH [OF v(1)] v(2) by auto
qed

lemma add_to_deadline_places:
  assumes "add_to_deadline psize vec idx infos sp = (Ok u, sp')"
    and "\<forall>d. idx < length vec \<and> vec ! idx = Some d \<longrightarrow> d = sp_deadlines sp ! idx"
  shows "\<exists>ds. sp' = sp\<lparr>sp_deadlines := ds\<rparr> \<and> deadlines_grow (sp_deadlines sp) ds \<and>
    (\<forall>j. j \<noteq> idx \<longrightarrow> ds ! j = sp_deadlines sp ! j) \<and> (\<forall>s. homes s ds = homes s (sp_deadlines sp) + times_in infos s)"
proof (cases "infos = []")
  case True
  then show ?thesis using assms(1) by (intro exI [of _ "sp_deadlines sp"]) (simp add: add_to_deadline_def ok_iff)
next
  case False
  then obtain d d' where d: "idx < length vec" "vec ! idx = Some d" "deadline_add_sectors psize infos d = (Ok (), d')"
    "idx < length (sp_deadlines sp)" "sp' = sp\<lparr>sp_deadlines := (sp_deadlines sp)[idx := d']\<rparr>"
    using assms(1) by (auto simp: add_to_deadline_def ok_iff split: if_splits)
  then have "d = sp_deadlines sp ! idx" using assms(2) by blast
  then have places: "partitions_grow (d_partitions (sp_deadlines sp ! idx)) (d_partitions d')"
    "homes_in s (d_partitions d') = homes_in s (d_partitions (sp_deadlines sp ! idx)) + times_in infos s" for s
    using deadline_add_sectors_places [OF d(3)] by simp_all
  show ?thesis
    using d(5) deadlines_grow_update [OF places(1)] homes_update [OF d(4) places(2)]
    by (intro exI [of _ "(sp_deadlines sp)[idx := d']"]) auto
qed

lemma add_all_places:
  assumes "forM zs (\<lambda>(i, infos). add_to_deadline psize vec i infos) sp = (Ok u, sp')" "distinct (map fst zs)"
    and "\<forall>i d. i \<in> fst ` set zs \<and> i < length vec \<and> vec ! i = Some d \<longrightarrow> d = sp_deadlines sp ! i"
  shows "\<exists>ds. sp' = sp\<lparr>sp_deadlines := ds\<rparr> \<and> deadlines_grow (sp_deadlines sp) ds \<and>
    (\<forall>s. homes s ds = homes s (sp_deadlines sp) + times_in (concat (map snd zs)) s)"
  using assms
proof (induction zs arbitrary: sp)
  case Nil
  then show ?case by (intro exI [of _ "sp_deadlines sp"]) (simp add: ok_iff)
next
  case (Cons z zs)
  obtain i infos where z: "z = (i, infos)" by fastforce
  from Cons.prems(1) obtain sp1 where run: "add_to_deadline psize vec i infos sp = (Ok (), sp1)"
    "forM zs (\<lambda>(i, infos). add_to_deadline psize vec i infos) sp1 = (Ok u, sp')" by (auto simp: z ok_iff)
  obtain ds1 where ds1: "sp1 = sp\<lparr>sp_deadlines := ds1\<rparr>" "deadlines_grow (sp_deadlines sp) ds1"
    "\<forall>j. j \<noteq> i \<longrightarrow> ds1 ! j = sp_deadlines sp ! j" "\<forall>s. homes s ds1 = homes s (sp_deadlines sp) + times_in infos s"
    using add_to_deadline_places [OF run(1)] Cons.prems(3) by (auto simp: z)
  have "\<forall>j d. j \<in> fst ` set zs \<and> j < length vec \<and> vec ! j = Some d \<longrightarrow> d = sp_deadlines sp1 ! j"
    using Cons.prems(2,3) ds1(1,3) by (auto simp: z image_iff) (metis fst_conv)
  from Cons.IH [OF run(2) _ this] Cons.prems(2) obtain ds where ds: "sp' = sp1\<lparr>sp_deadlines := ds\<rparr>"
    "deadlines_grow ds1 ds" "\<forall>s. homes s ds = homes s ds1 + times_in (concat (map snd zs)) s"
    using ds1(1) by (auto simp: z)
  then show ?case
    using ds1 deadlines_grow_trans [OF ds1(2) ds(2)] by (intro exI [of _ ds]) (simp add: z)
qed

lemma times_in_mset: "mset a = mset b \<Longrightarrow> times_in a s = times_in b s"
  by (metis count_mset mset_map)

lemma assign_sectors_places:
  assumes "assign_sectors_to_deadlines cfg now infos psize mp sp = (Ok u, sp')"
  obtains ds where "sp' = sp\<lparr>sp_deadlines := ds\<rparr>" "deadlines_grow (sp_deadlines sp) ds"
    "\<forall>s. homes s ds = homes s (sp_deadlines sp) + times_in infos s"
proof -
  obtain vec out where run: "open_deadlines cfg (sp_proving_period_start sp) now 0 (sp_deadlines sp)
      (replicate (wp_period_deadlines cfg) None) = Ok vec"
    "assign_deadlines mp psize vec (sort_key si_sector_number infos) (wp_period_deadlines cfg) = Ok out"
    "forM (zip [0..<length out] out) (\<lambda>(i, infos). add_to_deadline psize vec i infos) sp = (Ok u, sp')"
    using assms by (auto simp: assign_sectors_to_deadlines_def ok_iff Let_def)
  have "\<forall>i d. i < length vec \<and> vec ! i = Some d \<longrightarrow> d = sp_deadlines sp ! i"
    using open_deadlines_entries [OF run(1), of "\<lambda>i d. d = sp_deadlines sp ! i"] by auto
  moreover have "mset (concat out) = mset (sort_key si_sector_number infos)"
    using run(2) by (rule assign_deadlines_Ok)
  then have "mset (concat (map snd (zip [0..<length out] out))) = mset infos" by simp
  ultimately show thesis
    using add_all_places [OF run(3)] that times_in_mset by (metis (no_types, lifting) distinct_upt length_upt map_fst_zip minus_nat.diff_0)
qed

end
