(* ===== verification/StorageProviderPallet_Inv.thy ===== *)
theory StorageProviderPallet_Inv
  imports StorageProvider_Inv Market_Props
begin

text \<open>
  The storage-provider pallet as a transition system: its extrinsics, its hook
  and the changes that other pallets make to the market. In every reachable
  state the books of every provider are in order, and no step takes a sector
  away from the partition it is proven in.
\<close>

section \<open>Books\<close>

definition provider_ok :: "nat \<Rightarrow> storage_provider_state \<Rightarrow> bool" where
  "provider_ok k sp \<longleftrightarrow>
    length (sp_deadlines sp) = min k 48 \<and>
    (\<forall>s. homes s (sp_deadlines sp) = of_bool (s |\<in>| fmdom (sp_sectors sp))) \<and>
    fmdom (sp_pre_committed_sectors sp) |\<inter>| fmdom (sp_sectors sp) = {||} \<and>
    (\<forall>n x. fmlookup (sp_pre_committed_sectors sp) n = Some x \<longrightarrow> pc_sector_number (poc_info x) = n) \<and>
    count_over poc_pre_commit_deposit (sp_pre_committed_sectors sp) \<le> sp_pre_commit_deposits sp"

definition provider_grows :: "storage_provider_state \<Rightarrow> storage_provider_state \<Rightarrow> bool" where
  "provider_grows sp sp' \<longleftrightarrow>
    deadlines_grow (sp_deadlines sp) (sp_deadlines sp') \<and> fmdom (sp_sectors sp) |\<subseteq>| fmdom (sp_sectors sp')"

lemma provider_grows_trans: "provider_grows a b \<Longrightarrow> provider_grows b c \<Longrightarrow> provider_grows a c"
  unfolding provider_grows_def using deadlines_grow_trans by blast

lemma same_book:
  assumes "sector_book sp' = sector_book sp"
  shows "provider_ok k sp' = provider_ok k sp" "provider_grows sp sp'"
proof -
  have l: "map layout (sp_deadlines sp') = map layout (sp_deadlines sp)"
    and eq: "sp_sectors sp' = sp_sectors sp" "sp_pre_committed_sectors sp' = sp_pre_committed_sectors sp"
    "sp_pre_commit_deposits sp' = sp_pre_commit_deposits sp"
    using assms by (simp_all add: sector_book_def)
  have "length (sp_deadlines sp') = length (sp_deadlines sp)" using l by (metis length_map)
  then show "provider_ok k sp' = provider_ok k sp" using homes_layout [OF l] eq by (simp add: provider_ok_def)
  show "provider_grows sp sp'" using deadlines_grow_layout [OF l] eq by (simp add: provider_grows_def)
qed

definition books :: "'c sp_pallet \<Rightarrow> account \<Rightarrow> _" where
  "books s a = map_option sector_book (fmlookup (sps_providers s) a)"

text \<open>What every step of the pallet respects.\<close>

definition orderly :: "nat \<Rightarrow> 'c sp_pallet \<Rightarrow> 'c sp_pallet \<Rightarrow> bool" where
  "orderly k s s' \<longleftrightarrow> (\<forall>a.
    (\<forall>sp. fmlookup (sps_providers s) a = Some sp \<longrightarrow>
      (\<exists>sp'. fmlookup (sps_providers s') a = Some sp' \<and> (provider_ok k sp \<longrightarrow> provider_ok k sp') \<and> provider_grows sp sp')) \<and>
    (fmlookup (sps_providers s) a = None \<longrightarrow>
      (\<forall>sp'. fmlookup (sps_providers s') a = Some sp' \<longrightarrow> provider_ok k sp')))"

lemma orderly_trans:
  assumes "orderly k s t" "orderly k t u"
  shows "orderly k s u"
  unfolding orderly_def
proof (intro allI conjI impI)
  fix a sp assume "fmlookup (sps_providers s) a = Some sp"
  then obtain sp' where sp': "fmlookup (sps_providers t) a = Some sp'" "provider_ok k sp \<longrightarrow> provider_ok k sp'"
    "provider_grows sp sp'" using assms(1) unfolding orderly_def by blast
  moreover from sp'(1) obtain sp'' where "fmlookup (sps_providers u) a = Some sp''"
    "provider_ok k sp' \<longrightarrow> provider_ok k sp''" "provider_grows sp' sp''"
    using assms(2) unfolding orderly_def by blast
  ultimately show "\<exists>sp''. fmlookup (sps_providers u) a = Some sp'' \<and> (provider_ok k sp \<longrightarrow> provider_ok k sp'') \<and> provider_grows sp sp''"
    using provider_grows_trans by blast
next
  fix a sp' assume a: "fmlookup (sps_providers s) a = None" "fmlookup (sps_providers u) a = Some sp'"
  show "provider_ok k sp'"
  proof (cases "fmlookup (sps_providers t) a")
    case None
    then show ?thesis using a(2) assms(2) unfolding orderly_def by blast
  next
    case (Some sp)
    then have "provider_ok k sp" using a(1) assms(1) unfolding orderly_def by blast
    then show ?thesis using Some a(2) assms(2) unfolding orderly_def by force
  qed
qed

lemma orderly_books:
  assumes "books s' = books s"
  shows "orderly k s s'"
proof -
  have b: "map_option sector_book (fmlookup (sps_providers s') a) = map_option sector_book (fmlookup (sps_providers s) a)" for a
    using fun_cong [OF assms, of a] by (simp add: books_def)
  show ?thesis unfolding orderly_def
  proof (intro allI conjI impI)
    fix a sp assume "fmlookup (sps_providers s) a = Some sp"
    then obtain sp' where "fmlookup (sps_providers s') a = Some sp'" "sector_book sp' = sector_book sp"
      using b [of a] by auto
    then show "\<exists>sp'. fmlookup (sps_providers s') a = Some sp' \<and> (provider_ok k sp \<longrightarrow> provider_ok k sp') \<and> provider_grows sp sp'"
      using same_book by blast
  next
    fix a sp' assume "fmlookup (sps_providers s) a = None" "fmlookup (sps_providers s') a = Some sp'"
    then show "provider_ok k sp'" using b [of a] by simp
  qed
qed

lemma orderly_update:
  assumes "fmlookup (sps_providers s) a = Some sp" "sps_providers s' = fmupd a sp' (sps_providers s)"
    "provider_ok k sp \<Longrightarrow> provider_ok k sp'" "provider_grows sp sp'"
  shows "orderly k s s'"
  using assms same_book [OF refl] unfolding orderly_def by auto

section \<open>Steps that leave the books alone\<close>

lemma books_frame [simp]:
  "books (s\<lparr>sps_events := E\<rparr>) = books s" "books (s\<lparr>sps_market := m\<rparr>) = books s"
  by (simp_all add: books_def fun_eq_iff)

lemma books_update:
  "fmlookup (sps_providers s) a = Some sp \<Longrightarrow> sector_book sp' = sector_book sp \<Longrightarrow>
   books (s\<lparr>sps_providers := fmupd a sp' (sps_providers s)\<rparr>) = books s"
  by (auto simp: books_def fun_eq_iff)

lemma keeps_books_leaf [frame]:
  "keeps books (sp_deposit_event e)" "keeps books (marketM f)" "keeps books (get_provider a)" "keeps books (localM g sp)"
  unfolding sp_deposit_event_def marketM_def get_provider_def localM_def by (intro frame; simp)+

lemma keeps_books_slash [frame]: "keeps books (sp_slash_and_burn cfg who amount)"
  unfolding sp_slash_and_burn_def Let_def by (intro frame; simp)

lemma keeps_providers_slash [frame]: "keeps sps_providers (sp_slash_and_burn cfg who amount)"
  unfolding sp_slash_and_burn_def Let_def by (intro frame; simp)

text \<open>A provider is loaded, and stored again with the same books.\<close>

lemma keeps_books_restore:
  assumes "\<And>sp s s' r. fmlookup (sps_providers s) a = Some sp \<Longrightarrow> f sp s = (r, s') \<Longrightarrow> books s' = books s"
  shows "keeps books (bindM (get_provider a) f)"
  unfolding keeps_def
proof
  fix s
  show "books (snd (bindM (get_provider a) f s)) = books s"
    using assms by (cases "fmlookup (sps_providers s) a") (auto simp: get_provider_def monad_defs, metis prod.collapse)
qed

lemma process_early_books [frame]: "keeps books (process_early_terminations cfg now owner)"
  unfolding process_early_terminations_def
proof (rule keeps_books_restore)
  fix sp s s' r
  let ?rest = "\<lambda>(result, state).
    if tr_is_empty result then retM ()
    else let numbers = terminated_before now result in
      bindM (liftM (if length numbers \<le> MAX_DEALS_PER_SECTOR then Ok () else Panic)) (\<lambda>_.
      bindM (map_errM (\<lambda>_. sperr CouldNotTerminateDeals) (marketM (on_sectors_terminate (cf_market cfg) now owner numbers))) (\<lambda>_.
      set_provider owner state))"
  assume sp: "fmlookup (sps_providers s) owner = Some sp"
    and run: "bindM (localM (sp_pop_early_terminations (cf_addressed_partitions_max cfg) (cf_addressed_sectors_max cfg)) sp) ?rest s = (r, s')"
  obtain x sp' where pop: "sp_pop_early_terminations (cf_addressed_partitions_max cfg) (cf_addressed_sectors_max cfg) sp = (x, sp')"
    by fastforce
  then have book: "sector_book sp' = sector_book sp" by (rule keepsD [OF keeps_book_pop_early])
  have put: "books (snd (set_provider owner sp' (s\<lparr>sps_market := m\<rparr>))) = books s" for m
    using books_update [OF _ book, of "s\<lparr>sps_market := m\<rparr>" owner] sp by (simp add: set_provider_def modifyM_def)
  show "books s' = books s"
    using run pop put
    by (cases x) (auto simp: localM_def monad_defs marketM_def Let_def split: if_splits prod.splits res.splits,
        metis snd_conv)
qed

lemma pallet_ops_Ok_iff [ok_iff]:
  "get_provider a s = (Ok sp, t) \<longleftrightarrow> fmlookup (sps_providers s) a = Some sp \<and> t = s"
  "set_provider a sp s = (Ok u, t) \<longleftrightarrow> t = s\<lparr>sps_providers := fmupd a sp (sps_providers s)\<rparr>"
  "localM f sp s = (Ok (x, sp'), t) \<longleftrightarrow> f sp = (Ok x, sp') \<and> t = s"
  "sp_deposit_event e s = (Ok u, t) \<longleftrightarrow> t = s\<lparr>sps_events := sps_events s @ [e]\<rparr>"
  by (auto simp: get_provider_def set_provider_def localM_def sp_deposit_event_def ok_iff)

lemma submit_windowed_post_books:
  assumes "submit_windowed_post cfg now owner post s = (Ok (), s')"
  shows "books s' = books s"
proof -
  obtain sp sp' where sp: "fmlookup (sps_providers s) owner = Some sp"
    "deadlinesM (deadlines_record_proven (swp_deadline post) (sp_sectors sp) (swp_partitions post)) sp = (Ok (), sp')"
    "s' = s\<lparr>sps_providers := fmupd owner sp' (sps_providers s), sps_events := sps_events s @ [ValidPoStSubmitted owner]\<rparr>"
    using assms unfolding submit_windowed_post_def submit_windowed_post_body_def transactional_Ok_iff
    by (auto simp: bindM_Ok_iff liftM_Ok_iff pallet_ops_Ok_iff)
  show ?thesis using books_update [OF sp(1) keepsD [OF keeps_book_quiet(4) sp(2)]] by (simp add: sp(3))
qed

lemma declarations_books:
  assumes "fmlookup (sps_providers s) owner = Some sp" "forM xs f sp = (Ok (), sp')" "\<And>x. keeps sector_book (f x)"
  shows "books (s\<lparr>sps_providers := fmupd owner sp' (sps_providers s)\<rparr>) = books s"
  using assms(1) by (rule books_update) (rule keepsD [OF keeps_forM [OF assms(3)] assms(2)])

lemma declare_faults_books:
  assumes "declare_faults cfg now owner faults s = (Ok (), s')"
  shows "books s' = books s"
proof -
  obtain sp sp' m where sp: "fmlookup (sps_providers s) owner = Some sp"
    "forM (sorted_list_of_fmap m) (declare_faults_deadline cfg now) sp = (Ok (), sp')"
    "s' = s\<lparr>sps_providers := fmupd owner sp' (sps_providers s), sps_events := sps_events s @ [FaultsDeclared owner faults]\<rparr>"
    using assms unfolding declare_faults_def declare_faults_body_def transactional_Ok_iff
    by (auto simp: bindM_Ok_iff liftM_Ok_iff pallet_ops_Ok_iff on_local_Ok_iff)
  show ?thesis using declarations_books [OF sp(1,2) keeps_book_quiet(2)] by (simp add: sp(3))
qed

lemma declare_faults_recovered_books:
  assumes "declare_faults_recovered cfg now owner recoveries s = (Ok (), s')"
  shows "books s' = books s"
proof -
  obtain sp sp' m where sp: "fmlookup (sps_providers s) owner = Some sp"
    "forM (sorted_list_of_fmap m) (declare_recoveries_deadline cfg now) sp = (Ok (), sp')"
    "s' = s\<lparr>sps_providers := fmupd owner sp' (sps_providers s), sps_events := sps_events s @ [FaultsRecovered owner recoveries]\<rparr>"
    using assms unfolding declare_faults_recovered_def declare_faults_recovered_body_def transactional_Ok_iff
    by (auto simp: bindM_Ok_iff liftM_Ok_iff pallet_ops_Ok_iff on_local_Ok_iff)
  show ?thesis using declarations_books [OF sp(1,2) keeps_book_quiet(3)] by (simp add: sp(3))
qed

lemma terminate_sectors_Ok:
  assumes "terminate_sectors cfg now owner terms s = (Ok (), s')"
  obtains sp sp' m s1 where "fmlookup (sps_providers s) owner = Some sp"
    "forM (sorted_list_of_fmap m) (terminate_deadline cfg now (map snd (sorted_list_of_fmap (sp_sectors sp)))) sp = (Ok (), sp')"
    "process_early_terminations cfg now owner (s\<lparr>sps_providers := fmupd owner sp' (sps_providers s)\<rparr>) = (Ok (), s1)"
    "s' = s1\<lparr>sps_events := sps_events s1 @ [SectorsTerminated owner terms]\<rparr>"
  using assms unfolding terminate_sectors_def terminate_sectors_body_def transactional_Ok_iff Let_def
  by (auto simp: bindM_Ok_iff liftM_Ok_iff pallet_ops_Ok_iff on_local_Ok_iff)

lemma terminate_sectors_books:
  assumes "terminate_sectors cfg now owner terms s = (Ok (), s')"
  shows "books s' = books s"
proof -
  obtain sp sp' m s1 where sp: "fmlookup (sps_providers s) owner = Some sp"
    "forM (sorted_list_of_fmap m) (terminate_deadline cfg now (map snd (sorted_list_of_fmap (sp_sectors sp)))) sp = (Ok (), sp')"
    "process_early_terminations cfg now owner (s\<lparr>sps_providers := fmupd owner sp' (sps_providers s)\<rparr>) = (Ok (), s1)"
    "s' = s1\<lparr>sps_events := sps_events s1 @ [SectorsTerminated owner terms]\<rparr>"
    using assms by (rule terminate_sectors_Ok)
  show ?thesis
    using declarations_books [OF sp(1,2) keeps_book_quiet(1)] keepsD [OF process_early_books sp(3)] by (simp add: sp(4))
qed

section \<open>Missed deadlines\<close>

lemma put_partition_book:
  assumes "layout (sp_deadlines sp ! idx) n = Some (p_sectors p)"
  shows "sector_book (put_partition idx n p sp) = sector_book sp"
proof -
  let ?d = "sp_deadlines sp ! idx"
  obtain q where "fmlookup (d_partitions ?d) n = Some q" "p_sectors p = p_sectors q"
    using assms by (auto simp: layout_def)
  then have "layout (?d\<lparr>d_partitions := fmupd n p (d_partitions ?d)\<rparr>) = layout ?d" by (rule layout_update)
  then show ?thesis
    by (simp add: put_partition_def sector_book_def map_update) (metis list_update_id list_update_beyond map_update nth_map not_less)
qed

lemma check_partition_book:
  assumes "check_partition cfg now who dl (n, p) (sp, faulty) s = (Ok (sp', faulty'), s')"
    "layout (sp_deadlines sp ! di_idx dl) n = Some (p_sectors p)"
  shows "sector_book sp' = sector_book sp"
proof -
  let ?run = "record_faults (sp_sectors sp) (p_sectors p) (di_last dl + cf_fault_max_age cfg) p"
  obtain r p' where run: "?run = (r, p')" by fastforce
  then have "p_sectors p' = p_sectors p" by (rule keepsD [OF keeps_sectors_quiet(1)])
  then have "sector_book (put_partition (di_idx dl) n p' sp) = sector_book sp"
    using assms(2) by (intro put_partition_book) simp
  then show ?thesis
    using assms(1) run by (cases r) (auto simp: check_partition_def ok_iff Let_def split: if_splits)
qed

lemma keeps_books_check_partition [frame]: "keeps books (check_partition cfg now who dl x acc)"
  unfolding check_partition_def Let_def by (cases x, cases acc) (simp, intro frame impI conjI)

lemma check_partitions_book:
  assumes "foldM (check_partition cfg now who dl) L (sp0, f0) s = (Ok (sp, f), s')"
    "\<forall>(n, p) \<in> set L. layout (sp_deadlines sp0 ! di_idx dl) n = Some (p_sectors p)" "di_idx dl < length (sp_deadlines sp0)"
  shows "sector_book sp = sector_book sp0"
proof -
  have "sector_book (fst (sp, f)) = sector_book sp0"
  proof (rule foldM_invariant [OF assms(1), where I = "\<lambda>a _. sector_book (fst a) = sector_book sp0"])
    fix x a s b t
    assume x: "x \<in> set L" and a: "sector_book (fst a) = sector_book sp0"
      and run: "check_partition cfg now who dl x a s = (Ok b, t)"
    obtain n p sp1 f1 sp2 f2 where eq: "x = (n, p)" "a = (sp1, f1)" "b = (sp2, f2)" by (metis surj_pair)
    have "map layout (sp_deadlines sp1) = map layout (sp_deadlines sp0)" using a eq(2) by (simp add: sector_book_def)
    then have "layout (sp_deadlines sp1 ! di_idx dl) = layout (sp_deadlines sp0 ! di_idx dl)"
      using assms(3) by (metis length_map nth_map)
    then have "sector_book sp2 = sector_book sp1" using check_partition_book [OF run [unfolded eq]] x assms(2) eq(1) by auto
    then show "sector_book (fst b) = sector_book sp0" using a eq by simp
  qed simp
  then show ?thesis by simp
qed

lemma books_lookup:
  assumes "books t = books s" "fmlookup (sps_providers s) a = Some sp"
  obtains sp' where "fmlookup (sps_providers t) a = Some sp'" "sector_book sp' = sector_book sp"
  using fun_cong [OF assms(1), of a] assms(2) that by (auto simp: books_def)

text \<open>The state that is stored at the end has the books that the provider had.\<close>

lemma finish_deadline_books:
  assumes "books t = books s" "fmlookup (sps_providers s) who = Some sp0" "sector_book sp = sector_book sp0"
  shows "books (snd (bindM (liftM (case on_local (advance_deadline wp now) sp of Ok (_, sp) \<Rightarrow> Ok sp | _ \<Rightarrow> Panic))
    (set_provider who) t)) = books s"
proof -
  obtain x sp' where run: "advance_deadline wp now sp = (x, sp')" by fastforce
  then have "sector_book sp' = sector_book sp0" using keepsD [OF keeps_book_quiet(5)] assms(3) by simp
  moreover obtain q where "fmlookup (sps_providers t) who = Some q" "sector_book q = sector_book sp0"
    using assms(1,2) by (rule books_lookup)
  ultimately show ?thesis
    using books_update [of t who q sp'] assms(1) run
    by (cases x) (auto simp: monad_defs set_provider_def)
qed

lemma check_elapsed_books:
  assumes sp0: "fmlookup (sps_providers s) who = Some sp0"
  shows "books (snd (check_elapsed_deadline cfg now who dl sp0 s)) = books s"
proof (cases "di_idx dl < length (sp_deadlines sp0)")
  case False
  then show ?thesis by (simp add: check_elapsed_deadline_def monad_defs Let_def)
next
  case True
  let ?L = "sorted_list_of_fmap (d_partitions (sp_deadlines sp0 ! di_idx dl))"
  let ?fold = "foldM (check_partition cfg now who dl) ?L (sp0, fmempty)"
  obtain r t where run: "?fold s = (r, t)" by fastforce
  have "keeps books ?fold" by (intro frame)
  from keepsD [OF this run] have t: "books t = books s" .
  show ?thesis
  proof (cases r)
    case (Ok a)
    obtain sp f where a: "a = (sp, f)" by fastforce
    have "sector_book sp = sector_book sp0"
      using run [unfolded Ok a] by (rule check_partitions_book) (use True in \<open>auto simp: layout_def\<close>)
    then have "sector_book (sp\<lparr>sp_deadlines := (sp_deadlines sp)[di_idx dl :=
        (sp_deadlines sp ! di_idx dl)\<lparr>d_partitions_posted := {||}\<rparr>]\<rparr>) = sector_book sp0"
      by (simp add: sector_book_def map_update) (metis list_update_id list_update_beyond nth_map not_less length_map)
    note fin = finish_deadline_books [OF _ sp0 this]
    show ?thesis
      using True run Ok a t fin [OF t] fin [of "t\<lparr>sps_events := e\<rparr>" for e]
      by (auto simp: check_elapsed_deadline_def Let_def bindM_def liftM_def retM_def sp_deposit_event_def modifyM_def split: res.splits prod.splits)
  qed (use True run t in \<open>simp_all add: check_elapsed_deadline_def Let_def bindM_def\<close>)
qed

lemma keeps_books_check_provider [frame]: "keeps books (check_provider cfg now who)"
  unfolding keeps_def
proof
  fix s
  show "books (snd (check_provider cfg now who s)) = books s"
    using check_elapsed_books [of s who] by (auto simp: check_provider_def monad_defs split: option.split res.split)
qed

lemma keeps_books_check_deadlines [frame]: "keeps books (check_deadlines cfg now)"
  unfolding check_deadlines_def by (intro frame)

section \<open>Expired pre-commitments\<close>

lemma remove_pre_committed_sector_eq:
  "remove_pre_committed_sector n sp =
    (if n |\<in>| fmdom (sp_pre_committed_sectors sp)
     then (Ok (), sp\<lparr>sp_pre_committed_sectors := fmdrop n (sp_pre_committed_sectors sp)\<rparr>)
     else (Err StorageProviderErrorSectorNotFound, sp))"
  by (auto simp: remove_pre_committed_sector_def monad_defs fmlookup_dom_iff)

definition deposits_of :: "sector_number list \<Rightarrow> storage_provider_state \<Rightarrow> balance" where
  "deposits_of ns sp = (\<Sum>n\<leftarrow>ns. poc_pre_commit_deposit (the (fmlookup (sp_pre_committed_sectors sp) n)))"

lemma remove_expired_all:
  assumes "distinct ns" "\<forall>n\<in>set ns. n |\<in>| fmdom (sp_pre_committed_sectors sp)"
  shows "\<exists>R m. fold remove_expired ns (R0, sp) = (R, sp\<lparr>sp_pre_committed_sectors := m\<rparr>) \<and>
    fmdom m |\<subseteq>| fmdom (sp_pre_committed_sectors sp) \<and>
    (\<forall>n x. fmlookup m n = Some x \<longrightarrow> fmlookup (sp_pre_committed_sectors sp) n = Some x) \<and>
    count_over poc_pre_commit_deposit m + deposits_of ns sp = count_over poc_pre_commit_deposit (sp_pre_committed_sectors sp)"
  using assms
proof (induction ns arbitrary: R0 sp)
  case Nil
  then show ?case by (intro exI [of _ R0] exI [of _ "sp_pre_committed_sectors sp"]) (simp add: deposits_of_def)
next
  case (Cons n ns)
  let ?sp = "sp\<lparr>sp_pre_committed_sectors := fmdrop n (sp_pre_committed_sectors sp)\<rparr>"
  obtain x where x: "fmlookup (sp_pre_committed_sectors sp) n = Some x" using Cons.prems(2) by (auto simp: fmlookup_dom_iff)
  have step: "fold remove_expired (n # ns) (R0, sp) = fold remove_expired ns (R0 @ [n], ?sp)"
    using Cons.prems(2) by (simp add: remove_expired_def remove_pre_committed_sector_eq)
  have "deposits_of ns ?sp = deposits_of ns sp"
    unfolding deposits_of_def using Cons.prems(1) by (intro arg_cong [of _ _ sum_list] map_cong) auto
  moreover have "\<forall>k\<in>set ns. k |\<in>| fmdom (sp_pre_committed_sectors ?sp)" using Cons.prems by auto
  ultimately obtain R m where m: "fold remove_expired ns (R0 @ [n], ?sp) = (R, sp\<lparr>sp_pre_committed_sectors := m\<rparr>)"
    "fmdom m |\<subseteq>| fmdom (fmdrop n (sp_pre_committed_sectors sp))"
    "\<forall>k x. fmlookup m k = Some x \<longrightarrow> fmlookup (fmdrop n (sp_pre_committed_sectors sp)) k = Some x"
    "count_over poc_pre_commit_deposit m + deposits_of ns sp = count_over poc_pre_commit_deposit (fmdrop n (sp_pre_committed_sectors sp))"
    using Cons.IH [of ?sp "R0 @ [n]"] Cons.prems(1) by auto
  moreover have "\<forall>k x. fmlookup m k = Some x \<longrightarrow> fmlookup (sp_pre_committed_sectors sp) k = Some x"
    using m(3) by (metis fmlookup_drop option.distinct(1))
  ultimately show ?case
    unfolding step using count_over_fmdrop [OF x, of poc_pre_commit_deposit]
    by (intro exI [of _ R] exI [of _ m]) (auto simp: deposits_of_def x)
qed

lemma detect_expired_acc:
  assumes "fold (detect_expired now) L (ns, b) = (ns', b')" "b \<le> sum_list (map w ns)" "\<forall>(n, x)\<in>set L. w n = poc_pre_commit_deposit x"
    "distinct (ns @ map fst L)"
  shows "distinct ns' \<and> set ns' \<subseteq> set ns \<union> fst ` set L \<and> b' \<le> sum_list (map w ns')"
  using assms
proof (induction L arbitrary: ns b)
  case (Cons e L)
  obtain n x where e: "e = (n, x)" by fastforce
  obtain ns1 b1 where step: "detect_expired now e (ns, b) = (ns1, b1)" by fastforce
  have one: "ns1 = ns \<and> b1 = b \<or> ns1 = ns @ [n] \<and> b1 \<le> b + poc_pre_commit_deposit x"
    using step by (auto simp: e detect_expired_def checked_add_def split: if_splits)
  have w: "w n = poc_pre_commit_deposit x" using Cons.prems(3) by (auto simp: e)
  have "b1 \<le> sum_list (map w ns1)" "distinct (ns1 @ map fst L)"
    using one Cons.prems(2,4) w by (elim disjE; simp add: e)+
  from Cons.IH [OF _ this(1) _ this(2)] Cons.prems(1,3) step
  have "distinct ns' \<and> set ns' \<subseteq> set ns1 \<union> fst ` set L \<and> b' \<le> sum_list (map w ns')" by simp
  then show ?case using one by (auto simp: e)
qed auto

lemma detect_expired_sound:
  assumes "detect_expired_precommit_sectors now sp = (ns, amount)"
  shows "distinct ns" "\<forall>n\<in>set ns. n |\<in>| fmdom (sp_pre_committed_sectors sp)" "amount \<le> deposits_of ns sp"
proof -
  let ?w = "\<lambda>n. poc_pre_commit_deposit (the (fmlookup (sp_pre_committed_sectors sp) n))"
  have "distinct ns \<and> set ns \<subseteq> set [] \<union> fst ` set (sorted_list_of_fmap (sp_pre_committed_sectors sp)) \<and> amount \<le> sum_list (map ?w ns)"
    by (rule detect_expired_acc [OF assms [unfolded detect_expired_precommit_sectors_def]]) auto
  then show "distinct ns" "\<forall>n\<in>set ns. n |\<in>| fmdom (sp_pre_committed_sectors sp)" "amount \<le> deposits_of ns sp"
    by (auto simp: deposits_of_def fmlookup_dom_iff)
qed

text \<open>
  Slashing keeps the books in order: what is taken from the recorded deposits is
  at most what was deposited for the sectors that are removed.
\<close>

lemma slash_expired_orderly:
  assumes "slash_expired cfg who sp ns amount s = (Ok u, s')" "fmlookup (sps_providers s) who = Some sp"
    "detect_expired_precommit_sectors now sp = (ns, amount)"
  shows "orderly k s s'"
proof -
  note ns = detect_expired_sound [OF assms(3)]
  obtain R m where rem: "fold remove_expired ns ([], sp) = (R, sp\<lparr>sp_pre_committed_sectors := m\<rparr>)"
    "fmdom m |\<subseteq>| fmdom (sp_pre_committed_sectors sp)"
    "\<forall>n x. fmlookup m n = Some x \<longrightarrow> fmlookup (sp_pre_committed_sectors sp) n = Some x"
    "count_over poc_pre_commit_deposit m + deposits_of ns sp = count_over poc_pre_commit_deposit (sp_pre_committed_sectors sp)"
    using remove_expired_all [OF ns(1,2)] by blast
  let ?sp = "sp\<lparr>sp_pre_committed_sectors := m, sp_pre_commit_deposits := sp_pre_commit_deposits sp - amount\<rparr>"
  have ok: "provider_ok k ?sp" if "provider_ok k sp" using that rem(2-) ns(3) unfolding provider_ok_def by auto
  have grows: "provider_grows sp ?sp" by (simp add: provider_grows_def)
  note burn = keepsD [OF keeps_attemptM [OF keeps_providers_slash], of cfg who amount s]
  have "sps_providers s' = sps_providers s \<or> sps_providers s' = fmupd who ?sp (sps_providers s)"
    using assms(1) by (auto simp: slash_expired_def rem(1) ok_iff checked_sub_def dest: burn split: if_splits)
  then show ?thesis
  proof
    assume "sps_providers s' = sps_providers s"
    then show ?thesis by (intro orderly_books) (simp add: books_def fun_eq_iff)
  qed (use orderly_update [OF assms(2) _ ok grows] in simp)
qed

lemma orderly_refl [simp]: "orderly k s s"
  by (simp add: orderly_books)

lemma check_precommits_orderly:
  assumes "check_precommits cfg now whos s = (Ok u, s')"
  shows "orderly k s s'"
  using assms
proof (induction whos arbitrary: s)
  case Nil
  then show ?case by (simp add: ok_iff)
next
  case (Cons who whos)
  show ?case
  proof (cases "fmlookup (sps_providers s) who")
    case None
    then show ?thesis using Cons by (simp add: ok_iff)
  next
    case (Some sp)
    obtain ns amount where d: "detect_expired_precommit_sectors now sp = (ns, amount)" by fastforce
    show ?thesis
    proof (cases "ns = []")
      case True
      then show ?thesis using Cons.prems Some d by (simp add: ok_iff)
    next
      case False
      then obtain s1 where "slash_expired cfg who sp ns amount s = (Ok (), s1)" "check_precommits cfg now whos s1 = (Ok u, s')"
        using Cons.prems Some d by (auto simp: ok_iff)
      then show ?thesis using slash_expired_orderly [OF _ Some d] Cons.IH orderly_trans by blast
    qed
  qed
qed

lemma sp_on_finalize_orderly:
  assumes "sp_on_finalize cfg now s = (Ok u, s')"
  shows "orderly k s s'"
proof -
  obtain s1 where s1: "check_precommits cfg now (cf_iter_keys cfg (fmdom (sps_providers s))) s = (Ok (), s1)"
    "check_deadlines cfg now s1 = (Ok u, s')"
    using assms by (auto simp: sp_on_finalize_def check_precommited_sectors_def ok_iff)
  have "orderly k s1 s'" using keepsD [OF keeps_books_check_deadlines s1(2)] by (rule orderly_books)
  then show ?thesis by (rule orderly_trans [OF check_precommits_orderly [OF s1(1)]])
qed

section \<open>Registration and commitment\<close>

lemma homes_new [simp]: "homes s (deadlines_new k) = 0"
  by (simp add: homes_def deadlines_new_def homes_in_def deadline_new_def sum_list_0)

lemma register_orderly:
  assumes "register_storage_provider cfg now owner peer proof_type s = (Ok u, s')"
  shows "orderly (wp_period_deadlines (cf_wpost cfg)) s s'"
proof -
  let ?k = "wp_period_deadlines (cf_wpost cfg)"
  obtain info start where new: "owner |\<notin>| fmdom (sps_providers s)"
    "sps_providers s' = fmupd owner (sp_state_new info start 0 ?k) (sps_providers s)"
    using assms unfolding register_storage_provider_def register_storage_provider_body_def transactional_Ok_iff Let_def
    by (auto simp: bindM_Ok_iff liftM_Ok_iff ensureM_Ok_iff pallet_ops_Ok_iff)
  have "provider_ok ?k (sp_state_new info start 0 ?k)"
    by (simp add: provider_ok_def sp_state_new_def) (simp add: deadlines_new_def)
  moreover have "provider_grows sp sp" for sp by (simp add: provider_grows_def)
  ultimately show ?thesis using new unfolding orderly_def by (auto simp: fmlookup_dom_iff)
qed

lemma total_deposits_sum: "total_deposits xs b = Ok t \<Longrightarrow> t = b + sum_list (map poc_pre_commit_deposit xs)"
  by (induction xs arbitrary: b) (fastforce simp: ok_iff)+

lemma put_pre_committed_sector_Ok_iff:
  "put_pre_committed_sector x sp = (Ok u, t) \<longleftrightarrow>
    (pc_sector_number (poc_info x) |\<in>| fmdom (sp_pre_committed_sectors sp) \<or> fcard (fmdom (sp_pre_committed_sectors sp)) < MAX_SECTORS) \<and>
    t = sp\<lparr>sp_pre_committed_sectors := fmupd (pc_sector_number (poc_info x)) x (sp_pre_committed_sectors sp)\<rparr>"
  by (auto simp: put_pre_committed_sector_def ok_iff)

lemma put_all_pre_committed:
  assumes "forM xs put_pre_committed_sector sp = (Ok u, sp')"
    "\<forall>n x. fmlookup (sp_pre_committed_sectors sp) n = Some x \<longrightarrow> pc_sector_number (poc_info x) = n"
  shows "\<exists>m. sp' = sp\<lparr>sp_pre_committed_sectors := m\<rparr> \<and>
    fmdom m = fmdom (sp_pre_committed_sectors sp) |\<union>| fset_of_list (map (\<lambda>x. pc_sector_number (poc_info x)) xs) \<and>
    (\<forall>n x. fmlookup m n = Some x \<longrightarrow> pc_sector_number (poc_info x) = n) \<and>
    count_over poc_pre_commit_deposit m \<le>
      count_over poc_pre_commit_deposit (sp_pre_committed_sectors sp) + sum_list (map poc_pre_commit_deposit xs)"
  using assms
proof (induction xs arbitrary: sp)
  case Nil
  then show ?case by (intro exI [of _ "sp_pre_committed_sectors sp"]) (simp add: ok_iff)
next
  case (Cons x xs)
  let ?n = "pc_sector_number (poc_info x)" and ?m = "sp_pre_committed_sectors sp"
  let ?sp = "sp\<lparr>sp_pre_committed_sectors := fmupd ?n x ?m\<rparr>"
  have rest: "forM xs put_pre_committed_sector ?sp = (Ok u, sp')"
    using Cons.prems(1) unfolding forM.simps bindM_Ok_iff put_pre_committed_sector_Ok_iff by blast
  have keyed: "\<forall>n y. fmlookup (sp_pre_committed_sectors ?sp) n = Some y \<longrightarrow> pc_sector_number (poc_info y) = n"
  proof (intro allI impI)
    fix n y assume "fmlookup (sp_pre_committed_sectors ?sp) n = Some y"
    then show "pc_sector_number (poc_info y) = n"
      using Cons.prems(2) [rule_format, of n y] by (cases "n = ?n") simp_all
  qed
  obtain m where m: "sp' = ?sp\<lparr>sp_pre_committed_sectors := m\<rparr>"
    "fmdom m = fmdom (sp_pre_committed_sectors ?sp) |\<union>| fset_of_list (map (\<lambda>x. pc_sector_number (poc_info x)) xs)"
    "\<forall>n x. fmlookup m n = Some x \<longrightarrow> pc_sector_number (poc_info x) = n"
    "count_over poc_pre_commit_deposit m \<le>
      count_over poc_pre_commit_deposit (sp_pre_committed_sectors ?sp) + sum_list (map poc_pre_commit_deposit xs)"
    using Cons.IH [OF rest keyed] by blast
  show ?case
    using m(1,2,4) count_over_fmupd_le [of poc_pre_commit_deposit ?n x ?m] by (intro exI [of _ m] conjI m(3)) simp_all
qed

lemma pre_commit_loop_Ok:
  assumes "pre_commit_loop cfg now sp sectors = Ok checked"
  shows "map (\<lambda>x. poc_info (fst x)) checked = sectors \<and>
    (\<forall>x\<in>set checked. poc_pre_commit_deposit (fst x) = calculate_pre_commit_deposit) \<and>
    (\<forall>x\<in>set sectors. pc_sector_number x |\<notin>| fmdom (sp_pre_committed_sectors sp) \<and> pc_sector_number x |\<notin>| fmdom (sp_sectors sp))"
  using assms
  by (induction sectors arbitrary: checked)
    (fastforce simp: ok_iff pre_commit_sector_def validate_sector_for_pre_commit_def fmlookup_dom_iff)+

lemma marketM_Ok_iff [ok_iff]:
  "marketM f s = (Ok x, t) \<longleftrightarrow> (\<exists>m. f (sps_market s) = (Ok x, m) \<and> t = s\<lparr>sps_market := m\<rparr>)"
  by (auto simp: marketM_def ok_iff)

lemma pre_commit_sectors_Ok:
  assumes "pre_commit_sectors cfg now owner sectors s = (Ok u, s')"
  obtains sp checked amount sp' where "fmlookup (sps_providers s) owner = Some sp"
    "pre_commit_loop cfg now sp sectors = Ok checked" "total_deposits (map fst checked) 0 = (Ok amount :: (dispatch_error, _) res)"
    "forM (map fst checked) put_pre_committed_sector (sp\<lparr>sp_pre_commit_deposits := sp_pre_commit_deposits sp + amount\<rparr>) = (Ok (), sp')"
    "sps_providers s' = fmupd owner sp' (sps_providers s)"
    "cu_reserve (mc_currency (cf_market cfg)) owner amount (ms_currency (sps_market s)) = Ok (ms_currency (sps_market s'))"
  using assms
  unfolding pre_commit_sectors_def pre_commit_sectors_body_def transactional_Ok_iff Let_def
  by (auto simp: bindM_Ok_iff liftM_Ok_iff getM_Ok_iff ensureM_Ok_iff map_err_Ok_iff modifyM_Ok_iff pallet_ops_Ok_iff marketM_Ok_iff currencyM_Ok_iff
      verify_deals_for_activation_def on_local_Ok_iff add_pre_commit_deposit_def ok_or_Ok_iff checked_add_Some_iff)

lemma pre_commit_orderly:
  assumes "pre_commit_sectors cfg now owner sectors s = (Ok u, s')"
  shows "orderly k s s'"
proof -
  obtain sp checked amount sp' where sp: "fmlookup (sps_providers s) owner = Some sp"
    "pre_commit_loop cfg now sp sectors = Ok checked" "total_deposits (map fst checked) 0 = (Ok amount :: (dispatch_error, _) res)"
    "forM (map fst checked) put_pre_committed_sector (sp\<lparr>sp_pre_commit_deposits := sp_pre_commit_deposits sp + amount\<rparr>) = (Ok (), sp')"
    "sps_providers s' = fmupd owner sp' (sps_providers s)"
    using assms by (rule pre_commit_sectors_Ok)
  note loop = pre_commit_loop_Ok [OF sp(2)]
  have nums: "map (\<lambda>x. pc_sector_number (poc_info x)) (map fst checked) = map pc_sector_number sectors"
    using arg_cong [OF conjunct1 [OF loop], of "map pc_sector_number"] by (simp add: comp_def)
  have ok': "provider_ok k sp'" if ok: "provider_ok k sp"
  proof -
    obtain m where m: "sp' = sp\<lparr>sp_pre_commit_deposits := sp_pre_commit_deposits sp + amount, sp_pre_committed_sectors := m\<rparr>"
      "fmdom m = fmdom (sp_pre_committed_sectors sp) |\<union>| fset_of_list (map pc_sector_number sectors)"
      "\<forall>n x. fmlookup m n = Some x \<longrightarrow> pc_sector_number (poc_info x) = n"
      "count_over poc_pre_commit_deposit m \<le> count_over poc_pre_commit_deposit (sp_pre_committed_sectors sp) + amount"
      using put_all_pre_committed [OF sp(4), unfolded nums] ok total_deposits_sum [OF sp(3)] by (auto simp: provider_ok_def)
    have "fmdom m |\<inter>| fmdom (sp_sectors sp) = {||}"
      using m(2) ok conjunct2 [OF conjunct2 [OF loop]] by (auto simp: provider_ok_def fset_of_list_elem)
    then show ?thesis using ok m(1,3,4) by (simp add: provider_ok_def)
  qed
  have "keeps (\<lambda>sp. (sp_deadlines sp, sp_sectors sp)) (forM (map fst checked) put_pre_committed_sector)"
    unfolding put_pre_committed_sector_def by (intro frame) simp
  from keepsD [OF this sp(4)] have "provider_grows sp sp'" by (simp add: provider_grows_def)
  with ok' show ?thesis by (rule orderly_update [OF sp(1,5)])
qed

section \<open>Proving\<close>

lemma prove_loop_Ok:
  assumes "prove_loop cfg now owner sp sectors = Ok precommits"
  shows "list_all2 (\<lambda>x p. fmlookup (sp_pre_committed_sectors sp) (pcs_sector_number x) = Some p) sectors precommits"
  using assms
  by (induction sectors arbitrary: precommits) (auto simp: ok_iff prove_sector_def get_pre_committed_sector_def)

lemma activate_proven_Ok_iff:
  "activate_proven (n, info) sp = (Ok u, t) \<longleftrightarrow>
    n |\<in>| fmdom (sp_pre_committed_sectors sp) \<and> (n |\<in>| fmdom (sp_sectors sp) \<or> fcard (fmdom (sp_sectors sp)) < MAX_SECTORS) \<and>
    t = sp\<lparr>sp_sectors := fmupd n info (sp_sectors sp), sp_pre_committed_sectors := fmdrop n (sp_pre_committed_sectors sp)\<rparr>"
  by (auto simp: activate_proven_def activate_sector_def remove_pre_committed_sector_eq ok_iff split: if_splits)

lemma activate_all_Ok:
  assumes "forM zs activate_proven sp = (Ok u, sp')"
  shows "distinct (map fst zs) \<and> (\<forall>n\<in>fst ` set zs. n |\<in>| fmdom (sp_pre_committed_sectors sp)) \<and>
    (\<exists>T. sp' = sp\<lparr>sp_sectors := T, sp_pre_committed_sectors := fold fmdrop (map fst zs) (sp_pre_committed_sectors sp)\<rparr> \<and>
      fmdom T = fmdom (sp_sectors sp) |\<union>| fset_of_list (map fst zs))"
  using assms
proof (induction zs arbitrary: sp)
  case Nil
  then show ?case by (intro conjI exI [of _ "sp_sectors sp"]) (simp_all add: ok_iff)
next
  case (Cons z zs)
  obtain n info where z: "z = (n, info)" by fastforce
  let ?sp = "sp\<lparr>sp_sectors := fmupd n info (sp_sectors sp), sp_pre_committed_sectors := fmdrop n (sp_pre_committed_sectors sp)\<rparr>"
  have "forM zs activate_proven ?sp = (Ok u, sp')" and n: "n |\<in>| fmdom (sp_pre_committed_sectors sp)"
    using Cons.prems by (auto simp: z bindM_Ok_iff activate_proven_Ok_iff)
  from Cons.IH [OF this(1)] show ?case using n by (auto simp: z)
qed

lemma fold_fmdrop_lookup: "fmlookup (fold fmdrop ns m) n = (if n \<in> set ns then None else fmlookup m n)"
  by (induction ns arbitrary: m) auto

lemma fmdom_fold_fmdrop: "fmdom (fold fmdrop ns m) = fmdom m |-| fset_of_list ns"
  by (induction ns arbitrary: m) auto

lemma count_over_fold_fmdrop_le: "count_over f (fold fmdrop ns m) \<le> count_over f m"
  by (induction ns arbitrary: m) (auto intro: order_trans count_over_fmdrop_le)

lemma prove_commit_sectors_Ok:
  assumes "prove_commit_sectors cfg now owner sectors s = (Ok u, s')"
  obtains sp precommits sp1 sp2 where "fmlookup (sps_providers s) owner = Some sp"
    "prove_loop cfg now owner sp sectors = Ok precommits"
    "forM (zip (map pcs_sector_number sectors) (map (\<lambda>p. from_pre_commit (poc_info p) now) precommits)) activate_proven sp = (Ok (), sp1)"
    "assign_sectors_to_deadlines (cf_wpost cfg) now (map (\<lambda>p. from_pre_commit (poc_info p) now) precommits)
      (spi_window_post_partition_sectors (sp_info sp1)) (cf_max_partitions_per_deadline cfg) sp1 = (Ok (), sp2)"
    "sps_providers s' = fmupd owner sp2 (sps_providers s)"
  using assms
  unfolding prove_commit_sectors_def prove_commit_sectors_body_def transactional_Ok_iff Let_def
  by (auto simp: bindM_Ok_iff liftM_Ok_iff pallet_ops_Ok_iff marketM_Ok_iff)

lemma prove_commit_orderly:
  assumes "prove_commit_sectors cfg now owner sectors s = (Ok u, s')"
  shows "orderly k s s'"
proof -
  obtain sp precommits sp1 sp2 where sp: "fmlookup (sps_providers s) owner = Some sp"
    "prove_loop cfg now owner sp sectors = Ok precommits"
    "forM (zip (map pcs_sector_number sectors) (map (\<lambda>p. from_pre_commit (poc_info p) now) precommits)) activate_proven sp = (Ok (), sp1)"
    "assign_sectors_to_deadlines (cf_wpost cfg) now (map (\<lambda>p. from_pre_commit (poc_info p) now) precommits)
      (spi_window_post_partition_sectors (sp_info sp1)) (cf_max_partitions_per_deadline cfg) sp1 = (Ok (), sp2)"
    "sps_providers s' = fmupd owner sp2 (sps_providers s)"
    using assms by (rule prove_commit_sectors_Ok)
  let ?new = "map (\<lambda>p. from_pre_commit (poc_info p) now) precommits" and ?ns = "map pcs_sector_number sectors"
  note loop = prove_loop_Ok [OF sp(2)]
  have "map fst (zip ?ns ?new) = ?ns" using list_all2_lengthD [OF loop] by simp
  then obtain T where act: "distinct ?ns" "\<forall>n\<in>set ?ns. n |\<in>| fmdom (sp_pre_committed_sectors sp)"
    "sp1 = sp\<lparr>sp_sectors := T, sp_pre_committed_sectors := fold fmdrop ?ns (sp_pre_committed_sectors sp)\<rparr>"
    "fmdom T = fmdom (sp_sectors sp) |\<union>| fset_of_list ?ns"
    using activate_all_Ok [OF sp(3)] by (metis set_map)
  obtain ds where ds: "sp2 = sp1\<lparr>sp_deadlines := ds\<rparr>" "deadlines_grow (sp_deadlines sp) ds"
    "\<forall>s. homes s ds = homes s (sp_deadlines sp) + times_in ?new s"
    using sp(4) by (rule assign_sectors_places) (simp add: act(3))
  have "provider_ok k sp2" if ok: "provider_ok k sp"
  proof -
    have "map si_sector_number ?new = ?ns"
      using loop ok by (induction rule: list_all2_induct) (auto simp: provider_ok_def from_pre_commit_def)
    then have "times_in ?new n = of_bool (n \<in> set ?ns)" for n using count_list_distinct [OF act(1)] by simp
    moreover have "n |\<notin>| fmdom (sp_sectors sp)" if "n \<in> set ?ns" for n
      using act(2) ok that by (auto simp: provider_ok_def)
    ultimately have "homes n ds = of_bool (n |\<in>| fmdom T)" for n
      using ds(3) ok act(4) by (auto simp: provider_ok_def fset_of_list_elem)
    moreover have "fmdom (fold fmdrop ?ns (sp_pre_committed_sectors sp)) |\<inter>| fmdom T = {||}"
      using ok act(4) by (auto simp: provider_ok_def fmdom_fold_fmdrop)
    moreover have "length ds = min k 48" using ds(2) ok by (simp add: deadlines_grow_def provider_ok_def)
    ultimately show ?thesis
      using ok ds(1) act(3) count_over_fold_fmdrop_le [of poc_pre_commit_deposit ?ns "sp_pre_committed_sectors sp"]
      by (auto simp: provider_ok_def fold_fmdrop_lookup split: if_splits)
  qed
  moreover have "provider_grows sp sp2" using ds(1,2) act(3,4) by (auto simp: provider_grows_def)
  ultimately show ?thesis by (rule orderly_update [OF sp(1,5)])
qed

section \<open>Reachable states\<close>

inductive sp_step :: "'c sp_config \<Rightarrow> 'c sp_pallet \<Rightarrow> 'c sp_pallet \<Rightarrow> bool" for cfg where
  sp_step_register: "register_storage_provider cfg now owner peer proof_type s = (Ok (), s') \<Longrightarrow> sp_step cfg s s'"
| sp_step_pre_commit: "pre_commit_sectors cfg now owner sectors s = (Ok (), s') \<Longrightarrow> sp_step cfg s s'"
| sp_step_prove_commit: "prove_commit_sectors cfg now owner proofs s = (Ok (), s') \<Longrightarrow> sp_step cfg s s'"
| sp_step_windowed_post: "submit_windowed_post cfg now owner post s = (Ok (), s') \<Longrightarrow> sp_step cfg s s'"
| sp_step_faults: "declare_faults cfg now owner decls s = (Ok (), s') \<Longrightarrow> sp_step cfg s s'"
| sp_step_recoveries: "declare_faults_recovered cfg now owner decls s = (Ok (), s') \<Longrightarrow> sp_step cfg s s'"
| sp_step_terminate: "terminate_sectors cfg now owner decls s = (Ok (), s') \<Longrightarrow> sp_step cfg s s'"
| sp_step_finalize: "sp_on_finalize cfg now s = (Ok (), s') \<Longrightarrow> sp_step cfg s s'"
| sp_step_market: "sp_step cfg s (s\<lparr>sps_market := m\<rparr>)"

lemma sp_step_orderly: "sp_step cfg s s' \<Longrightarrow> orderly (wp_period_deadlines (cf_wpost cfg)) s s'"
  by (induction rule: sp_step.induct)
    (auto intro: register_orderly pre_commit_orderly prove_commit_orderly sp_on_finalize_orderly orderly_books
      submit_windowed_post_books declare_faults_books declare_faults_recovered_books terminate_sectors_books)

lemma sp_steps_orderly: "(sp_step cfg)\<^sup>*\<^sup>* s s' \<Longrightarrow> orderly (wp_period_deadlines (cf_wpost cfg)) s s'"
  by (induction rule: rtranclp_induct) (auto intro: orderly_trans sp_step_orderly)

definition sp_genesis :: "'c market_state \<Rightarrow> 'c sp_pallet" where
  "sp_genesis m = \<lparr> sps_providers = fmempty, sps_events = [], sps_market = m \<rparr>"

lemma sp_reachable_ok:
  assumes "(sp_step cfg)\<^sup>*\<^sup>* (sp_genesis m) s" "fmlookup (sps_providers s) a = Some sp"
  shows "provider_ok (wp_period_deadlines (cf_wpost cfg)) sp"
  using sp_steps_orderly [OF assms(1)] assms(2) by (simp add: orderly_def sp_genesis_def)

end
