(* ===== verification/StorageProviderPallet_Claims.thy ===== *)
theory StorageProviderPallet_Claims
  imports StorageProviderPallet_Inv Market_Claims
begin

text \<open>
  What the storage-provider pallet promises about registered providers and their
  sectors, and where its loops lose sectors, deposits or terminations.
\<close>

section \<open>An example chain\<close>

text \<open>
  The market of \<^verbatim>\<open>Market_Claims\<close> with one published deal. Account 2 registers as a
  provider, commits sector 4 with the deal, and proves it. Four deadlines of ten
  blocks make a proving period, which starts at block 40.
\<close>

definition demo_sp_cfg :: "(account \<Rightarrow> nat) sp_config" where
  "demo_sp_cfg =
    \<lparr> cf_market = demo_cfg\<lparr>mc_cid_try_from := (\<lambda>b. Some (commitment_cid
        (if b = [] then CommP else if b = [2] then CommD else CommR) (replicate 32 0)))\<rparr>,
      cf_wpost = \<lparr> wp_period_deadlines = 4, wp_proving_period = 40, wp_challenge_window = 10,
        wp_challenge_lookback = 1, wp_fault_declaration_cutoff = 2 \<rparr>,
      cf_min_sector_expiration = 5, cf_max_sector_expiration = 1000, cf_sector_maximum_lifetime = 1000,
      cf_max_prove_commit_duration = 10, cf_max_partitions_per_deadline = 3, cf_fault_max_age = 50,
      cf_pre_commit_challenge_delay = 1, cf_addressed_partitions_max = 10, cf_addressed_sectors_max = 10,
      cf_author_vrf_history = (\<lambda>_. Some (replicate 32 0)), cf_blake2_256 = (\<lambda>_. replicate 32 0),
      cf_blake2_64 = (\<lambda>_. replicate 8 0), cf_encode_account = (\<lambda>a. [word_of_nat a]), cf_encode_block = (\<lambda>b. [word_of_nat b]),
      cf_verify_porep = (\<lambda>_ _ _ _ _ _ _ _. Ok ()), cf_verify_post = (\<lambda>_ _ _ _. Ok ()),
      cf_iter_keys = sorted_list_of_fset \<rparr>"

definition demo_pre_commit :: "sector_number \<Rightarrow> deal_id list \<Rightarrow> sector_pre_commit_info" where
  "demo_pre_commit n deals =
    \<lparr> pc_seal_proof = StackedDRG2KiBV1P1, pc_sector_number = n, pc_sealed_cid = [3], pc_seal_randomness_height = 3,
      pc_deal_ids = deals, pc_expiration = 100, pc_unsealed_cid = [2] \<rparr>"

definition demo_registered :: "(account \<Rightarrow> nat) sp_pallet" where
  "demo_registered = snd (register_storage_provider demo_sp_cfg 4 2 [] StackedDRGWindow2KiBV1P1 (sp_genesis demo_published))"

definition demo_committed :: "(account \<Rightarrow> nat) sp_pallet" where
  "demo_committed = snd (pre_commit_sectors demo_sp_cfg 6 2 [demo_pre_commit 4 [0]] demo_registered)"

definition demo_proven :: "(account \<Rightarrow> nat) sp_pallet" where
  "demo_proven = snd (prove_commit_sectors demo_sp_cfg 8 2 [\<lparr> pcs_sector_number = 4, pcs_proof = [] \<rparr>] demo_committed)"

definition demo_terminated :: "(account \<Rightarrow> nat) sp_pallet" where
  "demo_terminated = snd (terminate_sectors demo_sp_cfg 15 2
    [\<lparr> dec_deadline = 0, dec_partition = 0, dec_sectors = {|4|} \<rparr>] demo_proven)"

definition demo_post :: submit_windowed_post_params where
  "demo_post = \<lparr> swp_deadline = 0, swp_partitions = [0],
    swp_proof = \<lparr> pp_post_proof = StackedDRGWindow2KiBV1P1, pp_proof_bytes = [] \<rparr> \<rparr>"

lemma demo_sp_runs:
  "fst (register_storage_provider demo_sp_cfg 4 2 [] StackedDRGWindow2KiBV1P1 (sp_genesis demo_published)) = Ok ()"
  "fst (pre_commit_sectors demo_sp_cfg 6 2 [demo_pre_commit 4 [0]] demo_registered) = Ok ()"
  "fst (prove_commit_sectors demo_sp_cfg 8 2 [\<lparr> pcs_sector_number = 4, pcs_proof = [] \<rparr>] demo_committed) = Ok ()"
  "fst (terminate_sectors demo_sp_cfg 15 2 [\<lparr> dec_deadline = 0, dec_partition = 0, dec_sectors = {|4|} \<rparr>] demo_proven) = Ok ()"
  by code_simp+

lemma demo_sp_steps:
  "sp_step demo_sp_cfg (sp_genesis demo_published) demo_registered"
  "sp_step demo_sp_cfg demo_registered demo_committed"
  "sp_step demo_sp_cfg demo_committed demo_proven"
  "sp_step demo_sp_cfg demo_proven demo_terminated"
  using sp_step_register [OF run_eqI [OF demo_sp_runs(1)]] sp_step_pre_commit [OF run_eqI [OF demo_sp_runs(2)]]
    sp_step_prove_commit [OF run_eqI [OF demo_sp_runs(3)]] sp_step_terminate [OF run_eqI [OF demo_sp_runs(4)]]
  by (simp_all add: demo_registered_def [symmetric] demo_committed_def [symmetric] demo_proven_def [symmetric]
      demo_terminated_def [symmetric])

lemma demo_sp_reachable: "(sp_step demo_sp_cfg)\<^sup>*\<^sup>* (sp_genesis demo_published) demo_proven"
  using demo_sp_steps(1-3) by (meson rtranclp.rtrancl_into_rtrancl rtranclp.rtrancl_refl)

section \<open>Sectors and deposits\<close>

definition home_at :: "sector_number \<Rightarrow> deadline list \<Rightarrow> nat \<times> partition_number \<Rightarrow> bool" where
  "home_at n ds = (\<lambda>(i, k). i < length ds \<and>
    (case fmlookup (d_partitions (ds ! i)) k of None \<Rightarrow> False | Some p \<Rightarrow> n |\<in>| p_sectors p))"

lemma homes_in_card: "homes_in n m = card {k. \<exists>p. fmlookup m k = Some p \<and> n |\<in>| p_sectors p}"
proof -
  have "homes_in n m = card {k \<in> fset (fmdom m). n |\<in>| p_sectors (the (fmlookup m k))}"
    unfolding homes_in_def count_over_def by (simp add: sum.inter_filter [symmetric] of_bool_def)
  also have "{k \<in> fset (fmdom m). n |\<in>| p_sectors (the (fmlookup m k))} = {k. \<exists>p. fmlookup m k = Some p \<and> n |\<in>| p_sectors p}"
    by (auto simp: fmlookup_dom_iff)
  finally show ?thesis .
qed

lemma finite_homes_in: "finite {k. \<exists>p. fmlookup m k = Some p \<and> n |\<in>| p_sectors p}"
  by (rule finite_subset [of _ "fset (fmdom m)"]) (auto simp: fmlookup_dom_iff)

lemma homes_card: "homes n ds = card (Collect (home_at n ds))" "finite (Collect (home_at n ds))"
proof -
  let ?S = "\<lambda>i. {k. \<exists>p. fmlookup (d_partitions (ds ! i)) k = Some p \<and> n |\<in>| p_sectors p}"
  have eq: "Collect (home_at n ds) = Sigma {..<length ds} ?S"
    by (auto simp: home_at_def split: option.splits)
  show "finite (Collect (home_at n ds))" unfolding eq by (intro finite_SigmaI finite_homes_in) simp
  have "homes n ds = (\<Sum>i<length ds. card (?S i))"
    unfolding homes_def by (simp add: sum_list_sum_nth homes_in_card atLeast0LessThan)
  also have "\<dots> = card (Sigma {..<length ds} ?S)" by (simp add: card_SigmaI finite_homes_in)
  finally show "homes n ds = card (Collect (home_at n ds))" unfolding eq .
qed

lemma homes_1_iff: "homes n ds = 1 \<longleftrightarrow> (\<exists>!h. home_at n ds h)"
  unfolding homes_card by (simp add: card_1_singleton_iff Ex1_def set_eq_iff) blast

text \<open>
  C2: In every state that the pallet reaches from an empty one, whatever the market does in
  between, the books of every provider are in order: a sector is active exactly
  if it is in a partition, and then it is in exactly one partition of exactly
  one deadline; no sector is active and pre-committed at once; and the recorded
  deposits cover the deposits of all pre-committed sectors.
\<close>

theorem provider_books_in_order:
  assumes "(sp_step cfg)\<^sup>*\<^sup>* (sp_genesis m) s" "fmlookup (sps_providers s) owner = Some sp"
  shows "length (sp_deadlines sp) = min (wp_period_deadlines (cf_wpost cfg)) 48 \<and>
    (\<forall>n. n |\<in>| fmdom (sp_sectors sp) \<longleftrightarrow> (\<exists>h. home_at n (sp_deadlines sp) h)) \<and>
    (\<forall>n. n |\<in>| fmdom (sp_sectors sp) \<longrightarrow> (\<exists>!h. home_at n (sp_deadlines sp) h)) \<and>
    fmdom (sp_pre_committed_sectors sp) |\<inter>| fmdom (sp_sectors sp) = {||} \<and>
    count_over poc_pre_commit_deposit (sp_pre_committed_sectors sp) \<le> sp_pre_commit_deposits sp"
proof -
  note ok = sp_reachable_ok [OF assms, unfolded provider_ok_def]
  have "n |\<in>| fmdom (sp_sectors sp) \<longleftrightarrow> (\<exists>h. home_at n (sp_deadlines sp) h)" for n
  proof -
    have "n |\<in>| fmdom (sp_sectors sp) \<longleftrightarrow> homes n (sp_deadlines sp) \<noteq> 0" using ok by simp
    also have "\<dots> \<longleftrightarrow> (\<exists>h. home_at n (sp_deadlines sp) h)" using homes_card [of n "sp_deadlines sp"] by auto
    finally show ?thesis .
  qed
  moreover have "\<exists>!h. home_at n (sp_deadlines sp) h" if "n |\<in>| fmdom (sp_sectors sp)" for n
    using ok that homes_1_iff [of n "sp_deadlines sp"] by simp
  ultimately show ?thesis using ok by blast
qed

theorem provider_books_in_order_witness:
  "\<exists>sp. fmlookup (sps_providers demo_proven) 2 = Some sp \<and> (\<exists>!h. home_at 4 (sp_deadlines sp) h) \<and>
    home_at 4 (sp_deadlines sp) (0, 0)"
proof -
  have "(case fmlookup (sps_providers demo_proven) 2 of None \<Rightarrow> False
      | Some sp \<Rightarrow> 4 |\<in>| fmdom (sp_sectors sp) \<and> home_at 4 (sp_deadlines sp) (0, 0))" by code_simp
  then obtain sp where "fmlookup (sps_providers demo_proven) 2 = Some sp" "4 |\<in>| fmdom (sp_sectors sp)"
    "home_at 4 (sp_deadlines sp) (0, 0)" by (auto split: option.splits)
  then show ?thesis using provider_books_in_order [OF demo_sp_reachable] by blast
qed

text \<open>
  C33: A sector never leaves the partition it was assigned to: whatever extrinsics
  succeed and however many blocks are finalized, it stays in the same partition
  of the same deadline. This is so even for terminated sectors, which the
  documentation of the CLI says are fully removed.
\<close>

theorem sectors_stay_put:
  assumes "(sp_step cfg)\<^sup>*\<^sup>* s s'" "fmlookup (sps_providers s) owner = Some sp" "home_at n (sp_deadlines sp) h"
  shows "\<exists>sp'. fmlookup (sps_providers s') owner = Some sp' \<and> home_at n (sp_deadlines sp') h"
proof -
  obtain i k where h: "h = (i, k)" by fastforce
  obtain p where p: "i < length (sp_deadlines sp)" "fmlookup (d_partitions (sp_deadlines sp ! i)) k = Some p" "n |\<in>| p_sectors p"
    using assms(3) by (auto simp: home_at_def h split: option.splits)
  obtain sp' where sp': "fmlookup (sps_providers s') owner = Some sp'" "deadlines_grow (sp_deadlines sp) (sp_deadlines sp')"
    using sp_steps_orderly [OF assms(1)] assms(2) unfolding orderly_def provider_grows_def by blast
  then obtain p' where "fmlookup (d_partitions (sp_deadlines sp' ! i)) k = Some p'" "p_sectors p |\<subseteq>| p_sectors p'"
    using p unfolding deadlines_grow_def partitions_grow_def by blast
  then show ?thesis using sp' p by (auto simp: home_at_def h deadlines_grow_def)
qed

theorem sectors_stay_put_witness:
  "\<exists>sp. fmlookup (sps_providers demo_terminated) 2 = Some sp \<and> home_at 4 (sp_deadlines sp) (0, 0)"
proof -
  have "(case fmlookup (sps_providers demo_proven) 2 of None \<Rightarrow> False
      | Some sp \<Rightarrow> home_at 4 (sp_deadlines sp) (0, 0))" by code_simp
  then obtain sp where "fmlookup (sps_providers demo_proven) 2 = Some sp" "home_at 4 (sp_deadlines sp) (0, 0)"
    by (auto split: option.splits)
  moreover have "(sp_step demo_sp_cfg)\<^sup>*\<^sup>* demo_proven demo_terminated" using demo_sp_steps(4) by (rule r_into_rtranclp)
  ultimately show ?thesis using sectors_stay_put by blast
qed

section \<open>Termination\<close>

lemma on_sectors_terminate_none: "on_sectors_terminate cfg now a [] = retM ()"
  by (simp add: on_sectors_terminate_def)

lemma terminated_before_none: "reported_in {now} r \<Longrightarrow> terminated_before now r = []"
  by (auto simp: terminated_before_def reported_in_def dest!: subsetD intro: fmdomI split: if_splits)

lemma process_early_market:
  assumes "process_early_terminations cfg now owner s = (Ok (), s')" "fmlookup (sps_providers s) owner = Some sp"
    "provider_recorded_in {now} sp"
  shows "sps_market s' = sps_market s"
proof -
  obtain r sp' where pop: "sp_pop_early_terminations (cf_addressed_partitions_max cfg) (cf_addressed_sectors_max cfg) sp = (Ok r, sp')"
    and rest: "if tr_is_empty r then s' = s
      else \<exists>m. on_sectors_terminate (cf_market cfg) now owner (terminated_before now r) (sps_market s) = (Ok (), m) \<and>
        sps_market s' = m"
    using assms(1,2) by (auto simp: process_early_terminations_def ok_iff Let_def split: if_splits)
  have "terminated_before now r = []" by (rule terminated_before_none [OF sp_pop_reported [OF pop assms(3)]])
  then show ?thesis using rest by (auto simp: on_sectors_terminate_none retM_def split: if_splits)
qed

text \<open>
  A chain on which the deal runs until block 90: sector 4 is committed with it,
  proven with a proof of space-time in the first deadline, and two deadlines
  elapse before the provider terminates the sector.
\<close>

definition long_published :: "(account \<Rightarrow> nat) market_state" where
  "long_published = snd (publish_storage_deals demo_cfg 5 2
    [\<lparr> cdp_proposal = demo_deal\<lparr>dp_end_block := 90, dp_storage_price_per_block := 1\<rparr>, cdp_client_signature = [] \<rparr>] demo_provider)"

definition long_proven :: "(account \<Rightarrow> nat) sp_pallet" where
  "long_proven = snd (prove_commit_sectors demo_sp_cfg 8 2 [\<lparr> pcs_sector_number = 4, pcs_proof = [] \<rparr>]
    (snd (pre_commit_sectors demo_sp_cfg 6 2 [demo_pre_commit 4 [0]]
    (snd (register_storage_provider demo_sp_cfg 4 2 [] StackedDRGWindow2KiBV1P1 (sp_genesis long_published))))))"

definition long_waiting :: "(account \<Rightarrow> nat) sp_pallet" where
  "long_waiting = snd (sp_on_finalize demo_sp_cfg 60 (snd (sp_on_finalize demo_sp_cfg 50
    (snd (submit_windowed_post demo_sp_cfg 45 2 demo_post long_proven)))))"

definition demo_termination :: "sector_declaration list" where
  "demo_termination = [\<lparr> dec_deadline = 0, dec_partition = 0, dec_sectors = {|4|} \<rparr>]"

lemma long_run: "fst (terminate_sectors demo_sp_cfg 62 2 demo_termination long_waiting) = Ok ()"
  by code_simp

lemma long_before:
  "case fmlookup (sps_providers long_waiting) 2 of None \<Rightarrow> False
    | Some sp \<Rightarrow> (\<forall>d\<in>set (sp_deadlines sp). fmpred (\<lambda>_ p. fmdom (p_early_terminations p) = {||}) (d_partitions d)) \<and>
        (case fmlookup (d_partitions (sp_deadlines sp ! 0)) 0 of None \<Rightarrow> False
         | Some p \<Rightarrow> 4 |\<in>| p_sectors p \<and> p_unproven p = {||})"
  by code_simp

lemma long_after:
  "case fmlookup (ms_proposals (sps_market (snd (terminate_sectors demo_sp_cfg 62 2 demo_termination long_waiting)))) 0 of
     None \<Rightarrow> False | Some p \<Rightarrow> dp_state p \<noteq> Published \<and> 62 < dp_end_block p"
  "case fmlookup (sps_providers (snd (terminate_sectors demo_sp_cfg 62 2 demo_termination long_waiting))) 2 of
     None \<Rightarrow> False
   | Some sp \<Rightarrow> sp_early_terminations sp = {||} \<and>
       (case fmlookup (d_partitions (sp_deadlines sp ! 0)) 0 of None \<Rightarrow> False | Some p \<Rightarrow> 4 |\<in>| p_terminated p)"
  by code_simp+

text \<open>
  C35: A successful termination of sectors, by a provider that has no earlier
  terminations waiting to be processed, leaves the market exactly as it was: the
  deals of the terminated sectors stay active, although the terminations have
  been taken off the queue.
\<close>

theorem terminate_sectors_keeps_deals:
  assumes "terminate_sectors cfg now owner terminations s = (Ok (), s')"
    and "fmlookup (sps_providers s) owner = Some sp"
    and "\<forall>d\<in>set (sp_deadlines sp). fmpred (\<lambda>_ p. fmdom (p_early_terminations p) = {||}) (d_partitions d)"
  shows "sps_market s' = sps_market s"
proof -
  obtain sp1 sp' m s1 where t: "fmlookup (sps_providers s) owner = Some sp1"
    "forM (sorted_list_of_fmap m) (terminate_deadline cfg now (map snd (sorted_list_of_fmap (sp_sectors sp1)))) sp1 = (Ok (), sp')"
    "process_early_terminations cfg now owner (s\<lparr>sps_providers := fmupd owner sp' (sps_providers s)\<rparr>) = (Ok (), s1)"
    "s' = s1\<lparr>sps_events := sps_events s1 @ [SectorsTerminated owner terminations]\<rparr>"
    using assms(1) by (rule terminate_sectors_Ok)
  have "provider_recorded_in {now} sp"
    using assms(3) by (auto simp: provider_recorded_in_def deadline_recorded_in_def recorded_in_def fmpred_iff)
  then have start: "provider_recorded_in {now} sp1" using t(1) assms(2) by simp
  have "provider_recorded_in {now} sp'"
    by (rule forM_invariant [OF t(2), of "provider_recorded_in {now}"]) (auto intro: start terminate_deadline_recorded)
  then show ?thesis using process_early_market [OF t(3)] t(4) by simp
qed

theorem terminate_sectors_keeps_deals_witness:
  "let s = snd (terminate_sectors demo_sp_cfg 62 2 demo_termination long_waiting) in
   sps_market s = sps_market long_waiting \<and>
   (\<exists>p. fmlookup (ms_proposals (sps_market s)) 0 = Some p \<and> dp_state p \<noteq> Published \<and> 62 < dp_end_block p) \<and>
   (\<exists>sp p. fmlookup (sps_providers long_waiting) 2 = Some sp \<and> fmlookup (d_partitions (sp_deadlines sp ! 0)) 0 = Some p \<and>
     4 |\<in>| p_sectors p \<and> p_unproven p = {||}) \<and>
   (\<exists>sp p. fmlookup (sps_providers s) 2 = Some sp \<and> fmlookup (d_partitions (sp_deadlines sp ! 0)) 0 = Some p \<and>
     4 |\<in>| p_terminated p \<and> sp_early_terminations sp = {||})"
proof -
  define s where "s = snd (terminate_sectors demo_sp_cfg 62 2 demo_termination long_waiting)"
  have run: "terminate_sectors demo_sp_cfg 62 2 demo_termination long_waiting = (Ok (), s)"
    unfolding s_def by (rule run_eqI [OF long_run])
  obtain sp where sp: "fmlookup (sps_providers long_waiting) 2 = Some sp"
    "\<forall>d\<in>set (sp_deadlines sp). fmpred (\<lambda>_ p. fmdom (p_early_terminations p) = {||}) (d_partitions d)"
    "\<exists>p. fmlookup (d_partitions (sp_deadlines sp ! 0)) 0 = Some p \<and> 4 |\<in>| p_sectors p \<and> p_unproven p = {||}"
    using long_before by (auto split: option.splits)
  have "sps_market s = sps_market long_waiting" by (rule terminate_sectors_keeps_deals [OF run sp(1,2)])
  moreover have "\<exists>p. fmlookup (ms_proposals (sps_market s)) 0 = Some p \<and> dp_state p \<noteq> Published \<and> 62 < dp_end_block p"
    using long_after(1) unfolding s_def by (auto split: option.splits)
  moreover have "\<exists>sp p. fmlookup (sps_providers s) 2 = Some sp \<and> fmlookup (d_partitions (sp_deadlines sp ! 0)) 0 = Some p \<and>
     4 |\<in>| p_terminated p \<and> sp_early_terminations sp = {||}"
    using long_after(2) unfolding s_def by (auto split: option.splits)
  ultimately show ?thesis using sp(1,3) unfolding s_def Let_def by blast
qed

section \<open>Registration\<close>

text \<open>
  C34: Registration succeeds exactly for accounts that are not registered yet, unless the block
  numbers overflow. The new provider has empty books, its first proving period
  starts after the current block and less than two periods later, and the other
  providers and the market are not affected.
\<close>

theorem registration:
  assumes "0 < wp_proving_period (cf_wpost cfg)" "now + 2 * wp_proving_period (cf_wpost cfg) < u64_bound"
  shows "if owner |\<in>| fmdom (sps_providers s)
    then register_storage_provider cfg now owner peer proof_type s = (Err (sperr StorageProviderExists), s)
    else \<exists>start s'. register_storage_provider cfg now owner peer proof_type s = (Ok (), s') \<and>
      now < start \<and> start < now + 2 * wp_proving_period (cf_wpost cfg) \<and>
      sps_providers s' = fmupd owner (sp_state_new (storage_provider_info_new peer proof_type) start 0
        (wp_period_deadlines (cf_wpost cfg))) (sps_providers s) \<and> sps_market s' = sps_market s"
proof (cases "owner |\<in>| fmdom (sps_providers s)")
  case True
  then show ?thesis
    by (simp add: register_storage_provider_def register_storage_provider_body_def transactional_def monad_defs)
next
  case False
  let ?p = "wp_proving_period (cf_wpost cfg)"
  define offset where "offset = u64_from_be_bytes (cf_blake2_64 cfg (cf_encode_account cfg owner @ cf_encode_block cfg now)) mod ?p"
  have off: "offset < ?p" using assms(1) by (simp add: offset_def)
  have q: "now div ?p * ?p \<le> now" "now < now div ?p * ?p + ?p"
    using div_mult_mod_eq [of now ?p] mod_less_divisor [OF assms(1), of now] by linarith+
  define start where "start = (now div ?p + 1) * ?p + offset"
  have start: "now < start" "start < now + 2 * ?p"
    using q off unfolding start_def add_mult_distrib by linarith+
  have "calculate_first_proving_period_start now offset ?p = (Ok start :: (dispatch_error, block) res)"
  proof -
    have "(now div ?p + 1) * ?p < u64_bound" using start(2) assms(2) by (simp add: start_def)
    moreover have "now div ?p + 1 \<le> (now div ?p + 1) * ?p" using assms(1) by (cases ?p) auto
    ultimately show ?thesis
      using assms start(2) by (simp add: calculate_first_proving_period_start_def div_u_def add_u_def mul_u_def start_def)
  qed
  then show ?thesis
    using False start assms(1) offset_def
    by (auto simp: register_storage_provider_def register_storage_provider_body_def transactional_def monad_defs
        assign_proving_period_offset_def set_provider_def sp_deposit_event_def Let_def)
qed

theorem registration_witness:
  "\<exists>start s'. register_storage_provider demo_sp_cfg 4 2 [] StackedDRGWindow2KiBV1P1 (sp_genesis demo_published) = (Ok (), s') \<and>
     4 < start \<and> start < 84 \<and>
     sps_providers s' = fmupd 2 (sp_state_new (storage_provider_info_new [] StackedDRGWindow2KiBV1P1) start 0 4) fmempty"
proof -
  have cfg: "wp_proving_period (cf_wpost demo_sp_cfg) = 40" "wp_period_deadlines (cf_wpost demo_sp_cfg) = 4"
    by (simp_all add: demo_sp_cfg_def)
  have "0 < wp_proving_period (cf_wpost demo_sp_cfg)" "4 + 2 * wp_proving_period (cf_wpost demo_sp_cfg) < u64_bound"
    by (simp_all add: cfg u64_bound_def)
  from registration [OF this, of 2 "sp_genesis demo_published" "[]" StackedDRGWindow2KiBV1P1]
  show ?thesis by (simp add: sp_genesis_def cfg) blast
qed

section \<open>Pre-commitment\<close>

lemma put_same_sector:
  assumes "forM xs put_pre_committed_sector sp = (Ok u, sp')" "xs \<noteq> []" "\<forall>x\<in>set xs. pc_sector_number (poc_info x) = n"
  shows "sp' = sp\<lparr>sp_pre_committed_sectors := fmupd n (last xs) (sp_pre_committed_sectors sp)\<rparr>"
  using assms
proof (induction xs arbitrary: sp)
  case (Cons x xs)
  have rest: "forM xs put_pre_committed_sector
      (sp\<lparr>sp_pre_committed_sectors := fmupd n x (sp_pre_committed_sectors sp)\<rparr>) = (Ok u, sp')"
    using Cons.prems(1,3) by (auto simp: bindM_Ok_iff put_pre_committed_sector_Ok_iff)
  show ?case
  proof (cases "xs = []")
    case True
    then show ?thesis using rest by (simp add: ok_iff)
  next
    case False
    then show ?thesis using Cons.IH [OF rest False] Cons.prems(3) by simp
  qed
qed simp

lemma sum_list_const: "\<forall>x\<in>set xs. f x = (c :: nat) \<Longrightarrow> sum_list (map f xs) = length xs * c"
  by (induction xs) auto

text \<open>
  A batch may name a sector twice: pre-committing the same sector several times
  in one call reserves and records a deposit for each mention, but stores a
  single pre-commitment with a single deposit. The surplus is never slashed.
\<close>

theorem repeated_sector_pays_twice:
  assumes "pre_commit_sectors cfg now owner (replicate (Suc k) sector) s = (Ok (), s')"
    and "fmlookup (sps_providers s) owner = Some sp"
  shows "\<exists>sp'. fmlookup (sps_providers s') owner = Some sp' \<and>
    cu_reserve (mc_currency (cf_market cfg)) owner (Suc k * calculate_pre_commit_deposit) (ms_currency (sps_market s)) =
      Ok (ms_currency (sps_market s')) \<and>
    sp_pre_commit_deposits sp' = sp_pre_commit_deposits sp + Suc k * calculate_pre_commit_deposit \<and>
    fmdom (sp_pre_committed_sectors sp') = finsert (pc_sector_number sector) (fmdom (sp_pre_committed_sectors sp)) \<and>
    count_over poc_pre_commit_deposit (sp_pre_committed_sectors sp') =
      count_over poc_pre_commit_deposit (sp_pre_committed_sectors sp) + calculate_pre_commit_deposit"
proof -
  let ?n = "pc_sector_number sector"
  obtain checked amount sp' where run: "pre_commit_loop cfg now sp (replicate (Suc k) sector) = Ok checked"
    "total_deposits (map fst checked) 0 = (Ok amount :: (dispatch_error, _) res)"
    "forM (map fst checked) put_pre_committed_sector (sp\<lparr>sp_pre_commit_deposits := sp_pre_commit_deposits sp + amount\<rparr>) = (Ok (), sp')"
    "sps_providers s' = fmupd owner sp' (sps_providers s)"
    "cu_reserve (mc_currency (cf_market cfg)) owner amount (ms_currency (sps_market s)) = Ok (ms_currency (sps_market s'))"
    using assms by (auto elim: pre_commit_sectors_Ok)
  note loop = pre_commit_loop_Ok [OF run(1)]
  have len: "length checked = Suc k" using arg_cong [OF conjunct1 [OF loop], of length] by simp
  then have ne: "checked \<noteq> []" by auto
  have info: "poc_info (fst x) = sector" if "x \<in> set checked" for x
    using that arg_cong [OF conjunct1 [OF loop], of set] by auto
  have amount: "amount = Suc k * calculate_pre_commit_deposit"
    using total_deposits_sum [OF run(2)] sum_list_const [of "map fst checked" poc_pre_commit_deposit calculate_pre_commit_deposit]
      loop len by simp
  have sp': "sp' = sp\<lparr>sp_pre_commit_deposits := sp_pre_commit_deposits sp + amount,
      sp_pre_committed_sectors := fmupd ?n (last (map fst checked)) (sp_pre_committed_sectors sp)\<rparr>"
    using put_same_sector [OF run(3), of ?n] ne info by (auto simp: image_iff)
  have "last (map fst checked) \<in> fst ` set checked" using ne by (simp add: last_map)
  then have "poc_pre_commit_deposit (last (map fst checked)) = calculate_pre_commit_deposit" using loop by auto
  moreover have "fmlookup (sp_pre_committed_sectors sp) ?n = None" using loop by (auto simp: fmlookup_dom_iff)
  ultimately show ?thesis
    using run(4,5) amount sp' count_over_fmupd_new [of "sp_pre_committed_sectors sp" ?n] by auto
qed

theorem repeated_sector_pays_twice_witness:
  "\<exists>sp. fmlookup (sps_providers (snd (pre_commit_sectors demo_sp_cfg 6 2 (replicate (Suc 1) (demo_pre_commit 4 [])) demo_registered))) 2 = Some sp \<and>
    sp_pre_commit_deposits sp = 2 \<and> fmdom (sp_pre_committed_sectors sp) = {|4|}"
proof -
  have "fst (pre_commit_sectors demo_sp_cfg 6 2 (replicate (Suc 1) (demo_pre_commit 4 [])) demo_registered) = Ok ()" by code_simp
  note run = run_eqI [OF this]
  have "(case fmlookup (sps_providers demo_registered) 2 of None \<Rightarrow> False
      | Some sp \<Rightarrow> sp_pre_commit_deposits sp = 0 \<and> fmdom (sp_pre_committed_sectors sp) = {||})" by code_simp
  then obtain sp where sp: "fmlookup (sps_providers demo_registered) 2 = Some sp" "sp_pre_commit_deposits sp = 0"
    "fmdom (sp_pre_committed_sectors sp) = {||}" by (auto split: option.splits)
  show ?thesis
    using repeated_sector_pays_twice [OF run sp(1)] sp(2,3) by (auto simp: calculate_pre_commit_deposit_def demo_pre_commit_def)
qed

section \<open>Expired pre-commitments\<close>

text \<open>
  The clean-up of expired pre-commitments stops at the first provider that has
  none: nothing is slashed then for the providers that come later.
\<close>

theorem clean_up_stops_early:
  assumes "cf_iter_keys cfg (fmdom (sps_providers s)) = who # others" "fmlookup (sps_providers s) who = Some sp"
    and "fmpred (\<lambda>_ x. now < pc_expiration (poc_info x)) (sp_pre_committed_sectors sp)"
  shows "check_precommited_sectors cfg now s = (Ok (), s)"
proof -
  have "fold (detect_expired now) L ([], 0) = ([], 0)" if "\<forall>(n, x)\<in>set L. now < pc_expiration (poc_info x)" for L
    using that by (induction L) (auto simp: detect_expired_def)
  moreover have "\<forall>(n, x)\<in>set (sorted_list_of_fmap (sp_pre_committed_sectors sp)). now < pc_expiration (poc_info x)"
    using assms(3) by (auto simp: fmpred_iff)
  ultimately have "detect_expired_precommit_sectors now sp = ([], 0)"
    unfolding detect_expired_precommit_sectors_def by blast
  then show ?thesis using assms(1,2) by (simp add: check_precommited_sectors_def monad_defs)
qed

definition demo_neglected :: "(account \<Rightarrow> nat) sp_pallet" where
  "demo_neglected = snd (register_storage_provider demo_sp_cfg 7 1 [] StackedDRGWindow2KiBV1P1 demo_committed)"

theorem clean_up_stops_early_witness:
  "check_precommited_sectors demo_sp_cfg 200 demo_neglected = (Ok (), demo_neglected) \<and>
   (\<exists>sp. fmlookup (sps_providers demo_neglected) 2 = Some sp \<and>
     fst (detect_expired_precommit_sectors 200 sp) = [4])"
proof -
  have keys: "cf_iter_keys demo_sp_cfg (fmdom (sps_providers demo_neglected)) = [1, 2]" by code_simp
  have "(case fmlookup (sps_providers demo_neglected) 1 of None \<Rightarrow> False
      | Some sp \<Rightarrow> fmpred (\<lambda>_ x. 200 < pc_expiration (poc_info x)) (sp_pre_committed_sectors sp))" by code_simp
  then obtain sp where sp: "fmlookup (sps_providers demo_neglected) 1 = Some sp"
    "fmpred (\<lambda>_ x. 200 < pc_expiration (poc_info x)) (sp_pre_committed_sectors sp)" by (auto split: option.splits)
  have "(case fmlookup (sps_providers demo_neglected) 2 of None \<Rightarrow> False
      | Some sp \<Rightarrow> fst (detect_expired_precommit_sectors 200 sp) = [4])" by code_simp
  then show ?thesis using clean_up_stops_early [OF keys sp] by (auto split: option.splits)
qed

section \<open>Proofs of space-time\<close>

text \<open>The replica commitment of an active sector, as the pallet reads it.\<close>

definition replica_of :: "'c sp_config \<Rightarrow> sector_table \<Rightarrow> sector_number \<Rightarrow> bytes option" where
  "replica_of cfg tbl n =
    (case fmlookup tbl n of None \<Rightarrow> None
     | Some info \<Rightarrow> (case from_cid_bytes (mc_cid_try_from (cf_market cfg)) CommR (si_sealed_cid info) of
         Ok c \<Rightarrow> Some c | _ \<Rightarrow> None))"

lemma add_replica_Ok:
  "add_replica cfg sp n R = Ok R' \<Longrightarrow> \<exists>c. replica_of cfg (sp_sectors sp) n = Some c \<and> R' = fmupd n c R"
  unfolding add_replica_def replica_of_def res_bind_Ok_iff expect_Ok_iff
  by (elim exE conjE) (auto simp: ok_iff split: res.split_asm)

lemma add_replicas_Ok:
  "add_replicas cfg sp ns R = Ok R' \<Longrightarrow>
   (\<forall>n\<in>set ns. replica_of cfg (sp_sectors sp) n \<noteq> None) \<and>
   (\<forall>n. fmlookup R' n = (if n \<in> set ns then replica_of cfg (sp_sectors sp) n else fmlookup R n))"
  by (induction ns arbitrary: R) (fastforce simp: ok_iff dest!: add_replica_Ok)+

definition in_partitions :: "deadline \<Rightarrow> partition_number list \<Rightarrow> sector_number \<Rightarrow> bool" where
  "in_partitions d ns n \<longleftrightarrow> (\<exists>k\<in>set ns. \<exists>S. layout d k = Some S \<and> n |\<in>| S)"

lemma collect_replicas_Ok:
  assumes "collect_replicas cfg sp d ns R = Ok R'"
  shows "(\<forall>n. in_partitions d ns n \<longrightarrow> replica_of cfg (sp_sectors sp) n \<noteq> None) \<and>
    (\<forall>n. fmlookup R' n = (if in_partitions d ns n then replica_of cfg (sp_sectors sp) n else fmlookup R n))"
  using assms
proof (induction ns arbitrary: R)
  case (Cons k ns)
  obtain p R1 where p: "fmlookup (d_partitions d) k = Some p"
    "add_replicas cfg sp (sorted_list_of_fset (p_sectors p)) R = Ok R1" "collect_replicas cfg sp d ns R1 = Ok R'"
    using Cons.prems by (auto simp: ok_iff)
  have "in_partitions d (k # ns) n \<longleftrightarrow> n |\<in>| p_sectors p \<or> in_partitions d ns n" for n
    using p(1) by (auto simp: in_partitions_def layout_def)
  moreover have "set (sorted_list_of_fset (p_sectors p)) = fset (p_sectors p)" by (simp add: sorted_list_of_fset.rep_eq)
  ultimately show ?case using add_replicas_Ok [OF p(2)] Cons.IH [OF p(3)] by auto
qed (simp add: in_partitions_def)

lemma keeps_posted_at_partition: "keeps d_partitions_posted (at_partition n f)"
  by (auto simp: keeps_def at_partition_def split: option.split prod.split)

lemma record_proven_posted:
  assumes "deadline_record_proven tbl ns d = (Ok u, d')"
  shows "d_partitions_posted d' = d_partitions_posted d |\<union>| fset_of_list ns"
  using assms unfolding deadline_record_proven_def
proof (induction ns arbitrary: d)
  case (Cons n ns)
  then obtain d1 where d1: "record_proven_partition tbl n d = (Ok (), d1)" "forM ns (record_proven_partition tbl) d1 = (Ok u, d')"
    by (auto simp: ok_iff)
  obtain a b where ab: "at_partition n (retM ()) d = (Ok (), a)"
    "at_partition n (recover_all_declared_recoveries tbl) (a\<lparr>d_partitions_posted := finsert n (d_partitions_posted a)\<rparr>) = (Ok (), b)"
    "at_partition n (modifyM activate_unproven) b = (Ok (), d1)"
    using d1(1) unfolding record_proven_partition_def bindM_Ok_iff ensureM_Ok_iff zoomM_Ok_iff insert_setM_Ok_iff by auto
  note keep = keepsD [OF keeps_posted_at_partition]
  have "d_partitions_posted d1 = finsert n (d_partitions_posted d)"
    using keep [OF ab(1)] keep [OF ab(2)] keep [OF ab(3)] by simp
  then show ?case using Cons.IH [OF d1(2)] by auto
qed (simp add: ok_iff)

text \<open>
  C6: A proof is accepted only while its deadline is the current, open one, and only if it verifies
  against the randomness of the challenge block of that deadline and the
  replicas of exactly the sectors in the partitions that it names; each of these
  partitions is then recorded as proven.
\<close>

theorem accepted_post_was_verified:
  assumes "submit_windowed_post cfg now owner post s = (Ok (), s')" "fmlookup (sps_providers s) owner = Some sp"
  shows "\<exists>dl randomness replicas sp'. sp_deadline_info (cf_wpost cfg) now sp = Ok dl \<and> is_open dl \<and>
    swp_deadline post = di_idx dl \<and>
    get_randomness cfg WindowedPoStChallengeSeed (di_challenge dl) (cf_encode_account cfg owner) = Ok randomness \<and>
    cf_verify_post cfg (spi_window_post_proof_type (sp_info sp)) randomness replicas (pp_proof_bytes (swp_proof post)) = Ok () \<and>
    (\<forall>n. fmlookup replicas n = (if in_partitions (sp_deadlines sp ! swp_deadline post) (swp_partitions post) n
      then replica_of cfg (sp_sectors sp) n else None)) \<and>
    fmlookup (sps_providers s') owner = Some sp' \<and>
    fset_of_list (swp_partitions post) |\<subseteq>| d_partitions_posted (sp_deadlines sp' ! swp_deadline post)"
proof -
  obtain dl sp' R randomness where run: "pp_post_proof (swp_proof post) = spi_window_post_proof_type (sp_info sp)"
    "sp_deadline_info (cf_wpost cfg) now sp = Ok dl" "validate_deadline dl post = Ok ()"
    "deadlinesM (deadlines_record_proven (swp_deadline post) (sp_sectors sp) (swp_partitions post)) sp = (Ok (), sp')"
    and R: "(if swp_partitions post = [] then Ok fmempty
      else if swp_deadline post < length (sp_deadlines sp')
      then map_err sperr (collect_replicas cfg sp' (sp_deadlines sp' ! swp_deadline post) (swp_partitions post) fmempty)
      else Panic) = Ok R"
    and v: "get_randomness cfg WindowedPoStChallengeSeed (di_challenge dl) (cf_encode_account cfg owner) = Ok randomness"
    "cf_verify_post cfg (pp_post_proof (swp_proof post)) randomness R (pp_proof_bytes (swp_proof post)) = Ok ()"
    "fmlookup (sps_providers s') owner = Some sp'"
    using assms unfolding submit_windowed_post_def submit_windowed_post_body_def transactional_Ok_iff
    by (auto simp: bindM_Ok_iff liftM_Ok_iff ensure_Ok_iff map_err_Ok_iff pallet_ops_Ok_iff simp del: if_split_asm)
  let ?i = "swp_deadline post"
  obtain d where d: "?i < length (sp_deadlines sp)"
    "deadline_record_proven (sp_sectors sp) (swp_partitions post) (sp_deadlines sp ! ?i) = (Ok (), d)"
    "sp' = sp\<lparr>sp_deadlines := (sp_deadlines sp)[?i := d]\<rparr>"
    using run(4) by (auto simp: deadlines_record_proven_def deadlinesM_Ok_iff load_deadline_mut_Ok_iff)
  have "layout d = layout (sp_deadlines sp ! ?i)" by (rule keepsD [OF keeps_layout_quiet(1) d(2)])
  then have "in_partitions (sp_deadlines sp' ! ?i) = in_partitions (sp_deadlines sp ! ?i)"
    using d(1,3) by (simp add: in_partitions_def fun_eq_iff)
  then have "\<forall>n. fmlookup R n = (if in_partitions (sp_deadlines sp ! ?i) (swp_partitions post) n
      then replica_of cfg (sp_sectors sp) n else None)"
    using R collect_replicas_Ok [of cfg sp' "sp_deadlines sp' ! ?i" "swp_partitions post" fmempty R] d(3)
    by (auto simp: in_partitions_def map_err_Ok_iff split: if_splits)
  moreover have "fset_of_list (swp_partitions post) |\<subseteq>| d_partitions_posted (sp_deadlines sp' ! ?i)"
    using record_proven_posted [OF d(2)] d(1,3) by auto
  moreover have "is_open dl" "?i = di_idx dl" using run(3) by (auto simp: validate_deadline_def ok_iff)
  ultimately show ?thesis using run(1,2) v by auto
qed

theorem accepted_post_was_verified_witness:
  "\<exists>sp'. fmlookup (sps_providers (snd (submit_windowed_post demo_sp_cfg 45 2 demo_post demo_proven))) 2 = Some sp' \<and>
    0 |\<in>| d_partitions_posted (sp_deadlines sp' ! 0)"
proof -
  have "fst (submit_windowed_post demo_sp_cfg 45 2 demo_post demo_proven) = Ok ()" by code_simp
  note run = run_eqI [OF this]
  have "(case fmlookup (sps_providers demo_proven) 2 of None \<Rightarrow> False | Some sp \<Rightarrow> True)" by code_simp
  then obtain sp where "fmlookup (sps_providers demo_proven) 2 = Some sp" by (auto split: option.splits)
  from accepted_post_was_verified [OF run this] show ?thesis by (auto simp: demo_post_def)
qed

end
