(* ===== verification/Randomness_Claims.thy ===== *)
theory Randomness_Claims
  imports Randomness
begin

text \<open>
  What the randomness is good for: challenge seeds and prover identifiers are
  elements of the scalar field, and the history is a window over the last
  blocks, as long as every block brings its randomness.
\<close>

unbundle bit_operations_syntax

section \<open>Field elements\<close>

text \<open>The order of the scalar field of BLS12-381, and the number that 32 bytes encode, least significant first.\<close>

definition scalar_modulus :: nat where
  "scalar_modulus = 0x73eda753299d7d483339d80809a1d80553bda402fffe5bfeffffffff00000001"

fun le_value :: "bytes \<Rightarrow> nat" where
  "le_value [] = 0"
| "le_value (b # bs) = unat b + 256 * le_value bs"

lemma le_value_append: "le_value (xs @ ys) = le_value xs + 256 ^ length xs * le_value ys"
  by (induction xs) (simp_all add: algebra_simps)

lemma unat_byte: "unat (b :: 8 word) < 256"
  using unsigned_less [of b] by simp

lemma le_value_less: "le_value bs < 256 ^ length bs"
proof (induction bs)
  case (Cons b bs)
  have "unat b + 256 * le_value bs < 256 + 256 * le_value bs" using unat_byte by simp
  also have "\<dots> \<le> 256 * 256 ^ length bs" using Cons.IH by simp
  finally show ?case by simp
qed simp

lemma unat_mask6: "unat (b AND 0x3f :: 8 word) < 64"
proof -
  have "b AND 0x3f = take_bit 6 b" by (simp add: take_bit_eq_mask mask_eq_exp_minus_1)
  then have "unat (b AND 0x3f) = take_bit 6 (unat b)" by (simp add: unsigned_take_bit_eq)
  then show ?thesis using take_bit_nat_less_exp [of 6 "unat b"] by simp
qed

lemma mask_last_field:
  assumes "length hashed = 32"
  shows "length (mask_last hashed) = 32" "le_value (mask_last hashed) < scalar_modulus"
proof -
  show "length (mask_last hashed) = 32" using assms by (simp add: mask_last_def)
  obtain xs b where h: "hashed = xs @ [b]" "length xs = 31"
    using assms by (cases hashed rule: rev_cases) auto
  then have "mask_last hashed = xs @ [b AND 0x3f]" by (simp add: mask_last_def list_update_append nth_append)
  then have "le_value (mask_last hashed) = le_value xs + 256 ^ 31 * unat (b AND 0x3f)"
    using h(2) by (simp add: le_value_append)
  moreover have "unat (b AND 0x3f) \<le> 63" using unat_mask6 [of b] by simp
  then have "256 ^ 31 * unat (b AND 0x3f) \<le> 256 ^ 31 * (63 :: nat)" by (rule mult_le_mono2)
  moreover have "le_value xs < 256 ^ 31" using le_value_less [of xs] h(2) by simp
  ultimately have "le_value (mask_last hashed) < 256 ^ 31 * 64" by simp
  also have "256 ^ 31 * 64 < scalar_modulus" by (simp add: scalar_modulus_def)
  finally show "le_value (mask_last hashed) < scalar_modulus" .
qed

text \<open>
  C19: Whatever the inputs are, drawn randomness and prover identifiers are 32 bytes
  that encode an element of the scalar field of BLS12-381, provided that the
  hash has 32 bytes.
\<close>

theorem randomness_is_field_element:
  assumes "\<And>data. length (blake2_256 data) = 32"
  shows "length (draw_randomness blake2_256 rbase pers n entropy) = 32 \<and>
    le_value (draw_randomness blake2_256 rbase pers n entropy) < scalar_modulus \<and>
    length (derive_prover_id blake2_256 encoded) = 32 \<and> le_value (derive_prover_id blake2_256 encoded) < scalar_modulus"
  using mask_last_field [OF assms] by (simp add: draw_randomness_def derive_prover_id_def)

theorem randomness_is_field_element_witness:
  "le_value (draw_randomness (\<lambda>_. replicate 32 0xff) [] SealRandomness 7 []) < scalar_modulus \<and>
   \<not> le_value (replicate 32 0xff) < scalar_modulus"
proof -
  have "le_value (draw_randomness (\<lambda>_. replicate 32 0xff) [] SealRandomness 7 []) < scalar_modulus"
    using randomness_is_field_element [of "\<lambda>_. replicate 32 0xff" "[]" SealRandomness 7 "[]" "[]"] by simp
  moreover have "\<not> le_value (replicate 32 0xff) < scalar_modulus" by code_simp
  ultimately show ?thesis by blast
qed

section \<open>The window of the history\<close>

abbreviation history :: "randomness_state \<Rightarrow> (block, bytes) fmap" where
  "history \<equiv> rs_author_vrf_history"

lemma run_blocks_append:
  "run_blocks (xs @ ys) n = bindM (run_blocks xs n) (\<lambda>_. run_blocks ys (n + length xs))"
  by (induction xs arbitrary: n) (auto simp: monad_defs fun_eq_iff split: prod.splits res.splits)

lemma run_blocks_window:
  assumes "history s = fmempty"
  shows "\<exists>s'. run_blocks (map Some vs) 1 s = (Ok () :: ('e, unit) res, s') \<and>
    (\<forall>k. fmlookup (history s') k = (if length vs - HISTORY_SIZE < k \<and> k \<le> length vs then Some (vs ! (k - 1)) else None))"
proof (induction vs rule: rev_induct)
  case Nil
  then show ?case using assms by (auto simp: monad_defs)
next
  case (snoc v vs)
  let ?l = "length vs"
  obtain s1 where s1: "run_blocks (map Some vs) 1 s = (Ok () :: ('e, unit) res, s1)"
    "\<forall>k. fmlookup (history s1) k = (if ?l - HISTORY_SIZE < k \<and> k \<le> ?l then Some (vs ! (k - 1)) else None)"
    using snoc.IH by blast
  let ?H = "fmdom (history s1)"
  have "fset ?H = {?l - HISTORY_SIZE<..?l}" using s1(2) by (auto simp: fmlookup_dom_iff split: if_splits)
  then have card: "fcard ?H = min ?l HISTORY_SIZE" by (simp add: fcard.rep_eq)
  have run: "run_blocks (map Some (vs @ [v])) 1 s =
      bindM (set_author_vrf (Some v) (?l + 1)) (\<lambda>_. retM () :: (randomness_state, 'e, unit) stM) s1"
    using s1(1) by (simp add: run_blocks_append bindM_def)
  let ?h = "if fcard ?H = HISTORY_SIZE then fmdrop (?l + 1 - HISTORY_SIZE) (history s1) else history s1"
  have "set_author_vrf (Some v) (?l + 1) s1 =
    (Ok () :: ('e, unit) res, s1\<lparr>rs_author_vrf := v, rs_author_vrf_history := fmupd (?l + 1) v ?h\<rparr>)"
    by (rule set_author_vrf_Some) (use card in \<open>auto simp: min_def split: if_splits\<close>)
  then have run: "run_blocks (map Some (vs @ [v])) 1 s =
    (Ok () :: ('e, unit) res, s1\<lparr>rs_author_vrf := v, rs_author_vrf_history := fmupd (?l + 1) v ?h\<rparr>)"
    unfolding run bindM_def retM_def by (simp only: prod.case res.case)
  let ?s = "s1\<lparr>rs_author_vrf := v, rs_author_vrf_history := fmupd (?l + 1) v ?h\<rparr>"
  have "fmlookup (history ?s) k =
      (if length (vs @ [v]) - HISTORY_SIZE < k \<and> k \<le> length (vs @ [v]) then Some ((vs @ [v]) ! (k - 1)) else None)" for k
    using s1(2) [rule_format, of k] card by (auto simp: nth_append min_def HISTORY_SIZE_def split: if_splits)
  then show ?case using run by (intro exI [of _ ?s]) blast
qed

text \<open>
  C21: While every block brings its randomness, the history holds exactly the
  randomness of the last 256 blocks, each under its own block number.
\<close>

theorem history_is_window:
  "\<exists>s'. run_blocks (map Some vs) 1 \<lparr> rs_author_vrf = v0, rs_author_vrf_history = fmempty \<rparr> = (Ok () :: (dispatch_error, unit) res, s') \<and>
    (\<forall>k. author_vrf_history k s' = (if length vs - HISTORY_SIZE < k \<and> k \<le> length vs then Some (vs ! (k - 1)) else None))"
  using run_blocks_window [of "\<lparr> rs_author_vrf = v0, rs_author_vrf_history = fmempty \<rparr>" vs]
  by (simp add: author_vrf_history_def)

lemma run_blocks_grow:
  assumes "\<forall>k\<in>fset (fmdom (history s)). k < n" "HISTORY_SIZE < fcard (fmdom (history s))"
  shows "\<exists>s'. run_blocks (map Some vs) n s = (Ok () :: ('e, unit) res, s') \<and>
    fcard (fmdom (history s')) = fcard (fmdom (history s)) + length vs \<and> fmdom (history s) |\<subseteq>| fmdom (history s')"
  using assms
proof (induction vs arbitrary: n s)
  case Nil
  then show ?case by (simp add: monad_defs)
next
  case (Cons v vs)
  let ?s = "s\<lparr>rs_author_vrf := v, rs_author_vrf_history := fmupd n v (history s)\<rparr>"
  have step: "set_author_vrf (Some v) n s = (Ok (), ?s)"
    using set_author_vrf_Some [OF refl, of s n v] Cons.prems(2) by simp
  have new: "n |\<notin>| fmdom (history s)" using Cons.prems(1) by auto
  then have card: "fcard (fmdom (history ?s)) = fcard (fmdom (history s)) + 1" by (simp add: fcard_finsert_disjoint)
  have "\<exists>s'. run_blocks (map Some vs) (n + 1) ?s = (Ok () :: ('e, unit) res, s') \<and>
      fcard (fmdom (history s')) = fcard (fmdom (history ?s)) + length vs \<and> fmdom (history ?s) |\<subseteq>| fmdom (history s')"
    by (rule Cons.IH) (use Cons.prems card in \<open>auto intro: less_SucI\<close>)
  then show ?case using card by (auto simp: step bindM_def)
qed

text \<open>
  A single block without randomness breaks the eviction for ever: when the
  history is full and the block that falls out of the window has no entry, the
  history exceeds its size by one, and from then on every block adds an entry
  and none is removed.
\<close>

theorem gap_stops_eviction:
  assumes "fcard (fmdom (history s)) = HISTORY_SIZE" "HISTORY_SIZE \<le> n" "n - HISTORY_SIZE |\<notin>| fmdom (history s)"
    and "\<forall>k\<in>fset (fmdom (history s)). k < n"
  shows "\<exists>s'. run_blocks (map Some (v # vs)) n s = (Ok () :: (dispatch_error, unit) res, s') \<and>
    fcard (fmdom (history s')) = HISTORY_SIZE + 1 + length vs \<and> fmdom (history s) |\<subseteq>| fmdom (history s')"
proof -
  let ?s = "s\<lparr>rs_author_vrf := v, rs_author_vrf_history := fmupd n v (history s)\<rparr>"
  have "fmdrop (n - HISTORY_SIZE) (history s) = history s" using assms(3) by (intro fmap_ext) (auto simp: fmlookup_dom_iff)
  then have step: "set_author_vrf (Some v) n s = (Ok (), ?s)"
    using set_author_vrf_Some [OF refl, of s n v] assms(1,2) by simp
  have "n |\<notin>| fmdom (history s)" using assms(4) by auto
  then have card: "fcard (fmdom (history ?s)) = HISTORY_SIZE + 1" using assms(1) by (simp add: fcard_finsert_disjoint)
  have "\<exists>s'. run_blocks (map Some vs) (n + 1) ?s = (Ok () :: (dispatch_error, unit) res, s') \<and>
      fcard (fmdom (history s')) = fcard (fmdom (history ?s)) + length vs \<and> fmdom (history ?s) |\<subseteq>| fmdom (history s')"
    by (rule run_blocks_grow) (use assms(4) card in \<open>auto intro: less_SucI\<close>)
  then show ?thesis using card by (auto simp: step bindM_def)
qed

text \<open>A history of 266 blocks of which ten, the blocks 2 to 11, had no randomness.\<close>

definition gap_history :: randomness_state where
  "gap_history = \<lparr> rs_author_vrf = [], rs_author_vrf_history = fmap_of_list (map (\<lambda>k. (k, [])) (1 # [12..<267])) \<rparr>"

lemma fmdom_gap_history: "fset (fmdom (history gap_history)) = insert 1 {12..<267}"
  by (simp add: gap_history_def comp_def fset_of_list.rep_eq del: upt_rec_numeral)

theorem gap_stops_eviction_witness:
  "\<exists>s'. run_blocks (map Some ([] # replicate 999 [])) 267 gap_history = (Ok () :: (dispatch_error, unit) res, s') \<and>
    fcard (fmdom (history s')) = 1256"
proof -
  have card: "fcard (fmdom (history gap_history)) = HISTORY_SIZE"
    unfolding fcard.rep_eq fmdom_gap_history by (simp add: HISTORY_SIZE_def)
  have size: "HISTORY_SIZE \<le> 267" by (simp add: HISTORY_SIZE_def)
  have "(267 :: nat) - HISTORY_SIZE |\<notin>| fmdom (history gap_history)" "\<forall>k\<in>fset (fmdom (history gap_history)). k < 267"
    unfolding fmdom_gap_history by (simp_all add: HISTORY_SIZE_def)
  from gap_stops_eviction [OF card size this, of "[]" "replicate 999 []"] show ?thesis
    by (auto simp: HISTORY_SIZE_def)
qed

end
