(* ===== verification/Spec2Isabelle.thy ===== *)
theory Spec2Isabelle
  imports Blockstore_Claims LocalIndex_Checks Deadline_Claims DeadlineInfo_Claims Commitment_Claims Assignment_Claims Market_Claims StorageProviderPallet_Claims Randomness_Claims
begin

text \<open>
  The storage-provider pallet: expiration queues, partitions and deadlines.
\<close>

end
